(* ===== verification/Astrid_Prelude.thy ===== *)
theory Astrid_Prelude
  imports Main "HOL-Library.Word"
begin

text \<open>
  Shared vocabulary of the development.

  Rust strings are modelled as HOL strings, read as the UTF-8 bytes of the Rust value: \<open>str::len\<close>
  is \<^const>\<open>length\<close>, and every character class the code tests for is ASCII, so a byte of a
  multi-byte character fails the same tests its character fails.  \<open>Result<T, E>\<close> is the sum type
  with \<^const>\<open>Inl\<close> for the error; \<open>for x in xs { f(x)?; }\<close> is \<open>try_each\<close> and
  \<open>xs.iter().map(f).collect::<Result<Vec<_>, _>>()\<close> is \<open>try_collect\<close>.
\<close>

section \<open>Types and collections of facts\<close>

type_synonym u8 = "8 word"
type_synonym u16 = "16 word"
type_synonym u32 = "32 word"
type_synonym u64 = "64 word"
type_synonym ('e, 'a) result = "'e + 'a"

named_theorems result_simps \<open>elimination of the error monad\<close>
named_theorems ascii_defs \<open>ASCII character classes\<close>

section \<open>Results\<close>

definition and_then :: "('e, 'a) result \<Rightarrow> ('a \<Rightarrow> ('e, 'b) result) \<Rightarrow> ('e, 'b) result" where
  "and_then r f = (case r of Inl e \<Rightarrow> Inl e | Inr x \<Rightarrow> f x)"

definition map_err :: "('e \<Rightarrow> 'f) \<Rightarrow> ('e, 'a) result \<Rightarrow> ('f, 'a) result" where
  "map_err g r = (case r of Inl e \<Rightarrow> Inl (g e) | Inr x \<Rightarrow> Inr x)"

definition is_ok :: "('e, 'a) result \<Rightarrow> bool" where
  "is_ok r = (case r of Inl _ \<Rightarrow> False | Inr _ \<Rightarrow> True)"

fun try_each :: "('a \<Rightarrow> ('e, unit) result) \<Rightarrow> 'a list \<Rightarrow> ('e, unit) result" where
  "try_each f [] = Inr ()"
| "try_each f (x # xs) = (case f x of Inl e \<Rightarrow> Inl e | Inr _ \<Rightarrow> try_each f xs)"

fun try_collect :: "('a \<Rightarrow> ('e, 'b) result) \<Rightarrow> 'a list \<Rightarrow> ('e, 'b list) result" where
  "try_collect f [] = Inr []"
| "try_collect f (x # xs) =
     (case f x of Inl e \<Rightarrow> Inl e
      | Inr y \<Rightarrow> (case try_collect f xs of Inl e \<Rightarrow> Inl e | Inr ys \<Rightarrow> Inr (y # ys)))"

lemma and_then_simps [simp]:
  "and_then (Inl e) f = Inl e"
  "and_then (Inr x) f = f x"
  by (simp_all add: and_then_def)

lemma map_err_simps [simp]:
  "map_err g (Inl e) = Inl (g e)"
  "map_err g (Inr x) = Inr x"
  by (simp_all add: map_err_def)

lemma is_ok_simps [simp]:
  "is_ok (Inl e) = False"
  "is_ok (Inr x) = True"
  by (simp_all add: is_ok_def)

lemma and_then_Inr_iff [result_simps]:
  "and_then r f = Inr y \<longleftrightarrow> (\<exists>x. r = Inr x \<and> f x = Inr y)"
  by (cases r) auto

lemma map_err_Inr_iff [result_simps]: "map_err g r = Inr x \<longleftrightarrow> r = Inr x"
  by (cases r) auto

lemma is_ok_iff: "is_ok r \<longleftrightarrow> (\<exists>x. r = Inr x)"
  by (cases r) auto

lemma not_ok_iff: "\<not> is_ok r \<longleftrightarrow> (\<exists>e. r = Inl e)"
  by (cases r) auto

lemma is_ok_map_err [simp]: "is_ok (map_err g r) = is_ok r"
  by (cases r) auto

lemma try_each_Inr_iff [result_simps]:
  "try_each f xs = Inr u \<longleftrightarrow> (\<forall>x \<in> set xs. f x = Inr ())"
  by (induction xs) (auto split: sum.splits)

lemma try_each_Inl:
  "try_each f xs = Inl e \<Longrightarrow> \<exists>x \<in> set xs. f x = Inl e"
  by (induction xs) (auto split: sum.splits)

lemma is_ok_try_each [result_simps]:
  "is_ok (try_each f xs) \<longleftrightarrow> (\<forall>x \<in> set xs. is_ok (f x))"
  by (induction xs) (auto split: sum.splits)

lemma try_collect_Inr_iff [result_simps]:
  "try_collect f xs = Inr ys \<longleftrightarrow> list_all2 (\<lambda>x y. f x = Inr y) xs ys"
proof (induction xs arbitrary: ys)
  case (Cons x xs)
  show ?case
    by (cases ys) (auto simp: Cons.IH [symmetric] split: sum.splits)
qed auto

lemma is_ok_try_collect [result_simps]:
  "is_ok (try_collect f xs) \<longleftrightarrow> (\<forall>x \<in> set xs. is_ok (f x))"
  by (induction xs) (auto split: sum.splits)

text \<open>A validating constructor that keeps its argument collects to a plain \<^const>\<open>map\<close>.\<close>

lemma try_collect_wrap:
  assumes "\<And>x y. f x = Inr y \<longleftrightarrow> is_ok (v x) \<and> y = C x"
  shows "try_collect f xs = Inr ys \<longleftrightarrow> (\<forall>x \<in> set xs. is_ok (v x)) \<and> ys = map C xs"
  by (simp add: try_collect_Inr_iff assms)
     (induction xs arbitrary: ys; auto simp: list_all2_Cons1)

section \<open>Characters and strings\<close>

definition char_code :: "char \<Rightarrow> nat" where
  "char_code c = of_char c"

definition is_ascii_lowercase :: "char \<Rightarrow> bool" where
  "is_ascii_lowercase c \<longleftrightarrow> 97 \<le> char_code c \<and> char_code c \<le> 122"

definition is_ascii_uppercase :: "char \<Rightarrow> bool" where
  "is_ascii_uppercase c \<longleftrightarrow> 65 \<le> char_code c \<and> char_code c \<le> 90"

definition is_ascii_digit :: "char \<Rightarrow> bool" where
  "is_ascii_digit c \<longleftrightarrow> 48 \<le> char_code c \<and> char_code c \<le> 57"

definition is_ascii_alphanumeric :: "char \<Rightarrow> bool" where
  "is_ascii_alphanumeric c \<longleftrightarrow> is_ascii_lowercase c \<or> is_ascii_uppercase c \<or> is_ascii_digit c"

definition is_ascii_hexdigit :: "char \<Rightarrow> bool" where
  "is_ascii_hexdigit c \<longleftrightarrow> is_ascii_digit c
     \<or> (97 \<le> char_code c \<and> char_code c \<le> 102) \<or> (65 \<le> char_code c \<and> char_code c \<le> 70)"

definition to_ascii_lowercase :: "char \<Rightarrow> char" where
  "to_ascii_lowercase c = (if is_ascii_uppercase c then char_of (char_code c + 32) else c)"

lemmas [ascii_defs] =
  char_code_def is_ascii_lowercase_def is_ascii_uppercase_def is_ascii_digit_def
  is_ascii_alphanumeric_def is_ascii_hexdigit_def

text \<open>\<open>str::split(sep)\<close>: the segments between separators, never an empty list.\<close>

fun split_on :: "char \<Rightarrow> string \<Rightarrow> string list" where
  "split_on c [] = [[]]"
| "split_on c (x # xs) =
     (if x = c then [] # split_on c xs
      else (case split_on c xs of [] \<Rightarrow> [[x]] | s # ss \<Rightarrow> (x # s) # ss))"

text \<open>\<open>[..].join(sep)\<close>.\<close>

fun join_with :: "string \<Rightarrow> string list \<Rightarrow> string" where
  "join_with sep [] = []"
| "join_with sep [s] = s"
| "join_with sep (s # t # ss) = s @ sep @ join_with sep (t # ss)"

text \<open>\<open>str::starts_with\<close>, \<open>str::contains\<close>, \<open>str::strip_prefix\<close> and \<open>str::strip_suffix\<close>.\<close>

fun strip_prefix :: "'a list \<Rightarrow> 'a list \<Rightarrow> 'a list option" where
  "strip_prefix [] s = Some s"
| "strip_prefix (p # ps) [] = None"
| "strip_prefix (p # ps) (x # xs) = (if p = x then strip_prefix ps xs else None)"

definition starts_with :: "'a list \<Rightarrow> 'a list \<Rightarrow> bool" where
  "starts_with p s \<longleftrightarrow> strip_prefix p s \<noteq> None"

definition strip_suffix :: "'a list \<Rightarrow> 'a list \<Rightarrow> 'a list option" where
  "strip_suffix p s = map_option rev (strip_prefix (rev p) (rev s))"

fun contains_str :: "'a list \<Rightarrow> 'a list \<Rightarrow> bool" where
  "contains_str p [] = (p = [])"
| "contains_str p (x # xs) = (starts_with p (x # xs) \<or> contains_str p xs)"

text \<open>
  \<open>str::trim\<close> removes leading and trailing characters of the Unicode class \<open>White_Space\<close>;
  \<open>white_space\<close> lists their UTF-8 encodings.
\<close>

definition white_space :: "string list" where
  "white_space =
     map (\<lambda>n. [char_of (n :: nat)]) [9, 10, 11, 12, 13, 32]
     @ [[char_of (194 :: nat), char_of (133 :: nat)], [char_of (194 :: nat), char_of (160 :: nat)],
        [char_of (225 :: nat), char_of (154 :: nat), char_of (128 :: nat)]]
     @ map (\<lambda>n. [char_of (226 :: nat), char_of (128 :: nat), char_of (n :: nat)])
         [128, 129, 130, 131, 132, 133, 134, 135, 136, 137, 138, 168, 169, 175]
     @ [[char_of (226 :: nat), char_of (129 :: nat), char_of (159 :: nat)],
        [char_of (227 :: nat), char_of (128 :: nat), char_of (128 :: nat)]]"

function trim_leading :: "'a list list \<Rightarrow> 'a list \<Rightarrow> 'a list" where
  "trim_leading ws s =
     (case find (\<lambda>w. w \<noteq> [] \<and> starts_with w s) ws of
        None \<Rightarrow> s
      | Some w \<Rightarrow> trim_leading ws (drop (length w) s))"
  by pat_completeness auto
termination
proof (relation "measure (\<lambda>(ws, s). length s)", goal_cases)
  case (2 ws s w)
  then have "w \<noteq> [] \<and> starts_with w s"
    by (induction ws) (auto split: if_splits)
  then show ?case by (cases w; cases s) (auto simp: starts_with_def)
qed simp

declare trim_leading.simps [simp del]

definition trim :: "string \<Rightarrow> string" where
  "trim s = rev (trim_leading (map rev white_space) (rev (trim_leading white_space s)))"

lemma trim_leading_id: "\<forall>w \<in> set ws. w \<noteq> [] \<longrightarrow> hd w \<noteq> x \<Longrightarrow> trim_leading ws (x # s) = x # s"
proof (subst trim_leading.simps)
  assume hd: "\<forall>w \<in> set ws. w \<noteq> [] \<longrightarrow> hd w \<noteq> x"
  have "find (\<lambda>w. w \<noteq> [] \<and> starts_with w (x # s)) ws = None"
    unfolding find_None_iff
  proof (intro notI, elim exE conjE)
    fix w assume "w \<in> set ws" "w \<noteq> []" "starts_with w (x # s)"
    with hd show False by (cases w) (auto simp: starts_with_def split: if_splits)
  qed
  then show "(case find (\<lambda>w. w \<noteq> [] \<and> starts_with w (x # s)) ws of None \<Rightarrow> x # s
      | Some w \<Rightarrow> trim_leading ws (drop (length w) (x # s))) = x # s" by simp
qed

lemma trim_leading_Nil [simp]: "trim_leading ws [] = []"
proof (subst trim_leading.simps)
  have "find (\<lambda>w. w \<noteq> [] \<and> starts_with w []) ws = None"
    unfolding find_None_iff
  proof (intro notI, elim exE conjE)
    fix w :: "'a list" assume "w \<noteq> []" "starts_with w []"
    then show False by (cases w) (auto simp: starts_with_def)
  qed
  then show "(case find (\<lambda>w. w \<noteq> [] \<and> starts_with w []) ws of None \<Rightarrow> []
      | Some w \<Rightarrow> trim_leading ws (drop (length w) [])) = []" by simp
qed

text \<open>A string that begins and ends with a printable ASCII character is not changed.\<close>

definition is_ascii_graphic :: "char \<Rightarrow> bool" where
  "is_ascii_graphic c \<longleftrightarrow> 33 \<le> char_code c \<and> char_code c \<le> 126"

lemma white_space_hd:
  "is_ascii_graphic c \<Longrightarrow> \<forall>w \<in> set white_space. w \<noteq> [] \<longrightarrow> hd w \<noteq> c"
  by (auto simp: white_space_def is_ascii_graphic_def char_code_def)

lemma white_space_last:
  "is_ascii_graphic c \<Longrightarrow> \<forall>w \<in> set (map rev white_space). w \<noteq> [] \<longrightarrow> hd w \<noteq> c"
  by (auto simp: white_space_def is_ascii_graphic_def char_code_def)

lemma trim_ends:
  assumes "s \<noteq> []" "is_ascii_graphic (hd s)" "is_ascii_graphic (last s)"
  shows "trim s = s"
proof -
  obtain x xs where s: "s = x # xs" using assms by (cases s) auto
  have "trim_leading white_space s = s"
    unfolding s using assms s by (intro trim_leading_id white_space_hd) simp
  moreover obtain y ys where rev: "rev s = y # ys" using s by (cases "rev s") auto
  have "y = last s" by (metis rev hd_rev list.sel(1))
  then have "trim_leading (map rev white_space) (rev s) = rev s"
    unfolding rev using assms by (intro trim_leading_id white_space_last) simp
  ultimately show ?thesis by (simp add: trim_def)
qed

lemma trim_graphic:
  assumes "\<forall>c \<in> set s. is_ascii_graphic c"
  shows "trim s = s"
proof (cases "s = []")
  case False
  with assms show ?thesis by (intro trim_ends) auto
qed (simp add: trim_def)

lemma split_on_not_Nil [simp]: "split_on c s \<noteq> []"
  by (cases s) (auto split: list.splits)

lemma split_on_no_sep: "\<forall>seg \<in> set (split_on c s). c \<notin> set seg"
proof (induction s)
  case (Cons x xs)
  then show ?case by (cases "split_on c xs") auto
qed simp

lemma join_split [simp]: "join_with [c] (split_on c s) = s"
proof (induction s)
  case (Cons x xs)
  obtain s ss where "split_on c xs = s # ss" by (cases "split_on c xs") auto
  with Cons show ?case by (cases ss) auto
qed simp

lemma split_on_single: "c \<notin> set s \<Longrightarrow> split_on c s = [s]"
  by (induction s) auto

lemma split_on_append: "c \<notin> set s \<Longrightarrow> split_on c (s @ c # t) = s # split_on c t"
  by (induction s) auto

lemma split_join:
  "ss \<noteq> [] \<Longrightarrow> \<forall>s \<in> set ss. c \<notin> set s \<Longrightarrow> split_on c (join_with [c] ss) = ss"
proof (induction ss rule: induct_list012)
  case (2 s)
  then show ?case by (simp add: split_on_single)
next
  case (3 s t ss)
  then show ?case by (simp add: split_on_append)
qed simp

lemma strip_prefix_Some_iff: "strip_prefix p s = Some r \<longleftrightarrow> s = p @ r"
  by (induction p s rule: strip_prefix.induct) auto

lemma strip_prefix_append [simp]: "strip_prefix p (p @ r) = Some r"
  by (simp add: strip_prefix_Some_iff)

lemma starts_with_iff: "starts_with p s \<longleftrightarrow> (\<exists>r. s = p @ r)"
  by (auto simp: starts_with_def strip_prefix_Some_iff)

lemma strip_suffix_Some_iff: "strip_suffix p s = Some r \<longleftrightarrow> s = r @ p"
proof -
  have "strip_prefix (rev p) (rev s) = Some (rev r) \<longleftrightarrow> s = r @ p"
    by (metis strip_prefix_Some_iff rev_append rev_rev_ident)
  then show ?thesis by (auto simp: strip_suffix_def)
qed

lemma contains_str_iff: "contains_str p s \<longleftrightarrow> (\<exists>a b. s = a @ p @ b)"
proof (induction s)
  case (Cons x xs)
  show ?case
  proof
    assume "contains_str p (x # xs)"
    then show "\<exists>a b. x # xs = a @ p @ b"
    proof (simp, elim disjE)
      assume "starts_with p (x # xs)"
      then obtain r where "x # xs = [] @ p @ r" by (auto simp: starts_with_iff)
      then show ?thesis by blast
    next
      assume "contains_str p xs"
      then obtain a b where "xs = a @ p @ b" using Cons by blast
      then have "x # xs = (x # a) @ p @ b" by simp
      then show ?thesis by blast
    qed
  next
    assume "\<exists>a b. x # xs = a @ p @ b"
    then obtain a b where eq: "x # xs = a @ p @ b" by blast
    show "contains_str p (x # xs)"
    proof (cases a)
      case Nil
      with eq have "starts_with p (x # xs)" unfolding starts_with_iff by auto
      then show ?thesis by simp
    next
      case (Cons y ys)
      with eq have "\<exists>a b. xs = a @ p @ b" by auto
      with Cons.IH show ?thesis by simp
    qed
  qed
qed simp

section \<open>Searching lists and optional values\<close>

lemma option_ext: "(\<And>v. a = Some v \<longleftrightarrow> b = Some v) \<Longrightarrow> a = b"
  by (cases a; cases b) auto

lemma find_Some_iff: "find P xs = Some x \<Longrightarrow> P x \<and> x \<in> set xs"
  by (induction xs) (auto split: if_splits)

lemma find_None_ball: "find P xs = None \<longleftrightarrow> (\<forall>x \<in> set xs. \<not> P x)"
  by (auto simp: find_None_iff)

end
