(* ===== verification/Hash_Map.thy ===== *)
theory Hash_Map
  imports Astrid_Prelude "HOL-Library.AList"
begin

text \<open>
  \<open>HashMap<K, V>\<close> as an association list in iteration order with distinct keys.  Rust leaves
  the iteration order open; the operations below fix one (an update keeps the place of its key, a
  new key goes last), and no property of the development depends on it beyond the list itself being
  the order of iteration.  The laws a client relies on are the locale \<open>keyed_store\<close>; the
  association lists interpret it.
\<close>

section \<open>Operations\<close>

type_synonym ('k, 'v) hash_map = "('k \<times> 'v) list"

definition hm_get :: "('k, 'v) hash_map \<Rightarrow> 'k \<Rightarrow> 'v option" where
  "hm_get m k = map_of m k"

definition hm_contains_key :: "('k, 'v) hash_map \<Rightarrow> 'k \<Rightarrow> bool" where
  "hm_contains_key m k \<longleftrightarrow> hm_get m k \<noteq> None"

definition hm_insert :: "'k \<Rightarrow> 'v \<Rightarrow> ('k, 'v) hash_map \<Rightarrow> ('k, 'v) hash_map" where
  "hm_insert k v m = AList.update k v m"

definition hm_remove :: "'k \<Rightarrow> ('k, 'v) hash_map \<Rightarrow> ('k, 'v) hash_map" where
  "hm_remove k m = AList.delete k m"

definition hm_retain :: "('k \<Rightarrow> 'v \<Rightarrow> bool) \<Rightarrow> ('k, 'v) hash_map \<Rightarrow> ('k, 'v) hash_map" where
  "hm_retain P m = filter (\<lambda>(k, v). P k v) m"

definition hm_keys :: "('k, 'v) hash_map \<Rightarrow> 'k list" where
  "hm_keys m = map fst m"

definition hm_values :: "('k, 'v) hash_map \<Rightarrow> 'v list" where
  "hm_values m = map snd m"

definition hm_wf :: "('k, 'v) hash_map \<Rightarrow> bool" where
  "hm_wf m \<longleftrightarrow> distinct (map fst m)"

section \<open>The contract of a keyed store\<close>

locale keyed_store =
  fixes get :: "'m \<Rightarrow> 'k \<Rightarrow> 'v option"
    and insert_at :: "'k \<Rightarrow> 'v \<Rightarrow> 'm \<Rightarrow> 'm"
    and remove_at :: "'k \<Rightarrow> 'm \<Rightarrow> 'm"
    and wf :: "'m \<Rightarrow> bool"
  assumes get_insert: "get (insert_at k v m) k' = (if k' = k then Some v else get m k')"
    and get_remove: "get (remove_at k m) k' = (if k' = k then None else get m k')"
    and wf_insert: "wf m \<Longrightarrow> wf (insert_at k v m)"
    and wf_remove: "wf m \<Longrightarrow> wf (remove_at k m)"
begin

lemma get_insert_same: "get (insert_at k v m) k = Some v"
  by (simp add: get_insert)

lemma get_insert_other: "k' \<noteq> k \<Longrightarrow> get (insert_at k v m) k' = get m k'"
  by (simp add: get_insert)

lemma get_remove_same: "get (remove_at k m) k = None"
  by (simp add: get_remove)

lemma get_remove_other: "k' \<noteq> k \<Longrightarrow> get (remove_at k m) k' = get m k'"
  by (simp add: get_remove)

lemma remove_fresh_insert:
  "get m k = None \<Longrightarrow> get (remove_at k (insert_at k v m)) = get m"
  by (rule ext) (simp add: get_insert get_remove)

lemma insert_commute_get:
  "k \<noteq> j \<Longrightarrow> get (insert_at k v (insert_at j w m)) = get (insert_at j w (insert_at k v m))"
  by (rule ext) (auto simp: get_insert)

lemma fold_insert_get:
  "get (fold (\<lambda>x. insert_at (kf x) (vf x)) xs m) k =
     (case find (\<lambda>x. kf x = k) (rev xs) of Some x \<Rightarrow> Some (vf x) | None \<Rightarrow> get m k)"
proof (induction xs rule: rev_induct)
  case (snoc x xs)
  then show ?case by (simp add: get_insert)
qed simp

end

interpretation hm: keyed_store hm_get hm_insert hm_remove hm_wf
  by unfold_locales
     (auto simp: hm_get_def hm_insert_def hm_remove_def hm_wf_def
        update_conv' delete_conv' distinct_update distinct_delete)

section \<open>Facts about iteration\<close>

lemma hm_wf_Nil [simp]: "hm_wf []"
  by (simp add: hm_wf_def)

lemma hm_get_Nil [simp]: "hm_get [] k = None"
  by (simp add: hm_get_def)

lemma hm_get_Cons [simp]: "hm_get ((n, v) # m) k = (if k = n then Some v else hm_get m k)"
  by (simp add: hm_get_def)

lemma hm_get_Some_iff: "hm_wf m \<Longrightarrow> hm_get m k = Some v \<longleftrightarrow> (k, v) \<in> set m"
  by (simp add: hm_get_def hm_wf_def)

lemma hm_get_None_iff: "hm_get m k = None \<longleftrightarrow> k \<notin> fst ` set m"
  by (simp add: hm_get_def map_of_eq_None_iff)

lemma hm_get_mem: "hm_get m k = Some v \<Longrightarrow> (k, v) \<in> set m"
  by (simp add: hm_get_def map_of_SomeD)

lemma hm_wf_retain [simp]: "hm_wf m \<Longrightarrow> hm_wf (hm_retain P m)"
  by (auto simp: hm_wf_def hm_retain_def distinct_map inj_on_def)

lemma hm_get_retain_Some:
  "hm_wf m \<Longrightarrow> hm_get (hm_retain P m) k = Some v \<longleftrightarrow> hm_get m k = Some v \<and> P k v"
  by (simp add: hm_get_Some_iff) (simp add: hm_retain_def)

lemma hm_get_retain:
  "hm_wf m \<Longrightarrow> hm_get (hm_retain P m) k =
     (case hm_get m k of Some v \<Rightarrow> if P k v then Some v else None | None \<Rightarrow> None)"
  by (rule option_ext) (auto simp: hm_get_retain_Some split: option.split)

lemma hm_values_iff: "hm_wf m \<Longrightarrow> v \<in> set (hm_values m) \<longleftrightarrow> (\<exists>k. hm_get m k = Some v)"
  by (simp add: hm_get_Some_iff) (force simp: hm_values_def image_iff)

lemma hm_keys_iff: "k \<in> set (hm_keys m) \<longleftrightarrow> hm_get m k \<noteq> None"
  by (simp add: hm_keys_def hm_get_None_iff)

lemma hm_contains_key_iff: "hm_contains_key m k \<longleftrightarrow> (\<exists>v. hm_get m k = Some v)"
  by (auto simp: hm_contains_key_def)

lemma hm_set_insert: "hm_wf m \<Longrightarrow> set (hm_insert k v m) = {(j, w) \<in> set m. j \<noteq> k} \<union> {(k, v)}"
proof (rule set_eqI)
  fix p :: "'a \<times> 'b"
  assume wf: "hm_wf m"
  obtain j w where p: "p = (j, w)" by (cases p)
  have "(j, w) \<in> set (hm_insert k v m) \<longleftrightarrow> hm_get (hm_insert k v m) j = Some w"
    by (rule hm_get_Some_iff [OF hm.wf_insert [OF wf], symmetric])
  then show "p \<in> set (hm_insert k v m) \<longleftrightarrow> p \<in> {(j, w) \<in> set m. j \<noteq> k} \<union> {(k, v)}"
    using p by (simp add: hm.get_insert hm_get_Some_iff [OF wf]) auto
qed

lemma hm_set_remove: "set (hm_remove k m) = {(j, w) \<in> set m. j \<noteq> k}"
  by (auto simp: hm_remove_def AList.delete_eq)

lemma hm_set_retain: "set (hm_retain P m) = {(j, w) \<in> set m. P j w}"
  by (auto simp: hm_retain_def)

end
