(* ===== verification/Kv_Store.thy ===== *)
theory Kv_Store
  imports Hash_Map "HOL-Library.Char_ord" "HOL-Library.List_Lexorder" "HOL-Library.Multiset"
begin

text \<open>
  The namespaced key/value store of \<open>crates/astrid-storage/src/kv\<close>: the key validators and range
  bounds of \<open>mod.rs\<close>, the canonical conditional batches of \<open>batch.rs\<close>, and the in-memory
  backend of \<open>memory.rs\<close>.  The trait \<open>KvStore\<close> is the record \<open>KvStore\<close> of the methods its
  clients call; what a client may rely on are the locales \<open>atomic_kv\<close> and \<open>plain_kv\<close>, which the
  in-memory backend interprets.  Values and composite keys are byte strings.  A poisoned lock (a panic while it is
  held) is not modelled: no critical section of the backend panics.
\<close>

section \<open>Errors and validators\<close>

datatype InvalidKeyReason =
  NamespaceEmpty | NamespaceNul | PrefixNul | KeyEmpty | KeyNul

datatype SerializationReason =
  EmptyBatch | OperationBound | PayloadBound | DuplicateConditions | DuplicateMutations
| NonCanonicalTokenId | RecordOutsideSchema | RecordTooLarge | RecordInvalid | SerdeFailure

datatype InternalReason =
  PayloadOverflow | AtomicBatchUnsupported | RequiresAtomicBackend | RecordLimitExceeded
| RecordDisappeared

datatype StorageError =
  NotFound string | Internal InternalReason | Connection string
| Serialization SerializationReason | InvalidKey InvalidKeyReason

definition NUL :: char where
  "NUL = CHR 0x00"

definition validate_namespace :: "string \<Rightarrow> (StorageError, unit) result" where
  "validate_namespace namespace =
     (if namespace = [] then Inl (InvalidKey NamespaceEmpty)
      else if NUL \<in> set namespace then Inl (InvalidKey NamespaceNul)
      else Inr ())"

definition validate_prefix :: "string \<Rightarrow> (StorageError, unit) result" where
  "validate_prefix pre = (if NUL \<in> set pre then Inl (InvalidKey PrefixNul) else Inr ())"

definition validate_key :: "string \<Rightarrow> (StorageError, unit) result" where
  "validate_key key =
     (if key = [] then Inl (InvalidKey KeyEmpty)
      else if NUL \<in> set key then Inl (InvalidKey KeyNul)
      else Inr ())"

section \<open>Composite keys and range bounds\<close>

definition composite_key :: "string \<Rightarrow> string \<Rightarrow> string" where
  "composite_key namespace key = namespace @ NUL # key"

definition namespace_range_start :: "string \<Rightarrow> string" where
  "namespace_range_start namespace = namespace @ [NUL]"

definition namespace_range_end :: "string \<Rightarrow> string" where
  "namespace_range_end namespace = namespace @ [CHR 0x01]"

text \<open>
  The loop of \<open>prefix_range_end\<close> on the reversed buffer: increment the last byte, or drop it when
  it is 255; \<open>None\<close> when the buffer runs empty.
\<close>

definition byte_checked_succ :: "char \<Rightarrow> char option" where
  "byte_checked_succ c = (if char_code c < 255 then Some (char_of (char_code c + 1)) else None)"

fun bump_last :: "string \<Rightarrow> string option" where
  "bump_last [] = None"
| "bump_last (l # rest) =
     (case byte_checked_succ l of Some n \<Rightarrow> Some (n # rest) | None \<Rightarrow> bump_last rest)"

definition prefix_range_end :: "string \<Rightarrow> string \<Rightarrow> string" where
  "prefix_range_end namespace pre =
     (if pre = [] then namespace_range_end namespace
      else (case bump_last (rev (composite_key namespace pre)) of
              Some b \<Rightarrow> rev b
            | None \<Rightarrow> namespace_range_end namespace))"

section \<open>Batches\<close>

definition MAX_KV_BATCH_OPERATIONS :: nat where
  "MAX_KV_BATCH_OPERATIONS = 1024"

definition MAX_KV_BATCH_PAYLOAD_BYTES :: nat where
  "MAX_KV_BATCH_PAYLOAD_BYTES = 64 * 1024 * 1024"

record KvEntryKey =
  ke_namespace :: string
  ke_key :: string

definition KvEntryKey_new :: "string \<Rightarrow> string \<Rightarrow> (StorageError, KvEntryKey) result" where
  "KvEntryKey_new namespace key =
     and_then (validate_namespace namespace) (\<lambda>_.
     and_then (validate_key key) (\<lambda>_.
     Inr \<lparr>ke_namespace = namespace, ke_key = key\<rparr>))"

definition composite :: "KvEntryKey \<Rightarrow> string" where
  "composite k = composite_key (ke_namespace k) (ke_key k)"

datatype KvBatchCondition = ValueEquals (bc_key: KvEntryKey) (bc_expected: "string option")

datatype KvBatchMutation = SetValue (bm_key: KvEntryKey) (set_value: string) | DeleteKey (bm_key: KvEntryKey)

fun bm_value :: "KvBatchMutation \<Rightarrow> string option" where
  "bm_value (SetValue _ v) = Some v"
| "bm_value (DeleteKey _) = None"

record KvMutationBatch =
  kb_conditions :: "KvBatchCondition list"
  kb_mutations :: "KvBatchMutation list"

record KvConditionResult =
  cr_key :: KvEntryKey
  cr_matched :: bool

record KvBatchOutcome =
  bo_applied :: bool
  bo_conditions :: "KvConditionResult list"

definition USIZE_MAX :: nat where
  "USIZE_MAX = 2 ^ 64 - 1"

definition checked_add :: "nat \<Rightarrow> nat \<Rightarrow> (StorageError, nat) result" where
  "checked_add a b = (if a + b \<le> USIZE_MAX then Inr (a + b) else Inl (Internal PayloadOverflow))"

definition add_payload :: "nat \<Rightarrow> KvEntryKey \<Rightarrow> (StorageError, nat) result" where
  "add_payload current key =
     and_then (checked_add (length (ke_namespace key)) 1) (\<lambda>l.
     and_then (checked_add l (length (ke_key key))) (\<lambda>key_bytes.
     checked_add current key_bytes))"

definition add_declared_payload :: "nat \<Rightarrow> KvEntryKey \<Rightarrow> nat \<Rightarrow> (StorageError, nat) result" where
  "add_declared_payload current key value_bytes =
     and_then (add_payload current key) (\<lambda>p. checked_add p value_bytes)"

definition expected_len :: "string option \<Rightarrow> nat" where
  "expected_len v = (case v of None \<Rightarrow> 0 | Some b \<Rightarrow> length b)"

text \<open>Two equal neighbours: \<open>xs.windows(2).any(|p| p[0] == p[1])\<close>.\<close>

fun adjacent_equal :: "'a list \<Rightarrow> bool" where
  "adjacent_equal (x # y # xs) \<longleftrightarrow> x = y \<or> adjacent_equal (y # xs)"
| "adjacent_equal _ \<longleftrightarrow> False"

fun sum_payload :: "nat \<Rightarrow> (KvEntryKey \<times> string option) list \<Rightarrow> (StorageError, nat) result" where
  "sum_payload p [] = Inr p"
| "sum_payload p ((k, v) # xs) =
     and_then (add_declared_payload p k (expected_len v)) (\<lambda>p'. sum_payload p' xs)"

definition condition_entries :: "KvBatchCondition list \<Rightarrow> (KvEntryKey \<times> string option) list" where
  "condition_entries cs = map (\<lambda>c. (bc_key c, bc_expected c)) cs"

definition mutation_entries :: "KvBatchMutation list \<Rightarrow> (KvEntryKey \<times> string option) list" where
  "mutation_entries ms = map (\<lambda>m. (bm_key m, bm_value m)) ms"

definition try_from_parts ::
  "KvBatchCondition list \<Rightarrow> KvBatchMutation list \<Rightarrow> (StorageError, KvMutationBatch) result" where
  "try_from_parts conditions mutations =
     (if mutations = [] then Inl (Serialization EmptyBatch)
      else if length conditions + length mutations > MAX_KV_BATCH_OPERATIONS
        then Inl (Serialization OperationBound)
      else and_then (sum_payload 0 (condition_entries conditions)) (\<lambda>p.
           and_then (sum_payload p (mutation_entries mutations)) (\<lambda>payload.
           if payload > MAX_KV_BATCH_PAYLOAD_BYTES then Inl (Serialization PayloadBound)
           else let cs = sort_key (composite \<circ> bc_key) conditions;
                    ms = sort_key (composite \<circ> bm_key) mutations
                in if adjacent_equal (map bc_key cs) then Inl (Serialization DuplicateConditions)
                   else if adjacent_equal (map bm_key ms) then Inl (Serialization DuplicateMutations)
                   else Inr \<lparr>kb_conditions = cs, kb_mutations = ms\<rparr>)))"

text \<open>
  One of the two admission loops of \<open>KvMutationBatch::new\<close>: \<open>n\<close> operations are admitted already
  and \<open>p\<close> is the payload declared so far.
\<close>

fun admit_entries :: "nat \<Rightarrow> nat \<Rightarrow> (KvEntryKey \<times> string option) list \<Rightarrow> (StorageError, nat) result" where
  "admit_entries n p [] = Inr p"
| "admit_entries n p ((k, v) # xs) =
     (if n \<ge> MAX_KV_BATCH_OPERATIONS then Inl (Serialization OperationBound)
      else and_then (add_declared_payload p k (expected_len v)) (\<lambda>p'.
           if p' > MAX_KV_BATCH_PAYLOAD_BYTES then Inl (Serialization PayloadBound)
           else admit_entries (Suc n) p' xs))"

definition KvMutationBatch_new ::
  "KvBatchCondition list \<Rightarrow> KvBatchMutation list \<Rightarrow> (StorageError, KvMutationBatch) result" where
  "KvMutationBatch_new conditions mutations =
     and_then (admit_entries 0 0 (condition_entries conditions)) (\<lambda>p.
     and_then (admit_entries (length conditions) p (mutation_entries mutations)) (\<lambda>_.
     try_from_parts conditions mutations))"

definition operation_count :: "KvMutationBatch \<Rightarrow> nat" where
  "operation_count b = length (kb_conditions b) + length (kb_mutations b)"

section \<open>The in-memory backend\<close>

record MemoryKvStore =
  mem_data :: "(string, string) hash_map"

definition MemoryKvStore_new :: MemoryKvStore where
  "MemoryKvStore_new = \<lparr>mem_data = []\<rparr>"

definition full_key :: "string \<Rightarrow> string \<Rightarrow> string" where
  "full_key namespace key = namespace @ NUL # key"

definition mem_get :: "MemoryKvStore \<Rightarrow> string \<Rightarrow> string \<Rightarrow> (StorageError, string option) result" where
  "mem_get s namespace key =
     and_then (validate_namespace namespace) (\<lambda>_.
     and_then (validate_key key) (\<lambda>_.
     Inr (hm_get (mem_data s) (full_key namespace key))))"

definition mem_set ::
  "MemoryKvStore \<Rightarrow> string \<Rightarrow> string \<Rightarrow> string \<Rightarrow> (StorageError, unit) result \<times> MemoryKvStore" where
  "mem_set s namespace key v =
     (case and_then (validate_namespace namespace) (\<lambda>_. validate_key key) of
        Inl e \<Rightarrow> (Inl e, s)
      | Inr _ \<Rightarrow> (Inr (), s\<lparr>mem_data := hm_insert (full_key namespace key) v (mem_data s)\<rparr>))"

definition mem_delete ::
  "MemoryKvStore \<Rightarrow> string \<Rightarrow> string \<Rightarrow> (StorageError, bool) result \<times> MemoryKvStore" where
  "mem_delete s namespace key =
     (case and_then (validate_namespace namespace) (\<lambda>_. validate_key key) of
        Inl e \<Rightarrow> (Inl e, s)
      | Inr _ \<Rightarrow> (Inr (hm_contains_key (mem_data s) (full_key namespace key)),
                  s\<lparr>mem_data := hm_remove (full_key namespace key) (mem_data s)\<rparr>))"

definition mem_exists :: "MemoryKvStore \<Rightarrow> string \<Rightarrow> string \<Rightarrow> (StorageError, bool) result" where
  "mem_exists s namespace key =
     and_then (validate_namespace namespace) (\<lambda>_.
     and_then (validate_key key) (\<lambda>_.
     Inr (hm_contains_key (mem_data s) (full_key namespace key))))"

definition mem_list_keys :: "MemoryKvStore \<Rightarrow> string \<Rightarrow> (StorageError, string list) result" where
  "mem_list_keys s namespace =
     and_then (validate_namespace namespace) (\<lambda>_.
     Inr (List.map_filter (strip_prefix (namespace @ [NUL])) (hm_keys (mem_data s))))"

definition mem_list_keys_with_prefix ::
  "MemoryKvStore \<Rightarrow> string \<Rightarrow> string \<Rightarrow> (StorageError, string list) result" where
  "mem_list_keys_with_prefix s namespace pre =
     and_then (validate_namespace namespace) (\<lambda>_.
     and_then (validate_prefix pre) (\<lambda>_.
     Inr (map (drop (length namespace + 1))
            (filter (starts_with (full_key namespace pre)) (hm_keys (mem_data s))))))"

definition mem_compare_and_swap ::
  "MemoryKvStore \<Rightarrow> string \<Rightarrow> string \<Rightarrow> string option \<Rightarrow> string
     \<Rightarrow> (StorageError, bool) result \<times> MemoryKvStore" where
  "mem_compare_and_swap s namespace key expected new =
     (case and_then (validate_namespace namespace) (\<lambda>_. validate_key key) of
        Inl e \<Rightarrow> (Inl e, s)
      | Inr _ \<Rightarrow>
          (if hm_get (mem_data s) (full_key namespace key) = expected
           then (Inr True, s\<lparr>mem_data := hm_insert (full_key namespace key) new (mem_data s)\<rparr>)
           else (Inr False, s)))"

definition check_condition :: "(string, string) hash_map \<Rightarrow> KvBatchCondition \<Rightarrow> KvConditionResult" where
  "check_condition m c =
     \<lparr>cr_key = bc_key c,
      cr_matched = (hm_get m (full_key (ke_namespace (bc_key c)) (ke_key (bc_key c))) = bc_expected c)\<rparr>"

fun apply_mutation :: "KvBatchMutation \<Rightarrow> (string, string) hash_map \<Rightarrow> (string, string) hash_map" where
  "apply_mutation (SetValue k v) m = hm_insert (full_key (ke_namespace k) (ke_key k)) v m"
| "apply_mutation (DeleteKey k) m = hm_remove (full_key (ke_namespace k) (ke_key k)) m"

definition mem_apply_batch ::
  "MemoryKvStore \<Rightarrow> KvMutationBatch \<Rightarrow> (StorageError, KvBatchOutcome) result \<times> MemoryKvStore" where
  "mem_apply_batch s batch =
     (let conditions = map (check_condition (mem_data s)) (kb_conditions batch)
      in if \<not> list_all cr_matched conditions
         then (Inr \<lparr>bo_applied = False, bo_conditions = conditions\<rparr>, s)
         else (Inr \<lparr>bo_applied = True, bo_conditions = conditions\<rparr>,
               s\<lparr>mem_data := fold apply_mutation (kb_mutations batch) (mem_data s)\<rparr>))"

definition mem_clear_namespace ::
  "MemoryKvStore \<Rightarrow> string \<Rightarrow> (StorageError, nat) result \<times> MemoryKvStore" where
  "mem_clear_namespace s namespace =
     (case validate_namespace namespace of
        Inl e \<Rightarrow> (Inl e, s)
      | Inr _ \<Rightarrow>
          let keys = filter (starts_with (namespace @ [NUL])) (hm_keys (mem_data s))
          in (Inr (length keys), s\<lparr>mem_data := fold hm_remove keys (mem_data s)\<rparr>))"

definition mem_clear_prefix ::
  "MemoryKvStore \<Rightarrow> string \<Rightarrow> string \<Rightarrow> (StorageError, nat) result \<times> MemoryKvStore" where
  "mem_clear_prefix s namespace pre =
     (case and_then (validate_namespace namespace) (\<lambda>_. validate_prefix pre) of
        Inl e \<Rightarrow> (Inl e, s)
      | Inr _ \<Rightarrow>
          let keys = filter (starts_with (full_key namespace pre)) (hm_keys (mem_data s))
          in (Inr (length keys), s\<lparr>mem_data := fold hm_remove keys (mem_data s)\<rparr>))"

text \<open>The trait object: the methods the runtime's control stores call.\<close>

record 's KvStore =
  kv_supports_atomic_batch :: bool
  kv_get :: "'s \<Rightarrow> string \<Rightarrow> string \<Rightarrow> (StorageError, string option) result"
  kv_set :: "'s \<Rightarrow> string \<Rightarrow> string \<Rightarrow> string \<Rightarrow> (StorageError, unit) result \<times> 's"
  kv_delete :: "'s \<Rightarrow> string \<Rightarrow> string \<Rightarrow> (StorageError, bool) result \<times> 's"
  kv_list_keys :: "'s \<Rightarrow> string \<Rightarrow> (StorageError, string list) result"
  kv_list_keys_with_prefix :: "'s \<Rightarrow> string \<Rightarrow> string \<Rightarrow> (StorageError, string list) result"
  kv_apply_batch :: "'s \<Rightarrow> KvMutationBatch \<Rightarrow> (StorageError, KvBatchOutcome) result \<times> 's"

definition memory_kv :: "MemoryKvStore KvStore" where
  "memory_kv =
     \<lparr>kv_supports_atomic_batch = True,
      kv_get = mem_get,
      kv_set = mem_set,
      kv_delete = mem_delete,
      kv_list_keys = mem_list_keys,
      kv_list_keys_with_prefix = mem_list_keys_with_prefix,
      kv_apply_batch = mem_apply_batch\<rparr>"

section \<open>Keys\<close>

definition entry_ok :: "KvEntryKey \<Rightarrow> bool" where
  "entry_ok e \<longleftrightarrow> is_ok (validate_namespace (ke_namespace e)) \<and> is_ok (validate_key (ke_key e))"

lemma is_ok_validate_namespace: "is_ok (validate_namespace n) \<longleftrightarrow> n \<noteq> [] \<and> NUL \<notin> set n"
  by (simp add: validate_namespace_def)

lemma is_ok_validate_key: "is_ok (validate_key k) \<longleftrightarrow> k \<noteq> [] \<and> NUL \<notin> set k"
  by (simp add: validate_key_def)

lemma is_ok_validate_prefix: "is_ok (validate_prefix p) \<longleftrightarrow> NUL \<notin> set p"
  by (simp add: validate_prefix_def)

lemma KvEntryKey_new_iff:
  "KvEntryKey_new n k = Inr e \<longleftrightarrow> entry_ok e \<and> e = \<lparr>ke_namespace = n, ke_key = k\<rparr>"
  by (auto simp: KvEntryKey_new_def result_simps entry_ok_def is_ok_iff)

lemma split_at_separator:
  "c \<notin> set n \<Longrightarrow> c \<notin> set n' \<Longrightarrow> n @ c # k = n' @ c # k' \<longleftrightarrow> n = n' \<and> k = k'"
  by (induction n arbitrary: n') (case_tac n'; auto)+

lemma full_key_inject:
  "entry_ok e \<Longrightarrow> entry_ok e' \<Longrightarrow>
     full_key (ke_namespace e) (ke_key e) = full_key (ke_namespace e') (ke_key e') \<longleftrightarrow> e = e'"
  by (auto simp: full_key_def entry_ok_def is_ok_validate_namespace split_at_separator)

lemma composite_inject: "entry_ok e \<Longrightarrow> entry_ok e' \<Longrightarrow> composite e = composite e' \<longleftrightarrow> e = e'"
  using full_key_inject [of e e'] by (simp add: composite_def composite_key_def full_key_def)

section \<open>Range bounds capture exactly the keys with a prefix\<close>

lemma starts_with_append: "starts_with p s \<longleftrightarrow> (\<exists>t. s = p @ t)"
  by (auto simp: starts_with_def strip_prefix_Some_iff)

text \<open>\<^const>\<open>bump_last\<close> seen from the front of the buffer.\<close>

fun bump :: "string \<Rightarrow> string option" where
  "bump [] = None"
| "bump (c # cs) =
     (case bump cs of
        Some r \<Rightarrow> Some (c # r)
      | None \<Rightarrow> map_option (\<lambda>n. [n]) (byte_checked_succ c))"

lemma bump_snoc:
  "bump (xs @ [c]) =
     (case byte_checked_succ c of Some n \<Rightarrow> Some (xs @ [n]) | None \<Rightarrow> bump xs)"
  by (induction xs) (auto split: option.splits)

lemma bump_last_bump: "map_option rev (bump_last (rev s)) = bump s"
  by (induction s rule: rev_induct) (auto simp: bump_snoc split: option.splits)

lemma byte_succ_less:
  "byte_checked_succ c = Some n \<Longrightarrow> x < n \<longleftrightarrow> x \<le> (c :: char)"
  by (auto simp: byte_checked_succ_def char_code_def less_char_def less_eq_char_def split: if_splits)

lemma byte_succ_None: "byte_checked_succ c = None \<Longrightarrow> x \<le> (c :: char)"
proof -
  assume "byte_checked_succ c = None"
  then have "255 \<le> char_code c" by (auto simp: byte_checked_succ_def split: if_splits)
  moreover have "of_char x < (256 :: nat)" by simp
  ultimately show ?thesis unfolding char_code_def less_eq_char_def by linarith
qed

lemma bump_None: "bump s = None \<Longrightarrow> s \<le> k \<longleftrightarrow> starts_with s k"
proof (induction s arbitrary: k)
  case (Cons c cs)
  then have b: "bump cs = None" "byte_checked_succ c = None" by (auto split: option.splits)
  show ?case
    using Cons.IH [OF b(1)] byte_succ_None [OF b(2)]
    by (cases k) (auto simp: starts_with_def leD)
qed (simp add: starts_with_def)

lemma bump_Some: "bump s = Some b \<Longrightarrow> s \<le> k \<and> k < b \<longleftrightarrow> starts_with s k"
proof (induction s arbitrary: k b)
  case (Cons c cs)
  show ?case
  proof (cases "bump cs")
    case None
    with Cons.prems obtain n where n: "byte_checked_succ c = Some n" "b = [n]" by auto
    show ?thesis
      using bump_None [OF None] byte_succ_less [OF n(1)]
      by (cases k) (auto simp: n(2) starts_with_def)
  next
    case (Some r)
    with Cons.prems have "b = c # r" by simp
    then show ?thesis
      using Cons.IH [OF Some] by (cases k) (auto simp: starts_with_def)
  qed
qed simp

lemma bump_append: "bump s = Some b \<Longrightarrow> bump (p @ s) = Some (p @ b)"
  by (induction p) auto

lemma bump_composite_ne: "bump (composite_key n p) \<noteq> None"
proof -
  have "bump (NUL # p) \<noteq> None"
    by (auto simp: byte_checked_succ_def NUL_def char_code_def split: option.split)
  then obtain b where "bump (NUL # p) = Some b" by blast
  then show ?thesis
    using bump_append [of "NUL # p" b n] by (simp add: composite_key_def)
qed

lemma range_end_bump: "bump (composite_key n p) = Some (prefix_range_end n p)"
proof (cases "p = []")
  case True
  then show ?thesis
    using bump_append [of "[NUL]" "[CHR 0x01]" n]
    by (simp add: composite_key_def prefix_range_end_def namespace_range_end_def
        byte_checked_succ_def NUL_def char_code_def char_of_def bit_0)
next
  case False
  then show ?thesis
    using bump_composite_ne [of n p] bump_last_bump [of "composite_key n p"]
    by (auto simp: prefix_range_end_def split: option.splits)
qed

text \<open>
  The half-open byte range from the composite prefix to \<open>prefix_range_end\<close> holds a key
  exactly when the key starts with the composite prefix, for every prefix (the empty one and one
  that ends in bytes 255 included): a range scan neither misses a key of the prefix nor reaches a
  key of another prefix or namespace.
\<close>

theorem prefix_range_exact:
  "composite_key namespace pre \<le> k \<and> k < prefix_range_end namespace pre
     \<longleftrightarrow> starts_with (composite_key namespace pre) k"
  by (rule bump_Some [OF range_end_bump])

section \<open>Canonical batches\<close>

definition entry_bytes :: "KvEntryKey \<times> string option \<Rightarrow> nat" where
  "entry_bytes e = length (ke_namespace (fst e)) + 1 + length (ke_key (fst e)) + expected_len (snd e)"

definition payload_bytes :: "KvMutationBatch \<Rightarrow> nat" where
  "payload_bytes b =
     foldl (\<lambda>a n. min (a + n) USIZE_MAX) 0
       (map (\<lambda>e. min (min (min (length (ke_namespace (fst e)) + 1) USIZE_MAX + length (ke_key (fst e)))
                        USIZE_MAX + expected_len (snd e)) USIZE_MAX)
         (condition_entries (kb_conditions b) @ mutation_entries (kb_mutations b)))"

definition batch_wf :: "KvMutationBatch \<Rightarrow> bool" where
  "batch_wf b \<longleftrightarrow>
     list_all (entry_ok \<circ> bc_key) (kb_conditions b) \<and> list_all (entry_ok \<circ> bm_key) (kb_mutations b)
     \<and> distinct (map bc_key (kb_conditions b)) \<and> distinct (map bm_key (kb_mutations b))"

lemma add_declared_payload_eq:
  "add_declared_payload p k n =
     (let t = p + (length (ke_namespace k) + 1 + length (ke_key k) + n)
      in if t \<le> USIZE_MAX then Inr t else Inl (Internal PayloadOverflow))"
  by (auto simp: add_declared_payload_def add_payload_def checked_add_def Let_def)

lemma sum_payload_eq:
  "p \<le> USIZE_MAX \<Longrightarrow> sum_payload p xs =
     (if p + sum_list (map entry_bytes xs) \<le> USIZE_MAX then Inr (p + sum_list (map entry_bytes xs))
      else Inl (Internal PayloadOverflow))"
  by (induction xs arbitrary: p)
     (auto simp: add_declared_payload_eq Let_def entry_bytes_def add.assoc)

lemma admit_entries_iff:
  "n \<le> MAX_KV_BATCH_OPERATIONS \<Longrightarrow> p \<le> MAX_KV_BATCH_PAYLOAD_BYTES \<Longrightarrow>
     admit_entries n p xs = Inr q \<longleftrightarrow>
       n + length xs \<le> MAX_KV_BATCH_OPERATIONS
       \<and> p + sum_list (map entry_bytes xs) \<le> MAX_KV_BATCH_PAYLOAD_BYTES
       \<and> q = p + sum_list (map entry_bytes xs)"
proof (induction xs arbitrary: n p)
  case (Cons x xs)
  obtain k v where x: "x = (k, v)" by (cases x)
  let ?p = "p + entry_bytes x"
  have le: "m \<le> USIZE_MAX" if "m \<le> MAX_KV_BATCH_PAYLOAD_BYTES" for m
    using that by (simp add: MAX_KV_BATCH_PAYLOAD_BYTES_def USIZE_MAX_def)
  have add: "add_declared_payload p k (expected_len v)
      = (if ?p \<le> USIZE_MAX then Inr ?p else Inl (Internal PayloadOverflow))"
    by (simp add: add_declared_payload_eq Let_def x entry_bytes_def)
  have IH: "admit_entries (Suc n) ?p xs = Inr q \<longleftrightarrow>
       Suc n + length xs \<le> MAX_KV_BATCH_OPERATIONS
       \<and> ?p + sum_list (map entry_bytes xs) \<le> MAX_KV_BATCH_PAYLOAD_BYTES
       \<and> q = ?p + sum_list (map entry_bytes xs)"
    if "n < MAX_KV_BATCH_OPERATIONS" "?p \<le> MAX_KV_BATCH_PAYLOAD_BYTES"
    using Cons.IH [of "Suc n" ?p] that by simp
  show ?case
    using Cons.prems IH le [of ?p] by (auto simp: x add)
qed auto

lemma adjacent_equal_sorted:
  fixes g :: "'a \<Rightarrow> 'b :: linorder"
  shows "sorted (map g ys) \<Longrightarrow> inj_on g (set ys) \<Longrightarrow> adjacent_equal ys \<longleftrightarrow> \<not> distinct ys"
proof (induction ys rule: adjacent_equal.induct)
  case (1 x y xs)
  then have IH: "adjacent_equal (y # xs) \<longleftrightarrow> \<not> distinct (y # xs)"
    by (auto simp: inj_on_def)
  show ?case
  proof (cases "x = y")
    case False
    then have "g x \<noteq> g y" using "1.prems" by (auto simp: inj_on_def)
    then have "g x < g y" using "1.prems" by auto
    then have "x \<notin> set xs" using "1.prems" by auto
    then show ?thesis using IH False by auto
  qed simp
qed auto

lemma adjacent_equal_sort_key:
  assumes "\<forall>x \<in> set xs. entry_ok (key x)"
  shows "adjacent_equal (map key (sort_key (composite \<circ> key) xs)) \<longleftrightarrow> \<not> distinct (map key xs)"
proof -
  let ?ys = "sort_key (composite \<circ> key) xs"
  have "sorted (map composite (map key ?ys))"
    by (metis list.map_comp sorted_sort_key)
  moreover have "inj_on composite (set (map key ?ys))"
    using assms by (auto simp: inj_on_def composite_inject)
  ultimately have "adjacent_equal (map key ?ys) \<longleftrightarrow> \<not> distinct (map key ?ys)"
    by (rule adjacent_equal_sorted)
  moreover have "mset (map key ?ys) = mset (map key xs)" by simp
  then have "distinct (map key ?ys) \<longleftrightarrow> distinct (map key xs)"
    by (rule mset_eq_imp_distinct_iff)
  ultimately show ?thesis by simp
qed

lemma try_from_parts_iff:
  assumes "\<forall>c \<in> set cs. entry_ok (bc_key c)" and "\<forall>m \<in> set ms. entry_ok (bm_key m)"
  shows "try_from_parts cs ms = Inr b \<longleftrightarrow>
     ms \<noteq> [] \<and> length cs + length ms \<le> MAX_KV_BATCH_OPERATIONS
     \<and> sum_list (map entry_bytes (condition_entries cs @ mutation_entries ms)) \<le> MAX_KV_BATCH_PAYLOAD_BYTES
     \<and> distinct (map bc_key cs) \<and> distinct (map bm_key ms)
     \<and> b = \<lparr>kb_conditions = sort_key (composite \<circ> bc_key) cs,
            kb_mutations = sort_key (composite \<circ> bm_key) ms\<rparr>"
proof -
  have le: "m \<le> USIZE_MAX" if "m \<le> MAX_KV_BATCH_PAYLOAD_BYTES" for m
    using that by (simp add: MAX_KV_BATCH_PAYLOAD_BYTES_def USIZE_MAX_def)
  show ?thesis
    using adjacent_equal_sort_key [OF assms(1)] adjacent_equal_sort_key [OF assms(2)] le
    by (auto simp: try_from_parts_def sum_payload_eq Let_def not_less
        intro: order_trans split: if_splits)
qed

lemma batch_new_iff:
  assumes "\<forall>c \<in> set cs. entry_ok (bc_key c)" and "\<forall>m \<in> set ms. entry_ok (bm_key m)"
  shows "KvMutationBatch_new cs ms = Inr b \<longleftrightarrow>
     ms \<noteq> [] \<and> length cs + length ms \<le> MAX_KV_BATCH_OPERATIONS
     \<and> sum_list (map entry_bytes (condition_entries cs @ mutation_entries ms)) \<le> MAX_KV_BATCH_PAYLOAD_BYTES
     \<and> distinct (map bc_key cs) \<and> distinct (map bm_key ms)
     \<and> b = \<lparr>kb_conditions = sort_key (composite \<circ> bc_key) cs,
            kb_mutations = sort_key (composite \<circ> bm_key) ms\<rparr>"
  by (auto simp: KvMutationBatch_new_def result_simps try_from_parts_iff [OF assms]
      admit_entries_iff condition_entries_def mutation_entries_def)

lemma foldl_saturating:
  "foldl (\<lambda>a n. min (a + n) c) (min a c) xs = min (a + sum_list xs) (c :: nat)"
proof (induction xs arbitrary: a)
  case (Cons x xs)
  have "min (min a c + x) c = min (a + x) c" by simp
  then show ?case using Cons.IH [of "a + x"] by (simp add: add.assoc)
qed simp

text \<open>
  \<open>KvMutationBatch::new\<close> on validated keys accepts exactly the batches with at least one
  mutation, at most 1024 operations, at most 64 MiB of declared payload, no key conditioned twice
  and no key mutated twice, and what it returns is the same operations in composite-key order.
\<close>

theorem batch_new_accepts:
  assumes "\<forall>c \<in> set cs. entry_ok (bc_key c)" and "\<forall>m \<in> set ms. entry_ok (bm_key m)"
  shows "KvMutationBatch_new cs ms = Inr b \<longleftrightarrow>
     ms \<noteq> [] \<and> length cs + length ms \<le> MAX_KV_BATCH_OPERATIONS
     \<and> sum_list (map entry_bytes (condition_entries cs @ mutation_entries ms)) \<le> MAX_KV_BATCH_PAYLOAD_BYTES
     \<and> distinct (map bc_key cs) \<and> distinct (map bm_key ms)
     \<and> b = \<lparr>kb_conditions = sort_key (composite \<circ> bc_key) cs,
            kb_mutations = sort_key (composite \<circ> bm_key) ms\<rparr>"
  using assms by (rule batch_new_iff)

theorem batch_new_accepts_witness:
  "let k = \<lparr>ke_namespace = ''ns'', ke_key = ''k''\<rparr>
   in KvMutationBatch_new [ValueEquals k None] [SetValue k ''v''] =
        Inr \<lparr>kb_conditions = [ValueEquals k None], kb_mutations = [SetValue k ''v'']\<rparr>"
  unfolding Let_def
  by (subst batch_new_accepts)
     (simp_all add: entry_ok_def is_ok_validate_namespace is_ok_validate_key NUL_def entry_bytes_def
        expected_len_def condition_entries_def mutation_entries_def MAX_KV_BATCH_OPERATIONS_def
        MAX_KV_BATCH_PAYLOAD_BYTES_def)

section \<open>Abstract batches\<close>

type_synonym kv_view = "KvEntryKey \<Rightarrow> string option"

definition cond_holds :: "kv_view \<Rightarrow> KvBatchCondition \<Rightarrow> bool" where
  "cond_holds m c \<longleftrightarrow> m (bc_key c) = bc_expected c"

fun write_all :: "KvBatchMutation list \<Rightarrow> kv_view \<Rightarrow> kv_view" where
  "write_all [] m = m"
| "write_all (mu # ms) m = write_all ms (m(bm_key mu := bm_value mu))"

definition batch_outcome :: "kv_view \<Rightarrow> KvMutationBatch \<Rightarrow> KvBatchOutcome" where
  "batch_outcome m b =
     \<lparr>bo_applied = list_all (cond_holds m) (kb_conditions b),
      bo_conditions = map (\<lambda>c. \<lparr>cr_key = bc_key c, cr_matched = cond_holds m c\<rparr>) (kb_conditions b)\<rparr>"

definition batch_effect :: "kv_view \<Rightarrow> KvMutationBatch \<Rightarrow> kv_view" where
  "batch_effect m b =
     (if list_all (cond_holds m) (kb_conditions b) then write_all (kb_mutations b) m else m)"

lemma write_all_other: "e \<notin> bm_key ` set ms \<Longrightarrow> write_all ms m e = m e"
  by (induction ms arbitrary: m) auto

lemma write_all_mem:
  "distinct (map bm_key ms) \<Longrightarrow> mu \<in> set ms \<Longrightarrow> write_all ms m (bm_key mu) = bm_value mu"
  by (induction ms arbitrary: m) (auto simp: write_all_other)

text \<open>With distinct keys the order of the mutations does not matter.\<close>

lemma write_all_perm:
  assumes "mset ms = mset ms'" and "distinct (map bm_key ms)"
  shows "write_all ms m = write_all ms' m"
proof (rule ext)
  fix e
  have d: "distinct (map bm_key ms')"
    using assms by (metis mset_eq_imp_distinct_iff mset_map)
  have st: "set ms = set ms'" using assms(1) by (rule mset_eq_setD)
  show "write_all ms m e = write_all ms' m e"
  proof (cases "e \<in> bm_key ` set ms")
    case True
    then obtain mu where "mu \<in> set ms" "e = bm_key mu" by auto
    then show ?thesis using write_all_mem [OF assms(2)] write_all_mem [OF d] st by simp
  next
    case False
    then show ?thesis using st by (simp add: write_all_other)
  qed
qed

section \<open>The contract of an atomic backend\<close>

locale atomic_kv =
  fixes ops :: "'s KvStore"
    and view :: "'s \<Rightarrow> kv_view"
    and inv :: "'s \<Rightarrow> bool"
  assumes supports: "kv_supports_atomic_batch ops"
    and get_view: "entry_ok e \<Longrightarrow> kv_get ops s (ke_namespace e) (ke_key e) = Inr (view s e)"
    and list_view: "inv s \<Longrightarrow> is_ok (validate_namespace n) \<Longrightarrow> is_ok (validate_prefix p) \<Longrightarrow>
      \<exists>ks. kv_list_keys_with_prefix ops s n p = Inr ks \<and> distinct ks
        \<and> set ks = {k. view s \<lparr>ke_namespace = n, ke_key = k\<rparr> \<noteq> None \<and> starts_with p k}"
    and view_ok: "view s e \<noteq> None \<Longrightarrow> entry_ok e"
    and batch_outcome: "batch_wf b \<Longrightarrow> fst (kv_apply_batch ops s b) = Inr (batch_outcome (view s) b)"
    and batch_view: "batch_wf b \<Longrightarrow> view (snd (kv_apply_batch ops s b)) = batch_effect (view s) b"
    and batch_inv: "inv s \<Longrightarrow> batch_wf b \<Longrightarrow> inv (snd (kv_apply_batch ops s b))"
begin

text \<open>A batch built from validated operations behaves as its unsorted operations say.\<close>

lemma apply_new_batch:
  assumes ok: "\<forall>c \<in> set cs. entry_ok (bc_key c)" "\<forall>m \<in> set ms. entry_ok (bm_key m)"
    and b: "KvMutationBatch_new cs ms = Inr b"
  shows "\<exists>oc s'. kv_apply_batch ops s b = (Inr oc, s')
     \<and> bo_applied oc = list_all (cond_holds (view s)) cs
     \<and> view s' = (if list_all (cond_holds (view s)) cs then write_all ms (view s) else view s)
     \<and> (inv s \<longrightarrow> inv s')"
proof -
  let ?cs = "sort_key (composite \<circ> bc_key) cs" and ?ms = "sort_key (composite \<circ> bm_key) ms"
  have d: "distinct (map bc_key cs)" "distinct (map bm_key ms)"
    and beq: "b = \<lparr>kb_conditions = ?cs, kb_mutations = ?ms\<rparr>"
    using b unfolding batch_new_iff [OF ok] by blast+
  have "distinct (map bc_key ?cs)" "distinct (map bm_key ?ms)"
    using d by (metis mset_eq_imp_distinct_iff mset_map mset_sort)+
  then have wf: "batch_wf b"
    using ok by (auto simp: batch_wf_def beq list_all_iff)
  have "write_all ?ms (view s) = write_all ms (view s)"
    using d by (intro write_all_perm [symmetric]) auto
  then have "view (snd (kv_apply_batch ops s b)) =
      (if list_all (cond_holds (view s)) cs then write_all ms (view s) else view s)"
    unfolding batch_view [OF wf] by (simp add: batch_effect_def beq list_all_iff)
  moreover have "bo_applied (batch_outcome (view s) b) = list_all (cond_holds (view s)) cs"
    by (simp add: Kv_Store.batch_outcome_def beq list_all_iff)
  ultimately show ?thesis
    using batch_outcome [OF wf, of s] batch_inv [OF _ wf, of s]
    by (intro exI [of _ "batch_outcome (view s) b"] exI [of _ "snd (kv_apply_batch ops s b)"])
       (simp add: prod_eq_iff)
qed

end

section \<open>The in-memory backend refines the contract\<close>

definition mem_view :: "MemoryKvStore \<Rightarrow> kv_view" where
  "mem_view s e = (if entry_ok e then hm_get (mem_data s) (full_key (ke_namespace e) (ke_key e)) else None)"

definition mem_inv :: "MemoryKvStore \<Rightarrow> bool" where
  "mem_inv s \<longleftrightarrow> hm_wf (mem_data s)
     \<and> (\<forall>f \<in> set (hm_keys (mem_data s)). \<exists>e. entry_ok e \<and> f = full_key (ke_namespace e) (ke_key e))"

lemma mem_inv_new [simp]: "mem_inv MemoryKvStore_new"
  by (simp add: mem_inv_def MemoryKvStore_new_def hm_keys_def)

lemma mem_view_new [simp]: "mem_view MemoryKvStore_new e = None"
  by (simp add: mem_view_def MemoryKvStore_new_def)

lemma mem_view_apply_mutation:
  "entry_ok (bm_key mu) \<Longrightarrow> mem_view (s\<lparr>mem_data := apply_mutation mu (mem_data s)\<rparr>)
     = (mem_view s)(bm_key mu := bm_value mu)"
  by (cases mu) (auto simp: mem_view_def hm.get_insert hm.get_remove full_key_inject fun_eq_iff)

lemma mem_inv_apply_mutation:
  assumes "entry_ok (bm_key mu)" and "mem_inv s"
  shows "mem_inv (s\<lparr>mem_data := apply_mutation mu (mem_data s)\<rparr>)"
  using assms
  by (cases mu)
     (auto simp: mem_inv_def hm_keys_iff hm.get_insert hm.get_remove
        intro: hm.wf_insert hm.wf_remove split: if_splits)

lemma mem_fold_mutations:
  assumes "\<forall>mu \<in> set ms. entry_ok (bm_key mu)"
  shows "mem_view (s\<lparr>mem_data := fold apply_mutation ms (mem_data s)\<rparr>) = write_all ms (mem_view s)
    \<and> (mem_inv s \<longrightarrow> mem_inv (s\<lparr>mem_data := fold apply_mutation ms (mem_data s)\<rparr>))"
  using assms
proof (induction ms arbitrary: s)
  case (Cons mu ms)
  let ?s = "s\<lparr>mem_data := apply_mutation mu (mem_data s)\<rparr>"
  have "mem_view (?s\<lparr>mem_data := fold apply_mutation ms (mem_data ?s)\<rparr>) = write_all ms (mem_view ?s)
    \<and> (mem_inv ?s \<longrightarrow> mem_inv (?s\<lparr>mem_data := fold apply_mutation ms (mem_data ?s)\<rparr>))"
    using Cons.prems by (intro Cons.IH) simp
  then show ?case
    using Cons.prems mem_view_apply_mutation [of mu s] mem_inv_apply_mutation [of mu s] by simp
qed simp

lemma check_condition_view:
  "entry_ok (bc_key c) \<Longrightarrow>
     check_condition (mem_data s) c = \<lparr>cr_key = bc_key c, cr_matched = cond_holds (mem_view s) c\<rparr>"
  by (simp add: check_condition_def cond_holds_def mem_view_def)

lemma mem_apply_batch_refines:
  assumes "batch_wf b"
  shows "fst (mem_apply_batch s b) = Inr (batch_outcome (mem_view s) b)
    \<and> mem_view (snd (mem_apply_batch s b)) = batch_effect (mem_view s) b
    \<and> (mem_inv s \<longrightarrow> mem_inv (snd (mem_apply_batch s b)))"
proof -
  have cs: "map (check_condition (mem_data s)) (kb_conditions b)
      = map (\<lambda>c. \<lparr>cr_key = bc_key c, cr_matched = cond_holds (mem_view s) c\<rparr>) (kb_conditions b)"
    using assms by (auto simp: batch_wf_def list_all_iff check_condition_view)
  have "mem_view (s\<lparr>mem_data := fold apply_mutation (kb_mutations b) (mem_data s)\<rparr>)
      = write_all (kb_mutations b) (mem_view s)
    \<and> (mem_inv s \<longrightarrow> mem_inv (s\<lparr>mem_data := fold apply_mutation (kb_mutations b) (mem_data s)\<rparr>))"
    using assms by (intro mem_fold_mutations) (auto simp: batch_wf_def list_all_iff)
  then show ?thesis
    by (simp add: mem_apply_batch_def Let_def cs batch_outcome_def batch_effect_def list_all_iff)
qed

lemma mem_keys_view:
  assumes "mem_inv s" and "is_ok (validate_namespace n)"
  shows "full_key n k \<in> set (hm_keys (mem_data s)) \<longleftrightarrow>
    mem_view s \<lparr>ke_namespace = n, ke_key = k\<rparr> \<noteq> None"
proof
  assume key: "full_key n k \<in> set (hm_keys (mem_data s))"
  then obtain e where e: "entry_ok e" "full_key n k = full_key (ke_namespace e) (ke_key e)"
    using assms(1) unfolding mem_inv_def by blast
  then have "ke_namespace e = n" "ke_key e = k"
    using assms(2)
    by (auto simp: full_key_def entry_ok_def is_ok_validate_namespace split_at_separator)
  then show "mem_view s \<lparr>ke_namespace = n, ke_key = k\<rparr> \<noteq> None"
    using key e(1) by (simp add: mem_view_def entry_ok_def hm_keys_iff)
qed (simp add: mem_view_def hm_keys_iff split: if_splits)

lemma mem_list_view:
  assumes inv: "mem_inv s" and n: "is_ok (validate_namespace n)" and p: "is_ok (validate_prefix p)"
  shows "\<exists>ks. mem_list_keys_with_prefix s n p = Inr ks \<and> distinct ks
        \<and> set ks = {k. mem_view s \<lparr>ke_namespace = n, ke_key = k\<rparr> \<noteq> None \<and> starts_with p k}"
proof -
  let ?fs = "filter (starts_with (full_key n p)) (hm_keys (mem_data s))"
  have shape: "f = full_key n (drop (length n + 1) f) \<and> starts_with p (drop (length n + 1) f)"
    if "starts_with (full_key n p) f" for f
    using that by (auto simp: starts_with_append full_key_def)
  have "inj_on (drop (length n + 1)) (set ?fs)"
    by (rule inj_onI) (metis (no_types, lifting) filter_eq_Cons_iff mem_Collect_eq set_filter shape)
  moreover have "distinct ?fs"
    using inv by (simp add: mem_inv_def hm_wf_def hm_keys_def)
  ultimately have "distinct (map (drop (length n + 1)) ?fs)" by (simp add: distinct_map)
  moreover have "set (map (drop (length n + 1)) ?fs)
      = {k. full_key n k \<in> set (hm_keys (mem_data s)) \<and> starts_with p k}"
  proof (intro set_eqI iffI)
    fix k assume "k \<in> set (map (drop (length n + 1)) ?fs)"
    then obtain f where "f \<in> set ?fs" "k = drop (length n + 1) f" by auto
    then show "k \<in> {k. full_key n k \<in> set (hm_keys (mem_data s)) \<and> starts_with p k}"
      using shape [of f] by auto
  next
    fix k assume "k \<in> {k. full_key n k \<in> set (hm_keys (mem_data s)) \<and> starts_with p k}"
    then have "full_key n k \<in> set ?fs" by (auto simp: starts_with_append full_key_def)
    moreover have "drop (length n + 1) (full_key n k) = k" by (simp add: full_key_def)
    ultimately show "k \<in> set (map (drop (length n + 1)) ?fs)" by (metis image_eqI image_set)
  qed
  ultimately show ?thesis
    using n p by (auto simp: mem_list_keys_with_prefix_def is_ok_iff mem_keys_view [OF inv])
qed

interpretation mem: atomic_kv memory_kv mem_view mem_inv
proof unfold_locales
  fix e s
  show "entry_ok e \<Longrightarrow> kv_get memory_kv s (ke_namespace e) (ke_key e) = Inr (mem_view s e)"
    by (auto simp: memory_kv_def mem_get_def mem_view_def entry_ok_def is_ok_iff)
qed (use mem_list_view mem_apply_batch_refines in
      \<open>auto simp: memory_kv_def mem_view_def split: if_splits\<close>)

section \<open>The contract of single reads and writes\<close>

text \<open>
  What a client of single operations may rely on.  A read that succeeds reports the value; a write that
  succeeds has happened; a write that fails may have happened or not; no write touches another entry; a
  listing that succeeds is complete.
\<close>

locale plain_kv =
  fixes ops :: "'s KvStore"
    and view :: "'s \<Rightarrow> kv_view"
    and inv :: "'s \<Rightarrow> bool"
  assumes get_law: "inv s \<Longrightarrow> kv_get ops s n k = Inr found \<Longrightarrow> found = view s \<lparr>ke_namespace = n, ke_key = k\<rparr>"
    and set_law: "inv s \<Longrightarrow> kv_set ops s n k v = (r, s') \<Longrightarrow> inv s'
      \<and> (\<forall>e. e \<noteq> \<lparr>ke_namespace = n, ke_key = k\<rparr> \<longrightarrow> view s' e = view s e)
      \<and> (let x = view s' \<lparr>ke_namespace = n, ke_key = k\<rparr>
         in x = Some v \<or> \<not> is_ok r \<and> x = view s \<lparr>ke_namespace = n, ke_key = k\<rparr>)"
    and delete_law: "inv s \<Longrightarrow> kv_delete ops s n k = (d, s') \<Longrightarrow> inv s'
      \<and> (\<forall>e. e \<noteq> \<lparr>ke_namespace = n, ke_key = k\<rparr> \<longrightarrow> view s' e = view s e)
      \<and> (let x = view s' \<lparr>ke_namespace = n, ke_key = k\<rparr>
         in x = None \<or> \<not> is_ok d \<and> x = view s \<lparr>ke_namespace = n, ke_key = k\<rparr>)"
    and list_keys_law: "inv s \<Longrightarrow> kv_list_keys ops s n = Inr ks
      \<Longrightarrow> set ks = {k. view s \<lparr>ke_namespace = n, ke_key = k\<rparr> \<noteq> None}"
    and list_prefix_law: "inv s \<Longrightarrow> kv_list_keys_with_prefix ops s n p = Inr ks
      \<Longrightarrow> set ks = {k. view s \<lparr>ke_namespace = n, ke_key = k\<rparr> \<noteq> None \<and> starts_with p k}"

lemma mem_set_view:
  assumes "mem_inv s" and "mem_set s n k v = (r, s')"
  shows "mem_inv s' \<and> mem_view s' = (if is_ok r then (mem_view s)(\<lparr>ke_namespace = n, ke_key = k\<rparr> := Some v) else mem_view s)"
proof (cases "entry_ok \<lparr>ke_namespace = n, ke_key = k\<rparr>")
  case True
  then have "r = Inr ()" "s' = s\<lparr>mem_data := hm_insert (full_key n k) v (mem_data s)\<rparr>"
    using assms(2) by (auto simp: mem_set_def entry_ok_def is_ok_iff)
  then show ?thesis
    using assms(1) mem_view_apply_mutation [of "SetValue \<lparr>ke_namespace = n, ke_key = k\<rparr> v" s] True
      mem_inv_apply_mutation [of "SetValue \<lparr>ke_namespace = n, ke_key = k\<rparr> v" s] by simp
next
  case False
  then obtain e where "and_then (validate_namespace n) (\<lambda>_. validate_key k) = Inl e"
    by (cases "validate_namespace n"; cases "validate_key k") (auto simp: entry_ok_def)
  then have "\<not> is_ok r \<and> s' = s" using assms(2) by (simp add: mem_set_def) (metis is_ok_simps(1))
  then show ?thesis using assms(1) by simp
qed

lemma mem_delete_view:
  assumes "mem_inv s" and "mem_delete s n k = (r, s')"
  shows "mem_inv s' \<and> mem_view s' = (if is_ok r then (mem_view s)(\<lparr>ke_namespace = n, ke_key = k\<rparr> := None) else mem_view s)"
proof (cases "entry_ok \<lparr>ke_namespace = n, ke_key = k\<rparr>")
  case True
  then have "is_ok r" "s' = s\<lparr>mem_data := hm_remove (full_key n k) (mem_data s)\<rparr>"
    using assms(2) by (auto simp: mem_delete_def entry_ok_def is_ok_iff)
  then show ?thesis
    using assms(1) mem_view_apply_mutation [of "DeleteKey \<lparr>ke_namespace = n, ke_key = k\<rparr>" s] True
      mem_inv_apply_mutation [of "DeleteKey \<lparr>ke_namespace = n, ke_key = k\<rparr>" s] by simp
next
  case False
  then obtain e where "and_then (validate_namespace n) (\<lambda>_. validate_key k) = Inl e"
    by (cases "validate_namespace n"; cases "validate_key k") (auto simp: entry_ok_def)
  then have "\<not> is_ok r \<and> s' = s" using assms(2) by (auto simp: mem_delete_def)
  then show ?thesis using assms(1) by simp
qed

lemma mem_list_keys_view:
  assumes inv: "mem_inv s" and ks: "mem_list_keys s n = Inr ks"
  shows "set ks = {k. mem_view s \<lparr>ke_namespace = n, ke_key = k\<rparr> \<noteq> None}"
proof -
  have n: "is_ok (validate_namespace n)"
    and k: "ks = List.map_filter (strip_prefix (n @ [NUL])) (hm_keys (mem_data s))"
    using ks by (auto simp: mem_list_keys_def result_simps is_ok_iff)
  have "k \<in> set ks \<longleftrightarrow> full_key n k \<in> set (hm_keys (mem_data s))" for k
  proof -
    have "k \<in> set ks \<longleftrightarrow> (\<exists>f \<in> set (hm_keys (mem_data s)). strip_prefix (n @ [NUL]) f = Some k)"
      unfolding k by (force simp: List.map_filter_def)
    then show ?thesis by (auto simp: strip_prefix_Some_iff full_key_def)
  qed
  then show ?thesis using mem_keys_view [OF inv n] by auto
qed

interpretation memk: plain_kv memory_kv mem_view mem_inv
proof unfold_locales
  fix s n p ks
  assume inv: "mem_inv s" and run: "kv_list_keys_with_prefix memory_kv s n p = Inr ks"
  then have "is_ok (validate_namespace n)" "is_ok (validate_prefix p)"
    by (auto simp: memory_kv_def mem_list_keys_with_prefix_def result_simps is_ok_iff)
  from mem_list_view [OF inv this] run
  show "set ks = {k. mem_view s \<lparr>ke_namespace = n, ke_key = k\<rparr> \<noteq> None \<and> starts_with p k}"
    by (auto simp: memory_kv_def)
next
  fix s n k v
  assume "kv_get memory_kv s n k = Inr v"
  then show "v = mem_view s \<lparr>ke_namespace = n, ke_key = k\<rparr>"
    by (auto simp: memory_kv_def mem_get_def mem_view_def entry_ok_def result_simps is_ok_iff)
next
  fix s n k v r s'
  assume "mem_inv s" "kv_set memory_kv s n k v = (r, s')"
  then have "mem_inv s' \<and> mem_view s' = (if is_ok r then (mem_view s)(\<lparr>ke_namespace = n, ke_key = k\<rparr> := Some v) else mem_view s)"
    by (intro mem_set_view) (simp_all add: memory_kv_def)
  then show "mem_inv s' \<and> (\<forall>e. e \<noteq> \<lparr>ke_namespace = n, ke_key = k\<rparr> \<longrightarrow> mem_view s' e = mem_view s e)
      \<and> (let x = mem_view s' \<lparr>ke_namespace = n, ke_key = k\<rparr>
         in x = Some v \<or> \<not> is_ok r \<and> x = mem_view s \<lparr>ke_namespace = n, ke_key = k\<rparr>)"
    by (simp add: Let_def)
next
  fix s n k d s'
  assume "mem_inv s" "kv_delete memory_kv s n k = (d, s')"
  then have "mem_inv s' \<and> mem_view s' = (if is_ok d then (mem_view s)(\<lparr>ke_namespace = n, ke_key = k\<rparr> := None) else mem_view s)"
    by (intro mem_delete_view) (simp_all add: memory_kv_def)
  then show "mem_inv s' \<and> (\<forall>e. e \<noteq> \<lparr>ke_namespace = n, ke_key = k\<rparr> \<longrightarrow> mem_view s' e = mem_view s e)
      \<and> (let x = mem_view s' \<lparr>ke_namespace = n, ke_key = k\<rparr>
         in x = None \<or> \<not> is_ok d \<and> x = mem_view s \<lparr>ke_namespace = n, ke_key = k\<rparr>)"
    by (simp add: Let_def)
next
  fix s n ks
  assume "mem_inv s" "kv_list_keys memory_kv s n = Inr ks"
  then show "set ks = {k. mem_view s \<lparr>ke_namespace = n, ke_key = k\<rparr> \<noteq> None}"
    by (intro mem_list_keys_view) (simp_all add: memory_kv_def)
qed

text \<open>
  C9.  A batch on the in-memory store is all or nothing: it reports for every condition whether
  the current value matched, it is applied exactly when every condition matched, and then every
  mutated key has its new value and every other key of every namespace is untouched; a batch with
  an unmatched condition changes nothing.
\<close>

theorem memory_batch_atomic:
  assumes "batch_wf b" and "mem_inv s"
  shows "\<exists>s'. mem_apply_batch s b = (Inr (batch_outcome (mem_view s) b), s') \<and> mem_inv s'
    \<and> (if \<forall>c \<in> set (kb_conditions b). cond_holds (mem_view s) c
       then (\<forall>mu \<in> set (kb_mutations b). mem_view s' (bm_key mu) = bm_value mu)
            \<and> (\<forall>e. e \<notin> bm_key ` set (kb_mutations b) \<longrightarrow> mem_view s' e = mem_view s e)
       else mem_view s' = mem_view s)"
proof -
  have "distinct (map bm_key (kb_mutations b))" using assms(1) by (simp add: batch_wf_def)
  then show ?thesis
    using mem_apply_batch_refines [OF assms(1), of s] assms(2)
    by (intro exI [of _ "snd (mem_apply_batch s b)"])
       (auto simp: prod_eq_iff batch_effect_def list_all_iff write_all_mem write_all_other)
qed

theorem memory_batch_atomic_witness:
  "let k = \<lparr>ke_namespace = ''ns'', ke_key = ''k''\<rparr>;
       b = \<lparr>kb_conditions = [ValueEquals k None], kb_mutations = [SetValue k ''v'']\<rparr>
   in \<exists>s'. mem_apply_batch MemoryKvStore_new b = (Inr (batch_outcome (mem_view MemoryKvStore_new) b), s')
        \<and> mem_view s' k = Some ''v''"
  unfolding Let_def
  using memory_batch_atomic
    [of "\<lparr>kb_conditions = [ValueEquals \<lparr>ke_namespace = ''ns'', ke_key = ''k''\<rparr> None],
          kb_mutations = [SetValue \<lparr>ke_namespace = ''ns'', ke_key = ''k''\<rparr> ''v'']\<rparr>" MemoryKvStore_new]
  by (auto simp: batch_wf_def entry_ok_def is_ok_validate_namespace is_ok_validate_key NUL_def
      cond_holds_def)

lemma hm_get_fold_remove:
  "hm_get (fold hm_remove ks m) k = (if k \<in> set ks then None else hm_get m k)"
  by (induction ks arbitrary: m) (auto simp: hm.get_remove)

lemma hm_wf_fold_remove: "hm_wf m \<Longrightarrow> hm_wf (fold hm_remove ks m)"
  by (induction ks arbitrary: m) (auto intro: hm.wf_remove)

lemma starts_with_namespace:
  assumes "entry_ok e" and "is_ok (validate_namespace n)"
  shows "starts_with (n @ [NUL]) (full_key (ke_namespace e) (ke_key e)) \<longleftrightarrow> ke_namespace e = n"
  using assms
  by (auto simp: starts_with_append full_key_def entry_ok_def is_ok_validate_namespace split_at_separator)

lemma mem_clear_view:
  assumes e: "entry_ok e"
  shows "mem_view (s\<lparr>mem_data := fold hm_remove (filter P (hm_keys (mem_data s))) (mem_data s)\<rparr>) e
     = (if P (full_key (ke_namespace e) (ke_key e)) then None else mem_view s e)"
  by (cases "full_key (ke_namespace e) (ke_key e) \<in> set (hm_keys (mem_data s))")
     (use e in \<open>auto simp: mem_view_def hm_get_fold_remove hm_keys_iff\<close>)

text \<open>
  Clearing a namespace removes every key of that namespace, leaves every key of every other
  namespace with its value, and keeps the store well formed.
\<close>

theorem clear_namespace_isolated:
  assumes "mem_inv s" and "is_ok (validate_namespace n)"
  shows "\<exists>c s'. mem_clear_namespace s n = (Inr c, s') \<and> mem_inv s'
    \<and> (\<forall>e. mem_view s' e = (if ke_namespace e = n then None else mem_view s e))"
proof -
  let ?ks = "filter (starts_with (n @ [NUL])) (hm_keys (mem_data s))"
  let ?s = "s\<lparr>mem_data := fold hm_remove ?ks (mem_data s)\<rparr>"
  have "mem_view ?s e = (if ke_namespace e = n then None else mem_view s e)" for e
  proof (cases "entry_ok e")
    case True
    then show ?thesis using mem_clear_view [OF True] starts_with_namespace [OF True assms(2)] by simp
  qed (simp add: mem_view_def)
  moreover have "mem_inv ?s"
    using assms(1) by (auto simp: mem_inv_def hm_wf_fold_remove hm_keys_iff hm_get_fold_remove)
  ultimately show ?thesis
    using assms(2) by (auto simp: mem_clear_namespace_def is_ok_iff Let_def)
qed

theorem clear_namespace_isolated_witness:
  "\<exists>c s'. mem_clear_namespace MemoryKvStore_new ''a'' = (Inr c, s') \<and> mem_inv s'"
  using clear_namespace_isolated [of MemoryKvStore_new "''a''"]
  by (auto simp: is_ok_validate_namespace NUL_def)

end
