(* ===== verification/Capability_Grammar.thy ===== *)
theory Capability_Grammar
  imports Astrid_Prelude
begin

text \<open>
  The static capability strings of \<open>crates/astrid-core/src/capability_grammar.rs\<close>: the
  validator, the pattern matcher the kernel evaluates on every management request, and the
  capabilities that exempt a principal from its resource bounds.  The validator is shown to
  decide the grammar of the module comment, and the matcher to compute the declarative reading of
  a pattern; the matcher is a preorder on segment lists and decides containment of patterns, which is
  what makes the subset check of device pairing sound.
\<close>

section \<open>Constants and errors\<close>

definition MAX_CAPABILITY_LEN :: nat where
  "MAX_CAPABILITY_LEN = 256"

definition CAP_RESOURCES_UNBOUNDED :: string where
  "CAP_RESOURCES_UNBOUNDED = ''system:resources:unbounded''"

definition CAP_NET_BIND :: string where
  "CAP_NET_BIND = ''net_bind''"

definition CAP_UPLINK :: string where
  "CAP_UPLINK = ''uplink''"

definition EXEMPT_CAPABILITIES :: "string list" where
  "EXEMPT_CAPABILITIES = [CAP_RESOURCES_UNBOUNDED, CAP_NET_BIND, CAP_UPLINK]"

datatype CapabilityGrammarError =
    Empty
  | TooLong
  | DoubleStar
  | EmptySegment
  | InvalidCharacter (segment: string) (bad: char)
  | PartialStar (segment: string)

section \<open>Validation\<close>

definition is_name_char :: "char \<Rightarrow> bool" where
  "is_name_char c \<longleftrightarrow> is_ascii_alphanumeric c \<or> c = CHR ''-'' \<or> c = CHR ''_''"

definition validate_segment :: "string \<Rightarrow> (CapabilityGrammarError, unit) result" where
  "validate_segment seg =
     (if seg = [] then Inl EmptySegment
      else if seg = ''*'' then Inr ()
      else if CHR ''*'' \<in> set seg then Inl (PartialStar seg)
      else (case find (\<lambda>c. \<not> is_name_char c) seg of
              Some b \<Rightarrow> Inl (InvalidCharacter seg b)
            | None \<Rightarrow> Inr ()))"

definition validate_capability :: "string \<Rightarrow> (CapabilityGrammarError, unit) result" where
  "validate_capability cap =
     (if cap = [] then Inl Empty
      else if length cap > MAX_CAPABILITY_LEN then Inl TooLong
      else if contains_str ''**'' cap then Inl DoubleStar
      else try_each validate_segment (split_on CHR '':'' cap))"

section \<open>Matching\<close>

text \<open>
  The loop of \<open>capability_matches\<close> over the two segment iterators; \<open>pat_iter.peek().is_none()\<close>
  is the test that the rest of the pattern is empty.
\<close>

fun match_segments :: "string list \<Rightarrow> string list \<Rightarrow> bool" where
  "match_segments (p # ps) (c # cs) =
     (if p = ''*'' then (if ps = [] then True else match_segments ps cs)
      else if p \<noteq> c then False
      else match_segments ps cs)"
| "match_segments [] [] = True"
| "match_segments (p # ps) [] = False"
| "match_segments [] (c # cs) = False"

definition capability_matches :: "string \<Rightarrow> string \<Rightarrow> bool" where
  "capability_matches pattern cap =
     (if pattern = ''*'' then True
      else match_segments (split_on CHR '':'' pattern) (split_on CHR '':'' cap))"

section \<open>The grammar as a language\<close>

definition segment_ok :: "string \<Rightarrow> bool" where
  "segment_ok seg \<longleftrightarrow> seg = ''*'' \<or> (seg \<noteq> [] \<and> (\<forall>c \<in> set seg. is_name_char c))"

definition capability_lang :: "string set" where
  "capability_lang =
     {join_with '':'' segs |segs. segs \<noteq> [] \<and> (\<forall>s \<in> set segs. segment_ok s)}"

lemma is_name_char_not_special [simp]:
  "\<not> is_name_char CHR ''*''" "\<not> is_name_char CHR '':''"
  by (simp_all add: is_name_char_def ascii_defs)

lemma validate_segment_ok: "validate_segment seg = Inr () \<longleftrightarrow> segment_ok seg"
proof (cases "find (\<lambda>c. \<not> is_name_char c) seg")
  case None
  then have "\<forall>c \<in> set seg. is_name_char c" by (auto simp: find_None_ball)
  then show ?thesis
    by (auto simp: validate_segment_def segment_ok_def None)
next
  case (Some b)
  then have "b \<in> set seg" "\<not> is_name_char b" by (auto dest: find_Some_iff)
  then show ?thesis
    by (auto simp: validate_segment_def segment_ok_def Some)
qed

lemma segment_ok_no_colon: "segment_ok seg \<Longrightarrow> CHR '':'' \<notin> set seg"
  by (auto simp: segment_ok_def)

lemma segment_ok_no_double_star: "segment_ok seg \<Longrightarrow> seg \<noteq> CHR ''*'' # CHR ''*'' # r"
  by (auto simp: segment_ok_def)

lemma segment_ok_tl_star: "segment_ok (x # s) \<Longrightarrow> CHR ''*'' \<notin> set s"
  by (auto simp: segment_ok_def)

text \<open>Two adjacent stars of a string are adjacent in one of its segments.\<close>

lemma double_star_in_segment:
  assumes "s = a @ ''**'' @ b"
  shows "\<exists>seg \<in> set (split_on CHR '':'' s). contains_str ''**'' seg"
  using assms
proof (induction a arbitrary: s)
  case Nil
  then show ?case by (auto simp: starts_with_iff split: list.splits)
next
  case (Cons x a)
  then obtain seg where seg: "seg \<in> set (split_on CHR '':'' (a @ ''**'' @ b))"
    and ds: "contains_str ''**'' seg" by blast
  obtain t ts where t: "split_on CHR '':'' (a @ ''**'' @ b) = t # ts"
    by (cases "split_on CHR '':'' (a @ ''**'' @ b)") auto
  show ?case
  proof (cases "x = CHR '':''")
    case True
    with Cons.prems seg ds show ?thesis by auto
  next
    case False
    with Cons.prems t have eq: "split_on CHR '':'' s = (x # t) # ts" by simp
    from seg t consider "seg = t" | "seg \<in> set ts" by auto
    then show ?thesis
    proof cases
      case 1
      with ds eq show ?thesis by simp
    next
      case 2
      with ds eq show ?thesis by auto
    qed
  qed
qed

lemma contains_double_star_not_ok: "contains_str ''**'' seg \<Longrightarrow> \<not> segment_ok seg"
  by (auto simp: contains_str_iff segment_ok_def Cons_eq_append_conv)

lemma validate_capability_split:
  "validate_capability cap = Inr () \<longleftrightarrow>
     length cap \<le> MAX_CAPABILITY_LEN \<and> (\<forall>s \<in> set (split_on CHR '':'' cap). segment_ok s)"
proof -
  have empty: "\<not> segment_ok []" by (simp add: segment_ok_def)
  have "contains_str ''**'' cap \<Longrightarrow> \<exists>s \<in> set (split_on CHR '':'' cap). \<not> segment_ok s"
    using double_star_in_segment contains_double_star_not_ok by (metis contains_str_iff)
  then show ?thesis
    using empty
    by (auto simp: validate_capability_def result_simps validate_segment_ok)
qed

lemma capability_lang_split:
  "cap \<in> capability_lang \<longleftrightarrow> (\<forall>s \<in> set (split_on CHR '':'' cap). segment_ok s)"
proof
  assume "cap \<in> capability_lang"
  then obtain segs where "cap = join_with '':'' segs" "segs \<noteq> []" "\<forall>s \<in> set segs. segment_ok s"
    by (auto simp: capability_lang_def)
  then show "\<forall>s \<in> set (split_on CHR '':'' cap). segment_ok s"
    by (simp add: split_join segment_ok_no_colon)
next
  assume "\<forall>s \<in> set (split_on CHR '':'' cap). segment_ok s"
  then show "cap \<in> capability_lang"
    unfolding capability_lang_def
    by (intro CollectI exI [of _ "split_on CHR '':'' cap"]) simp
qed

section \<open>The declarative reading of a pattern\<close>

definition segment_covers :: "string \<Rightarrow> string \<Rightarrow> bool" where
  "segment_covers p c \<longleftrightarrow> p = ''*'' \<or> p = c"

text \<open>
  A pattern whose last segment is a star covers every capability that extends its other segments
  by at least one segment; any other pattern covers segment by segment.
\<close>

definition pattern_covers :: "string list \<Rightarrow> string list \<Rightarrow> bool" where
  "pattern_covers ps cs \<longleftrightarrow>
     (if ps \<noteq> [] \<and> last ps = ''*''
      then length ps \<le> length cs \<and>
           list_all2 segment_covers (butlast ps) (take (length ps - 1) cs)
      else list_all2 segment_covers ps cs)"

lemma match_segments_covers: "match_segments ps cs \<longleftrightarrow> pattern_covers ps cs"
  by (induction ps cs rule: match_segments.induct)
     (auto simp: pattern_covers_def segment_covers_def take_Cons' Suc_le_eq split: if_splits)

lemma capability_matches_segments:
  "capability_matches p c = match_segments (split_on CHR '':'' p) (split_on CHR '':'' c)"
proof (cases "p = ''*''")
  case True
  then show ?thesis
    by (cases "split_on CHR '':'' c") (simp_all add: capability_matches_def)
qed (simp add: capability_matches_def)

lemma match_segments_refl: "match_segments ps ps"
  by (induction ps) auto

lemma match_segments_trans:
  "match_segments qs ps \<Longrightarrow> match_segments ps cs \<Longrightarrow> match_segments qs cs"
proof (induction qs ps arbitrary: cs rule: match_segments.induct)
  case (1 p ps c cs ds)
  then show ?case
    by (cases ds) (auto split: if_splits elim: match_segments.elims)
qed (auto elim: match_segments.elims)

lemma capability_matches_refl [simp]: "capability_matches p p"
  by (simp add: capability_matches_segments match_segments_refl)

lemma capability_matches_trans:
  "capability_matches q p \<Longrightarrow> capability_matches p c \<Longrightarrow> capability_matches q c"
  unfolding capability_matches_segments by (rule match_segments_trans)

lemma capability_matches_star [simp]: "capability_matches ''*'' c"
  by (simp add: capability_matches_def)

lemma matches_star_iff: "capability_matches q ''*'' \<longleftrightarrow> q = ''*''"
proof
  assume "capability_matches q ''*''"
  then have m: "match_segments (split_on CHR '':'' q) [''*'']"
    by (simp add: capability_matches_segments)
  then have "split_on CHR '':'' q = [''*'']"
    by (cases "split_on CHR '':'' q"; cases "tl (split_on CHR '':'' q)")
       (auto split: if_splits)
  then show "q = ''*''" by (metis join_split join_with.simps(2))
qed simp

section \<open>The grammar and the matcher\<close>

text \<open>
  The validator decides the grammar: it accepts exactly the strings of at most
  \<open>MAX_CAPABILITY_LEN\<close> bytes that are non-empty colon-separated lists of segments, each a lone
  star or a non-empty name over the allowed characters; every double star and every empty
  segment is refused.
\<close>

theorem validator_decides_grammar:
  "validate_capability cap = Inr () \<longleftrightarrow> length cap \<le> MAX_CAPABILITY_LEN \<and> cap \<in> capability_lang"
  by (simp add: validate_capability_split capability_lang_split)

text \<open>A concrete capability: a string of the grammar with no star.\<close>

definition concrete_lang :: "string set" where
  "concrete_lang = {cap \<in> capability_lang. ''*'' \<notin> set (split_on CHR '':'' cap)}"

text \<open>An instance of a pattern, with a name the other pattern does not use in the place of each star.\<close>

definition instance_of :: "string \<Rightarrow> string list \<Rightarrow> string list" where
  "instance_of name ps = map (\<lambda>s. if s = ''*'' then name else s) ps"

lemma match_own_instance: "match_segments ps (instance_of name ps)"
  by (induction ps) (auto simp: instance_of_def)

lemma match_instance:
  "match_segments qs (instance_of name ps) \<Longrightarrow> name \<notin> set qs \<Longrightarrow> match_segments qs ps"
  by (induction qs ps rule: match_segments.induct) (auto simp: instance_of_def split: if_splits)

lemma long_name:
  obtains name where "name \<notin> set qs" and "segment_ok name" and "name \<noteq> ''*''"
proof -
  define n where "n = Suc (sum_list (map length qs))"
  have "length q < n" if "q \<in> set qs" for q
    using member_le_sum_list [of "length q" "map length qs"] that by (simp add: n_def)
  then have "replicate n CHR ''a'' \<notin> set qs" by (metis length_replicate less_irrefl)
  moreover have "segment_ok (replicate n CHR ''a'')"
    by (simp add: segment_ok_def n_def is_name_char_def ascii_defs)
  moreover have "replicate n CHR ''a'' \<noteq> ''*''" by (simp add: n_def)
  ultimately show thesis by (rule that)
qed

lemma concrete_instance:
  assumes "p \<in> capability_lang" and "segment_ok name" and "name \<noteq> ''*''"
  shows "\<exists>c \<in> concrete_lang. split_on CHR '':'' c = instance_of name (split_on CHR '':'' p)"
proof
  let ?segs = "instance_of name (split_on CHR '':'' p)"
  have ok: "\<forall>s \<in> set ?segs. segment_ok s" and ne: "?segs \<noteq> []" and star: "''*'' \<notin> set ?segs"
    using assms by (auto simp: instance_of_def capability_lang_split)
  show split: "split_on CHR '':'' (join_with '':'' ?segs) = ?segs"
    using ok ne by (simp add: split_join segment_ok_no_colon)
  show "join_with '':'' ?segs \<in> concrete_lang"
    using ok star by (simp add: concrete_lang_def capability_lang_split split)
qed

lemma concrete_containment:
  assumes p: "p \<in> capability_lang"
    and sub: "{c \<in> concrete_lang. capability_matches p c} \<subseteq> {c. capability_matches q c}"
  shows "capability_matches q p"
proof -
  obtain name where name: "name \<notin> set (split_on CHR '':'' q)" "segment_ok name" "name \<noteq> ''*''" by (rule long_name)
  obtain c where c: "c \<in> concrete_lang" "split_on CHR '':'' c = instance_of name (split_on CHR '':'' p)"
    using concrete_instance [OF p name(2,3)] by blast
  then have "capability_matches p c" by (simp add: capability_matches_segments match_own_instance)
  then have "capability_matches q c" using sub c(1) by blast
  then show ?thesis using match_instance [OF _ name(1)] c(2) by (simp add: capability_matches_segments)
qed

text \<open>
  C40.  What a pattern means.  The matcher computes the declarative reading of a pattern: segment by
  segment, a star in the middle standing for exactly one segment and a final star for one or more.  And
  matching a pattern of the grammar against another decides containment of the sets of concrete,
  star-free capabilities they match, which is what lets the code compare scopes by matching patterns
  against patterns.
\<close>

theorem matching_decides_containment:
  assumes "p \<in> capability_lang"
  shows "capability_matches q cap = pattern_covers (split_on CHR '':'' q) (split_on CHR '':'' cap)
    \<and> (capability_matches q p \<longleftrightarrow> {c \<in> concrete_lang. capability_matches p c} \<subseteq> {c. capability_matches q c})"
proof
  show "capability_matches q cap = pattern_covers (split_on CHR '':'' q) (split_on CHR '':'' cap)"
    by (simp only: capability_matches_segments match_segments_covers)
  show "capability_matches q p \<longleftrightarrow> {c \<in> concrete_lang. capability_matches p c} \<subseteq> {c. capability_matches q c}"
    using concrete_containment [OF assms] capability_matches_trans [of q p] by blast
qed

theorem matching_decides_containment_witness:
  "capability_matches ''self:*'' ''self:env:*'' \<and> {c \<in> concrete_lang. capability_matches ''self:env:*'' c} \<subseteq> {c. capability_matches ''self:*'' c}
   \<and> ''self:env:a'' \<in> concrete_lang \<and> capability_matches ''self:env:*'' ''self:env:a''
   \<and> pattern_covers [''self'', ''*''] [''self'', ''env'', ''a'']"
proof -
  have lang: "''self:env:*'' \<in> capability_lang" "''self:env:a'' \<in> concrete_lang"
    by (simp_all add: concrete_lang_def capability_lang_split segment_ok_def is_name_char_def ascii_defs)
  have "capability_matches ''self:*'' ''self:env:*''" "capability_matches ''self:*'' ''self:env:a''"
      "capability_matches ''self:env:*'' ''self:env:a''" by code_simp+
  then show ?thesis
    using matching_decides_containment [OF lang(1), of "''self:*''" "''self:env:a''"] lang(2) by simp
qed

end
