(* ===== verification/Principal_Profile.thy ===== *)
theory Principal_Profile
  imports Capability_Grammar Hash_Map
begin

text \<open>
  Principal identifiers, profiles and device keys: \<open>crates/astrid-core/src/principal.rs\<close> and
  \<open>crates/astrid-core/src/profile/\<close> (\<open>mod.rs\<close>, \<open>field.rs\<close>, \<open>validation.rs\<close>,
  \<open>device.rs\<close>).  The human-readable messages of \<open>ProfileError::Invalid\<close> are the constructors
  of \<open>InvalidReason\<close>.  BLAKE3 and the \<open>hex\<close> crate are not part of the repository: the
  fingerprint of a public key is the parameter \<open>fp\<close> of the definitions that derive a key id.
\<close>

section \<open>Principal identifiers\<close>

datatype PrincipalIdError = PidEmpty | PidTooLong | PidInvalidChar char

datatype PrincipalId = PrincipalId (pid_str: string)

definition PrincipalId_new :: "string \<Rightarrow> (PrincipalIdError, PrincipalId) result" where
  "PrincipalId_new s =
     (if s = [] then Inl PidEmpty
      else if length s > 64 then Inl PidTooLong
      else (case find (\<lambda>c. \<not> is_name_char c) s of
              Some ch \<Rightarrow> Inl (PidInvalidChar ch)
            | None \<Rightarrow> Inr (PrincipalId s)))"

definition anonymous :: PrincipalId where
  "anonymous = PrincipalId ''anonymous''"

definition default_principal :: PrincipalId where
  "default_principal = PrincipalId ''default''"

section \<open>Typed profile fields\<close>

definition MAX_GROUP_NAME_LEN :: nat where
  "MAX_GROUP_NAME_LEN = 64"

definition MAX_CAPSULE_GRANT_LEN :: nat where
  "MAX_CAPSULE_GRANT_LEN = 128"

datatype EntryReason = EntryEmpty | EntryTooLong string | EntryBadChar string char

datatype ProfileFieldError =
    InvalidGroupName EntryReason
  | InvalidCapabilityPattern CapabilityGrammarError
  | InvalidCapsuleGrant EntryReason

datatype GroupName = GroupName (group_str: string)
datatype CapabilityPattern = CapabilityPattern (pattern_str: string)
datatype CapsuleGrant = CapsuleGrant (capsule_str: string)

definition validate_group_name_str :: "string \<Rightarrow> (ProfileFieldError, unit) result" where
  "validate_group_name_str name =
     (if name = [] then Inl (InvalidGroupName EntryEmpty)
      else if length name > MAX_GROUP_NAME_LEN then Inl (InvalidGroupName (EntryTooLong name))
      else (case find (\<lambda>c. \<not> is_ascii_alphanumeric c \<and> c \<noteq> CHR ''-'' \<and> c \<noteq> CHR ''_'') name of
              Some b \<Rightarrow> Inl (InvalidGroupName (EntryBadChar name b))
            | None \<Rightarrow> Inr ()))"

definition validate_capsule_grant_str :: "string \<Rightarrow> (ProfileFieldError, unit) result" where
  "validate_capsule_grant_str i =
     (if i = [] then Inl (InvalidCapsuleGrant EntryEmpty)
      else if length i > MAX_CAPSULE_GRANT_LEN then Inl (InvalidCapsuleGrant (EntryTooLong i))
      else (case find (\<lambda>c. \<not> is_ascii_lowercase c \<and> \<not> is_ascii_digit c \<and> c \<noteq> CHR ''-'') i of
              Some b \<Rightarrow> Inl (InvalidCapsuleGrant (EntryBadChar i b))
            | None \<Rightarrow> Inr ()))"

definition GroupName_new :: "string \<Rightarrow> (ProfileFieldError, GroupName) result" where
  "GroupName_new name =
     and_then (validate_group_name_str name) (\<lambda>_. Inr (GroupName name))"

definition CapabilityPattern_new :: "string \<Rightarrow> (ProfileFieldError, CapabilityPattern) result" where
  "CapabilityPattern_new pattern =
     and_then (map_err InvalidCapabilityPattern (validate_capability pattern))
       (\<lambda>_. Inr (CapabilityPattern pattern))"

definition CapsuleGrant_new :: "string \<Rightarrow> (ProfileFieldError, CapsuleGrant) result" where
  "CapsuleGrant_new i =
     and_then (validate_capsule_grant_str i) (\<lambda>_. Inr (CapsuleGrant i))"

section \<open>Device keys\<close>

datatype DeviceScope =
    Full
  | Scoped (scope_allow: "string list") (scope_deny: "string list")

definition DeviceScope_preset :: "string \<Rightarrow> DeviceScope option" where
  "DeviceScope_preset name =
     (if name = ''full'' then Some Full
      else if name = ''use-only''
        then Some (Scoped [''self:*'']
               [''self:auth:pair'', ''self:auth:pair:admin'', ''delegate:self:*''])
      else None)"

record DeviceKey =
  key_id :: string
  pubkey :: string
  scope :: DeviceScope
  dk_label :: "string option"
  created_at :: int

definition DEVICE_KEY_ID_HEX_LEN :: nat where
  "DEVICE_KEY_ID_HEX_LEN = 16"

definition ED25519_PUBKEY_HEX_LEN :: nat where
  "ED25519_PUBKEY_HEX_LEN = 64"

datatype HexError = HexLength nat | NonHex | NotLowercase

definition validate_pubkey_hex :: "string \<Rightarrow> (HexError, unit) result" where
  "validate_pubkey_hex candidate =
     (if length candidate \<noteq> ED25519_PUBKEY_HEX_LEN then Inl (HexLength (length candidate))
      else if \<not> list_all is_ascii_hexdigit candidate then Inl NonHex
      else if list_ex is_ascii_uppercase candidate then Inl NotLowercase
      else Inr ())"

definition validate_device_key_id :: "string \<Rightarrow> (HexError, unit) result" where
  "validate_device_key_id i =
     (if length i \<noteq> DEVICE_KEY_ID_HEX_LEN then Inl (HexLength (length i))
      else if \<not> list_all is_ascii_hexdigit i then Inl NonHex
      else if list_ex is_ascii_uppercase i then Inl NotLowercase
      else Inr ())"

text \<open>\<open>DevicePubkey::normalize\<close>: trim, drop an \<open>ed25519:\<close> prefix, lower the case, validate.\<close>

definition DevicePubkey_normalize :: "string \<Rightarrow> (HexError, string) result" where
  "DevicePubkey_normalize raw =
     (let trimmed = trim raw;
          candidate = map to_ascii_lowercase
            (case strip_prefix ''ed25519:'' trimmed of Some r \<Rightarrow> r | None \<Rightarrow> trimmed)
      in and_then (validate_pubkey_hex candidate) (\<lambda>_. Inr candidate))"

definition DeviceKey_new ::
  "(string \<Rightarrow> string) \<Rightarrow> string \<Rightarrow> DeviceScope \<Rightarrow> string option \<Rightarrow> int \<Rightarrow> DeviceKey" where
  "DeviceKey_new fp pubkey_hex sc lbl at =
     \<lparr>key_id = fp pubkey_hex, pubkey = pubkey_hex, scope = sc, dk_label = lbl, created_at = at\<rparr>"

definition matches_pubkey :: "DeviceKey \<Rightarrow> string \<Rightarrow> bool" where
  "matches_pubkey k hex_lower \<longleftrightarrow> pubkey k = hex_lower"

text \<open>
  The on-disk forms of a device key, and the migrating \<open>Deserialize\<close>: a bare string becomes a
  full-scope device, and the stored key id of the struct form is ignored in favour of the
  fingerprint of the normalised public key.
\<close>

record DeviceKeyData =
  dd_key_id :: string
  dd_pubkey :: string
  dd_scope :: DeviceScope
  dd_label :: "string option"
  dd_created_at :: int

datatype DeviceKeyRepr = Bare string | FullRepr DeviceKeyData

definition DeviceKey_deserialize ::
  "(string \<Rightarrow> string) \<Rightarrow> DeviceKeyRepr \<Rightarrow> (HexError, DeviceKey) result" where
  "DeviceKey_deserialize fp repr =
     (case repr of
        Bare s \<Rightarrow> and_then (DevicePubkey_normalize s) (\<lambda>hex. Inr (DeviceKey_new fp hex Full None 0))
      | FullRepr d \<Rightarrow> and_then (DevicePubkey_normalize (dd_pubkey d)) (\<lambda>hex.
          Inr \<lparr>key_id = fp hex, pubkey = hex, scope = dd_scope d, dk_label = dd_label d,
               created_at = dd_created_at d\<rparr>))"

text \<open>Serialisation always writes the struct form.\<close>

definition DeviceKey_serialize :: "DeviceKey \<Rightarrow> DeviceKeyRepr" where
  "DeviceKey_serialize k =
     FullRepr \<lparr>dd_key_id = key_id k, dd_pubkey = pubkey k, dd_scope = scope k,
               dd_label = dk_label k, dd_created_at = created_at k\<rparr>"

section \<open>The profile\<close>

datatype AuthMethod = Keypair | Passkey | System

record AuthConfig =
  methods :: "AuthMethod list"
  public_keys :: "DeviceKey list"

record NetworkConfig =
  egress :: "string list"
  capsule_egress :: "(string, string list) hash_map"

datatype CommandApprovalLocation = Hosted | AstridWorkspace

record CommandAlwaysGrant =
  ca_command :: string
  ca_location :: CommandApprovalLocation
  ca_workspace_root :: "string option"

record ApprovalsConfig =
  command_always :: "CommandAlwaysGrant list"

record ProcessConfig =
  proc_allow :: "string list"

record Quotas =
  max_memory_bytes :: u64
  max_timeout_secs :: u64
  max_ipc_throughput_bytes :: u64
  max_background_processes :: u32
  max_storage_bytes :: u64
  max_cpu_fuel_per_sec :: u64
  max_in_flight_calls :: u32

record PrincipalProfile =
  profile_version :: u32
  enabled :: bool
  groups :: "string list"
  grants :: "string list"
  revokes :: "string list"
  capsules :: "string list"
  auth :: AuthConfig
  network :: NetworkConfig
  approvals :: ApprovalsConfig
  process :: ProcessConfig
  quotas :: Quotas

definition CURRENT_PROFILE_VERSION :: u32 where "CURRENT_PROFILE_VERSION = 1"
definition DEFAULT_MAX_MEMORY_BYTES :: u64 where "DEFAULT_MAX_MEMORY_BYTES = 64 * 1024 * 1024"
definition DEFAULT_MAX_TIMEOUT_SECS :: u64 where "DEFAULT_MAX_TIMEOUT_SECS = 300"
definition DEFAULT_MAX_IPC_THROUGHPUT_BYTES :: u64 where
  "DEFAULT_MAX_IPC_THROUGHPUT_BYTES = 10 * 1024 * 1024"
definition DEFAULT_MAX_BACKGROUND_PROCESSES :: u32 where "DEFAULT_MAX_BACKGROUND_PROCESSES = 8"
definition DEFAULT_MAX_IN_FLIGHT_CALLS :: u32 where "DEFAULT_MAX_IN_FLIGHT_CALLS = 4"
definition DEFAULT_MAX_STORAGE_BYTES :: u64 where
  "DEFAULT_MAX_STORAGE_BYTES = 9223372036854775807"
definition DEFAULT_MAX_CPU_FUEL_PER_SEC :: u64 where "DEFAULT_MAX_CPU_FUEL_PER_SEC = 2000000000"
definition TIMEOUT_SECS_UPPER_BOUND :: u64 where "TIMEOUT_SECS_UPPER_BOUND = 86400"
definition BACKGROUND_PROCESSES_UPPER_BOUND :: u32 where "BACKGROUND_PROCESSES_UPPER_BOUND = 256"
definition IN_FLIGHT_CALLS_UPPER_BOUND :: u32 where "IN_FLIGHT_CALLS_UPPER_BOUND = 64"

lemmas quota_constants =
  CURRENT_PROFILE_VERSION_def DEFAULT_MAX_MEMORY_BYTES_def DEFAULT_MAX_TIMEOUT_SECS_def
  DEFAULT_MAX_IPC_THROUGHPUT_BYTES_def DEFAULT_MAX_BACKGROUND_PROCESSES_def
  DEFAULT_MAX_IN_FLIGHT_CALLS_def DEFAULT_MAX_STORAGE_BYTES_def DEFAULT_MAX_CPU_FUEL_PER_SEC_def
  TIMEOUT_SECS_UPPER_BOUND_def BACKGROUND_PROCESSES_UPPER_BOUND_def IN_FLIGHT_CALLS_UPPER_BOUND_def

definition Quotas_default :: Quotas where
  "Quotas_default =
     \<lparr>max_memory_bytes = DEFAULT_MAX_MEMORY_BYTES, max_timeout_secs = DEFAULT_MAX_TIMEOUT_SECS,
      max_ipc_throughput_bytes = DEFAULT_MAX_IPC_THROUGHPUT_BYTES,
      max_background_processes = DEFAULT_MAX_BACKGROUND_PROCESSES,
      max_storage_bytes = DEFAULT_MAX_STORAGE_BYTES,
      max_cpu_fuel_per_sec = DEFAULT_MAX_CPU_FUEL_PER_SEC,
      max_in_flight_calls = DEFAULT_MAX_IN_FLIGHT_CALLS\<rparr>"

definition PrincipalProfile_default :: PrincipalProfile where
  "PrincipalProfile_default =
     \<lparr>profile_version = CURRENT_PROFILE_VERSION, enabled = True, groups = [], grants = [],
      revokes = [], capsules = [], auth = \<lparr>methods = [], public_keys = []\<rparr>,
      network = \<lparr>egress = [], capsule_egress = []\<rparr>,
      approvals = \<lparr>command_always = []\<rparr>, process = \<lparr>proc_allow = []\<rparr>,
      quotas = Quotas_default\<rparr>"

section \<open>Validation\<close>

datatype InvalidReason =
    VersionTooNew
  | MemoryZero | TimeoutRange | IpcZero | BackgroundRange | StorageZero | CpuZero | InFlightRange
  | BadPubkey HexError | BadKeyId HexError | BadScopePattern string CapabilityGrammarError
  | FieldRejected string string ProfileFieldError
  | EgressEmpty | CapsuleEgressKeyEmpty | CapsuleEgressEndpointEmpty
  | NativeApprovalWithPath | ApprovalCommandEmpty | ApprovalRootEmpty
  | ProcessEntryEmpty

datatype ProfileError = Invalid InvalidReason

record ValidatedProfileFields =
  vf_groups :: "GroupName list"
  vf_grants :: "CapabilityPattern list"
  vf_revokes :: "CapabilityPattern list"
  vf_capsules :: "CapsuleGrant list"

definition profile_field_error :: "string \<Rightarrow> string \<Rightarrow> ProfileFieldError \<Rightarrow> ProfileError" where
  "profile_field_error field value err = Invalid (FieldRejected field value err)"

definition typed_fields :: "PrincipalProfile \<Rightarrow> (ProfileError, ValidatedProfileFields) result" where
  "typed_fields p =
     and_then (try_collect (\<lambda>v. map_err (profile_field_error ''groups'' v) (GroupName_new v))
                 (groups p)) (\<lambda>gs.
     and_then (try_collect (\<lambda>v. map_err (profile_field_error ''grants'' v) (CapabilityPattern_new v))
                 (grants p)) (\<lambda>gr.
     and_then (try_collect (\<lambda>v. map_err (profile_field_error ''revokes'' v) (CapabilityPattern_new v))
                 (revokes p)) (\<lambda>rv.
     and_then (try_collect (\<lambda>v. map_err (profile_field_error ''capsules'' v) (CapsuleGrant_new v))
                 (capsules p)) (\<lambda>cs.
     Inr \<lparr>vf_groups = gs, vf_grants = gr, vf_revokes = rv, vf_capsules = cs\<rparr>))))"

definition coerce_legacy_zero_cpu_fuel :: "Quotas \<Rightarrow> Quotas" where
  "coerce_legacy_zero_cpu_fuel q =
     (if max_cpu_fuel_per_sec q = 0
      then q\<lparr>max_cpu_fuel_per_sec := DEFAULT_MAX_CPU_FUEL_PER_SEC\<rparr> else q)"

definition Quotas_validate :: "Quotas \<Rightarrow> (ProfileError, unit) result" where
  "Quotas_validate q =
     (if max_memory_bytes q = 0 then Inl (Invalid MemoryZero)
      else if max_timeout_secs q = 0 \<or> max_timeout_secs q > TIMEOUT_SECS_UPPER_BOUND
        then Inl (Invalid TimeoutRange)
      else if max_ipc_throughput_bytes q = 0 then Inl (Invalid IpcZero)
      else if max_background_processes q > BACKGROUND_PROCESSES_UPPER_BOUND
        then Inl (Invalid BackgroundRange)
      else if max_storage_bytes q = 0 then Inl (Invalid StorageZero)
      else if max_cpu_fuel_per_sec q = 0 then Inl (Invalid CpuZero)
      else if max_in_flight_calls q = 0 \<or> max_in_flight_calls q > IN_FLIGHT_CALLS_UPPER_BOUND
        then Inl (Invalid InFlightRange)
      else Inr ())"

definition validate_device_key :: "DeviceKey \<Rightarrow> (ProfileError, unit) result" where
  "validate_device_key key =
     and_then (map_err (\<lambda>e. Invalid (BadPubkey e)) (validate_pubkey_hex (pubkey key))) (\<lambda>_.
     and_then (map_err (\<lambda>e. Invalid (BadKeyId e)) (validate_device_key_id (key_id key))) (\<lambda>_.
     (case scope key of
        Scoped allow deny \<Rightarrow>
          try_each (\<lambda>p. map_err (\<lambda>e. Invalid (BadScopePattern p e)) (validate_capability p))
            (allow @ deny)
      | Full \<Rightarrow> Inr ())))"

definition AuthConfig_validate :: "AuthConfig \<Rightarrow> (ProfileError, unit) result" where
  "AuthConfig_validate a = try_each validate_device_key (public_keys a)"

definition NetworkConfig_validate :: "NetworkConfig \<Rightarrow> (ProfileError, unit) result" where
  "NetworkConfig_validate n =
     and_then (try_each (\<lambda>p. if trim p = [] then Inl (Invalid EgressEmpty) else Inr ())
                 (egress n)) (\<lambda>_.
     try_each (\<lambda>(capsule_id, endpoints).
         if trim capsule_id = [] then Inl (Invalid CapsuleEgressKeyEmpty)
         else try_each (\<lambda>e. if trim e = [] then Inl (Invalid CapsuleEgressEndpointEmpty) else Inr ())
                endpoints)
       (capsule_egress n))"

definition ApprovalsConfig_validate :: "ApprovalsConfig \<Rightarrow> (ProfileError, unit) result" where
  "ApprovalsConfig_validate a =
     try_each (\<lambda>g.
         if ca_location g = AstridWorkspace \<and> ca_workspace_root g \<noteq> None
           then Inl (Invalid NativeApprovalWithPath)
         else if trim (ca_command g) = [] then Inl (Invalid ApprovalCommandEmpty)
         else (case ca_workspace_root g of
                 Some w \<Rightarrow> if trim w = [] then Inl (Invalid ApprovalRootEmpty) else Inr ()
               | None \<Rightarrow> Inr ()))
       (command_always a)"

definition ProcessConfig_validate :: "ProcessConfig \<Rightarrow> (ProfileError, unit) result" where
  "ProcessConfig_validate p =
     try_each (\<lambda>e. if trim e = [] then Inl (Invalid ProcessEntryEmpty) else Inr ()) (proc_allow p)"

definition PrincipalProfile_validate :: "PrincipalProfile \<Rightarrow> (ProfileError, unit) result" where
  "PrincipalProfile_validate p =
     (if profile_version p > CURRENT_PROFILE_VERSION then Inl (Invalid VersionTooNew)
      else and_then (Quotas_validate (quotas p)) (\<lambda>_.
           and_then (AuthConfig_validate (auth p)) (\<lambda>_.
           and_then (typed_fields p) (\<lambda>_.
           and_then (NetworkConfig_validate (network p)) (\<lambda>_.
           and_then (ApprovalsConfig_validate (approvals p)) (\<lambda>_.
           and_then (ProcessConfig_validate (process p)) (\<lambda>_. Inr ())))))))"

section \<open>Device lookup\<close>

definition device_by_typed_key_id :: "AuthConfig \<Rightarrow> string \<Rightarrow> DeviceKey option" where
  "device_by_typed_key_id a kid = find (\<lambda>k. key_id k = kid) (public_keys a)"

definition device_by_key_id :: "AuthConfig \<Rightarrow> string \<Rightarrow> DeviceKey option" where
  "device_by_key_id a kid =
     (case validate_device_key_id kid of Inl _ \<Rightarrow> None | Inr _ \<Rightarrow> device_by_typed_key_id a kid)"

definition device_by_typed_pubkey :: "AuthConfig \<Rightarrow> string \<Rightarrow> DeviceKey option" where
  "device_by_typed_pubkey a pk = find (\<lambda>k. matches_pubkey k pk) (public_keys a)"

section \<open>Typed fields\<close>

lemma GroupName_new_iff:
  "GroupName_new v = Inr g \<longleftrightarrow> is_ok (validate_group_name_str v) \<and> g = GroupName v"
  by (cases "validate_group_name_str v") (auto simp: GroupName_new_def)

lemma CapabilityPattern_new_iff:
  "CapabilityPattern_new v = Inr g \<longleftrightarrow> is_ok (validate_capability v) \<and> g = CapabilityPattern v"
  by (cases "validate_capability v") (auto simp: CapabilityPattern_new_def)

lemma CapsuleGrant_new_iff:
  "CapsuleGrant_new v = Inr g \<longleftrightarrow> is_ok (validate_capsule_grant_str v) \<and> g = CapsuleGrant v"
  by (cases "validate_capsule_grant_str v") (auto simp: CapsuleGrant_new_def)

lemmas field_new_iffs = GroupName_new_iff CapabilityPattern_new_iff CapsuleGrant_new_iff

text \<open>A profile has a typed view exactly when each field passes its own validator.\<close>

definition fields_ok :: "PrincipalProfile \<Rightarrow> bool" where
  "fields_ok p \<longleftrightarrow>
     (\<forall>g \<in> set (groups p). is_ok (validate_group_name_str g)) \<and>
     (\<forall>c \<in> set (grants p). is_ok (validate_capability c)) \<and>
     (\<forall>c \<in> set (revokes p). is_ok (validate_capability c)) \<and>
     (\<forall>c \<in> set (capsules p). is_ok (validate_capsule_grant_str c))"

lemma typed_fields_iff:
  "typed_fields p = Inr v \<longleftrightarrow> fields_ok p \<and>
     v = \<lparr>vf_groups = map GroupName (groups p), vf_grants = map CapabilityPattern (grants p),
          vf_revokes = map CapabilityPattern (revokes p), vf_capsules = map CapsuleGrant (capsules p)\<rparr>"
proof -
  note wrap =
    try_collect_wrap [where v = validate_group_name_str and C = GroupName]
    try_collect_wrap [where v = validate_capability and C = CapabilityPattern]
    try_collect_wrap [where v = validate_capsule_grant_str and C = CapsuleGrant]
  show ?thesis
    unfolding typed_fields_def fields_ok_def and_then_Inr_iff
    by (subst wrap, simp add: result_simps field_new_iffs)+ auto
qed

lemma typed_fields_ok: "is_ok (typed_fields p) \<longleftrightarrow> fields_ok p"
  by (simp add: is_ok_iff typed_fields_iff)

section \<open>Device keys\<close>

definition canonical_pubkey :: "string \<Rightarrow> bool" where
  "canonical_pubkey s \<longleftrightarrow> length s = 64 \<and>
     (\<forall>c \<in> set s. is_ascii_hexdigit c \<and> \<not> is_ascii_uppercase c)"

lemma validate_pubkey_hex_iff: "validate_pubkey_hex s = Inr () \<longleftrightarrow> canonical_pubkey s"
  by (auto simp: validate_pubkey_hex_def canonical_pubkey_def ED25519_PUBKEY_HEX_LEN_def
      list_all_iff list_ex_iff)

lemma lowercase_not_upper [simp]: "\<not> is_ascii_uppercase (to_ascii_lowercase c)"
  by (auto simp: to_ascii_lowercase_def ascii_defs)

lemma lowercase_id: "\<not> is_ascii_uppercase c \<Longrightarrow> to_ascii_lowercase c = c"
  by (simp add: to_ascii_lowercase_def)

lemma hexdigit_graphic: "is_ascii_hexdigit c \<Longrightarrow> is_ascii_graphic c"
  by (auto simp: is_ascii_graphic_def ascii_defs)

lemma canonical_no_prefix: "canonical_pubkey s \<Longrightarrow> strip_prefix ''ed25519:'' s = None"
proof (cases "strip_prefix ''ed25519:'' s")
  case (Some r)
  assume "canonical_pubkey s"
  moreover have "CHR '':'' \<in> set s" using Some by (simp add: strip_prefix_Some_iff)
  ultimately show ?thesis by (auto simp: canonical_pubkey_def ascii_defs)
qed simp

lemma normalize_canonical: "canonical_pubkey s \<Longrightarrow> DevicePubkey_normalize s = Inr s"
proof -
  assume c: "canonical_pubkey s"
  then have "trim s = s"
    by (intro trim_graphic) (auto simp: canonical_pubkey_def hexdigit_graphic)
  moreover have "map to_ascii_lowercase s = s"
    using c by (auto simp: canonical_pubkey_def lowercase_id intro: map_idI)
  moreover have "validate_pubkey_hex s = Inr ()" using c by (simp add: validate_pubkey_hex_iff)
  ultimately show ?thesis
    using canonical_no_prefix [OF c] by (simp add: DevicePubkey_normalize_def)
qed

lemma normalize_result: "DevicePubkey_normalize raw = Inr h \<Longrightarrow> canonical_pubkey h"
  by (auto simp: DevicePubkey_normalize_def Let_def result_simps validate_pubkey_hex_iff)

text \<open>
  A device key read back from its serialised form is the key itself, provided its public key is
  canonical and its key id is the fingerprint of that public key, as every constructor leaves it.
\<close>

lemma device_key_roundtrip:
  assumes "canonical_pubkey (pubkey k)" and "key_id k = fp (pubkey k)"
  shows "DeviceKey_deserialize fp (DeviceKey_serialize k) = Inr k"
  using assms by (simp add: DeviceKey_deserialize_def DeviceKey_serialize_def normalize_canonical)

text \<open>
  Whatever form a device key has on disk, the loaded key carries a canonical lower-case public
  key and the fingerprint of exactly that key; the key id and case written in the file cannot
  survive loading.
\<close>

lemma device_key_id_rederived:
  "DeviceKey_deserialize fp repr = Inr k \<Longrightarrow>
     canonical_pubkey (pubkey k) \<and> key_id k = fp (pubkey k)"
  by (auto simp: DeviceKey_deserialize_def DeviceKey_new_def result_simps
      split: DeviceKeyRepr.splits dest: normalize_result)

section \<open>What validation guarantees\<close>

definition scope_patterns_ok :: "DeviceScope \<Rightarrow> bool" where
  "scope_patterns_ok sc = (case sc of Full \<Rightarrow> True
     | Scoped allow deny \<Rightarrow> \<forall>p \<in> set (allow @ deny). is_ok (validate_capability p))"

definition device_ok :: "DeviceKey \<Rightarrow> bool" where
  "device_ok k \<longleftrightarrow> canonical_pubkey (pubkey k) \<and> validate_device_key_id (key_id k) = Inr () \<and>
     scope_patterns_ok (scope k)"

lemma unit_ok_iff: "is_ok (r :: ('e, unit) result) \<longleftrightarrow> r = Inr ()"
  by (cases r) auto

lemma validate_device_key_iff: "validate_device_key k = Inr () \<longleftrightarrow> device_ok k"
  by (cases "scope k")
     (auto simp: validate_device_key_def device_ok_def scope_patterns_ok_def result_simps
        validate_pubkey_hex_iff unit_ok_iff)

definition quotas_ok :: "Quotas \<Rightarrow> bool" where
  "quotas_ok q \<longleftrightarrow>
     0 < max_memory_bytes q \<and> 0 < max_timeout_secs q \<and> max_timeout_secs q \<le> 86400 \<and>
     0 < max_ipc_throughput_bytes q \<and> max_background_processes q \<le> 256 \<and>
     0 < max_storage_bytes q \<and> 0 < max_cpu_fuel_per_sec q \<and>
     0 < max_in_flight_calls q \<and> max_in_flight_calls q \<le> 64"

lemma Quotas_validate_iff: "Quotas_validate q = Inr () \<longleftrightarrow> quotas_ok q"
  by (auto simp: Quotas_validate_def quotas_ok_def quota_constants word_gt_0 not_less)

text \<open>
  A profile that passes validation has quotas within their documented bounds, a typed view of
  every authority field, and only canonical device keys whose scope patterns are in the capability
  grammar; a forward-dated profile never passes.
\<close>

theorem validated_profile_sound:
  assumes "PrincipalProfile_validate p = Inr ()"
  shows "profile_version p \<le> CURRENT_PROFILE_VERSION \<and> quotas_ok (quotas p) \<and> fields_ok p
    \<and> (\<forall>k \<in> set (public_keys (auth p)). device_ok k)"
  using assms
  by (auto simp: PrincipalProfile_validate_def result_simps Quotas_validate_iff AuthConfig_validate_def
      validate_device_key_iff not_less typed_fields_iff split: if_splits)

lemma default_profile_valid: "PrincipalProfile_validate PrincipalProfile_default = Inr ()"
  by (simp add: PrincipalProfile_validate_def PrincipalProfile_default_def Quotas_validate_def
      Quotas_default_def quota_constants AuthConfig_validate_def typed_fields_def
      NetworkConfig_validate_def ApprovalsConfig_validate_def ProcessConfig_validate_def)

definition keyed_profile :: PrincipalProfile where
  "keyed_profile = PrincipalProfile_default\<lparr>auth := \<lparr>methods = [Keypair],
     public_keys = [DeviceKey_new (take 16) (replicate 64 CHR ''a'') (Scoped [''self:*''] []) None 0]\<rparr>\<rparr>"

lemma keyed_device_valid:
  "validate_device_key (DeviceKey_new (take 16) (replicate 64 CHR ''a'') (Scoped [''self:*''] []) None 0) = Inr ()"
  by (simp add: validate_device_key_iff device_ok_def DeviceKey_new_def canonical_pubkey_def ascii_defs
      validate_device_key_id_def DEVICE_KEY_ID_HEX_LEN_def scope_patterns_ok_def validate_capability_def
      MAX_CAPABILITY_LEN_def starts_with_def validate_segment_def is_name_char_def
      list_ex_iff list_all_iff)

lemma keyed_profile_valid: "PrincipalProfile_validate keyed_profile = Inr ()"
  using default_profile_valid keyed_device_valid
  by (auto simp: PrincipalProfile_validate_def result_simps AuthConfig_validate_def typed_fields_def
      keyed_profile_def split: if_splits)

theorem validated_profile_sound_witness:
  "quotas_ok (quotas keyed_profile) \<and> fields_ok keyed_profile
    \<and> device_ok (DeviceKey_new (take 16) (replicate 64 CHR ''a'') (Scoped [''self:*''] []) None 0)"
  using validated_profile_sound [OF keyed_profile_valid] by (simp add: keyed_profile_def)

end
