(* ===== verification/Pair_Token_Store.thy ===== *)
theory Pair_Token_Store
  imports Kv_Store Principal_Profile
begin

text \<open>
  The durable pair-token store of \<open>crates/astrid-kernel/src/pair_token\<close>: the record and its
  bounds (\<open>mod.rs\<close>, \<open>token_hash.rs\<close>) and the two-step redemption of
  \<open>durable_reservation.rs\<close>, over any \<open>KvStore\<close> backend.  The JSON codec (\<open>serde_json\<close>)
  is the parameter \<open>PairCodec\<close>; what the store relies on is that decoding undoes encoding
  (\<open>codec_ok\<close>).  Each operation takes the value its call of \<open>now_epoch\<close> returned.
\<close>

section \<open>Records and their bounds\<close>

datatype PrincipalUid = PrincipalUid "u8 list"

record DurablePairToken =
  token_hash :: string
  principal_uid :: PrincipalUid
  expires_at_epoch :: u64
  issued_at_epoch :: u64
  tk_label :: "string option"
  tk_scope :: DeviceScope

definition MAX_EXPIRY_SECS :: u64 where
  "MAX_EXPIRY_SECS = 60 * 60"

definition SYSTEM_KV_NAMESPACE :: string where
  "SYSTEM_KV_NAMESPACE = ''system:control:pair-tokens''"

definition RECORD_PREFIX :: string where
  "RECORD_PREFIX = ''record:''"

definition RESERVATION_PREFIX :: string where
  "RESERVATION_PREFIX = ''reservation:''"

definition MAX_RECORDS :: nat where
  "MAX_RECORDS = 4096"

definition MAX_RECORD_BYTES :: nat where
  "MAX_RECORD_BYTES = 16 * 1024"

definition canonical_fingerprint :: "string \<Rightarrow> string option" where
  "canonical_fingerprint v =
     (if CHR '':'' \<notin> set v then None
      else let algorithm = takeWhile (\<lambda>c. c \<noteq> CHR '':'') v;
               digest = tl (dropWhile (\<lambda>c. c \<noteq> CHR '':'') v)
           in if algorithm = ''blake3'' \<and> length digest = 64 \<and> list_all is_ascii_hexdigit digest
                 \<and> digest = map to_ascii_lowercase digest
              then Some v else None)"

datatype TokenHash = TokenHash (th_str: string)

definition TokenHash_parse :: "string \<Rightarrow> (StorageError, TokenHash) result" where
  "TokenHash_parse v =
     (case canonical_fingerprint v of
        None \<Rightarrow> Inl (Serialization NonCanonicalTokenId)
      | Some _ \<Rightarrow> Inr (TokenHash v))"

definition saturating_sub :: "u64 \<Rightarrow> u64 \<Rightarrow> u64" where
  "saturating_sub a b = (if b \<le> a then a - b else 0)"

definition validate_record :: "DurablePairToken \<Rightarrow> (StorageError, unit) result" where
  "validate_record token =
     and_then (TokenHash_parse (token_hash token)) (\<lambda>_.
     if expires_at_epoch token \<le> issued_at_epoch token
        \<or> saturating_sub (expires_at_epoch token) (issued_at_epoch token) > MAX_EXPIRY_SECS
        \<or> (case tk_label token of Some l \<Rightarrow> length l > 4096 | None \<Rightarrow> False)
     then Inl (Serialization RecordOutsideSchema) else Inr ())"

record PairCodec =
  json_to_vec :: "DurablePairToken \<Rightarrow> string option"
  json_from_slice :: "string \<Rightarrow> DurablePairToken option"

definition codec_ok :: "PairCodec \<Rightarrow> bool" where
  "codec_ok cd \<longleftrightarrow> (\<forall>t v. json_to_vec cd t = Some v \<longrightarrow> json_from_slice cd v = Some t)"

definition encode :: "PairCodec \<Rightarrow> DurablePairToken \<Rightarrow> (StorageError, string) result" where
  "encode cd token =
     and_then (validate_record token) (\<lambda>_.
     case json_to_vec cd token of
       None \<Rightarrow> Inl (Serialization SerdeFailure)
     | Some v \<Rightarrow> if length v > MAX_RECORD_BYTES then Inl (Serialization RecordTooLarge) else Inr v)"

definition decode :: "PairCodec \<Rightarrow> string \<Rightarrow> (StorageError, DurablePairToken) result" where
  "decode cd bytes =
     (if length bytes > MAX_RECORD_BYTES then Inl (Serialization RecordTooLarge)
      else case json_from_slice cd bytes of
             None \<Rightarrow> Inl (Serialization RecordInvalid)
           | Some token \<Rightarrow> and_then (validate_record token) (\<lambda>_. Inr token))"

section \<open>Store operations\<close>

datatype ReservationState = Redeemable | Reserved

fun state_key :: "ReservationState \<Rightarrow> TokenHash \<Rightarrow> string" where
  "state_key Redeemable hash = RECORD_PREFIX @ th_str hash"
| "state_key Reserved hash = RESERVATION_PREFIX @ th_str hash"

definition reservation_key :: "TokenHash \<Rightarrow> string" where
  "reservation_key hash = state_key Reserved hash"

text \<open>The \<open>?\<close> operator in an operation that threads the store \<open>s\<close>.\<close>

definition try_in :: "('e, 'a) result \<Rightarrow> 's \<Rightarrow> ('a \<Rightarrow> ('e, 'b) result \<times> 's) \<Rightarrow> ('e, 'b) result \<times> 's" where
  "try_in r s f = (case r of Inl e \<Rightarrow> (Inl e, s) | Inr x \<Rightarrow> f x)"

definition store_apply ::
  "'s KvStore \<Rightarrow> 's \<Rightarrow> KvBatchCondition list \<Rightarrow> KvBatchMutation list \<Rightarrow> (StorageError, bool) result \<times> 's" where
  "store_apply ops s conditions mutations =
     (if \<not> kv_supports_atomic_batch ops then (Inl (Internal RequiresAtomicBackend), s)
      else try_in (KvMutationBatch_new conditions mutations) s (\<lambda>batch.
             case kv_apply_batch ops s batch of
               (Inl e, s') \<Rightarrow> (Inl e, s')
             | (Inr oc, s') \<Rightarrow> (Inr (bo_applied oc), s')))"

text \<open>\<open>key\<close> is deleted if it still holds \<open>v\<close>.\<close>

definition delete_if_unchanged ::
  "'s KvStore \<Rightarrow> 's \<Rightarrow> string \<Rightarrow> string \<Rightarrow> (StorageError, bool) result \<times> 's" where
  "delete_if_unchanged ops s key v =
     try_in (KvEntryKey_new SYSTEM_KV_NAMESPACE key) s (\<lambda>k.
     store_apply ops s [ValueEquals k (Some v)] [DeleteKey k])"

definition issue ::
  "PairCodec \<Rightarrow> 's KvStore \<Rightarrow> DurablePairToken \<Rightarrow> 's \<Rightarrow> (StorageError, bool) result \<times> 's" where
  "issue cd ops token s =
     try_in (encode cd token) s (\<lambda>v.
     try_in (TokenHash_parse (token_hash token)) s (\<lambda>hash.
     try_in (KvEntryKey_new SYSTEM_KV_NAMESPACE (state_key Redeemable hash)) s (\<lambda>k.
     store_apply ops s [ValueEquals k None] [SetValue k v])))"

definition redeem ::
  "PairCodec \<Rightarrow> 's KvStore \<Rightarrow> u64 \<Rightarrow> string \<Rightarrow> 's
     \<Rightarrow> (StorageError, DurablePairToken option) result \<times> 's" where
  "redeem cd ops now tok s =
     try_in (TokenHash_parse tok) s (\<lambda>hash.
     try_in (kv_get ops s SYSTEM_KV_NAMESPACE (state_key Redeemable hash)) s (\<lambda>found.
     case found of
       None \<Rightarrow> (Inr None, s)
     | Some v \<Rightarrow>
         try_in (decode cd v) s (\<lambda>token.
         case delete_if_unchanged ops s (state_key Redeemable hash) v of
           (Inl e, s') \<Rightarrow> (Inl e, s')
         | (Inr won, s') \<Rightarrow>
             (Inr (if expires_at_epoch token \<le> now then None else if won then Some token else None), s'))))"

definition redeemable ::
  "PairCodec \<Rightarrow> 's KvStore \<Rightarrow> u64 \<Rightarrow> string \<Rightarrow> 's \<Rightarrow> (StorageError, DurablePairToken option) result" where
  "redeemable cd ops now tok s =
     and_then (TokenHash_parse tok) (\<lambda>hash.
     and_then (kv_get ops s SYSTEM_KV_NAMESPACE (state_key Redeemable hash)) (\<lambda>found.
     case found of
       None \<Rightarrow> Inr None
     | Some v \<Rightarrow> and_then (decode cd v) (\<lambda>token.
         if expires_at_epoch token \<le> now then Inr None else Inr (Some token))))"

definition reserve_if_unchanged ::
  "PairCodec \<Rightarrow> 's KvStore \<Rightarrow> u64 \<Rightarrow> DurablePairToken \<Rightarrow> 's \<Rightarrow> (StorageError, bool) result \<times> 's" where
  "reserve_if_unchanged cd ops now expected s =
     (if expires_at_epoch expected \<le> now then (Inr False, s)
      else
        try_in (encode cd expected) s (\<lambda>v.
        try_in (TokenHash_parse (token_hash expected)) s (\<lambda>hash.
        try_in (KvEntryKey_new SYSTEM_KV_NAMESPACE (state_key Redeemable hash)) s (\<lambda>k.
        try_in (KvEntryKey_new SYSTEM_KV_NAMESPACE (reservation_key hash)) s (\<lambda>rk.
        store_apply ops s
          [ValueEquals k (Some v), ValueEquals rk None]
          [DeleteKey k, SetValue rk v])))))"

definition reservation ::
  "'s KvStore \<Rightarrow> string \<Rightarrow> 's \<Rightarrow> (StorageError, string option) result" where
  "reservation ops tok s =
     and_then (TokenHash_parse tok) (\<lambda>hash. kv_get ops s SYSTEM_KV_NAMESPACE (reservation_key hash))"

definition release_reservation ::
  "PairCodec \<Rightarrow> 's KvStore \<Rightarrow> u64 \<Rightarrow> DurablePairToken \<Rightarrow> 's \<Rightarrow> (StorageError, bool) result \<times> 's" where
  "release_reservation cd ops now expected s =
     (if expires_at_epoch expected \<le> now then (Inr False, s)
      else
        try_in (encode cd expected) s (\<lambda>v.
        try_in (TokenHash_parse (token_hash expected)) s (\<lambda>hash.
        try_in (KvEntryKey_new SYSTEM_KV_NAMESPACE (reservation_key hash)) s (\<lambda>rk.
        try_in (KvEntryKey_new SYSTEM_KV_NAMESPACE (state_key Redeemable hash)) s (\<lambda>k.
        store_apply ops s
          [ValueEquals rk (Some v), ValueEquals k None]
          [SetValue k v, DeleteKey rk])))))"

definition consume_reservation ::
  "PairCodec \<Rightarrow> 's KvStore \<Rightarrow> u64 \<Rightarrow> DurablePairToken \<Rightarrow> 's \<Rightarrow> (StorageError, bool) result \<times> 's" where
  "consume_reservation cd ops now expected s =
     (if expires_at_epoch expected \<le> now then (Inr False, s)
      else
        try_in (encode cd expected) s (\<lambda>v.
        try_in (TokenHash_parse (token_hash expected)) s (\<lambda>hash.
        delete_if_unchanged ops s (reservation_key hash) v)))"

definition revoke ::
  "PairCodec \<Rightarrow> 's KvStore \<Rightarrow> string \<Rightarrow> 's \<Rightarrow> (StorageError, bool) result \<times> 's" where
  "revoke cd ops tok s =
     try_in (TokenHash_parse tok) s (\<lambda>hash.
     try_in (kv_get ops s SYSTEM_KV_NAMESPACE (state_key Redeemable hash)) s (\<lambda>found.
     case found of
       Some v \<Rightarrow>
         try_in (decode cd v) s (\<lambda>_. delete_if_unchanged ops s (state_key Redeemable hash) v)
     | None \<Rightarrow>
         try_in (reservation ops tok s) s (\<lambda>reserved.
         case reserved of
           None \<Rightarrow> (Inr False, s)
         | Some v \<Rightarrow> try_in (decode cd v) s (\<lambda>_. delete_if_unchanged ops s (reservation_key hash) v))))"

definition store_list ::
  "PairCodec \<Rightarrow> 's KvStore \<Rightarrow> 's \<Rightarrow> (StorageError, DurablePairToken list) result" where
  "store_list cd ops s =
     and_then (kv_list_keys_with_prefix ops s SYSTEM_KV_NAMESPACE RECORD_PREFIX) (\<lambda>keys.
     if length keys > MAX_RECORDS then Inl (Internal RecordLimitExceeded)
     else and_then
            (try_collect (\<lambda>key.
               and_then (kv_get ops s SYSTEM_KV_NAMESPACE key) (\<lambda>found.
               case found of None \<Rightarrow> Inl (Internal RecordDisappeared) | Some v \<Rightarrow> decode cd v)) (sort keys))
            (\<lambda>records. Inr (sort_key token_hash records)))"

text \<open>The two loops of \<open>prune\<close>: over the listed reservation keys, then over the listed records.\<close>

fun prune_reservations ::
  "PairCodec \<Rightarrow> 's KvStore \<Rightarrow> u64 \<Rightarrow> string list \<Rightarrow> nat \<Rightarrow> 's \<Rightarrow> (StorageError, nat) result \<times> 's" where
  "prune_reservations cd ops now [] removed s = (Inr removed, s)"
| "prune_reservations cd ops now (key # keys) removed s =
     try_in (kv_get ops s SYSTEM_KV_NAMESPACE key) s (\<lambda>found.
     case found of
       None \<Rightarrow> prune_reservations cd ops now keys removed s
     | Some v \<Rightarrow>
         try_in (decode cd v) s (\<lambda>token.
         if expires_at_epoch token > now then prune_reservations cd ops now keys removed s
         else case delete_if_unchanged ops s key v of
                (Inl e, s') \<Rightarrow> (Inl e, s')
              | (Inr won, s') \<Rightarrow>
                  prune_reservations cd ops now keys (if won then removed + 1 else removed) s'))"

fun prune_records ::
  "'s KvStore \<Rightarrow> u64 \<Rightarrow> DurablePairToken list \<Rightarrow> nat \<Rightarrow> 's \<Rightarrow> (StorageError, nat) result \<times> 's" where
  "prune_records ops now [] removed s = (Inr removed, s)"
| "prune_records ops now (token # tokens) removed s =
     (if expires_at_epoch token > now then prune_records ops now tokens removed s
      else
        try_in (TokenHash_parse (token_hash token)) s (\<lambda>hash.
        try_in (kv_get ops s SYSTEM_KV_NAMESPACE (state_key Redeemable hash)) s (\<lambda>found.
        case found of
          None \<Rightarrow> prune_records ops now tokens removed s
        | Some v \<Rightarrow>
            (case delete_if_unchanged ops s (state_key Redeemable hash) v of
               (Inl e, s') \<Rightarrow> (Inl e, s')
             | (Inr won, s') \<Rightarrow> prune_records ops now tokens (if won then removed + 1 else removed) s'))))"

definition prune ::
  "PairCodec \<Rightarrow> 's KvStore \<Rightarrow> u64 \<Rightarrow> 's \<Rightarrow> (StorageError, nat) result \<times> 's" where
  "prune cd ops now s =
     try_in (kv_list_keys_with_prefix ops s SYSTEM_KV_NAMESPACE RESERVATION_PREFIX) s (\<lambda>reservation_keys.
     case prune_reservations cd ops now reservation_keys 0 s of
       (Inl e, s') \<Rightarrow> (Inl e, s')
     | (Inr removed, s') \<Rightarrow>
         try_in (store_list cd ops s') s' (\<lambda>records. prune_records ops now records removed s'))"

section \<open>Identifiers, keys and the codec\<close>

definition canonical :: "string \<Rightarrow> bool" where
  "canonical h \<longleftrightarrow> canonical_fingerprint h \<noteq> None"

definition entry_of :: "ReservationState \<Rightarrow> string \<Rightarrow> KvEntryKey" where
  "entry_of st h = \<lparr>ke_namespace = SYSTEM_KV_NAMESPACE, ke_key = state_key st (TokenHash h)\<rparr>"

lemma TokenHash_parse_iff: "TokenHash_parse h = Inr t \<longleftrightarrow> canonical h \<and> t = TokenHash h"
  by (auto simp: TokenHash_parse_def canonical_def split: option.splits)

lemma TokenHash_parse_canonical [simp]: "canonical h \<Longrightarrow> TokenHash_parse h = Inr (TokenHash h)"
  by (simp add: TokenHash_parse_iff)

lemma canonical_shape:
  assumes "canonical h"
  shows "\<exists>d. h = ''blake3:'' @ d \<and> length d = 64 \<and> list_all is_ascii_hexdigit d"
proof -
  let ?P = "\<lambda>c. c \<noteq> CHR '':''"
  have "takeWhile ?P h = ''blake3''" and d: "length (tl (dropWhile ?P h)) = 64"
    "list_all is_ascii_hexdigit (tl (dropWhile ?P h))" and colon: "CHR '':'' \<in> set h"
    using assms by (auto simp: canonical_def canonical_fingerprint_def Let_def split: if_splits)
  moreover have "dropWhile ?P h = CHR '':'' # tl (dropWhile ?P h)"
    using colon hd_dropWhile [of ?P h] by (cases "dropWhile ?P h") (auto simp: dropWhile_eq_Nil_conv)
  ultimately have "h = ''blake3'' @ CHR '':'' # tl (dropWhile ?P h)"
    by (metis takeWhile_dropWhile_id)
  with d show ?thesis by (intro exI [of _ "tl (dropWhile ?P h)"]) simp
qed

lemma canonical_length: "canonical h \<Longrightarrow> length h = 71"
  using canonical_shape by fastforce

lemma canonical_no_nul: "canonical h \<Longrightarrow> NUL \<notin> set h"
proof
  assume "canonical h" and "NUL \<in> set h"
  then obtain d where "list_all is_ascii_hexdigit d" and "NUL \<in> set d"
    by (auto dest!: canonical_shape simp: NUL_def)
  then have "is_ascii_hexdigit NUL" by (auto simp: list_all_iff)
  then show False by (simp add: NUL_def ascii_defs)
qed

lemma entry_ok_entry_of [simp]: "canonical h \<Longrightarrow> entry_ok (entry_of st h)"
  using canonical_no_nul [of h]
  by (cases st) (auto simp: entry_ok_def entry_of_def is_ok_validate_namespace is_ok_validate_key
      SYSTEM_KV_NAMESPACE_def RECORD_PREFIX_def RESERVATION_PREFIX_def NUL_def)

lemma KvEntryKey_new_entry_of [simp]:
  "canonical h \<Longrightarrow> KvEntryKey_new SYSTEM_KV_NAMESPACE (state_key st (TokenHash h)) = Inr (entry_of st h)"
  using entry_ok_entry_of [of h st] by (simp add: KvEntryKey_new_iff) (simp add: entry_of_def)

lemma entry_of_inject [simp]: "entry_of st h = entry_of st' h' \<longleftrightarrow> st = st' \<and> h = h'"
  by (cases st; cases st') (auto simp: entry_of_def RECORD_PREFIX_def RESERVATION_PREFIX_def)

lemma entry_bytes_entry_of:
  "canonical h \<Longrightarrow> entry_bytes (entry_of st h, v) \<le> 110 + expected_len v"
  by (cases st) (auto simp: entry_bytes_def entry_of_def canonical_length SYSTEM_KV_NAMESPACE_def
      RECORD_PREFIX_def RESERVATION_PREFIX_def)

declare state_key.simps [simp del]

lemma encode_iff:
  "encode cd t = Inr v \<longleftrightarrow>
     validate_record t = Inr () \<and> json_to_vec cd t = Some v \<and> length v \<le> MAX_RECORD_BYTES"
  by (auto simp: encode_def result_simps split: option.splits if_splits)

lemma encode_canonical: "encode cd t = Inr v \<Longrightarrow> canonical (token_hash t)"
  by (auto simp: encode_iff validate_record_def result_simps TokenHash_parse_iff)

lemma decode_encode: "codec_ok cd \<Longrightarrow> encode cd t = Inr v \<Longrightarrow> decode cd v = Inr t"
  by (auto simp: encode_iff decode_def codec_ok_def result_simps)

lemma encode_length: "encode cd t = Inr v \<Longrightarrow> length v \<le> MAX_RECORD_BYTES"
  by (simp add: encode_iff)

lemma encode_inject: "codec_ok cd \<Longrightarrow> encode cd t = Inr v \<Longrightarrow> encode cd t' = Inr v \<Longrightarrow> t = t'"
  by (metis decode_encode sum.inject(2))

lemma decode_length: "decode cd v = Inr t \<Longrightarrow> length v \<le> MAX_RECORD_BYTES"
  by (auto simp: decode_def split: if_splits)

lemma try_in_simps [simp]:
  "try_in (Inl e) s f = (Inl e, s)"
  "try_in (Inr x) s f = f x"
  by (simp_all add: try_in_def)

section \<open>Operations as moves between the two keys of a token\<close>

context atomic_kv
begin

lemma store_apply_view:
  assumes ok: "\<forall>c \<in> set cs. entry_ok (bc_key c)" "\<forall>m \<in> set ms. entry_ok (bm_key m)"
    and d: "distinct (map bc_key cs)" "distinct (map bm_key ms)" "ms \<noteq> []"
    and n: "length cs + length ms \<le> MAX_KV_BATCH_OPERATIONS"
    and p: "sum_list (map entry_bytes (condition_entries cs @ mutation_entries ms))
              \<le> MAX_KV_BATCH_PAYLOAD_BYTES"
  shows "\<exists>s'. store_apply ops s cs ms = (Inr (list_all (cond_holds (view s)) cs), s')
     \<and> view s' = (if list_all (cond_holds (view s)) cs then write_all ms (view s) else view s)
     \<and> (inv s \<longrightarrow> inv s')"
proof -
  obtain b where b: "KvMutationBatch_new cs ms = Inr b"
    using d n p by (simp add: batch_new_iff [OF ok])
  show ?thesis
    using apply_new_batch [OF ok b, of s] supports by (auto simp: store_apply_def b)
qed

lemma delete_view:
  assumes h: "canonical h" and v: "length v \<le> MAX_RECORD_BYTES"
  shows "\<exists>s'. delete_if_unchanged ops s (state_key st (TokenHash h)) v = (Inr (view s (entry_of st h) = Some v), s')
     \<and> view s' = (if view s (entry_of st h) = Some v then (view s)(entry_of st h := None) else view s)
     \<and> (inv s \<longrightarrow> inv s')"
proof -
  let ?e = "entry_of st h"
  have "entry_bytes (?e, Some v) + entry_bytes (?e, None) \<le> MAX_KV_BATCH_PAYLOAD_BYTES"
    using entry_bytes_entry_of [OF h, of st "Some v"] entry_bytes_entry_of [OF h, of st None] v
    by (simp add: expected_len_def MAX_RECORD_BYTES_def MAX_KV_BATCH_PAYLOAD_BYTES_def)
  then obtain s' where "store_apply ops s [ValueEquals ?e (Some v)] [DeleteKey ?e]
      = (Inr (list_all (cond_holds (view s)) [ValueEquals ?e (Some v)]), s')
     \<and> view s' = (if list_all (cond_holds (view s)) [ValueEquals ?e (Some v)]
                  then write_all [DeleteKey ?e] (view s) else view s) \<and> (inv s \<longrightarrow> inv s')"
    using h store_apply_view [of "[ValueEquals ?e (Some v)]" "[DeleteKey ?e]" s]
    by (auto simp: condition_entries_def mutation_entries_def MAX_KV_BATCH_OPERATIONS_def)
  then show ?thesis
    using h by (intro exI [of _ s']) (simp add: delete_if_unchanged_def cond_holds_def)
qed

lemma get_entry_of:
  "canonical h \<Longrightarrow> kv_get ops s SYSTEM_KV_NAMESPACE (state_key st (TokenHash h)) = Inr (view s (entry_of st h))"
  using get_view [OF entry_ok_entry_of, of h s st] by (simp add: entry_of_def)

lemma move_view:
  assumes h: "canonical h" and v: "length v \<le> MAX_RECORD_BYTES" and ne: "a \<noteq> b"
    and ms: "ms = [DeleteKey (entry_of a h), SetValue (entry_of b h) v]
             \<or> ms = [SetValue (entry_of b h) v, DeleteKey (entry_of a h)]"
  shows "\<exists>s'. store_apply ops s [ValueEquals (entry_of a h) (Some v), ValueEquals (entry_of b h) None] ms
      = (Inr (view s (entry_of a h) = Some v \<and> view s (entry_of b h) = None), s')
     \<and> view s' = (if view s (entry_of a h) = Some v \<and> view s (entry_of b h) = None
                  then (view s)(entry_of a h := None, entry_of b h := Some v) else view s)
     \<and> (inv s \<longrightarrow> inv s')"
proof -
  let ?cs = "[ValueEquals (entry_of a h) (Some v), ValueEquals (entry_of b h) None]"
  have "sum_list (map entry_bytes (condition_entries ?cs @ mutation_entries ms)) \<le> MAX_KV_BATCH_PAYLOAD_BYTES"
    using ms v entry_bytes_entry_of [OF h, of a "Some v"] entry_bytes_entry_of [OF h, of b "Some v"]
      entry_bytes_entry_of [OF h, of a None] entry_bytes_entry_of [OF h, of b None]
    by (auto simp: condition_entries_def mutation_entries_def expected_len_def MAX_RECORD_BYTES_def
        MAX_KV_BATCH_PAYLOAD_BYTES_def)
  then obtain s' where "store_apply ops s ?cs ms = (Inr (list_all (cond_holds (view s)) ?cs), s')
     \<and> view s' = (if list_all (cond_holds (view s)) ?cs then write_all ms (view s) else view s)
     \<and> (inv s \<longrightarrow> inv s')"
    using h ne ms store_apply_view [of ?cs ms s] by (auto simp: MAX_KV_BATCH_OPERATIONS_def)
  moreover have "write_all ms (view s) = (view s)(entry_of a h := None, entry_of b h := Some v)"
    using ms ne by (auto simp: fun_upd_twist)
  ultimately show ?thesis by (intro exI [of _ s']) (simp add: cond_holds_def)
qed

end

section \<open>Abstract token life cycle\<close>

text \<open>
  A token lives at one of its two keys; the abstract operations say when each of the store's
  operations wins and what it does to the keys.  \<open>token_step\<close> is the life cycle: a winning
  operation makes its move, a losing one changes nothing, and pruning may only remove.
\<close>

definition abs_issue :: "PairCodec \<Rightarrow> DurablePairToken \<Rightarrow> kv_view \<Rightarrow> bool \<times> kv_view" where
  "abs_issue cd t m =
     (case encode cd t of
        Inl _ \<Rightarrow> (False, m)
      | Inr v \<Rightarrow> if m (entry_of Redeemable (token_hash t)) = None
                 then (True, m(entry_of Redeemable (token_hash t) := Some v)) else (False, m))"

definition abs_move ::
  "PairCodec \<Rightarrow> ReservationState \<Rightarrow> ReservationState \<Rightarrow> u64 \<Rightarrow> DurablePairToken \<Rightarrow> kv_view \<Rightarrow> bool \<times> kv_view" where
  "abs_move cd a b now t m =
     (case encode cd t of
        Inl _ \<Rightarrow> (False, m)
      | Inr v \<Rightarrow>
          if now < expires_at_epoch t \<and> m (entry_of a (token_hash t)) = Some v
             \<and> m (entry_of b (token_hash t)) = None
          then (True, m(entry_of a (token_hash t) := None, entry_of b (token_hash t) := Some v))
          else (False, m))"

definition abs_consume :: "PairCodec \<Rightarrow> u64 \<Rightarrow> DurablePairToken \<Rightarrow> kv_view \<Rightarrow> bool \<times> kv_view" where
  "abs_consume cd now t m =
     (case encode cd t of
        Inl _ \<Rightarrow> (False, m)
      | Inr v \<Rightarrow> if now < expires_at_epoch t \<and> m (entry_of Reserved (token_hash t)) = Some v
                 then (True, m(entry_of Reserved (token_hash t) := None)) else (False, m))"

definition abs_redeem :: "PairCodec \<Rightarrow> u64 \<Rightarrow> string \<Rightarrow> kv_view \<Rightarrow> DurablePairToken option \<times> kv_view" where
  "abs_redeem cd now h m =
     (if \<not> canonical h then (None, m)
      else case m (entry_of Redeemable h) of
             None \<Rightarrow> (None, m)
           | Some v \<Rightarrow>
               (case decode cd v of
                  Inl _ \<Rightarrow> (None, m)
                | Inr t \<Rightarrow> (if now < expires_at_epoch t then Some t else None,
                            m(entry_of Redeemable h := None))))"

definition abs_revoke :: "PairCodec \<Rightarrow> string \<Rightarrow> kv_view \<Rightarrow> bool \<times> kv_view" where
  "abs_revoke cd h m =
     (if \<not> canonical h then (False, m)
      else let st = (if m (entry_of Redeemable h) = None then Reserved else Redeemable)
           in case m (entry_of st h) of
                None \<Rightarrow> (False, m)
              | Some v \<Rightarrow> if is_ok (decode cd v) then (True, m(entry_of st h := None)) else (False, m))"

definition shrinks :: "kv_view \<Rightarrow> kv_view \<Rightarrow> bool" where
  "shrinks m m' \<longleftrightarrow> (\<forall>e. m' e = m e \<or> m' e = None)"

datatype TokenOp =
  Issue DurablePairToken
| Redeem u64 string
| Reserve u64 DurablePairToken
| Release u64 DurablePairToken
| Consume u64 DurablePairToken
| Revoke string
| Prune u64

text \<open>One operation of the store: whether it won, and the store it leaves.\<close>

fun run_op :: "PairCodec \<Rightarrow> 's KvStore \<Rightarrow> TokenOp \<Rightarrow> 's \<Rightarrow> bool \<times> 's" where
  "run_op cd ops (Issue t) s = (case issue cd ops t s of (r, s') \<Rightarrow> (r = Inr True, s'))"
| "run_op cd ops (Redeem now h) s =
     (case redeem cd ops now h s of (r, s') \<Rightarrow> (\<not> (r = Inr None) \<and> is_ok r, s'))"
| "run_op cd ops (Reserve now t) s =
     (case reserve_if_unchanged cd ops now t s of (r, s') \<Rightarrow> (r = Inr True, s'))"
| "run_op cd ops (Release now t) s =
     (case release_reservation cd ops now t s of (r, s') \<Rightarrow> (r = Inr True, s'))"
| "run_op cd ops (Consume now t) s =
     (case consume_reservation cd ops now t s of (r, s') \<Rightarrow> (r = Inr True, s'))"
| "run_op cd ops (Revoke h) s = (case revoke cd ops h s of (r, s') \<Rightarrow> (r = Inr True, s'))"
| "run_op cd ops (Prune now) s = (case prune cd ops now s of (r, s') \<Rightarrow> (is_ok r, s'))"

fun abs_op :: "PairCodec \<Rightarrow> TokenOp \<Rightarrow> kv_view \<Rightarrow> bool \<times> kv_view" where
  "abs_op cd (Issue t) m = abs_issue cd t m"
| "abs_op cd (Redeem now h) m = (case abs_redeem cd now h m of (r, m') \<Rightarrow> (r \<noteq> None, m'))"
| "abs_op cd (Reserve now t) m = abs_move cd Redeemable Reserved now t m"
| "abs_op cd (Release now t) m = abs_move cd Reserved Redeemable now t m"
| "abs_op cd (Consume now t) m = abs_consume cd now t m"
| "abs_op cd (Revoke h) m = abs_revoke cd h m"
| "abs_op cd (Prune now) m = (False, m)"

fun is_prune :: "TokenOp \<Rightarrow> bool" where
  "is_prune (Prune _) \<longleftrightarrow> True"
| "is_prune _ \<longleftrightarrow> False"

fun abs_ops :: "PairCodec \<Rightarrow> TokenOp list \<Rightarrow> kv_view \<Rightarrow> bool list \<times> kv_view" where
  "abs_ops cd [] m = ([], m)"
| "abs_ops cd (x # xs) m =
     (case abs_op cd x m of (w, m') \<Rightarrow> case abs_ops cd xs m' of (ws, m'') \<Rightarrow> (w # ws, m''))"

inductive token_step :: "PairCodec \<Rightarrow> TokenOp \<Rightarrow> kv_view \<Rightarrow> bool \<Rightarrow> kv_view \<Rightarrow> bool" for cd where
  step_issue: "abs_issue cd t m = (w, m') \<Longrightarrow> token_step cd (Issue t) m w m'"
| step_redeem: "abs_redeem cd now h m = (r, m') \<Longrightarrow> token_step cd (Redeem now h) m (r \<noteq> None) m'"
| step_reserve: "abs_move cd Redeemable Reserved now t m = (w, m') \<Longrightarrow> token_step cd (Reserve now t) m w m'"
| step_release: "abs_move cd Reserved Redeemable now t m = (w, m') \<Longrightarrow> token_step cd (Release now t) m w m'"
| step_consume: "abs_consume cd now t m = (w, m') \<Longrightarrow> token_step cd (Consume now t) m w m'"
| step_revoke: "abs_revoke cd h m = (w, m') \<Longrightarrow> token_step cd (Revoke h) m w m'"
| step_prune: "shrinks m m' \<Longrightarrow> token_step cd (Prune now) m w m'"

inductive_cases token_stepE: "token_step cd op m w m'"

fun run_ops :: "PairCodec \<Rightarrow> 's KvStore \<Rightarrow> TokenOp list \<Rightarrow> 's \<Rightarrow> bool list \<times> 's" where
  "run_ops cd ops [] s = ([], s)"
| "run_ops cd ops (x # xs) s =
     (case run_op cd ops x s of (w, s') \<Rightarrow> case run_ops cd ops xs s' of (ws, s'') \<Rightarrow> (w # ws, s''))"

definition occupancy :: "string \<Rightarrow> kv_view \<Rightarrow> nat" where
  "occupancy h m =
     (if m (entry_of Redeemable h) = None then 0 else 1) + (if m (entry_of Reserved h) = None then 0 else 1)"

fun issues :: "string \<Rightarrow> TokenOp \<Rightarrow> bool" where
  "issues h (Issue t) \<longleftrightarrow> token_hash t = h"
| "issues h _ \<longleftrightarrow> False"

fun spends :: "string \<Rightarrow> TokenOp \<Rightarrow> bool" where
  "spends h (Redeem _ k) \<longleftrightarrow> k = h"
| "spends h (Consume _ t) \<longleftrightarrow> token_hash t = h"
| "spends h (Revoke k) \<longleftrightarrow> k = h"
| "spends h _ \<longleftrightarrow> False"

definition won :: "(TokenOp \<Rightarrow> bool) \<Rightarrow> TokenOp list \<Rightarrow> bool list \<Rightarrow> nat" where
  "won P ops ws = length (filter (\<lambda>(x, w). w \<and> P x) (zip ops ws))"

lemma shrinks_trans: "shrinks m m' \<Longrightarrow> shrinks m' m'' \<Longrightarrow> shrinks m m''"
  unfolding shrinks_def by metis

lemma shrinks_occupancy: "shrinks m m' \<Longrightarrow> occupancy h m' \<le> occupancy h m"
proof -
  assume "shrinks m m'"
  then have "m (entry_of st h) = None \<Longrightarrow> m' (entry_of st h) = None" for st
    unfolding shrinks_def by metis
  then show ?thesis by (auto simp: occupancy_def)
qed

text \<open>An operation on a token none of whose keys is occupied wins only if it is an issue.\<close>

fun touches :: "string \<Rightarrow> TokenOp \<Rightarrow> bool" where
  "touches h (Issue t) \<longleftrightarrow> token_hash t = h"
| "touches h (Redeem _ k) \<longleftrightarrow> k = h"
| "touches h (Reserve _ t) \<longleftrightarrow> token_hash t = h"
| "touches h (Release _ t) \<longleftrightarrow> token_hash t = h"
| "touches h (Consume _ t) \<longleftrightarrow> token_hash t = h"
| "touches h (Revoke k) \<longleftrightarrow> k = h"
| "touches h (Prune _) \<longleftrightarrow> False"

lemma token_step_dead:
  "token_step cd op m w m' \<Longrightarrow> occupancy h m = 0 \<Longrightarrow> touches h op \<Longrightarrow> \<not> issues h op \<Longrightarrow> \<not> w"
  by (induction rule: token_step.induct)
     (auto simp: occupancy_def abs_redeem_def abs_move_def abs_consume_def abs_revoke_def Let_def
        split: sum.splits option.splits if_splits)

lemma abs_move_won:
  "abs_move cd a b now t m = (True, m') \<Longrightarrow> a \<noteq> b \<Longrightarrow>
     canonical (token_hash t) \<and> now < expires_at_epoch t \<and> m' (entry_of a (token_hash t)) = None"
  by (auto simp: abs_move_def encode_canonical split: sum.splits if_splits)

lemma abs_move_back:
  assumes "abs_move cd a b now t m = (True, m')" and "a \<noteq> b" and "now' < expires_at_epoch t"
  shows "abs_move cd b a now' t m' = (True, m)"
proof -
  let ?a = "entry_of a (token_hash t)" and ?b = "entry_of b (token_hash t)"
  obtain v where v: "encode cd t = Inr v" "m ?a = Some v" "m ?b = None" "m' = m(?a := None, ?b := Some v)"
    using assms(1) by (auto simp: abs_move_def split: sum.splits if_splits)
  have "m'(?b := None, ?a := Some v) = m"
    by (rule ext) (simp add: v)
  then show ?thesis using v assms(2,3) by (simp add: abs_move_def)
qed

text \<open>
  The accounting behind single use: a step pays for every spend with an occupied key and for every
  newly occupied key with an issue.
\<close>

lemma token_step_occupancy:
  "token_step cd op m w m' \<Longrightarrow>
     occupancy h m' + (if w \<and> spends h op then 1 else 0) \<le> occupancy h m + (if w \<and> issues h op then 1 else 0)"
proof (induction rule: token_step.induct)
  case (step_prune m m' now w)
  then show ?case using shrinks_occupancy by simp
qed (auto simp: occupancy_def abs_issue_def abs_redeem_def abs_move_def abs_consume_def abs_revoke_def
      Let_def split: sum.splits option.splits if_splits)

section \<open>The store follows the life cycle\<close>

context atomic_kv
begin

definition follows :: "'s \<Rightarrow> bool \<times> 's \<Rightarrow> bool \<times> kv_view \<Rightarrow> bool" where
  "follows s c a \<longleftrightarrow> fst c = fst a \<and> view (snd c) = snd a \<and> (inv s \<longrightarrow> inv (snd c))"

lemma issue_follows: "follows s (run_op cd ops (Issue t) s) (abs_issue cd t (view s))"
proof (cases "encode cd t")
  case (Inr v)
  note h = encode_canonical [OF Inr]
  let ?e = "entry_of Redeemable (token_hash t)"
  have "entry_bytes (?e, Some v) + entry_bytes (?e, None) \<le> MAX_KV_BATCH_PAYLOAD_BYTES"
    using entry_bytes_entry_of [OF h, of Redeemable "Some v"] entry_bytes_entry_of [OF h, of Redeemable None]
      encode_length [OF Inr]
    by (simp add: expected_len_def MAX_RECORD_BYTES_def MAX_KV_BATCH_PAYLOAD_BYTES_def)
  then obtain s' where "store_apply ops s [ValueEquals ?e None] [SetValue ?e v]
      = (Inr (list_all (cond_holds (view s)) [ValueEquals ?e None]), s')
     \<and> view s' = (if list_all (cond_holds (view s)) [ValueEquals ?e None]
                  then write_all [SetValue ?e v] (view s) else view s) \<and> (inv s \<longrightarrow> inv s')"
    using h store_apply_view [of "[ValueEquals ?e None]" "[SetValue ?e v]" s]
    by (auto simp: condition_entries_def mutation_entries_def MAX_KV_BATCH_OPERATIONS_def)
  then show ?thesis
    using h by (auto simp: issue_def Inr abs_issue_def follows_def cond_holds_def)
qed (simp add: issue_def abs_issue_def follows_def)

lemma reserve_follows:
  "follows s (run_op cd ops (Reserve now t) s) (abs_move cd Redeemable Reserved now t (view s))"
proof (cases "expires_at_epoch t \<le> now")
  case True
  then show ?thesis
    by (auto simp: reserve_if_unchanged_def abs_move_def follows_def split: sum.split)
next
  case live: False
  show ?thesis
  proof (cases "encode cd t")
    case (Inr v)
    note h = encode_canonical [OF Inr]
    show ?thesis
      using move_view [OF h encode_length [OF Inr] ReservationState.distinct(1) disjI1 [OF refl], of s]
        h live live [unfolded not_le] Inr
      by (elim exE conjE)
         (simp add: reserve_if_unchanged_def reservation_key_def abs_move_def follows_def)
  qed (use live in \<open>simp add: reserve_if_unchanged_def abs_move_def follows_def\<close>)
qed

lemma release_follows:
  "follows s (run_op cd ops (Release now t) s) (abs_move cd Reserved Redeemable now t (view s))"
proof (cases "expires_at_epoch t \<le> now")
  case True
  then show ?thesis
    by (auto simp: release_reservation_def abs_move_def follows_def split: sum.split)
next
  case live: False
  show ?thesis
  proof (cases "encode cd t")
    case (Inr v)
    note h = encode_canonical [OF Inr]
    show ?thesis
      using move_view [OF h encode_length [OF Inr] ReservationState.distinct(2) disjI2 [OF refl], of s]
        h live live [unfolded not_le] Inr
      by (elim exE conjE)
         (simp add: release_reservation_def reservation_key_def abs_move_def follows_def)
  qed (use live in \<open>simp add: release_reservation_def abs_move_def follows_def\<close>)
qed

lemma consume_follows:
  "follows s (run_op cd ops (Consume now t) s) (abs_consume cd now t (view s))"
proof (cases "expires_at_epoch t \<le> now")
  case True
  then show ?thesis
    by (auto simp: consume_reservation_def abs_consume_def follows_def split: sum.split)
next
  case live: False
  show ?thesis
  proof (cases "encode cd t")
    case (Inr v)
    note h = encode_canonical [OF Inr]
    show ?thesis
      using delete_view [OF h encode_length [OF Inr], of s Reserved] h live live [unfolded not_le] Inr
      by (elim exE conjE)
         (simp add: consume_reservation_def reservation_key_def abs_consume_def follows_def)
  qed (use live in \<open>simp add: consume_reservation_def abs_consume_def follows_def\<close>)
qed

lemma redeem_eq:
  "\<exists>r s'. redeem cd ops now h s = (r, s')
     \<and> (case r of Inr t \<Rightarrow> t | Inl _ \<Rightarrow> None) = fst (abs_redeem cd now h (view s))
     \<and> view s' = snd (abs_redeem cd now h (view s)) \<and> (inv s \<longrightarrow> inv s')"
proof (cases "canonical h")
  case False
  then obtain e where "TokenHash_parse h = Inl e"
    by (auto simp: TokenHash_parse_def canonical_def split: option.splits)
  then show ?thesis using False by (simp add: redeem_def abs_redeem_def)
next
  case h: True
  show ?thesis
  proof (cases "view s (entry_of Redeemable h)")
    case None
    then show ?thesis
      using h get_entry_of [OF h, of s Redeemable] by (simp add: redeem_def abs_redeem_def)
  next
    case (Some v)
    show ?thesis
    proof (cases "decode cd v")
      case (Inl e)
      then show ?thesis
        using h get_entry_of [OF h, of s Redeemable] Some by (simp add: redeem_def abs_redeem_def)
    next
      case (Inr t)
      then show ?thesis
        using h get_entry_of [OF h, of s Redeemable] Some
          delete_view [OF h decode_length [OF Inr], of s Redeemable]
        by (auto simp: redeem_def abs_redeem_def not_le)
    qed
  qed
qed

lemma redeem_follows:
  "follows s (run_op cd ops (Redeem now h) s)
     (case abs_redeem cd now h (view s) of (r, m') \<Rightarrow> (r \<noteq> None, m'))"
proof -
  obtain r s' where "redeem cd ops now h s = (r, s')"
    "(case r of Inr t \<Rightarrow> t | Inl _ \<Rightarrow> None) = fst (abs_redeem cd now h (view s))"
    "view s' = snd (abs_redeem cd now h (view s))" "inv s \<longrightarrow> inv s'"
    using redeem_eq by blast
  then show ?thesis
    by (cases r; cases "abs_redeem cd now h (view s)") (simp_all add: follows_def)
qed

lemma revoke_follows: "follows s (run_op cd ops (Revoke h) s) (abs_revoke cd h (view s))"
proof (cases "canonical h")
  case False
  then obtain e where "TokenHash_parse h = Inl e"
    by (auto simp: TokenHash_parse_def canonical_def split: option.splits)
  then show ?thesis using False by (simp add: revoke_def abs_revoke_def follows_def)
next
  case h: True
  let ?st = "if view s (entry_of Redeemable h) = None then Reserved else Redeemable"
  have run: "revoke cd ops h s =
      (case view s (entry_of ?st h) of
         None \<Rightarrow> (Inr False, s)
       | Some v \<Rightarrow> try_in (decode cd v) s (\<lambda>_. delete_if_unchanged ops s (state_key ?st (TokenHash h)) v))"
    using h get_entry_of [OF h, of s Redeemable] get_entry_of [OF h, of s Reserved]
    by (auto simp: revoke_def reservation_def reservation_key_def split: option.split)
  show ?thesis
  proof (cases "view s (entry_of ?st h)")
    case None
    then show ?thesis using h by (simp add: run abs_revoke_def follows_def Let_def)
  next
    case (Some v)
    show ?thesis
    proof (cases "decode cd v")
      case (Inl e)
      then show ?thesis using Some h by (simp add: run abs_revoke_def follows_def Let_def)
    next
      case (Inr t)
      obtain s' where "delete_if_unchanged ops s (state_key ?st (TokenHash h)) v = (Inr True, s')"
        "view s' = (view s)(entry_of ?st h := None)" "inv s \<longrightarrow> inv s'"
        using delete_view [OF h decode_length [OF Inr], of s ?st] Some by auto
      then have "follows s (run_op cd ops (Revoke h) s) (True, (view s)(entry_of ?st h := None))"
        unfolding run_op.simps run Some by (simp add: Inr follows_def)
      then show ?thesis using h Some Inr unfolding abs_revoke_def Let_def by simp
    qed
  qed
qed

text \<open>Pruning, whatever it meets and wherever it stops, only removes.\<close>

definition sheds :: "'s \<Rightarrow> 's \<Rightarrow> bool" where
  "sheds s s' \<longleftrightarrow> shrinks (view s) (view s') \<and> (inv s \<longrightarrow> inv s')"

lemma sheds_refl [simp]: "sheds s s"
  by (simp add: sheds_def shrinks_def)

lemma sheds_trans: "sheds s s' \<Longrightarrow> sheds s' s'' \<Longrightarrow> sheds s s''"
  unfolding sheds_def using shrinks_trans by blast

lemma delete_sheds: "sheds s (snd (delete_if_unchanged ops s key v))"
proof (cases "KvEntryKey_new SYSTEM_KV_NAMESPACE key")
  case (Inr k)
  then have k: "entry_ok k" unfolding KvEntryKey_new_iff by blast
  show ?thesis
  proof (cases "KvMutationBatch_new [ValueEquals k (Some v)] [DeleteKey k]")
    case b: (Inr b)
    show ?thesis
      using apply_new_batch [OF _ _ b, of s] k supports
      by (auto simp: delete_if_unchanged_def Inr store_apply_def b sheds_def shrinks_def split: if_splits)
  qed (simp add: delete_if_unchanged_def Inr store_apply_def)
qed (simp add: delete_if_unchanged_def)

lemma delete_then_sheds:
  assumes "\<And>w s'. sheds s' (snd (f w s'))"
  shows "sheds s (snd (case delete_if_unchanged ops s k v of
           (Inl e, s') \<Rightarrow> (Inl e, s') | (Inr w, s') \<Rightarrow> f w s'))"
proof -
  obtain r s1 where del: "delete_if_unchanged ops s k v = (r, s1)" by fastforce
  then have "sheds s s1" using delete_sheds [of s k v] by simp
  then show ?thesis using sheds_trans [OF _ assms] by (cases r) (simp_all add: del)
qed

lemma prune_reservations_sheds: "sheds s (snd (prune_reservations cd ops now ks n s))"
proof (induction ks arbitrary: n s)
  case (Cons k ks)
  then show ?case
    using delete_then_sheds [of "\<lambda>w. prune_reservations cd ops now ks (if w then n + 1 else n)" s k]
    by (simp add: try_in_def split: sum.split option.split)
qed simp

lemma prune_records_sheds: "sheds s (snd (prune_records ops now ts n s))"
proof (induction ts arbitrary: n s)
  case (Cons t ts)
  then show ?case
    using delete_then_sheds [of "\<lambda>w. prune_records ops now ts (if w then n + 1 else n)" s]
    by (simp add: try_in_def split: sum.split option.split)
qed simp

lemma prune_sheds: "sheds s (snd (prune cd ops now s))"
proof (cases "kv_list_keys_with_prefix ops s SYSTEM_KV_NAMESPACE RESERVATION_PREFIX")
  case (Inr ks)
  obtain r1 s1 where 1: "prune_reservations cd ops now ks 0 s = (r1, s1)" by fastforce
  then have s1: "sheds s s1" using prune_reservations_sheds [of s cd now ks 0] by simp
  then show ?thesis
    using sheds_trans [OF s1 prune_records_sheds]
    by (cases r1; cases "store_list cd ops s1") (simp_all add: prune_def Inr 1)
qed (simp add: prune_def)

text \<open>Every operation of the store is a step of the life cycle.\<close>

lemma follows_step:
  assumes "follows s c a" and "\<And>w m'. a = (w, m') \<Longrightarrow> token_step cd x (view s) w m'"
  shows "token_step cd x (view s) (fst c) (view (snd c)) \<and> (inv s \<longrightarrow> inv (snd c))"
  using assms by (cases a) (simp add: follows_def)

lemma run_op_follows: "\<not> is_prune x \<Longrightarrow> follows s (run_op cd ops x s) (abs_op cd x (view s))"
  using issue_follows redeem_follows reserve_follows release_follows consume_follows revoke_follows
  by (cases x) (simp_all del: run_op.simps)

lemma run_ops_follows:
  "list_all (Not \<circ> is_prune) xs \<Longrightarrow>
     fst (run_ops cd ops xs s) = fst (abs_ops cd xs (view s))
     \<and> view (snd (run_ops cd ops xs s)) = snd (abs_ops cd xs (view s))"
proof (induction xs arbitrary: s)
  case (Cons x xs)
  obtain w s1 where x: "run_op cd ops x s = (w, s1)" by fastforce
  then have "abs_op cd x (view s) = (w, view s1)"
    using run_op_follows [of x s cd] Cons.prems by (auto simp: follows_def intro: prod_eqI)
  then show ?case
    using Cons.IH [of s1] Cons.prems by (auto simp: x split: prod.splits)
qed simp

lemma run_op_step:
  "token_step cd x (view s) (fst (run_op cd ops x s)) (view (snd (run_op cd ops x s)))
     \<and> (inv s \<longrightarrow> inv (snd (run_op cd ops x s)))"
proof (cases x)
  case (Issue t)
  show ?thesis unfolding Issue by (rule follows_step [OF issue_follows step_issue])
next
  case (Redeem now h)
  show ?thesis
    unfolding Redeem
    by (rule follows_step [OF redeem_follows]) (auto intro: step_redeem split: prod.splits simp del: not_None_eq)
next
  case (Reserve now t)
  show ?thesis unfolding Reserve by (rule follows_step [OF reserve_follows step_reserve])
next
  case (Release now t)
  show ?thesis unfolding Release by (rule follows_step [OF release_follows step_release])
next
  case (Consume now t)
  show ?thesis unfolding Consume by (rule follows_step [OF consume_follows step_consume])
next
  case (Revoke h)
  show ?thesis unfolding Revoke by (rule follows_step [OF revoke_follows step_revoke])
next
  case (Prune now)
  show ?thesis
    using prune_sheds [of s cd now]
    by (cases "prune cd ops now s") (simp add: Prune sheds_def step_prune)
qed

lemma run_ops_occupancy:
  "run_ops cd ops xs s = (ws, s') \<Longrightarrow>
     won (spends h) xs ws + occupancy h (view s') \<le> won (issues h) xs ws + occupancy h (view s)
     \<and> (inv s \<longrightarrow> inv s') \<and> length ws = length xs"
proof (induction xs arbitrary: s ws)
  case (Cons x xs)
  obtain w s1 where x: "run_op cd ops x s = (w, s1)" by fastforce
  obtain ws' where xs: "run_ops cd ops xs s1 = (ws', s')" "ws = w # ws'"
    using Cons.prems by (auto simp: x split: prod.splits)
  have "occupancy h (view s1) + (if w \<and> spends h x then 1 else 0)
      \<le> occupancy h (view s) + (if w \<and> issues h x then 1 else 0)" "inv s \<longrightarrow> inv s1"
    using run_op_step [of cd x s] token_step_occupancy [of cd x "view s" w "view s1" h]
    by (simp_all add: x)
  then show ?case
    using Cons.IH [OF xs(1)] by (auto simp: xs(2) won_def)
qed (simp add: won_def)

lemma run_ops_dead:
  assumes "occupancy h (view s) = 0" and "won (issues h) xs ws = 0" and "run_ops cd ops xs s = (ws, s')"
  shows "won (touches h) xs ws = 0 \<and> occupancy h (view s') = 0"
  using assms
proof (induction xs arbitrary: s ws)
  case (Cons x xs)
  obtain w s1 where x: "run_op cd ops x s = (w, s1)" by fastforce
  obtain ws' where xs: "run_ops cd ops xs s1 = (ws', s')" "ws = w # ws'"
    using Cons.prems by (auto simp: x split: prod.splits)
  have step: "token_step cd x (view s) w (view s1)" using run_op_step [of cd x s] by (simp add: x)
  have iss: "\<not> (w \<and> issues h x)" "won (issues h) xs ws' = 0"
    using Cons.prems(2) by (auto simp: won_def xs(2) split: if_splits)
  have "\<not> (w \<and> touches h x)" using token_step_dead [OF step, of h] Cons.prems(1) iss(1) by auto
  moreover have "occupancy h (view s1) = 0"
    using token_step_occupancy [OF step, of h] Cons.prems(1) iss(1) by auto
  ultimately show ?case using Cons.IH [OF _ iss(2) xs(1)] by (auto simp: won_def xs(2))
qed (simp add: won_def)

lemma redeemable_view:
  "canonical h \<Longrightarrow> redeemable cd ops now h s =
     (case view s (entry_of Redeemable h) of
        None \<Rightarrow> Inr None
      | Some v \<Rightarrow> and_then (decode cd v) (\<lambda>t. Inr (if expires_at_epoch t \<le> now then None else Some t)))"
  using get_entry_of [of h s Redeemable]
  by (auto simp: redeemable_def and_then_def split: option.split sum.split)

lemma reserve_exclusive:
  assumes won: "run_op cd ops (Reserve now t) s = (True, s')"
  shows "redeemable cd ops now' (token_hash t) s' = Inr None"
    and "token_hash t' = token_hash t \<Longrightarrow> \<not> fst (run_op cd ops (Reserve now' t') s')"
    and "now' < expires_at_epoch t \<Longrightarrow>
           fst (run_op cd ops (Release now' t) s') \<and> view (snd (run_op cd ops (Release now' t) s')) = view s"
proof -
  have m: "abs_move cd Redeemable Reserved now t (view s) = (True, view s')"
    using reserve_follows [of s cd now t] won by (auto simp: follows_def intro: prod_eqI)
  then have h: "canonical (token_hash t)" and gone: "view s' (entry_of Redeemable (token_hash t)) = None"
    using abs_move_won by blast+
  show "redeemable cd ops now' (token_hash t) s' = Inr None"
    using h gone by (simp add: redeemable_view)
  show "\<not> fst (run_op cd ops (Reserve now' t') s')" if "token_hash t' = token_hash t"
    using reserve_follows [of s' cd now' t'] gone that
    by (auto simp: follows_def abs_move_def split: sum.splits)
  show "fst (run_op cd ops (Release now' t) s') \<and> view (snd (run_op cd ops (Release now' t) s')) = view s"
    if "now' < expires_at_epoch t"
    using release_follows [of s' cd now' t] abs_move_back [OF m _ that] by (simp add: follows_def)
qed

end

section \<open>What pruning removes\<close>

text \<open>The store holds under each token key an encoded record of that token's own hash.\<close>

definition tokens_wf :: "PairCodec \<Rightarrow> kv_view \<Rightarrow> bool" where
  "tokens_wf cd m \<longleftrightarrow>
     (\<forall>st h v. m (entry_of st h) = Some v \<longrightarrow> (\<exists>t. encode cd t = Inr v \<and> token_hash t = h))"

definition expired_at :: "PairCodec \<Rightarrow> u64 \<Rightarrow> kv_view \<Rightarrow> KvEntryKey \<Rightarrow> bool" where
  "expired_at cd now m e \<longleftrightarrow>
     (case m e of None \<Rightarrow> False
      | Some v \<Rightarrow> (case decode cd v of Inl _ \<Rightarrow> False | Inr t \<Rightarrow> expires_at_epoch t \<le> now))"

definition drop_expired :: "PairCodec \<Rightarrow> u64 \<Rightarrow> KvEntryKey set \<Rightarrow> kv_view \<Rightarrow> kv_view" where
  "drop_expired cd now E m = (\<lambda>e. if e \<in> E \<and> expired_at cd now m e then None else m e)"

lemma drop_expired_empty [simp]: "drop_expired cd now {} m = m"
  by (simp add: drop_expired_def)

lemma drop_expired_insert:
  "drop_expired cd now (insert e E) m =
     drop_expired cd now E (if expired_at cd now m e then m(e := None) else m)"
  by (auto simp: drop_expired_def expired_at_def fun_eq_iff)

lemma drop_expired_union:
  "drop_expired cd now F (drop_expired cd now E m) = drop_expired cd now (E \<union> F) m"
  by (auto simp: drop_expired_def expired_at_def fun_eq_iff)

lemma tokens_wf_remove: "tokens_wf cd m \<Longrightarrow> tokens_wf cd (m(e := None))"
  by (auto simp: tokens_wf_def)

lemma tokens_wf_drop: "tokens_wf cd m \<Longrightarrow> tokens_wf cd (drop_expired cd now E m)"
  by (auto simp: tokens_wf_def drop_expired_def split: if_splits)

lemma tokens_wf_decode:
  assumes "tokens_wf cd m" and "codec_ok cd" and "m (entry_of st h) = Some v"
  obtains t where "decode cd v = Inr t" and "token_hash t = h" and "canonical h"
    and "length v \<le> MAX_RECORD_BYTES"
  using assms decode_encode encode_canonical encode_length unfolding tokens_wf_def by metis

lemma state_key_append: "state_key st (TokenHash h) = state_key st (TokenHash []) @ h"
  by (cases st) (simp_all add: state_key.simps)

lemma try_collect_map:
  "\<forall>x \<in> set xs. g (f x) = Inr (k x) \<Longrightarrow> try_collect g (map f xs) = Inr (map k xs)"
  by (induction xs) auto

lemma inj_state_key: "inj (\<lambda>h. state_key st (TokenHash h))"
  by (rule injI) (metis same_append_eq state_key_append)

context atomic_kv
begin

lemma list_hashes:
  assumes "inv s"
  shows "\<exists>hs. kv_list_keys_with_prefix ops s SYSTEM_KV_NAMESPACE (state_key st (TokenHash []))
           = Inr (map (\<lambda>h. state_key st (TokenHash h)) hs)
     \<and> distinct hs \<and> set hs = {h. view s (entry_of st h) \<noteq> None}"
proof -
  let ?p = "state_key st (TokenHash [])"
  have "is_ok (validate_namespace SYSTEM_KV_NAMESPACE)" "is_ok (validate_prefix ?p)"
    by (cases st; simp add: is_ok_validate_namespace is_ok_validate_prefix SYSTEM_KV_NAMESPACE_def NUL_def
        state_key.simps RECORD_PREFIX_def RESERVATION_PREFIX_def)+
  then obtain ks where ks: "kv_list_keys_with_prefix ops s SYSTEM_KV_NAMESPACE ?p = Inr ks" "distinct ks"
    "set ks = {k. view s \<lparr>ke_namespace = SYSTEM_KV_NAMESPACE, ke_key = k\<rparr> \<noteq> None \<and> starts_with ?p k}"
    using list_view [OF assms] by blast
  let ?hs = "map (drop (length ?p)) ks"
  have key: "k = ?p @ drop (length ?p) k" if "k \<in> set ks" for k
    using that ks(3) by (auto simp: starts_with_append)
  then have map: "map (\<lambda>h. state_key st (TokenHash h)) ?hs = ks"
    by (subst state_key_append) (simp add: map_idI)
  then have "distinct ?hs" using ks(2) distinct_map by metis
  moreover have "set ?hs = {h. view s (entry_of st h) \<noteq> None}"
  proof (intro set_eqI iffI)
    fix h assume "h \<in> set ?hs"
    then obtain k where "k \<in> set ks" "h = drop (length ?p) k" by auto
    then have "k \<in> set ks" "k = state_key st (TokenHash h)"
      using key [of k] state_key_append [of st h] by simp_all
    then show "h \<in> {h. view s (entry_of st h) \<noteq> None}"
      unfolding ks(3) by (simp add: entry_of_def)
  next
    fix h assume "h \<in> {h. view s (entry_of st h) \<noteq> None}"
    then have "?p @ h \<in> set ks"
      by (auto simp: ks(3) entry_of_def state_key_append [of st h] starts_with_append)
    then show "h \<in> set ?hs" by (force simp: image_iff)
  qed
  ultimately show ?thesis using ks(1) map by metis
qed

lemma prune_reservations_exact:
  assumes "codec_ok cd" and "tokens_wf cd (view s)" and "\<forall>h \<in> set hs. canonical h"
  shows "\<exists>n' s'. prune_reservations cd ops now (map (\<lambda>h. state_key Reserved (TokenHash h)) hs) n s = (Inr n', s')
     \<and> view s' = drop_expired cd now (entry_of Reserved ` set hs) (view s) \<and> (inv s \<longrightarrow> inv s')"
  using assms(2,3)
proof (induction hs arbitrary: n s)
  case (Cons h hs)
  then have h: "canonical h" by simp
  let ?e = "entry_of Reserved h"
  show ?case
  proof (cases "expired_at cd now (view s) ?e")
    case False
    have "prune_reservations cd ops now (map (\<lambda>h. state_key Reserved (TokenHash h)) (h # hs)) n s
        = prune_reservations cd ops now (map (\<lambda>h. state_key Reserved (TokenHash h)) hs) n s"
    proof (cases "view s ?e")
      case (Some v)
      then obtain t where "decode cd v = Inr t" by (rule tokens_wf_decode [OF Cons.prems(1) assms(1)])
      then show ?thesis using Some False get_entry_of [OF h, of s Reserved] by (simp add: expired_at_def not_le)
    qed (use get_entry_of [OF h, of s Reserved] in simp)
    then show ?thesis using Cons.IH [OF Cons.prems(1)] Cons.prems(2) False by (simp add: drop_expired_insert)
  next
    case True
    then obtain v t where v: "view s ?e = Some v" "decode cd v = Inr t" "expires_at_epoch t \<le> now"
      by (auto simp: expired_at_def split: option.splits sum.splits)
    obtain s1 where s1: "delete_if_unchanged ops s (state_key Reserved (TokenHash h)) v = (Inr True, s1)"
      "view s1 = (view s)(?e := None)" "inv s \<longrightarrow> inv s1"
      using delete_view [OF h decode_length [OF v(2)], of s Reserved] v(1) by auto
    have wf1: "tokens_wf cd (view s1)" and can: "\<forall>h \<in> set hs. canonical h"
      using Cons.prems tokens_wf_remove by (simp_all add: s1(2))
    obtain n' s' where
      "prune_reservations cd ops now (map (\<lambda>h. state_key Reserved (TokenHash h)) hs) (n + 1) s1 = (Inr n', s')"
      "view s' = drop_expired cd now (entry_of Reserved ` set hs) (view s1)" "inv s1 \<longrightarrow> inv s'"
      using Cons.IH [OF wf1 can, of "n + 1"] by blast
    then show ?thesis
      using s1 v get_entry_of [OF h, of s Reserved] True by (simp add: drop_expired_insert leD)
  qed
qed simp

text \<open>The records listed are those stored, each under its own hash.\<close>

lemma store_list_exact:
  assumes "codec_ok cd" and "tokens_wf cd (view s)" and "inv s"
    and "card {h. view s (entry_of Redeemable h) \<noteq> None} \<le> MAX_RECORDS"
  shows "\<exists>ts. store_list cd ops s = Inr ts \<and> distinct (map token_hash ts)
     \<and> token_hash ` set ts = {h. view s (entry_of Redeemable h) \<noteq> None}
     \<and> (\<forall>t \<in> set ts. \<exists>v. view s (entry_of Redeemable (token_hash t)) = Some v \<and> decode cd v = Inr t)"
proof -
  let ?get = "\<lambda>key. and_then (kv_get ops s SYSTEM_KV_NAMESPACE key) (\<lambda>found.
      case found of None \<Rightarrow> Inl (Internal RecordDisappeared) | Some v \<Rightarrow> decode cd v)"
  obtain hs where hs: "kv_list_keys_with_prefix ops s SYSTEM_KV_NAMESPACE RECORD_PREFIX
      = Inr (map (\<lambda>h. state_key Redeemable (TokenHash h)) hs)"
    "distinct hs" "set hs = {h. view s (entry_of Redeemable h) \<noteq> None}"
    using list_hashes [OF assms(3), of Redeemable] by (auto simp: state_key.simps)
  let ?ks = "map (\<lambda>h. state_key Redeemable (TokenHash h)) hs"
  let ?f = "\<lambda>h. state_key Redeemable (TokenHash h)"
  have "\<exists>t. (\<exists>v. view s (entry_of Redeemable h) = Some v \<and> decode cd v = Inr t) \<and> token_hash t = h
      \<and> ?get (?f h) = Inr t" if "h \<in> set hs" for h
  proof -
    from that obtain v where v: "view s (entry_of Redeemable h) = Some v" using hs(3) by auto
    then obtain t where "decode cd v = Inr t" "token_hash t = h" "canonical h"
      by (rule tokens_wf_decode [OF assms(2,1)])
    then show ?thesis using v get_entry_of [of h s Redeemable] by auto
  qed
  then obtain tok where tok: "\<exists>v. view s (entry_of Redeemable h) = Some v \<and> decode cd v = Inr (tok h)"
    "token_hash (tok h) = h" "?get (?f h) = Inr (tok h)" if "h \<in> set hs" for h
    by metis
  define hs' where "hs' = map (Hilbert_Choice.inv ?f) (sort ?ks)"
  have sk: "sort ?ks = map ?f hs'"
    unfolding hs'_def map_map
    by (rule map_idI [symmetric]) (auto simp: inv_f_f [OF inj_state_key])
  have "distinct (map ?f hs')" unfolding sk [symmetric] using hs(2) inj_state_key
    by (simp add: distinct_map inj_on_def inj_def)
  then have dist: "distinct hs'" by (simp add: distinct_map)
  have "?f ` set hs' = ?f ` set hs" using arg_cong [OF sk, of set] by simp
  then have st: "set hs' = set hs" using inj_state_key by (simp add: inj_image_eq_iff)
  have "try_collect ?get (sort ?ks) = Inr (map tok hs')"
    unfolding sk by (rule try_collect_map) (use tok(3) st in blast)
  moreover have "map token_hash (map tok hs') = hs'" unfolding map_map by (rule map_idI) (use tok(2) st in simp)
  moreover have "length hs \<le> MAX_RECORDS" using assms(4) hs(2,3) distinct_card by metis
  moreover have "distinct (map token_hash (sort_key token_hash (map tok hs')))"
    using dist calculation(2) by (metis distinct_map distinct_sort set_sort)
  moreover have "token_hash ` tok ` set hs' = set hs'" using calculation(2) by (metis list.set_map)
  ultimately show ?thesis
    using hs tok(1,2) st by (intro exI [of _ "sort_key token_hash (map tok hs')"]) (simp add: store_list_def)
qed

lemma prune_records_exact:
  assumes "\<forall>t \<in> set ts. \<exists>v. view s (entry_of Redeemable (token_hash t)) = Some v \<and> decode cd v = Inr t"
    and "distinct (map token_hash ts)" and "\<forall>t \<in> set ts. canonical (token_hash t)"
  shows "\<exists>n' s'. prune_records ops now ts n s = (Inr n', s')
     \<and> view s' = drop_expired cd now (entry_of Redeemable ` token_hash ` set ts) (view s) \<and> (inv s \<longrightarrow> inv s')"
  using assms
proof (induction ts arbitrary: n s)
  case (Cons t ts)
  let ?e = "entry_of Redeemable (token_hash t)"
  obtain v where v: "view s ?e = Some v" "decode cd v = Inr t" and h: "canonical (token_hash t)"
    using Cons.prems by auto
  then have ex: "expired_at cd now (view s) ?e \<longleftrightarrow> expires_at_epoch t \<le> now" by (simp add: expired_at_def)
  show ?case
  proof (cases "expires_at_epoch t \<le> now")
    case False
    then show ?thesis
      using Cons.IH [of s n] Cons.prems ex by (auto simp: drop_expired_insert not_le)
  next
    case True
    obtain s1 where s1: "delete_if_unchanged ops s (state_key Redeemable (TokenHash (token_hash t))) v = (Inr True, s1)"
      "view s1 = (view s)(?e := None)" "inv s \<longrightarrow> inv s1"
      using delete_view [OF h decode_length [OF v(2)], of s Redeemable] v(1) by auto
    have rem: "\<forall>u \<in> set ts. \<exists>v. view s1 (entry_of Redeemable (token_hash u)) = Some v \<and> decode cd v = Inr u"
      using Cons.prems(1,2) by (auto simp: s1(2))
    have "distinct (map token_hash ts)" "\<forall>u \<in> set ts. canonical (token_hash u)"
      using Cons.prems(2,3) by simp_all
    then obtain n' s' where "prune_records ops now ts (n + 1) s1 = (Inr n', s')"
      "view s' = drop_expired cd now (entry_of Redeemable ` token_hash ` set ts) (view s1)" "inv s1 \<longrightarrow> inv s'"
      using Cons.IH [OF rem, of "n + 1"] by blast
    then show ?thesis
      using s1 v h get_entry_of [OF h, of s Redeemable] True ex by (simp add: drop_expired_insert leD)
  qed
qed simp

lemma prune_exact:
  assumes cd: "codec_ok cd" and wf: "tokens_wf cd (view s)" and inv: "inv s"
    and bound: "card {h. view s (entry_of Redeemable h) \<noteq> None} \<le> MAX_RECORDS"
  shows "\<exists>n s'. prune cd ops now s = (Inr n, s')
     \<and> view s' = drop_expired cd now (range (entry_of Redeemable) \<union> range (entry_of Reserved)) (view s)"
proof -
  obtain hs where hs: "kv_list_keys_with_prefix ops s SYSTEM_KV_NAMESPACE RESERVATION_PREFIX
      = Inr (map (\<lambda>h. state_key Reserved (TokenHash h)) hs)"
    "set hs = {h. view s (entry_of Reserved h) \<noteq> None}"
    using list_hashes [OF inv, of Reserved] by (auto simp: state_key.simps)
  have "\<forall>h \<in> set hs. canonical h" using hs(2) tokens_wf_decode [OF wf cd] by fastforce
  then obtain n1 s1 where 1: "prune_reservations cd ops now (map (\<lambda>h. state_key Reserved (TokenHash h)) hs) 0 s = (Inr n1, s1)"
    "view s1 = drop_expired cd now (entry_of Reserved ` set hs) (view s)" "inv s1"
    using prune_reservations_exact [OF cd wf] inv by blast
  have wf1: "tokens_wf cd (view s1)" using wf by (simp add: 1(2) tokens_wf_drop)
  have "view s1 (entry_of Redeemable h) = view s (entry_of Redeemable h)" for h
    by (auto simp: 1(2) drop_expired_def)
  with bound obtain ts where ts: "store_list cd ops s1 = Inr ts" "distinct (map token_hash ts)"
    "token_hash ` set ts = {h. view s1 (entry_of Redeemable h) \<noteq> None}"
    "\<forall>t \<in> set ts. \<exists>v. view s1 (entry_of Redeemable (token_hash t)) = Some v \<and> decode cd v = Inr t"
    using store_list_exact [OF cd wf1 1(3)] by auto
  have "\<forall>t \<in> set ts. canonical (token_hash t)" using ts(4) tokens_wf_decode [OF wf1 cd] by blast
  then obtain n2 s2 where 2: "prune_records ops now ts n1 s1 = (Inr n2, s2)"
    "view s2 = drop_expired cd now (entry_of Redeemable ` token_hash ` set ts) (view s1)"
    using prune_records_exact [OF ts(4,2)] by blast
  have "view s2 = drop_expired cd now (range (entry_of Redeemable) \<union> range (entry_of Reserved)) (view s)"
    unfolding 2(2) 1(2) drop_expired_union
    by (rule ext) (use hs(2) ts(3) in \<open>auto simp: 1(2) drop_expired_def expired_at_def split: if_splits\<close>)
  then show ?thesis using 1(1) 2(1) ts(1) by (simp add: prune_def hs(1))
qed

end

section \<open>Properties of the store over the in-memory backend\<close>

text \<open>A token and a codec for the examples below.\<close>

definition demo_token :: DurablePairToken where
  "demo_token =
     \<lparr>token_hash = ''blake3:'' @ replicate 64 (CHR ''0''), principal_uid = PrincipalUid (replicate 32 0),
      expires_at_epoch = 300, issued_at_epoch = 0, tk_label = None, tk_scope = Scoped [''self:*''] []\<rparr>"

definition demo_codec :: PairCodec where
  "demo_codec =
     \<lparr>json_to_vec = (\<lambda>t. if t = demo_token then Some ''{}'' else None),
      json_from_slice = (\<lambda>v. if v = ''{}'' then Some demo_token else None)\<rparr>"

lemma demo_encode: "encode demo_codec demo_token = Inr ''{}''"
proof -
  have "canonical_fingerprint (token_hash demo_token) = Some (token_hash demo_token)"
    by code_simp
  then show ?thesis
    by (simp add: encode_iff validate_record_def TokenHash_parse_def demo_codec_def MAX_RECORD_BYTES_def)
       (simp add: demo_token_def saturating_sub_def MAX_EXPIRY_SECS_def)
qed

lemma demo_expiry: "expires_at_epoch demo_token = 300"
  by (simp add: demo_token_def)

lemma demo_decode: "decode demo_codec ''{}'' = Inr demo_token"
  using demo_encode by (rule decode_encode [rotated]) (simp add: codec_ok_def demo_codec_def)

lemmas demo_eval = abs_issue_def abs_move_def abs_consume_def abs_revoke_def Let_def demo_encode
  demo_expiry demo_decode encode_canonical [OF demo_encode]

text \<open>
  C5.  A pairing token is single use.  Over any sequence of issue, redeem, reserve, release,
  consume, revoke and prune operations, by any number of interleaved callers and at any times, the
  operations that spend the token with hash \<open>h\<close> (consume, redeem, revoke) win at most as often as
  it was issued, counting what the store held for it at the start.
\<close>

theorem pair_token_single_use:
  assumes "run_ops cd memory_kv xs s = (ws, s')"
  shows "won (spends h) xs ws + occupancy h (mem_view s') \<le> won (issues h) xs ws + occupancy h (mem_view s)"
  using mem.run_ops_occupancy [OF assms] by blast

theorem pair_token_single_use_witness:
  "\<exists>s'. run_ops demo_codec memory_kv
      [Issue demo_token, Reserve 10 demo_token, Consume 10 demo_token, Consume 11 demo_token] MemoryKvStore_new
      = ([True, True, True, False], s')
    \<and> occupancy (token_hash demo_token) (mem_view s') = 0"
proof -
  let ?xs = "[Issue demo_token, Reserve 10 demo_token, Consume 10 demo_token, Consume 11 demo_token]"
  obtain ws s' where run: "run_ops demo_codec memory_kv ?xs MemoryKvStore_new = (ws, s')" by fastforce
  moreover have "fst (run_ops demo_codec memory_kv ?xs MemoryKvStore_new) = [True, True, True, False]"
    using mem.run_ops_follows [of ?xs demo_codec MemoryKvStore_new] by (simp add: demo_eval)
  ultimately show ?thesis
    using pair_token_single_use [OF run, of "token_hash demo_token"]
    by (auto simp: won_def occupancy_def)
qed



lemma run_ops_append:
  "run_ops cd ops (xs @ ys) s =
     (case run_ops cd ops xs s of (ws, s1) \<Rightarrow> case run_ops cd ops ys s1 of (vs, s2) \<Rightarrow> (ws @ vs, s2))"
  by (induction xs arbitrary: s) (auto split: prod.splits)

lemma run_ops_split:
  assumes "run_ops cd ops (pre @ x # post) s = (ws, s')"
  obtains ws1 s1 w s2 ws2 where "run_ops cd ops pre s = (ws1, s1)" "run_op cd ops x s1 = (w, s2)"
    "run_ops cd ops post s2 = (ws2, s')" "ws = ws1 @ w # ws2"
  using assms by (auto simp: run_ops_append split: prod.splits)

lemma won_append: "length ws = length xs \<Longrightarrow> won P (xs @ ys) (ws @ vs) = won P xs ws + won P ys vs"
  by (simp add: won_def)

text \<open>
  C11.  A token that was consumed, redeemed or revoked stays dead.  Take any run of the store that starts
  without the token and in which its hash is issued at most once.  After an operation of the run that
  spent the token, every later operation on it fails and neither of its keys is occupied: a preparation
  that lost its reservation cannot restore the token.
\<close>

theorem spent_token_stays_dead:
  assumes start: "occupancy h (mem_view s) = 0"
    and run: "run_ops cd memory_kv (pre @ x # post) s = (ws, s')" and once: "won (issues h) (pre @ x # post) ws \<le> 1"
    and spent: "spends h x" "ws ! length pre"
  shows "won (touches h) post (drop (Suc (length pre)) ws) = 0 \<and> occupancy h (mem_view s') = 0"
proof -
  obtain ws1 s1 w s2 ws2 where r: "run_ops cd memory_kv pre s = (ws1, s1)" "run_op cd memory_kv x s1 = (w, s2)"
      "run_ops cd memory_kv post s2 = (ws2, s')" and ws: "ws = ws1 @ w # ws2"
    by (rule run_ops_split [OF run])
  have len: "length ws1 = length pre"
    and pre: "occupancy h (mem_view s1) \<le> won (issues h) pre ws1"
    using mem.run_ops_occupancy [OF r(1), of h] start by auto
  have w: "w" using spent(2) len ws by (simp add: nth_append)
  have x: "\<not> issues h x" using spent(1) by (cases x) auto
  have "token_step cd x (mem_view s1) True (mem_view s2)" using mem.run_op_step [of cd x s1] r(2) w by simp
  from token_step_occupancy [OF this, of h] have "Suc (occupancy h (mem_view s2)) \<le> occupancy h (mem_view s1)"
    using spent(1) x by simp
  moreover have "won (issues h) pre ws1 + won (issues h) post ws2 \<le> 1"
    using once x by (simp add: ws won_append [OF len]) (simp add: won_def)
  ultimately have "occupancy h (mem_view s2) = 0" "won (issues h) post ws2 = 0" using pre by linarith+
  from mem.run_ops_dead [OF this r(3)] show ?thesis using len ws by simp
qed

theorem spent_token_stays_dead_witness:
  "\<exists>s'. run_ops demo_codec memory_kv [Issue demo_token, Reserve 10 demo_token, Revoke (token_hash demo_token),
      Release 10 demo_token, Reserve 10 demo_token, Consume 10 demo_token] MemoryKvStore_new
      = ([True, True, True, False, False, False], s') \<and> occupancy (token_hash demo_token) (mem_view s') = 0"
proof -
  let ?pre = "[Issue demo_token, Reserve 10 demo_token]" and ?x = "Revoke (token_hash demo_token)"
    and ?post = "[Release 10 demo_token, Reserve 10 demo_token, Consume 10 demo_token]"
  let ?ws = "[True, True, True, False, False, False]"
  obtain ws s' where run: "run_ops demo_codec memory_kv (?pre @ ?x # ?post) MemoryKvStore_new = (ws, s')" by fastforce
  have "fst (run_ops demo_codec memory_kv (?pre @ ?x # ?post) MemoryKvStore_new) = ?ws"
    using mem.run_ops_follows [of "?pre @ ?x # ?post" demo_codec MemoryKvStore_new] by (simp add: demo_eval)
  then have ws: "ws = ?ws" using run by simp
  have "occupancy (token_hash demo_token) (mem_view MemoryKvStore_new) = 0"
    by (simp add: occupancy_def mem_view_def MemoryKvStore_new_def)
  from spent_token_stays_dead [OF this run] have "occupancy (token_hash demo_token) (mem_view s') = 0"
    by (simp add: ws won_def)
  then show ?thesis using run ws by simp
qed

text \<open>
  The condition on issues is needed.  Issuing looks only at the redeemable key and revoking removes only one
  key: a hash that is issued again while its first record is reserved has two records, a revocation takes
  the redeemable one, and releasing the reservation brings the other back.
\<close>

lemma reissued_token_survives_revoke:
  "fst (run_ops demo_codec memory_kv [Issue demo_token, Reserve 10 demo_token, Issue demo_token,
      Revoke (token_hash demo_token), Release 10 demo_token] MemoryKvStore_new) = [True, True, True, True, True]"
  using mem.run_ops_follows [of "[Issue demo_token, Reserve 10 demo_token, Issue demo_token,
      Revoke (token_hash demo_token), Release 10 demo_token]" demo_codec MemoryKvStore_new]
  by (simp add: demo_eval)

text \<open>
  C39.  Pruning is exact: on a well-formed store of at most 4096 records it succeeds, removes every
  record and every abandoned reservation that has expired, and changes nothing else.
\<close>

theorem prune_removes_exactly_expired:
  assumes "codec_ok cd" and "tokens_wf cd (mem_view s)" and "mem_inv s"
    and "card {h. mem_view s (entry_of Redeemable h) \<noteq> None} \<le> MAX_RECORDS"
  shows "\<exists>n s'. prune cd memory_kv now s = (Inr n, s')
     \<and> (\<forall>st h. mem_view s' (entry_of st h) =
          (if expired_at cd now (mem_view s) (entry_of st h) then None else mem_view s (entry_of st h)))
     \<and> (\<forall>e. (\<forall>st h. e \<noteq> entry_of st h) \<longrightarrow> mem_view s' e = mem_view s e)"
proof -
  have all: "entry_of st h \<in> range (entry_of Redeemable) \<union> range (entry_of Reserved)" for st h
    by (cases st) auto
  obtain n s' where "prune cd memory_kv now s = (Inr n, s')"
    "mem_view s' = drop_expired cd now (range (entry_of Redeemable) \<union> range (entry_of Reserved)) (mem_view s)"
    using mem.prune_exact [OF assms] by blast
  then show ?thesis using all by (auto simp: drop_expired_def)
qed

theorem prune_removes_exactly_expired_witness:
  "let s = snd (issue demo_codec memory_kv demo_token MemoryKvStore_new)
   in \<exists>n s'. prune demo_codec memory_kv 300 s = (Inr n, s')
        \<and> mem_view s (entry_of Redeemable (token_hash demo_token)) \<noteq> None
        \<and> mem_view s' (entry_of Redeemable (token_hash demo_token)) = None"
proof -
  let ?s = "snd (issue demo_codec memory_kv demo_token MemoryKvStore_new)"
  let ?h = "token_hash demo_token"
  have s: "mem_view ?s = (\<lambda>_. None)(entry_of Redeemable ?h := Some ''{}'')" and inv: "mem_inv ?s"
    using mem.issue_follows [of MemoryKvStore_new demo_codec demo_token]
    by (auto simp: mem.follows_def demo_eval fun_eq_iff split: prod.splits)
  have "{h. mem_view ?s (entry_of Redeemable h) \<noteq> None} = {?h}" by (auto simp: s)
  moreover have "tokens_wf demo_codec (mem_view ?s)" using demo_encode by (auto simp: tokens_wf_def s)
  moreover have "codec_ok demo_codec" by (simp add: codec_ok_def demo_codec_def)
  ultimately obtain n s' where "prune demo_codec memory_kv 300 ?s = (Inr n, s')"
    "\<forall>st h. mem_view s' (entry_of st h) = (if expired_at demo_codec 300 (mem_view ?s) (entry_of st h) then None
        else mem_view ?s (entry_of st h))"
    using prune_removes_exactly_expired [of demo_codec ?s 300] inv by (auto simp: MAX_RECORDS_def)
  then show ?thesis
    by (simp add: Let_def s expired_at_def demo_decode demo_expiry)
qed

end
