(* ===== verification/Group_Config.thy ===== *)
theory Group_Config
  imports Principal_Profile
begin

text \<open>
  Groups of capabilities: \<open>crates/astrid-core/src/groups/mod.rs\<close>.  Reading \<open>groups.toml\<close>
  (file access and TOML parsing) is outside the model; \<open>from_custom_groups\<close> starts from the
  parsed table.  The invariant \<open>config_wf\<close> says that the built-in groups are present unchanged
  and that no other group carries the universal pattern without its opt-in; every mutation keeps
  it.
\<close>

section \<open>Groups and errors\<close>

record Group =
  capabilities :: "string list"
  description :: "string option"
  unsafe_admin :: bool

record GroupConfig =
  group_map :: "(string, Group) hash_map"

record ValidatedGroup =
  vg_capabilities :: "CapabilityPattern list"

record ValidatedGroupConfig =
  vg_groups :: "(GroupName, ValidatedGroup) hash_map"

datatype GroupConfigError =
    RedefinedBuiltin string
  | DuplicateName string
  | InvalidName string ProfileFieldError
  | InvalidCapability string string CapabilityGrammarError
  | UnsafeUniversalGrant string
  | UnknownGroup string
  | UnreachablePanic

definition BUILTIN_ADMIN :: string where "BUILTIN_ADMIN = ''admin''"
definition BUILTIN_AGENT :: string where "BUILTIN_AGENT = ''agent''"
definition BUILTIN_RESTRICTED :: string where "BUILTIN_RESTRICTED = ''restricted''"

definition BUILTIN_NAMES :: "string list" where
  "BUILTIN_NAMES = [BUILTIN_ADMIN, BUILTIN_AGENT, BUILTIN_RESTRICTED]"

lemmas builtin_names = BUILTIN_NAMES_def BUILTIN_ADMIN_def BUILTIN_AGENT_def BUILTIN_RESTRICTED_def

definition is_builtin :: "string \<Rightarrow> bool" where
  "is_builtin name \<longleftrightarrow> name \<in> set BUILTIN_NAMES"

definition em_dash :: string where
  "em_dash = [char_of (226 :: nat), char_of (128 :: nat), char_of (148 :: nat)]"

definition builtin_entries :: "(string \<times> Group) list" where
  "builtin_entries =
     [(BUILTIN_ADMIN,
        \<lparr>capabilities = [''*''],
         description = Some (''Built-in administrator '' @ em_dash @ '' universal capability grant''),
         unsafe_admin = False\<rparr>),
      (BUILTIN_AGENT,
        \<lparr>capabilities = [''self:*'', ''self:quota:get'', ''self:agent:list'', ''delegate:self:*''],
         description = Some (''Built-in agent '' @ em_dash @
           '' self-scoped capability grants for routine agent workflows''),
         unsafe_admin = False\<rparr>),
      (BUILTIN_RESTRICTED,
        \<lparr>capabilities = [],
         description = Some (''Built-in restricted '' @ em_dash @
           '' no implicit capabilities; grants must be explicit''),
         unsafe_admin = False\<rparr>)]"

section \<open>Validation of groups\<close>

definition validate_group_name :: "string \<Rightarrow> (GroupConfigError, GroupName) result" where
  "validate_group_name name = map_err (InvalidName name) (GroupName_new name)"

definition validate_group_capability ::
  "string \<Rightarrow> string \<Rightarrow> (GroupConfigError, CapabilityPattern) result" where
  "validate_group_capability grp cap =
     (case CapabilityPattern_new cap of
        Inr pattern \<Rightarrow> Inr pattern
      | Inl (InvalidCapabilityPattern reason) \<Rightarrow> Inl (InvalidCapability grp cap reason)
      | Inl _ \<Rightarrow> Inl UnreachablePanic)"

definition validate_custom_group :: "string \<Rightarrow> Group \<Rightarrow> (GroupConfigError, unit) result" where
  "validate_custom_group name grp =
     and_then (validate_group_name name) (\<lambda>_.
     try_each (\<lambda>cap.
         and_then (validate_group_capability name cap) (\<lambda>_.
         if cap = ''*'' \<and> \<not> unsafe_admin grp then Inl (UnsafeUniversalGrant name) else Inr ()))
       (capabilities grp))"

definition validate_group_view :: "string \<Rightarrow> Group \<Rightarrow> (GroupConfigError, ValidatedGroup) result" where
  "validate_group_view name grp =
     and_then (try_collect (\<lambda>cap.
         and_then (validate_group_capability name cap) (\<lambda>pattern.
         if pattern_str pattern = ''*'' \<and> \<not> unsafe_admin grp \<and> name \<noteq> BUILTIN_ADMIN
         then Inl (UnsafeUniversalGrant name) else Inr pattern))
       (capabilities grp)) (\<lambda>caps. Inr \<lparr>vg_capabilities = caps\<rparr>)"

fun typed_groups ::
  "(string \<times> Group) list \<Rightarrow> (GroupName, ValidatedGroup) hash_map \<Rightarrow>
   (GroupConfigError, (GroupName, ValidatedGroup) hash_map) result" where
  "typed_groups [] acc = Inr acc"
| "typed_groups ((name, grp) # rest) acc =
     and_then (validate_group_name name) (\<lambda>gn.
     and_then (validate_group_view (group_str gn) grp) (\<lambda>vg.
     if hm_contains_key acc gn then Inl (DuplicateName (group_str gn))
     else typed_groups rest (hm_insert gn vg acc)))"

definition typed :: "GroupConfig \<Rightarrow> (GroupConfigError, ValidatedGroupConfig) result" where
  "typed config =
     and_then (typed_groups (group_map config) []) (\<lambda>gs. Inr \<lparr>vg_groups = gs\<rparr>)"

section \<open>Construction and mutation\<close>

definition builtin_only :: GroupConfig where
  "builtin_only =
     \<lparr>group_map = fold (\<lambda>(name, grp). hm_insert name grp) builtin_entries []\<rparr>"

fun check_distinct_groups ::
  "(string \<times> Group) list \<Rightarrow> string set \<Rightarrow> (GroupConfigError, unit) result" where
  "check_distinct_groups [] seen = Inr ()"
| "check_distinct_groups ((name, grp) # rest) seen =
     (if name \<in> seen then Inl (DuplicateName name)
      else and_then (validate_custom_group name grp) (\<lambda>_.
           check_distinct_groups rest (insert name seen)))"

definition from_custom_groups :: "(string, Group) hash_map \<Rightarrow> (GroupConfigError, GroupConfig) result" where
  "from_custom_groups custom =
     and_then (try_each (\<lambda>name.
         if is_builtin name then Inl (RedefinedBuiltin name)
         else and_then (validate_group_name name) (\<lambda>_. Inr ())) (hm_keys custom)) (\<lambda>_.
     and_then (check_distinct_groups custom {}) (\<lambda>_.
     (let gs = fold (\<lambda>(name, grp). hm_insert name grp) custom
                 (fold (\<lambda>(name, grp). hm_insert name grp) builtin_entries []);
          config = \<lparr>group_map = gs\<rparr>
      in and_then (typed config) (\<lambda>_. Inr config))))"

definition insert_custom_group ::
  "GroupConfig \<Rightarrow> string \<Rightarrow> Group \<Rightarrow> (GroupConfigError, GroupConfig) result" where
  "insert_custom_group self name grp =
     (if is_builtin name then Inl (RedefinedBuiltin name)
      else and_then (validate_group_name name) (\<lambda>_.
        if hm_contains_key (group_map self) name then Inl (DuplicateName name)
        else and_then (validate_custom_group name grp) (\<lambda>_.
          (let config = \<lparr>group_map = hm_insert name grp (group_map self)\<rparr>
           in and_then (typed config) (\<lambda>_. Inr config)))))"

definition modify_custom_group ::
  "GroupConfig \<Rightarrow> string \<Rightarrow> string list option \<Rightarrow> string option option \<Rightarrow> bool option \<Rightarrow>
   (GroupConfigError, GroupConfig) result" where
  "modify_custom_group self name caps desc flag =
     (if is_builtin name then Inl (RedefinedBuiltin name)
      else and_then (validate_group_name name) (\<lambda>_.
        (case hm_get (group_map self) name of
           None \<Rightarrow> Inl (UnknownGroup name)
         | Some existing \<Rightarrow>
             (let updated =
                \<lparr>capabilities = (case caps of Some c \<Rightarrow> c | None \<Rightarrow> capabilities existing),
                 description = (case desc of Some d \<Rightarrow> d | None \<Rightarrow> description existing),
                 unsafe_admin = (case flag of Some f \<Rightarrow> f | None \<Rightarrow> unsafe_admin existing)\<rparr>
              in and_then (validate_custom_group name updated) (\<lambda>_.
                 (let config = \<lparr>group_map = hm_insert name updated (group_map self)\<rparr>
                  in and_then (typed config) (\<lambda>_. Inr config)))))))"

definition remove_group :: "GroupConfig \<Rightarrow> string \<Rightarrow> (GroupConfigError, GroupConfig) result" where
  "remove_group self name =
     (if is_builtin name then Inl (RedefinedBuiltin name)
      else and_then (validate_group_name name) (\<lambda>_.
        if \<not> hm_contains_key (group_map self) name then Inl (UnknownGroup name)
        else Inr \<lparr>group_map = hm_remove name (group_map self)\<rparr>))"

section \<open>Well-formed configurations\<close>

definition custom_group_ok :: "string \<Rightarrow> Group \<Rightarrow> bool" where
  "custom_group_ok name g \<longleftrightarrow> is_ok (validate_group_name_str name) \<and>
     (\<forall>c \<in> set (capabilities g). is_ok (validate_capability c)) \<and>
     (''*'' \<in> set (capabilities g) \<longrightarrow> unsafe_admin g)"

definition config_wf :: "GroupConfig \<Rightarrow> bool" where
  "config_wf c \<longleftrightarrow> hm_wf (group_map c) \<and>
     (\<forall>name grp. (name, grp) \<in> set builtin_entries \<longrightarrow>
        hm_get (group_map c) name = Some grp) \<and>
     (\<forall>name grp. hm_get (group_map c) name = Some grp \<longrightarrow> \<not> is_builtin name \<longrightarrow>
        custom_group_ok name grp)"

lemma validate_group_name_iff:
  "validate_group_name n = Inr g \<longleftrightarrow> is_ok (validate_group_name_str n) \<and> g = GroupName n"
  by (auto simp: validate_group_name_def result_simps GroupName_new_iff)

lemma validate_group_capability_iff:
  "validate_group_capability n c = Inr p \<longleftrightarrow> is_ok (validate_capability c) \<and> p = CapabilityPattern c"
  by (cases "validate_capability c") (auto simp: validate_group_capability_def CapabilityPattern_new_def)

lemma validate_group_capability_no_panic: "validate_group_capability n c \<noteq> Inl UnreachablePanic"
  by (cases "validate_capability c") (auto simp: validate_group_capability_def CapabilityPattern_new_def)

lemma validate_custom_group_iff: "validate_custom_group n g = Inr () \<longleftrightarrow> custom_group_ok n g"
  by (auto simp: validate_custom_group_def custom_group_ok_def result_simps validate_group_name_iff
      validate_group_capability_iff split: if_splits)

definition group_view_ok :: "string \<Rightarrow> Group \<Rightarrow> bool" where
  "group_view_ok name g \<longleftrightarrow> (\<forall>c \<in> set (capabilities g). is_ok (validate_capability c)) \<and>
     (''*'' \<in> set (capabilities g) \<longrightarrow> unsafe_admin g \<or> name = BUILTIN_ADMIN)"

lemma validate_group_view_iff:
  "validate_group_view n g = Inr vg \<longleftrightarrow>
     group_view_ok n g \<and> vg = \<lparr>vg_capabilities = map CapabilityPattern (capabilities g)\<rparr>"
proof -
  let ?v = "\<lambda>c. if c = ''*'' \<and> \<not> unsafe_admin g \<and> n \<noteq> BUILTIN_ADMIN
                then Inl () else map_err (\<lambda>_. ()) (validate_capability c)"
  have "try_collect (\<lambda>cap.
         and_then (validate_group_capability n cap) (\<lambda>pattern.
         if pattern_str pattern = ''*'' \<and> \<not> unsafe_admin g \<and> n \<noteq> BUILTIN_ADMIN
         then Inl (UnsafeUniversalGrant n) else Inr pattern)) cs = Inr ps \<longleftrightarrow>
       (\<forall>c \<in> set cs. is_ok (?v c)) \<and> ps = map CapabilityPattern cs" for cs ps
    by (rule try_collect_wrap) (auto simp: result_simps validate_group_capability_iff)
  moreover have "(\<forall>c \<in> set (capabilities g). is_ok (?v c)) \<longleftrightarrow> group_view_ok n g"
    by (auto simp: group_view_ok_def)
  ultimately show ?thesis
    unfolding validate_group_view_def and_then_Inr_iff by auto
qed

lemma typed_groups_ok:
  assumes "distinct (map fst gs)"
    and "\<forall>(n, g) \<in> set gs. is_ok (validate_group_name_str n) \<and> group_view_ok n g"
    and "\<forall>(n, g) \<in> set gs. hm_get acc (GroupName n) = None"
  shows "\<exists>r. typed_groups gs acc = Inr r \<and>
     (\<forall>n. hm_get r (GroupName n) = (case hm_get gs n of
        Some g \<Rightarrow> Some \<lparr>vg_capabilities = map CapabilityPattern (capabilities g)\<rparr>
      | None \<Rightarrow> hm_get acc (GroupName n)))"
  using assms
proof (induction gs arbitrary: acc)
  case (Cons x gs)
  obtain n g where x: "x = (n, g)" by (cases x)
  let ?vg = "\<lparr>vg_capabilities = map CapabilityPattern (capabilities g)\<rparr>"
  have v: "validate_group_name n = Inr (GroupName n)" "validate_group_view n g = Inr ?vg"
    using Cons.prems by (auto simp: x validate_group_name_iff validate_group_view_iff)
  have fresh: "\<not> hm_contains_key acc (GroupName n)"
    using Cons.prems(3) by (auto simp: x hm_contains_key_def)
  have "hm_get (hm_insert (GroupName n) ?vg acc) (GroupName m) = None" if "(m, h) \<in> set gs" for m h
    using Cons.prems that by (force simp: x hm.get_insert)
  then have fresh': "\<forall>(m, h) \<in> set gs. hm_get (hm_insert (GroupName n) ?vg acc) (GroupName m) = None"
    by blast
  have prems: "distinct (map fst gs)"
    "\<forall>(n, g) \<in> set gs. is_ok (validate_group_name_str n) \<and> group_view_ok n g"
    using Cons.prems(1,2) by simp_all
  obtain r where r: "typed_groups gs (hm_insert (GroupName n) ?vg acc) = Inr r"
    "\<forall>m. hm_get r (GroupName m) = (case hm_get gs m of
        Some g \<Rightarrow> Some \<lparr>vg_capabilities = map CapabilityPattern (capabilities g)\<rparr>
      | None \<Rightarrow> hm_get (hm_insert (GroupName n) ?vg acc) (GroupName m))"
    using Cons.IH [OF prems fresh'] by blast
  have "hm_get gs n = None" using Cons.prems(1) by (simp add: x hm_get_None_iff)
  then have "\<forall>m. hm_get r (GroupName m) = (case hm_get (x # gs) m of
        Some g \<Rightarrow> Some \<lparr>vg_capabilities = map CapabilityPattern (capabilities g)\<rparr>
      | None \<Rightarrow> hm_get acc (GroupName m))"
    using r(2) by (auto simp: x hm.get_insert split: option.splits)
  with v fresh r(1) show ?case by (simp add: x)
qed simp


lemma fst_builtin_entries: "fst ` set builtin_entries = set BUILTIN_NAMES"
  by (simp add: builtin_entries_def BUILTIN_NAMES_def)

lemma builtin_entries_builtin: "(n, g) \<in> set builtin_entries \<Longrightarrow> is_builtin n"
  unfolding is_builtin_def fst_builtin_entries [symmetric] by (rule image_eqI [of _ fst "(n, g)"]) simp

lemma is_builtin_entry: "is_builtin n \<Longrightarrow> \<exists>g. (n, g) \<in> set builtin_entries"
  unfolding is_builtin_def fst_builtin_entries [symmetric] by (auto simp: image_iff)

lemma builtin_distinct: "distinct (map fst builtin_entries)"
  by (simp add: builtin_entries_def builtin_names)

lemma builtin_names_valid: "list_all (\<lambda>n. is_ok (validate_group_name_str n)) BUILTIN_NAMES"
  by code_simp

lemma builtin_caps_valid:
  "list_all (\<lambda>(n, g). list_all (\<lambda>c. is_ok (validate_capability c)) (capabilities g)) builtin_entries"
  by code_simp

lemma builtin_star:
  "list_all (\<lambda>(n, g). ''*'' \<in> set (capabilities g) \<longrightarrow> n = BUILTIN_ADMIN) builtin_entries"
  by (simp add: builtin_entries_def)

lemma builtin_view_ok:
  assumes "(n, g) \<in> set builtin_entries"
  shows "is_ok (validate_group_name_str n) \<and> group_view_ok n g"
proof -
  have "n \<in> set BUILTIN_NAMES" using builtin_entries_builtin [OF assms] by (simp add: is_builtin_def)
  then show ?thesis
    using assms builtin_names_valid builtin_caps_valid builtin_star
    by (auto simp: group_view_ok_def list_all_iff)
qed

lemma custom_view_ok:
  "custom_group_ok n g \<Longrightarrow> is_ok (validate_group_name_str n) \<and> group_view_ok n g"
  by (auto simp: custom_group_ok_def group_view_ok_def)

lemma config_wf_view_ok:
  assumes "config_wf c" and "hm_get (group_map c) n = Some g"
  shows "is_ok (validate_group_name_str n) \<and> group_view_ok n g"
proof (cases "is_builtin n")
  case True
  then obtain g' where g': "(n, g') \<in> set builtin_entries" using is_builtin_entry by blast
  with assms have "g = g'" by (auto simp: config_wf_def)
  with g' builtin_view_ok show ?thesis by blast
next
  case False
  with assms show ?thesis by (auto simp: config_wf_def intro!: custom_view_ok)
qed

text \<open>On a well-formed configuration the typed view exists and lists exactly the same patterns.\<close>

lemma typed_config_wf:
  assumes "config_wf c"
  obtains v where "typed c = Inr v"
    and "\<And>n. hm_get (vg_groups v) (GroupName n) =
           map_option (\<lambda>g. \<lparr>vg_capabilities = map CapabilityPattern (capabilities g)\<rparr>)
             (hm_get (group_map c) n)"
proof -
  have wf: "hm_wf (group_map c)" using assms by (simp add: config_wf_def)
  have ok: "\<forall>(n, g) \<in> set (group_map c). is_ok (validate_group_name_str n) \<and> group_view_ok n g"
    using config_wf_view_ok [OF assms] hm_get_Some_iff [OF wf] by blast
  have "\<exists>r. typed_groups (group_map c) [] = Inr r \<and>
     (\<forall>n. hm_get r (GroupName n) = (case hm_get (group_map c) n of
        Some g \<Rightarrow> Some \<lparr>vg_capabilities = map CapabilityPattern (capabilities g)\<rparr>
      | None \<Rightarrow> hm_get [] (GroupName n)))"
    using wf by (intro typed_groups_ok [OF _ ok]) (auto simp: hm_wf_def)
  then obtain r where r: "typed_groups (group_map c) [] = Inr r"
    and get: "\<forall>n. hm_get r (GroupName n) = (case hm_get (group_map c) n of
        Some g \<Rightarrow> Some \<lparr>vg_capabilities = map CapabilityPattern (capabilities g)\<rparr>
      | None \<Rightarrow> hm_get [] (GroupName n))"
    by blast
  have "hm_get r (GroupName n) = map_option
       (\<lambda>g. \<lparr>vg_capabilities = map CapabilityPattern (capabilities g)\<rparr>) (hm_get (group_map c) n)" for n
    using get by (cases "hm_get (group_map c) n") simp_all
  with r show ?thesis
    by (intro that [of "\<lparr>vg_groups = r\<rparr>"]) (simp_all add: typed_def)
qed

lemma hm_fold_insert:
  "hm_wf m \<Longrightarrow> hm_wf (fold (\<lambda>(n, g). hm_insert n g) gs m)"
  by (induction gs arbitrary: m) (auto intro: hm.wf_insert)

lemma hm_get_fold_insert:
  "distinct (map fst gs) \<Longrightarrow>
   hm_get (fold (\<lambda>(n, g). hm_insert n g) gs m) k =
     (case hm_get gs k of Some v \<Rightarrow> Some v | None \<Rightarrow> hm_get m k)"
proof (induction gs arbitrary: m)
  case (Cons x gs)
  obtain n g where x: "x = (n, g)" by (cases x)
  have "k = n \<Longrightarrow> hm_get gs k = None" using Cons.prems by (simp add: x hm_get_None_iff)
  then show ?case
    using Cons.IH [of "hm_insert n g m"] Cons.prems
    by (simp add: x hm.get_insert split: option.split)
qed simp

lemma builtin_only_get: "hm_get (group_map builtin_only) n = hm_get builtin_entries n"
  by (simp add: builtin_only_def hm_get_fold_insert [OF builtin_distinct] split: option.split)

lemma builtin_entries_get:
  "hm_get builtin_entries n = Some g \<longleftrightarrow> (n, g) \<in> set builtin_entries"
  by (rule hm_get_Some_iff) (simp add: hm_wf_def builtin_distinct)

lemma config_wf_builtin_only: "config_wf builtin_only"
proof -
  have "hm_wf (group_map builtin_only)"
    unfolding builtin_only_def by (simp add: hm_fold_insert)
  then show ?thesis
    by (auto simp: config_wf_def builtin_only_get builtin_entries_get dest: builtin_entries_builtin)
qed

lemma check_distinct_groups_ok:
  "check_distinct_groups gs seen = Inr () \<Longrightarrow>
     distinct (map fst gs) \<and> fst ` set gs \<inter> seen = {} \<and> (\<forall>(n, g) \<in> set gs. custom_group_ok n g)"
proof (induction gs arbitrary: seen)
  case (Cons x gs)
  obtain n g where x: "x = (n, g)" by (cases x)
  from Cons.prems have "n \<notin> seen" "validate_custom_group n g = Inr ()"
    "check_distinct_groups gs (insert n seen) = Inr ()"
    by (auto simp: x result_simps split: if_splits)
  with Cons.IH [of "insert n seen"] show ?case
    by (auto simp: x validate_custom_group_iff)
qed simp

lemma config_wf_from_custom:
  assumes "from_custom_groups custom = Inr c"
  shows "config_wf c"
proof -
  from assms have nb: "\<forall>n \<in> set (hm_keys custom). \<not> is_builtin n"
    and cd: "check_distinct_groups custom {} = Inr ()"
    and c: "group_map c = fold (\<lambda>(n, g). hm_insert n g) custom (group_map builtin_only)"
    by (auto simp: from_custom_groups_def result_simps Let_def builtin_only_def split: if_splits)
  note ok = check_distinct_groups_ok [OF cd]
  have get: "hm_get (group_map c) n = (case hm_get custom n of Some v \<Rightarrow> Some v
      | None \<Rightarrow> hm_get builtin_entries n)" for n
    using ok by (simp add: c hm_get_fold_insert builtin_only_get split: option.split)
  have wf: "hm_wf (group_map c)"
    using config_wf_builtin_only by (simp add: c hm_fold_insert config_wf_def)
  have bi: "hm_get (group_map c) n = Some g" if "(n, g) \<in> set builtin_entries" for n g
  proof -
    have "hm_get custom n = None"
      using nb builtin_entries_builtin [OF that] hm_keys_iff [of n custom] by blast
    with that show ?thesis by (simp add: get builtin_entries_get)
  qed
  have cu: "custom_group_ok n g" if "hm_get (group_map c) n = Some g" "\<not> is_builtin n" for n g
  proof -
    have "hm_get builtin_entries n = None"
      using that(2) builtin_entries_builtin hm_get_mem by (metis option.exhaust)
    with that(1) have "hm_get custom n = Some g" by (simp add: get split: option.splits)
    then have "(n, g) \<in> set custom" by (rule hm_get_mem)
    with ok show ?thesis by blast
  qed
  from wf bi cu show ?thesis by (auto simp: config_wf_def)
qed

lemma config_wf_insert_at:
  "config_wf c \<Longrightarrow> \<not> is_builtin n \<Longrightarrow> custom_group_ok n g \<Longrightarrow>
     config_wf \<lparr>group_map = hm_insert n g (group_map c)\<rparr>"
  by (auto simp: config_wf_def hm.get_insert hm.wf_insert dest: builtin_entries_builtin)

lemma insert_custom_group_Inr:
  "insert_custom_group c name g = Inr c' \<Longrightarrow>
     \<not> is_builtin name \<and> hm_get (group_map c) name = None \<and> custom_group_ok name g \<and>
     c' = \<lparr>group_map = hm_insert name g (group_map c)\<rparr>"
  by (auto simp: insert_custom_group_def result_simps Let_def hm_contains_key_def
      validate_custom_group_iff split: if_splits)

lemma modify_custom_group_Inr:
  "modify_custom_group c name caps desc flag = Inr c' \<Longrightarrow>
     \<exists>old g. \<not> is_builtin name \<and> hm_get (group_map c) name = Some old \<and> custom_group_ok name g \<and>
       capabilities g = (case caps of Some x \<Rightarrow> x | None \<Rightarrow> capabilities old) \<and>
       c' = \<lparr>group_map = hm_insert name g (group_map c)\<rparr>"
  by (auto simp: modify_custom_group_def result_simps Let_def validate_custom_group_iff
      split: if_splits option.splits)

lemma remove_group_Inr:
  "remove_group c name = Inr c' \<Longrightarrow>
     \<not> is_builtin name \<and> c' = \<lparr>group_map = hm_remove name (group_map c)\<rparr>"
  by (auto simp: remove_group_def result_simps split: if_splits)

lemma config_wf_remove_at:
  "config_wf c \<Longrightarrow> \<not> is_builtin n \<Longrightarrow> config_wf \<lparr>group_map = hm_remove n (group_map c)\<rparr>"
  by (auto simp: config_wf_def hm.get_remove hm.wf_remove dest: builtin_entries_builtin)

text \<open>The configurations the kernel can hold: loaded at boot, then changed by the admin requests.\<close>

inductive config_reachable :: "GroupConfig \<Rightarrow> bool" where
  boot_builtin: "config_reachable builtin_only"
| boot_custom: "from_custom_groups custom = Inr c \<Longrightarrow> config_reachable c"
| step_insert: "config_reachable c \<Longrightarrow> insert_custom_group c name g = Inr c' \<Longrightarrow> config_reachable c'"
| step_modify: "config_reachable c \<Longrightarrow> modify_custom_group c name caps desc flag = Inr c' \<Longrightarrow>
     config_reachable c'"
| step_remove: "config_reachable c \<Longrightarrow> remove_group c name = Inr c' \<Longrightarrow> config_reachable c'"

text \<open>
  C8.  Every group configuration the kernel can reach is well formed: the three built-in groups stay
  present and unchanged, and every other group has a valid name, only patterns of the grammar, and
  the universal pattern only together with its \<open>unsafe_admin\<close> opt-in.
\<close>

theorem reachable_config_wf: "config_reachable c \<Longrightarrow> config_wf c"
proof (induction rule: config_reachable.induct)
  case boot_builtin
  show ?case by (rule config_wf_builtin_only)
next
  case (boot_custom custom c)
  then show ?case by (rule config_wf_from_custom)
next
  case (step_insert c name g c')
  then show ?case using insert_custom_group_Inr config_wf_insert_at by blast
next
  case (step_modify c name caps desc flag c')
  then show ?case using modify_custom_group_Inr config_wf_insert_at by blast
next
  case (step_remove c name c')
  then show ?case using remove_group_Inr config_wf_remove_at by blast
qed

definition ops_group :: Group where
  "ops_group = \<lparr>capabilities = [''capsule:install''], description = None, unsafe_admin = False\<rparr>"

lemma insert_custom_group_succeeds:
  assumes "config_wf c" "\<not> is_builtin name" "hm_get (group_map c) name = None"
    "custom_group_ok name g"
  shows "insert_custom_group c name g = Inr \<lparr>group_map = hm_insert name g (group_map c)\<rparr>"
proof -
  have "config_wf \<lparr>group_map = hm_insert name g (group_map c)\<rparr>"
    using assms by (intro config_wf_insert_at)
  then obtain v where "typed \<lparr>group_map = hm_insert name g (group_map c)\<rparr> = Inr v"
    by (rule typed_config_wf)
  moreover have "validate_group_name name = Inr (GroupName name)"
    using assms(4) by (simp add: validate_group_name_iff custom_group_ok_def)
  moreover have "validate_custom_group name g = Inr ()"
    using assms(4) by (simp add: validate_custom_group_iff)
  ultimately show ?thesis
    using assms(2,3) by (simp add: insert_custom_group_def hm_contains_key_def)
qed

lemma ops_group_ok: "custom_group_ok ''ops'' ops_group"
  by (simp add: ops_group_def custom_group_ok_def validate_group_name_str_def MAX_GROUP_NAME_LEN_def
      validate_capability_def MAX_CAPABILITY_LEN_def starts_with_def validate_segment_def
      is_name_char_def ascii_defs)

theorem reachable_config_wf_witness:
  "config_wf \<lparr>group_map = hm_insert ''ops'' ops_group (group_map builtin_only)\<rparr>"
proof (rule reachable_config_wf, rule step_insert [OF boot_builtin])
  have "hm_get (group_map builtin_only) ''ops'' = None"
    by (simp add: builtin_only_get builtin_entries_def builtin_names)
  then show "insert_custom_group builtin_only ''ops'' ops_group =
      Inr \<lparr>group_map = hm_insert ''ops'' ops_group (group_map builtin_only)\<rparr>"
    by (intro insert_custom_group_succeeds config_wf_builtin_only ops_group_ok)
       (simp_all add: is_builtin_def builtin_names)
qed

end
