(* ===== verification/Capability_Policy.thy ===== *)
theory Capability_Policy
  imports Group_Config
begin

text \<open>
  The static capability check of \<open>crates/astrid-capabilities/src/policy.rs\<close> and the resolution
  of the authenticating device in \<open>crates/astrid-kernel/src/kernel_router/device_scope.rs\<close>.
  Security logging is not modelled.  \<open>authority\<close> states the documented precedence (revokes, then
  grants, then groups, then the device floor); the check is shown to compute it, so the boolean and
  the error-reporting entry points agree.
\<close>

section \<open>The check\<close>

datatype PermissionError =
    MissingCapability PrincipalId string
  | RevokedCapability PrincipalId string string
  | PrincipalDisabled PrincipalId
  | DeviceScopeDenied PrincipalId string

record CapabilityCheck =
  cc_profile :: "(ProfileError, ValidatedProfileFields) result"
  cc_groups :: "(GroupConfigError, ValidatedGroupConfig) result"
  cc_principal :: PrincipalId
  cc_device_scope :: "DeviceScope option"

definition CapabilityCheck_new ::
  "PrincipalProfile \<Rightarrow> GroupConfig \<Rightarrow> PrincipalId \<Rightarrow> CapabilityCheck" where
  "CapabilityCheck_new profile gs pid =
     \<lparr>cc_profile = typed_fields profile, cc_groups = typed gs, cc_principal = pid,
      cc_device_scope = None\<rparr>"

definition with_device_scope :: "CapabilityCheck \<Rightarrow> DeviceScope \<Rightarrow> CapabilityCheck" where
  "with_device_scope c sc = c\<lparr>cc_device_scope := Some sc\<rparr>"

definition matches_any :: "string list \<Rightarrow> string \<Rightarrow> bool" where
  "matches_any patterns cap = list_ex (\<lambda>p. capability_matches p cap) patterns"

definition first_matching_revoke :: "ValidatedProfileFields \<Rightarrow> string \<Rightarrow> string option" where
  "first_matching_revoke profile cap =
     find (\<lambda>p. capability_matches p cap) (map pattern_str (vf_revokes profile))"

fun holds_via_named ::
  "ValidatedGroupConfig \<Rightarrow> GroupName list \<Rightarrow> string \<Rightarrow> bool" where
  "holds_via_named gs [] cap = False"
| "holds_via_named gs (name # names) cap =
     (case hm_get (vg_groups gs) name of
        None \<Rightarrow> holds_via_named gs names cap
      | Some g \<Rightarrow> if matches_any (map pattern_str (vg_capabilities g)) cap then True
                  else holds_via_named gs names cap)"

definition holds_via_groups :: "CapabilityCheck \<Rightarrow> ValidatedProfileFields \<Rightarrow> string \<Rightarrow> bool" where
  "holds_via_groups c profile cap =
     (case cc_groups c of Inl _ \<Rightarrow> False
      | Inr gs \<Rightarrow> holds_via_named gs (vf_groups profile) cap)"

definition device_scope_admits :: "CapabilityCheck \<Rightarrow> string \<Rightarrow> bool" where
  "device_scope_admits c cap =
     (case cc_device_scope c of
        None \<Rightarrow> True
      | Some Full \<Rightarrow> True
      | Some (Scoped allow deny) \<Rightarrow> matches_any allow cap \<and> \<not> matches_any deny cap)"

definition principal_has :: "CapabilityCheck \<Rightarrow> ValidatedProfileFields \<Rightarrow> string \<Rightarrow> bool" where
  "principal_has c profile cap =
     (if matches_any (map pattern_str (vf_revokes profile)) cap then False
      else if matches_any (map pattern_str (vf_grants profile)) cap then True
      else holds_via_groups c profile cap)"

definition has :: "CapabilityCheck \<Rightarrow> string \<Rightarrow> bool" where
  "has c cap =
     (case cc_profile c of
        Inl _ \<Rightarrow> False
      | Inr profile \<Rightarrow> if \<not> principal_has c profile cap then False else device_scope_admits c cap)"

definition require :: "CapabilityCheck \<Rightarrow> string \<Rightarrow> (PermissionError, unit) result" where
  "require c cap =
     (case cc_profile c of
        Inl _ \<Rightarrow> Inl (MissingCapability (cc_principal c) cap)
      | Inr profile \<Rightarrow>
          (case first_matching_revoke profile cap of
             Some revoke \<Rightarrow> Inl (RevokedCapability (cc_principal c) cap revoke)
           | None \<Rightarrow>
               if \<not> (matches_any (map pattern_str (vf_grants profile)) cap
                      \<or> holds_via_groups c profile cap)
                 then Inl (MissingCapability (cc_principal c) cap)
               else if \<not> device_scope_admits c cap
                 then Inl (DeviceScopeDenied (cc_principal c) cap)
               else Inr ()))"

definition device_scope_within :: "CapabilityCheck \<Rightarrow> DeviceScope \<Rightarrow> (PermissionError, unit) result" where
  "device_scope_within issuer_check requested =
     (case requested of
        Full \<Rightarrow> Inr ()
      | Scoped allow deny \<Rightarrow>
          try_each (\<lambda>pattern. if \<not> has issuer_check pattern
                     then Inl (MissingCapability (cc_principal issuer_check) pattern) else Inr ())
            allow)"

section \<open>The authenticating device\<close>

definition resolve_device ::
  "PrincipalProfile \<Rightarrow> PrincipalId \<Rightarrow> string option \<Rightarrow> string \<Rightarrow>
   (PermissionError, DeviceKey option) result" where
  "resolve_device profile caller device_key_id required_cap =
     (case device_key_id of
        None \<Rightarrow> Inr None
      | Some raw_key_id \<Rightarrow>
          (case validate_device_key_id raw_key_id of
             Inl _ \<Rightarrow> Inl (DeviceScopeDenied caller required_cap)
           | Inr _ \<Rightarrow>
               (case device_by_typed_key_id (auth profile) raw_key_id of
                  None \<Rightarrow> Inl (DeviceScopeDenied caller required_cap)
                | Some device \<Rightarrow> Inr (Some device))))"

definition resolve_device_scope ::
  "PrincipalProfile \<Rightarrow> PrincipalId \<Rightarrow> string option \<Rightarrow> string \<Rightarrow>
   (PermissionError, DeviceScope option) result" where
  "resolve_device_scope profile caller device_key_id required_cap =
     and_then (resolve_device profile caller device_key_id required_cap)
       (\<lambda>device. Inr (map_option scope device))"

section \<open>The documented precedence\<close>

definition scope_admits :: "DeviceScope option \<Rightarrow> string \<Rightarrow> bool" where
  "scope_admits sc cap \<longleftrightarrow> (case sc of Some (Scoped allow deny) \<Rightarrow>
       (\<exists>p \<in> set allow. capability_matches p cap) \<and> (\<forall>p \<in> set deny. \<not> capability_matches p cap)
     | _ \<Rightarrow> True)"

definition group_confers :: "GroupConfig \<Rightarrow> string list \<Rightarrow> string \<Rightarrow> bool" where
  "group_confers gc names cap \<longleftrightarrow> (\<exists>n \<in> set names. \<exists>g. hm_get (group_map gc) n = Some g \<and>
     (\<exists>p \<in> set (capabilities g). capability_matches p cap))"

definition authority :: "PrincipalProfile \<Rightarrow> GroupConfig \<Rightarrow> DeviceScope option \<Rightarrow> string \<Rightarrow> bool" where
  "authority p gc sc cap \<longleftrightarrow> fields_ok p \<and>
     (\<forall>r \<in> set (revokes p). \<not> capability_matches r cap) \<and>
     ((\<exists>g \<in> set (grants p). capability_matches g cap) \<or> group_confers gc (groups p) cap) \<and>
     scope_admits sc cap"

lemma matches_any_iff: "matches_any ps cap \<longleftrightarrow> (\<exists>p \<in> set ps. capability_matches p cap)"
  by (simp add: matches_any_def list_ex_iff)

lemma device_scope_admits_iff: "device_scope_admits c cap = scope_admits (cc_device_scope c) cap"
  by (auto simp: device_scope_admits_def scope_admits_def matches_any_iff
      split: option.splits DeviceScope.splits)

lemma pattern_str_map [simp]: "map pattern_str (map CapabilityPattern xs) = xs"
  by (induction xs) auto

lemma holds_via_named_iff:
  "holds_via_named gs names cap \<longleftrightarrow> (\<exists>n \<in> set names. \<exists>g. hm_get (vg_groups gs) n = Some g \<and>
     matches_any (map pattern_str (vg_capabilities g)) cap)"
  by (induction names) (auto split: option.splits)

lemma holds_via_groups_wf:
  assumes "config_wf gc" and "cc_groups c = typed gc" and "vf_groups v = map GroupName names"
  shows "holds_via_groups c v cap \<longleftrightarrow> group_confers gc names cap"
proof -
  obtain w where w: "typed gc = Inr w"
    and get: "\<And>n. hm_get (vg_groups w) (GroupName n) =
           map_option (\<lambda>g. \<lparr>vg_capabilities = map CapabilityPattern (capabilities g)\<rparr>)
             (hm_get (group_map gc) n)"
    using assms(1) by (rule typed_config_wf) blast
  have "holds_via_groups c v cap = holds_via_named w (map GroupName names) cap"
    by (simp add: holds_via_groups_def assms(2,3) w)
  also have "\<dots> \<longleftrightarrow> group_confers gc names cap"
  proof -
    have "(\<exists>g. hm_get (vg_groups w) (GroupName n) = Some g \<and>
             matches_any (map pattern_str (vg_capabilities g)) cap) \<longleftrightarrow>
          (\<exists>g. hm_get (group_map gc) n = Some g \<and>
             (\<exists>p \<in> set (capabilities g). capability_matches p cap))" for n
      by (cases "hm_get (group_map gc) n") (simp_all add: get matches_any_iff del: map_map)
    then show ?thesis by (simp add: holds_via_named_iff group_confers_def)
  qed
  finally show ?thesis .
qed

lemma require_iff_has: "require c cap = Inr () \<longleftrightarrow> has c cap"
proof (cases "cc_profile c")
  case (Inr v)
  have "first_matching_revoke v cap = None \<longleftrightarrow> \<not> matches_any (map pattern_str (vf_revokes v)) cap"
    by (simp add: first_matching_revoke_def find_None_ball matches_any_iff)
  then show ?thesis
    by (auto simp: require_def has_def principal_has_def Inr split: option.splits)
qed (simp add: require_def has_def)

lemma has_authority_scope:
  assumes "config_wf gc"
  shows "has (CapabilityCheck_new p gc pid\<lparr>cc_device_scope := sc\<rparr>) cap \<longleftrightarrow> authority p gc sc cap"
proof (cases "fields_ok p")
  case True
  let ?c = "CapabilityCheck_new p gc pid\<lparr>cc_device_scope := sc\<rparr>"
  define v where "v = \<lparr>vf_groups = map GroupName (groups p), vf_grants = map CapabilityPattern (grants p),
          vf_revokes = map CapabilityPattern (revokes p), vf_capsules = map CapsuleGrant (capsules p)\<rparr>"
  have t: "typed_fields p = Inr v" using True by (simp add: typed_fields_iff v_def)
  have g: "holds_via_groups ?c v cap \<longleftrightarrow> group_confers gc (groups p) cap"
    by (rule holds_via_groups_wf [OF assms]) (simp_all add: CapabilityCheck_new_def v_def)
  have "has ?c cap \<longleftrightarrow> principal_has ?c v cap \<and> scope_admits sc cap"
    by (simp add: has_def CapabilityCheck_new_def t device_scope_admits_iff)
  also have "principal_has ?c v cap \<longleftrightarrow>
     (\<forall>r \<in> set (revokes p). \<not> capability_matches r cap) \<and>
     ((\<exists>g \<in> set (grants p). capability_matches g cap) \<or> group_confers gc (groups p) cap)"
    unfolding principal_has_def g by (auto simp: v_def matches_any_iff)
  finally show ?thesis using True by (auto simp: authority_def)
next
  case False
  then obtain e where "typed_fields p = Inl e" by (metis not_ok_iff typed_fields_ok)
  with False show ?thesis by (simp add: has_def CapabilityCheck_new_def authority_def)
qed

lemma has_authority:
  "config_wf gc \<Longrightarrow> has (CapabilityCheck_new p gc pid) cap \<longleftrightarrow> authority p gc None cap"
  using has_authority_scope [where gc = gc and p = p and pid = pid and sc = None and cap = cap]
  by (simp add: CapabilityCheck_new_def)

lemma has_authority_device:
  "config_wf gc \<Longrightarrow>
     has (with_device_scope (CapabilityCheck_new p gc pid) sc) cap \<longleftrightarrow> authority p gc (Some sc) cap"
  using has_authority_scope [where gc = gc and p = p and pid = pid and sc = "Some sc" and cap = cap]
  by (simp add: with_device_scope_def)

text \<open>
  C7.  On a well-formed group configuration the capability check computes the documented precedence:
  it admits a capability exactly when the profile is valid, no revoke matches, a grant or a group of
  the principal matches, and the device floor admits it; and \<open>require\<close> succeeds exactly when
  \<open>has\<close> answers true.
\<close>

theorem check_computes_authority:
  assumes "config_wf gc"
  shows "has (with_device_scope (CapabilityCheck_new p gc pid) sc) cap = authority p gc (Some sc) cap
    \<and> (require (with_device_scope (CapabilityCheck_new p gc pid) sc) cap = Inr ())
       = authority p gc (Some sc) cap"
  by (simp add: require_iff_has has_authority_device [OF assms])

definition agent_profile :: PrincipalProfile where
  "agent_profile = PrincipalProfile_default\<lparr>groups := [''agent'']\<rparr>"

theorem check_computes_authority_witness:
  "has (with_device_scope (CapabilityCheck_new agent_profile builtin_only default_principal) Full)
       ''self:capsule:install''
     = authority agent_profile builtin_only (Some Full) ''self:capsule:install''"
  using check_computes_authority [OF config_wf_builtin_only] by blast

text \<open>
  The device floor only narrows: whatever scope a check is given, a capability it admits is
  admitted by the same check with no device floor, so pairing a device never adds authority.
\<close>

theorem device_scope_only_narrows:
  "has (with_device_scope c sc) cap \<Longrightarrow> has (c\<lparr>cc_device_scope := None\<rparr>) cap"
  by (auto simp: has_def with_device_scope_def principal_has_def holds_via_groups_def
      device_scope_admits_def split: sum.splits if_splits)

lemma agent_scoped_has:
  "has (with_device_scope (CapabilityCheck_new agent_profile builtin_only default_principal)
          (Scoped [''self:*''] [''self:auth:pair''])) ''self:quota:get''"
  by code_simp

theorem device_scope_only_narrows_witness:
  "has (CapabilityCheck_new agent_profile builtin_only default_principal\<lparr>cc_device_scope := None\<rparr>)
     ''self:quota:get''"
  by (rule device_scope_only_narrows [OF agent_scoped_has])

text \<open>
  Revokes win: when a revoke pattern of a valid profile matches a capability, the check denies
  it with the revoke error naming a matching revoke pattern, whatever the grants, groups and device.
\<close>

theorem revokes_win:
  assumes "fields_ok p" and "r \<in> set (revokes p)" and "capability_matches r cap"
  shows "\<exists>r' \<in> set (revokes p). capability_matches r' cap \<and>
     require (CapabilityCheck_new p gc pid\<lparr>cc_device_scope := sc\<rparr>) cap =
       Inl (RevokedCapability pid cap r')"
proof -
  obtain v where v: "typed_fields p = Inr v" "map pattern_str (vf_revokes v) = revokes p"
    using assms(1) by (auto simp: typed_fields_iff simp del: map_map)
  obtain r' where r': "find (\<lambda>q. capability_matches q cap) (revokes p) = Some r'"
    using assms(2,3) by (metis find_None_ball option.exhaust)
  then have "capability_matches r' cap \<and> r' \<in> set (revokes p)" by (rule find_Some_iff)
  moreover have "require (CapabilityCheck_new p gc pid\<lparr>cc_device_scope := sc\<rparr>) cap =
       Inl (RevokedCapability pid cap r')"
    by (simp add: require_def CapabilityCheck_new_def v first_matching_revoke_def r')
  ultimately show ?thesis by blast
qed

definition revoked_admin :: PrincipalProfile where
  "revoked_admin = PrincipalProfile_default\<lparr>groups := [''admin''], revokes := [''system:*'']\<rparr>"

lemma revoked_admin_fields: "fields_ok revoked_admin"
  by code_simp

theorem revokes_win_witness:
  "\<exists>r' \<in> set (revokes revoked_admin). capability_matches r' ''system:shutdown'' \<and>
     require (CapabilityCheck_new revoked_admin builtin_only default_principal\<lparr>cc_device_scope := None\<rparr>)
       ''system:shutdown'' = Inl (RevokedCapability default_principal ''system:shutdown'' r')"
  by (rule revokes_win [OF revoked_admin_fields, of "''system:*''"])
     (simp_all add: revoked_admin_def capability_matches_def)

text \<open>
  A request that names a device is never treated as an unscoped request: resolution either
  refuses it or returns a key registered on the caller's profile under exactly that id.
\<close>

lemma device_resolution_fails_closed:
  assumes "resolve_device profile caller (Some kid) cap = Inr d"
  shows "\<exists>k \<in> set (public_keys (auth profile)). d = Some k \<and> key_id k = kid"
proof (cases "find (\<lambda>k. key_id k = kid) (public_keys (auth profile))")
  case None
  with assms show ?thesis
    by (simp add: resolve_device_def device_by_typed_key_id_def split: sum.splits)
next
  case (Some k)
  with assms have "d = Some k"
    by (simp add: resolve_device_def device_by_typed_key_id_def split: sum.splits)
  with find_Some_iff [OF Some] show ?thesis by blast
qed

text \<open>A profile with one paired device.\<close>

definition paired_profile :: PrincipalProfile where
  "paired_profile = PrincipalProfile_default\<lparr>auth := \<lparr>methods = [Keypair],
     public_keys = [DeviceKey_new (take 16) (replicate 64 CHR ''a'') Full None 0]\<rparr>\<rparr>"

end
