(* ===== verification/Pair_Device.thy ===== *)
theory Pair_Device
  imports Pair_Token_Store Capability_Policy
begin

text \<open>
  The pairing handlers of \<open>crates/astrid-kernel/src/kernel_router/admin/pair_device_handlers.rs\<close>:
  issuing a pairing token under the issuer's own authority, redeeming it into a registered device
  key, listing and revoking devices.

  The kernel state the handlers touch is the record \<open>PairKernel\<close>: the token store, the profiles
  on disk, the cached profiles, the group configuration and the principal directory.  A handler runs
  under the admin write lock, so it is a function of that state.  File access may fail; the outcome
  of each file operation is part of the record \<open>PairEnv\<close>, with the readings of the clock, the
  freshly generated token and the digests (BLAKE3), which are not modelled.  The import of the
  released token file is represented by whether it succeeds: with no such file it leaves the store
  alone.
\<close>

section \<open>Requests and replies\<close>

datatype PairScopeArg = ScopeFull | ScopePreset string | ScopeExplicit "string list" "string list"

record AuthorizedRequest =
  ar_principal :: PrincipalId
  ar_profile :: PrincipalProfile
  ar_groups :: GroupConfig
  ar_device_scope :: "DeviceScope option"
  ar_device_key_id :: "string option"
  ar_authenticated_public_key :: "u8 list option"

datatype PairIssueError =
    ExpiryZero
  | ExpiryTooLong u64
  | UnknownPreset string
  | BadPattern string ProfileFieldError

datatype PairAuthorityError =
    NeedsPair PrincipalId
  | ScopedCannotMintFull PrincipalId
  | FullNeedsAdmin PrincipalId
  | UniversalNeedsAdmin PrincipalId
  | ScopeExceedsAuthority PermissionError

datatype PairIssuePreflightError = PreBadInput PairIssueError | PreUnauthorized PairAuthorityError

datatype PairBadInput =
    BadIssue PairIssueError
  | BadPublicKey HexError
  | BadDeviceKeyId HexError
  | NoSuchPrincipal PrincipalId
  | NoSuchDevice string

datatype PairUnauthorized =
    TokenInvalidOrExpired
  | AuthorityDenied PairAuthorityError
  | IssuerDeviceDenied PermissionError

datatype PairInternal =
    StoreUnavailable | ImportFailed | PruneFailed | NoDurableIdentity | TokenCollision
  | StoreWriteFailed | StoreReadFailed | RollbackFailed | IdentityGone | ProfileGone
  | ProfileLoadFailed | ProfileRejected ProfileError | ProfileSaveFailed | ProfileRollbackFailed
  | IssuerProfileFailed

record DeviceKeyInfo =
  di_key_id :: string
  di_label :: "string option"
  di_scope :: DeviceScope
  di_created_at :: int

datatype AdminResponseBody =
    PairTokenIssued string PrincipalId u64 "string option"
  | PairTokenRedeemed PrincipalId string string
  | PairDeviceListed "DeviceKeyInfo list"
  | PairDeviceRevoked string
  | ErrBadInput PairBadInput
  | ErrUnauthorized PairUnauthorized
  | ErrInternal PairInternal

section \<open>Kernel state and environment\<close>

record 's PairKernel =
  pk_store :: "'s option"
  pk_profiles :: "PrincipalId \<Rightarrow> PrincipalProfile option"
  pk_cache :: "PrincipalId \<Rightarrow> PrincipalProfile option"
  pk_groups :: GroupConfig
  pk_uid_for :: "PrincipalId \<Rightarrow> PrincipalUid option"
  pk_alias_for :: "PrincipalUid \<Rightarrow> PrincipalId option"

record 's PairEnv =
  pe_codec :: PairCodec
  pe_ops :: "'s KvStore"
  pe_hash_token :: "string \<Rightarrow> string"
  pe_key_id :: "string \<Rightarrow> string"
  pe_fingerprint :: "string \<Rightarrow> string"
  pe_import_ok :: bool
  pe_load_ok :: bool
  pe_save_ok :: bool
  pe_reload_ok :: bool
  pe_restore_ok :: bool

text \<open>\<open>profile_cache.resolve\<close>: the cached profile, or the one on disk, which is then cached.\<close>

definition cache_resolve ::
  "'s PairEnv \<Rightarrow> 's PairKernel \<Rightarrow> PrincipalId \<Rightarrow> PrincipalProfile option \<times> 's PairKernel" where
  "cache_resolve env k caller =
     (case pk_cache k caller of
        Some p \<Rightarrow> (Some p, k)
      | None \<Rightarrow>
          (case pk_profiles k caller of
             None \<Rightarrow> (None, k)
           | Some p \<Rightarrow> if pe_load_ok env then (Some p, k\<lparr>pk_cache := (pk_cache k)(caller := Some p)\<rparr>)
                       else (None, k)))"

definition cache_invalidate :: "PrincipalId \<Rightarrow> 's PairKernel \<Rightarrow> 's PairKernel" where
  "cache_invalidate pid k = k\<lparr>pk_cache := (pk_cache k)(pid := None)\<rparr>"

definition save_profile :: "PrincipalId \<Rightarrow> PrincipalProfile \<Rightarrow> 's PairKernel \<Rightarrow> 's PairKernel" where
  "save_profile pid p k = k\<lparr>pk_profiles := (pk_profiles k)(pid := Some p)\<rparr>"

section \<open>Issue\<close>

definition DEFAULT_EXPIRY_SECS :: u64 where
  "DEFAULT_EXPIRY_SECS = 5 * 60"

definition resolve_pair_scope :: "PairScopeArg \<Rightarrow> (PairIssueError, DeviceScope) result" where
  "resolve_pair_scope arg =
     (case arg of
        ScopeFull \<Rightarrow> Inr Full
      | ScopePreset name \<Rightarrow>
          (case DeviceScope_preset name of None \<Rightarrow> Inl (UnknownPreset name) | Some s \<Rightarrow> Inr s)
      | ScopeExplicit allow deny \<Rightarrow> Inr (Scoped allow deny))"

definition validate_pair_scope_patterns :: "DeviceScope \<Rightarrow> (PairIssueError, unit) result" where
  "validate_pair_scope_patterns sc =
     (case sc of
        Full \<Rightarrow> Inr ()
      | Scoped allow deny \<Rightarrow>
          try_each (\<lambda>p. and_then (map_err (BadPattern p) (CapabilityPattern_new p)) (\<lambda>_. Inr ()))
            (allow @ deny))"

definition validate_pair_issue ::
  "u64 option \<Rightarrow> PairScopeArg \<Rightarrow> (PairIssueError, u64 \<times> DeviceScope) result" where
  "validate_pair_issue expires_secs requested =
     (let lifetime = (case expires_secs of None \<Rightarrow> DEFAULT_EXPIRY_SECS | Some e \<Rightarrow> e)
      in if lifetime = 0 then Inl ExpiryZero
         else if lifetime > MAX_EXPIRY_SECS then Inl (ExpiryTooLong lifetime)
         else and_then (resolve_pair_scope requested) (\<lambda>sc.
              and_then (validate_pair_scope_patterns sc) (\<lambda>_. Inr (lifetime, sc))))"

definition pair_scope_requires_admin :: "PairScopeArg \<Rightarrow> bool" where
  "pair_scope_requires_admin sc =
     (case sc of
        ScopeFull \<Rightarrow> True
      | ScopePreset name \<Rightarrow> DeviceScope_preset name = Some Full
      | ScopeExplicit allow deny \<Rightarrow> list_ex (\<lambda>p. p = ''*'') allow)"

fun push_missing :: "string list \<Rightarrow> string list \<Rightarrow> string list" where
  "push_missing merged [] = merged"
| "push_missing merged (p # ps) = push_missing (if p \<in> set merged then merged else merged @ [p]) ps"

definition inherit_issuer_denies :: "DeviceScope \<Rightarrow> DeviceScope option \<Rightarrow> DeviceScope" where
  "inherit_issuer_denies child issuer_scope =
     (case (issuer_scope, child) of
        (Some (Scoped _ issuer_deny), Scoped allow deny) \<Rightarrow> Scoped allow (push_missing deny issuer_deny)
      | _ \<Rightarrow> child)"

definition issuer_check ::
  "PrincipalId \<Rightarrow> PrincipalProfile \<Rightarrow> GroupConfig \<Rightarrow> DeviceScope option \<Rightarrow> CapabilityCheck" where
  "issuer_check caller profile gs issuer_scope =
     (let c = CapabilityCheck_new profile gs caller
      in case issuer_scope of
           Some (Scoped allow deny) \<Rightarrow> with_device_scope c (Scoped allow deny)
         | _ \<Rightarrow> c)"

definition validate_pair_issue_authority ::
  "PrincipalId \<Rightarrow> PrincipalProfile \<Rightarrow> GroupConfig \<Rightarrow> DeviceScope option \<Rightarrow> DeviceScope
     \<Rightarrow> (PairAuthorityError, DeviceScope) result" where
  "validate_pair_issue_authority caller profile gs issuer_scope requested =
     (let c = issuer_check caller profile gs issuer_scope
      in if \<not> has c ''self:auth:pair'' then Inl (NeedsPair caller)
         else and_then
           (case requested of
              Full \<Rightarrow>
                (case issuer_scope of
                   Some (Scoped _ _) \<Rightarrow> Inl (ScopedCannotMintFull caller)
                 | _ \<Rightarrow> if \<not> has c ''self:auth:pair:admin'' then Inl (FullNeedsAdmin caller) else Inr ())
            | Scoped allow deny \<Rightarrow>
                if list_ex (\<lambda>p. p = ''*'') allow \<and> \<not> has c ''self:auth:pair:admin''
                  then Inl (UniversalNeedsAdmin caller)
                else map_err ScopeExceedsAuthority (device_scope_within c requested))
           (\<lambda>_. Inr (inherit_issuer_denies requested issuer_scope)))"

definition preflight_pair_device_issue ::
  "AuthorizedRequest \<Rightarrow> u64 option \<Rightarrow> PairScopeArg \<Rightarrow> (PairIssuePreflightError, unit) result" where
  "preflight_pair_device_issue authorization expires_secs requested =
     and_then (map_err PreBadInput (validate_pair_issue expires_secs requested)) (\<lambda>(_, requested_scope).
     and_then (map_err PreUnauthorized
        (validate_pair_issue_authority (ar_principal authorization) (ar_profile authorization)
           (ar_groups authorization) (ar_device_scope authorization) requested_scope)) (\<lambda>_. Inr ()))"

definition resolve_pair_issuer_authority ::
  "'s PairEnv \<Rightarrow> 's PairKernel \<Rightarrow> PrincipalId \<Rightarrow> AuthorizedRequest option \<Rightarrow> string option
     \<Rightarrow> (AdminResponseBody, PrincipalProfile \<times> GroupConfig \<times> DeviceScope option) result \<times> 's PairKernel" where
  "resolve_pair_issuer_authority env k caller authorization issuer_device_key_id =
     (case authorization of
        Some a \<Rightarrow> (Inr (ar_profile a, ar_groups a, ar_device_scope a), k)
      | None \<Rightarrow>
          if pk_profiles k caller = None then (Inl (ErrBadInput (NoSuchPrincipal caller)), k)
          else case cache_resolve env k caller of
                 (None, k') \<Rightarrow> (Inl (ErrInternal IssuerProfileFailed), k')
               | (Some profile, k') \<Rightarrow>
                   (case resolve_device_scope profile caller issuer_device_key_id ''self:auth:pair'' of
                      Inl e \<Rightarrow> (Inl (ErrUnauthorized (IssuerDeviceDenied e)), k')
                    | Inr issuer_scope \<Rightarrow> (Inr (profile, pk_groups k', issuer_scope), k')))"

definition saturating_add64 :: "u64 \<Rightarrow> u64 \<Rightarrow> u64" where
  "saturating_add64 a b = (if unat a + unat b < 2 ^ 64 then a + b else - 1)"

text \<open>
  The part of \<open>pair_device_issue\<close> under the write lock; \<open>token\<close> is the freshly generated raw
  token and \<open>now\<close> the clock.
\<close>

definition pair_device_issue_locked ::
  "'s PairEnv \<Rightarrow> u64 \<Rightarrow> string \<Rightarrow> PrincipalId \<Rightarrow> u64 \<Rightarrow> string option \<Rightarrow> DeviceScope \<Rightarrow> 's PairKernel
     \<Rightarrow> AdminResponseBody \<times> 's PairKernel" where
  "pair_device_issue_locked env now token caller lifetime label stored_scope k =
     (case pk_store k of
        None \<Rightarrow> (ErrInternal StoreUnavailable, k)
      | Some s \<Rightarrow>
          if \<not> pe_import_ok env then (ErrInternal ImportFailed, k)
          else case prune (pe_codec env) (pe_ops env) now s of
            (Inl _, s') \<Rightarrow> (ErrInternal PruneFailed, k\<lparr>pk_store := Some s'\<rparr>)
          | (Inr _, s') \<Rightarrow>
              (case pk_uid_for k caller of
                 None \<Rightarrow> (ErrInternal NoDurableIdentity, k\<lparr>pk_store := Some s'\<rparr>)
               | Some uid \<Rightarrow>
                   let expires = saturating_add64 now lifetime;
                       record = \<lparr>token_hash = pe_hash_token env token, principal_uid = uid,
                                 expires_at_epoch = expires, issued_at_epoch = now,
                                 tk_label = label, tk_scope = stored_scope\<rparr>
                   in case issue (pe_codec env) (pe_ops env) record s' of
                        (Inl _, s'') \<Rightarrow> (ErrInternal StoreWriteFailed, k\<lparr>pk_store := Some s''\<rparr>)
                      | (Inr False, s'') \<Rightarrow> (ErrInternal TokenCollision, k\<lparr>pk_store := Some s''\<rparr>)
                      | (Inr True, s'') \<Rightarrow>
                          (PairTokenIssued token caller expires label, k\<lparr>pk_store := Some s''\<rparr>)))"

definition pair_device_issue ::
  "'s PairEnv \<Rightarrow> u64 \<Rightarrow> string \<Rightarrow> PrincipalId \<Rightarrow> AuthorizedRequest option \<Rightarrow> string option
     \<Rightarrow> u64 option \<Rightarrow> string option \<Rightarrow> PairScopeArg \<Rightarrow> 's PairKernel
     \<Rightarrow> AdminResponseBody \<times> 's PairKernel" where
  "pair_device_issue env now token caller authorization issuer_device_key_id expires_secs label requested k =
     (case validate_pair_issue expires_secs requested of
        Inl e \<Rightarrow> (ErrBadInput (BadIssue e), k)
      | Inr (lifetime, requested_scope) \<Rightarrow>
          (case resolve_pair_issuer_authority env k caller authorization issuer_device_key_id of
             (Inl response, k') \<Rightarrow> (response, k')
           | (Inr (profile, gs, issuer_scope), k') \<Rightarrow>
               (case validate_pair_issue_authority caller profile gs issuer_scope requested_scope of
                  Inl e \<Rightarrow> (ErrUnauthorized (AuthorityDenied e), k')
                | Inr stored_scope \<Rightarrow>
                    pair_device_issue_locked env now token caller lifetime label stored_scope k')))"

section \<open>Redeem\<close>

definition append_key ::
  "'s PairEnv \<Rightarrow> u64 \<Rightarrow> DurablePairToken \<Rightarrow> string \<Rightarrow> PrincipalProfile \<Rightarrow> PrincipalProfile" where
  "append_key env now chosen key profile =
     (let a = auth profile;
          keys = (if device_by_typed_pubkey a key = None
                  then public_keys a @ [DeviceKey_new (pe_key_id env) key (tk_scope chosen) (tk_label chosen)
                                          (if uint now < 2 ^ 63 then uint now else 0)]
                  else public_keys a);
          ms = (if Keypair \<in> set (methods a) then methods a else methods a @ [Keypair])
      in profile\<lparr>auth := a\<lparr>public_keys := keys, methods := ms\<rparr>\<rparr>)"

text \<open>
  \<open>pair_device_redeem_reserved\<close>: \<open>Inl\<close> asks the caller to release the reservation, \<open>Inr\<close>
  is final.  \<open>now\<close> is the time of the profile stamp, \<open>now'\<close> that of the commit.
\<close>

definition pair_device_redeem_reserved ::
  "'s PairEnv \<Rightarrow> u64 \<Rightarrow> u64 \<Rightarrow> DurablePairToken \<Rightarrow> string \<Rightarrow> 's \<Rightarrow> 's PairKernel
     \<Rightarrow> (AdminResponseBody, AdminResponseBody) result \<times> 's \<times> 's PairKernel" where
  "pair_device_redeem_reserved env now now' chosen key s k =
     (case pk_alias_for k (principal_uid chosen) of
        None \<Rightarrow> (Inl (ErrInternal IdentityGone), s, k)
      | Some pid \<Rightarrow>
          (case pk_profiles k pid of
             None \<Rightarrow> (Inl (ErrInternal ProfileGone), s, k)
           | Some original \<Rightarrow>
               if \<not> pe_load_ok env then (Inl (ErrInternal ProfileLoadFailed), s, k)
               else let profile = append_key env now chosen key original
                    in case PrincipalProfile_validate profile of
                         Inl e \<Rightarrow> (Inl (ErrInternal (ProfileRejected e)), s, k)
                       | Inr _ \<Rightarrow>
                           if \<not> pe_save_ok env then (Inl (ErrInternal ProfileSaveFailed), s, k)
                           else let k1 = save_profile pid profile k;
                                    ok = PairTokenRedeemed pid (pe_fingerprint env (''ed25519:'' @ key))
                                           (pe_key_id env key)
                                in case consume_reservation (pe_codec env) (pe_ops env) now' chosen s of
                                     (Inr True, s') \<Rightarrow> (Inr ok, s', cache_invalidate pid k1)
                                   | (Inr False, s') \<Rightarrow>
                                       if \<not> pe_reload_ok env then (Inr (ErrInternal ProfileRollbackFailed), s', k1)
                                       else if pk_profiles k1 pid = Some profile
                                         then if \<not> pe_restore_ok env
                                              then (Inr (ErrInternal ProfileRollbackFailed), s', k1)
                                              else (Inr (ErrUnauthorized TokenInvalidOrExpired), s',
                                                    cache_invalidate pid (save_profile pid original k1))
                                       else (Inr (ErrUnauthorized TokenInvalidOrExpired), s', k1)
                                   | (Inl _, s') \<Rightarrow> (Inr ok, s', cache_invalidate pid k1)))"

definition pair_device_redeem ::
  "'s PairEnv \<Rightarrow> (nat \<Rightarrow> u64) \<Rightarrow> string \<Rightarrow> string \<Rightarrow> 's PairKernel \<Rightarrow> AdminResponseBody \<times> 's PairKernel" where
  "pair_device_redeem env clock token public_key k =
     (case DevicePubkey_normalize public_key of
        Inl e \<Rightarrow> (ErrBadInput (BadPublicKey e), k)
      | Inr key \<Rightarrow>
          (case pk_store k of
             None \<Rightarrow> (ErrInternal StoreUnavailable, k)
           | Some s \<Rightarrow>
               if \<not> pe_import_ok env then (ErrInternal ImportFailed, k)
               else case redeemable (pe_codec env) (pe_ops env) (clock 0) (pe_hash_token env token) s of
                 Inl _ \<Rightarrow> (ErrInternal StoreReadFailed, k)
               | Inr None \<Rightarrow> (ErrUnauthorized TokenInvalidOrExpired, k)
               | Inr (Some chosen) \<Rightarrow>
                   (case reserve_if_unchanged (pe_codec env) (pe_ops env) (clock 1) chosen s of
                      (Inl _, s1) \<Rightarrow> (ErrInternal StoreWriteFailed, k\<lparr>pk_store := Some s1\<rparr>)
                    | (Inr False, s1) \<Rightarrow> (ErrUnauthorized TokenInvalidOrExpired, k\<lparr>pk_store := Some s1\<rparr>)
                    | (Inr True, s1) \<Rightarrow>
                        (case pair_device_redeem_reserved env (clock 2) (clock 3) chosen key s1 k of
                           (Inr response, s2, k') \<Rightarrow> (response, k'\<lparr>pk_store := Some s2\<rparr>)
                         | (Inl response, s2, k') \<Rightarrow>
                             (case release_reservation (pe_codec env) (pe_ops env) (clock 4) chosen s2 of
                                (Inr _, s3) \<Rightarrow> (response, k'\<lparr>pk_store := Some s3\<rparr>)
                              | (Inl _, s3) \<Rightarrow> (ErrInternal RollbackFailed, k'\<lparr>pk_store := Some s3\<rparr>))))))"

section \<open>List and revoke\<close>

definition pair_device_list :: "'s PairEnv \<Rightarrow> PrincipalId \<Rightarrow> 's PairKernel \<Rightarrow> AdminResponseBody" where
  "pair_device_list env pid k =
     (case pk_profiles k pid of
        None \<Rightarrow> ErrBadInput (NoSuchPrincipal pid)
      | Some profile \<Rightarrow>
          if \<not> pe_load_ok env then ErrInternal ProfileLoadFailed
          else PairDeviceListed
                 (map (\<lambda>d. \<lparr>di_key_id = key_id d, di_label = dk_label d, di_scope = scope d,
                            di_created_at = created_at d\<rparr>) (public_keys (auth profile))))"

definition remove_device :: "string \<Rightarrow> PrincipalProfile \<Rightarrow> PrincipalProfile" where
  "remove_device kid profile =
     (let a = auth profile;
          keys = filter (\<lambda>d. key_id d \<noteq> kid) (public_keys a);
          ms = (if keys = [] then filter (\<lambda>m. m \<noteq> Keypair) (methods a) else methods a)
      in profile\<lparr>auth := a\<lparr>public_keys := keys, methods := ms\<rparr>\<rparr>)"

definition pair_device_revoke ::
  "'s PairEnv \<Rightarrow> PrincipalId \<Rightarrow> string \<Rightarrow> 's PairKernel \<Rightarrow> AdminResponseBody \<times> 's PairKernel" where
  "pair_device_revoke env pid kid k =
     (case validate_device_key_id kid of
        Inl e \<Rightarrow> (ErrBadInput (BadDeviceKeyId e), k)
      | Inr _ \<Rightarrow>
          (case pk_profiles k pid of
             None \<Rightarrow> (ErrBadInput (NoSuchPrincipal pid), k)
           | Some profile \<Rightarrow>
               if \<not> pe_load_ok env then (ErrInternal ProfileLoadFailed, k)
               else let profile' = remove_device kid profile
                    in if length (public_keys (auth profile')) = length (public_keys (auth profile))
                         then (ErrBadInput (NoSuchDevice kid), k)
                       else case PrincipalProfile_validate profile' of
                              Inl e \<Rightarrow> (ErrInternal (ProfileRejected e), k)
                            | Inr _ \<Rightarrow>
                                if \<not> pe_save_ok env then (ErrInternal ProfileSaveFailed, k)
                                else (PairDeviceRevoked kid, cache_invalidate pid (save_profile pid profile' k))))"

section \<open>The issuer's authority bounds the device's\<close>

lemma has_issuer_check:
  "has (issuer_check pid p gs sc) cap \<longleftrightarrow> has (CapabilityCheck_new p gs pid) cap \<and> scope_admits sc cap"
  by (auto simp: issuer_check_def has_def with_device_scope_def CapabilityCheck_new_def Let_def
      principal_has_def holds_via_groups_def device_scope_admits_iff scope_admits_def
      split: option.splits DeviceScope.splits sum.splits if_splits)

lemma set_push_missing: "set (push_missing ds is) = set ds \<union> set is"
  by (induction "ds" "is" rule: push_missing.induct) auto

lemma scope_admits_inherit:
  assumes within: "\<forall>p \<in> set allow. scope_admits issuer_scope p"
    and child: "scope_admits (Some (inherit_issuer_denies (Scoped allow deny) issuer_scope)) cap"
  shows "scope_admits issuer_scope cap"
proof (cases issuer_scope)
  case (Some sc)
  show ?thesis
  proof (cases sc)
    case (Scoped ia id)
    from child obtain p where p: "p \<in> set allow" "capability_matches p cap"
      and d: "\<forall>q \<in> set id. \<not> capability_matches q cap"
      by (auto simp: Some Scoped inherit_issuer_denies_def scope_admits_def set_push_missing)
    from within p(1) obtain q where "q \<in> set ia" "capability_matches q p"
      by (auto simp: Some Scoped scope_admits_def)
    then show ?thesis
      using capability_matches_trans [OF _ p(2)] d by (auto simp: Some Scoped scope_admits_def)
  qed (simp add: Some scope_admits_def)
qed (simp add: scope_admits_def)

lemma issue_authority_within:
  assumes "validate_pair_issue_authority caller profile gs issuer_scope requested = Inr child"
    and "scope_admits (Some child) cap"
  shows "scope_admits issuer_scope cap"
proof (cases requested)
  case Full
  then show ?thesis
    using assms(1)
    by (auto simp: validate_pair_issue_authority_def Let_def result_simps scope_admits_def
        split: option.splits DeviceScope.splits if_splits)
next
  case (Scoped allow deny)
  then have "device_scope_within (issuer_check caller profile gs issuer_scope) requested = Inr ()"
    and child: "child = inherit_issuer_denies (Scoped allow deny) issuer_scope"
    using assms(1)
    by (auto simp: validate_pair_issue_authority_def Let_def result_simps split: if_splits)
  then have "\<forall>p \<in> set allow. scope_admits issuer_scope p"
    by (auto simp: Scoped device_scope_within_def result_simps has_issuer_check split: if_splits)
  then show ?thesis by (rule scope_admits_inherit [OF _ assms(2) [unfolded child]])
qed

text \<open>
  C4.  Pairing never escalates.  When the issuer's authority check admits a device scope, then
  whatever the principal's profile and groups become later, a capability the new device's check
  admits is admitted by the check of the device that issued it; so no chain of pairings gains
  authority over the device at its head.
\<close>

theorem pairing_never_escalates:
  assumes "validate_pair_issue_authority caller profile gs issuer_scope requested = Inr child"
    and "has (issuer_check pid profile' gs' (Some child)) cap"
  shows "has (issuer_check pid profile' gs' issuer_scope) cap"
  using assms issue_authority_within by (auto simp: has_issuer_check)

definition phone_scope :: DeviceScope where
  "phone_scope = Scoped [''self:*''] [''self:quota:set'']"

theorem pairing_never_escalates_witness:
  "has (issuer_check default_principal agent_profile builtin_only (Some phone_scope)) ''self:capsule:list''"
proof (rule pairing_never_escalates)
  show "validate_pair_issue_authority default_principal agent_profile builtin_only (Some phone_scope)
      (Scoped [''self:capsule:*''] []) = Inr (Scoped [''self:capsule:*''] [''self:quota:set''])"
    by code_simp
  show "has (issuer_check default_principal agent_profile builtin_only
      (Some (Scoped [''self:capsule:*''] [''self:quota:set'']))) ''self:capsule:list''"
    by code_simp
qed

text \<open>
  The preflight check and the handler agree on a pinned authorization: when the preflight
  passes, the handler reaches the locked part with a validated lifetime of at most an hour; when it
  fails, the handler refuses with the same class of error and changes nothing.
\<close>

lemma preflight_agrees_with_issue:
  fixes env :: "'s PairEnv"
  shows "case preflight_pair_device_issue a expires requested of
     Inr _ \<Rightarrow> \<exists>lifetime sc. 0 < lifetime \<and> lifetime \<le> MAX_EXPIRY_SECS \<and>
       pair_device_issue env now token (ar_principal a) (Some a) kid expires label requested k =
         pair_device_issue_locked env now token (ar_principal a) lifetime label sc k
   | Inl (PreBadInput e) \<Rightarrow>
       pair_device_issue env now token (ar_principal a) (Some a) kid expires label requested k =
         (ErrBadInput (BadIssue e), k)
   | Inl (PreUnauthorized e) \<Rightarrow>
       pair_device_issue env now token (ar_principal a) (Some a) kid expires label requested k =
         (ErrUnauthorized (AuthorityDenied e), k)"
proof (cases "validate_pair_issue expires requested")
  case (Inl e)
  then show ?thesis by (simp add: preflight_pair_device_issue_def pair_device_issue_def)
next
  case (Inr ls)
  obtain lifetime sc where ls: "ls = (lifetime, sc)" by (cases ls)
  have b: "0 < lifetime \<and> lifetime \<le> MAX_EXPIRY_SECS"
    using Inr by (auto simp: ls validate_pair_issue_def Let_def result_simps word_gt_0 not_less
        split: if_splits)
  show ?thesis
  proof (cases "validate_pair_issue_authority (ar_principal a) (ar_profile a) (ar_groups a) (ar_device_scope a) sc")
    case auth: (Inr stored)
    show ?thesis
      using b by (auto simp: preflight_pair_device_issue_def pair_device_issue_def Inr ls auth
          resolve_pair_issuer_authority_def)
  qed (simp add: preflight_pair_device_issue_def pair_device_issue_def Inr ls resolve_pair_issuer_authority_def)
qed

section \<open>Redeeming is all or nothing\<close>

lemma append_key_auth:
  "public_keys (auth (append_key env now t key p)) =
     public_keys (auth p) @
       (if device_by_typed_pubkey (auth p) key = None
        then [DeviceKey_new (pe_key_id env) key (tk_scope t) (tk_label t)
                (if uint now < 2 ^ 63 then uint now else 0)] else [])
   \<and> Keypair \<in> set (methods (auth (append_key env now t key p)))"
  by (simp add: append_key_def Let_def)

text \<open>
  What registering a device means for a profile, independently of the code: only the authentication part
  changes, by the key-pair method and, unless some device has the key already, by one device more, which
  has the key, its derived identifier, and the scope and the label of the token.
\<close>

definition gains_key ::
  "(string \<Rightarrow> string) \<Rightarrow> DurablePairToken \<Rightarrow> string \<Rightarrow> PrincipalProfile \<Rightarrow> PrincipalProfile \<Rightarrow> bool" where
  "gains_key derive t key old new \<longleftrightarrow>
     new\<lparr>auth := auth old\<rparr> = old
     \<and> set (methods (auth new)) = insert Keypair (set (methods (auth old)))
     \<and> (if \<exists>d \<in> set (public_keys (auth old)). pubkey d = key
        then public_keys (auth new) = public_keys (auth old)
        else \<exists>d. public_keys (auth new) = public_keys (auth old) @ [d] \<and> pubkey d = key \<and> key_id d = derive key
               \<and> scope d = tk_scope t \<and> dk_label d = tk_label t)"

lemma append_key_gains: "gains_key (pe_key_id env) t key p (append_key env now t key p)"
  by (auto simp: gains_key_def append_key_def Let_def device_by_typed_pubkey_def matches_pubkey_def find_None_ball
      DeviceKey_new_def dest: find_Some_iff)

context atomic_kv
begin

lemma reserve_then_consume:
  assumes "reserve_if_unchanged cd ops now t s = (Inr True, s1)"
  shows "\<exists>s2. consume_reservation cd ops now' t s1 = (Inr (now' < expires_at_epoch t), s2)
            \<and> (now' < expires_at_epoch t \<longrightarrow> occupancy (token_hash t) (view s2) = 0)"
proof -
  have m: "abs_move cd Redeemable Reserved now t (view s) = (True, view s1)"
    using reserve_follows [of s cd now t] assms by (auto simp: follows_def intro: prod_eqI)
  then obtain v where v: "encode cd t = Inr v" and s1: "view s1 =
      (view s)(entry_of Redeemable (token_hash t) := None, entry_of Reserved (token_hash t) := Some v)"
    by (auto simp: abs_move_def split: sum.splits if_splits)
  note h = encode_canonical [OF v]
  show ?thesis
    using delete_view [OF h encode_length [OF v], of s1 Reserved] h v
    by (auto simp: consume_reservation_def reservation_key_def s1 occupancy_def not_le not_less)
qed

end

text \<open>The outcomes of the reserved part of a redemption, over any backend.\<close>

lemma redeem_reserved_cases:
  assumes "pair_device_redeem_reserved env now now' chosen key s k = (r, s', k')"
  obtains (refused) e where "r = Inl e" "k' = k" "s' = s" "\<And>pid fpr kid. e \<noteq> PairTokenRedeemed pid fpr kid"
      "e \<noteq> ErrInternal ProfileRollbackFailed"
    | (redeemed) pid old c where "pk_alias_for k (principal_uid chosen) = Some pid" "pk_profiles k pid = Some old"
      "r = Inr (PairTokenRedeemed pid (pe_fingerprint env (''ed25519:'' @ key)) (pe_key_id env key))"
      "consume_reservation (pe_codec env) (pe_ops env) now' chosen s = (c, s')" "c \<noteq> Inr False"
      "k' = cache_invalidate pid (save_profile pid (append_key env now chosen key old) k)"
    | (undone) "r = Inr (ErrUnauthorized TokenInvalidOrExpired)" "pk_profiles k' = pk_profiles k"
    | (stuck) pid old where "pk_alias_for k (principal_uid chosen) = Some pid" "pk_profiles k pid = Some old"
      "r = Inr (ErrInternal ProfileRollbackFailed)" "\<not> (pe_reload_ok env \<and> pe_restore_ok env)"
      "consume_reservation (pe_codec env) (pe_ops env) now' chosen s = (Inr False, s')"
      "k' = save_profile pid (append_key env now chosen key old) k"
proof (cases "\<exists>pid old. pk_alias_for k (principal_uid chosen) = Some pid \<and> pk_profiles k pid = Some old
    \<and> pe_load_ok env \<and> PrincipalProfile_validate (append_key env now chosen key old) = Inr () \<and> pe_save_ok env")
  case True
  then obtain pid old where ok: "pk_alias_for k (principal_uid chosen) = Some pid" "pk_profiles k pid = Some old"
    "pe_load_ok env" "PrincipalProfile_validate (append_key env now chosen key old) = Inr ()" "pe_save_ok env" by blast
  obtain c s3 where c: "consume_reservation (pe_codec env) (pe_ops env) now' chosen s = (c, s3)" by fastforce
  have same: "(pk_profiles k)(pid \<mapsto> old) = pk_profiles k" using ok(2) by (simp add: fun_upd_idem)
  note run = assms [unfolded pair_device_redeem_reserved_def, simplified ok c Let_def option.case sum.case prod.case if_True
      not_True_eq_False if_False]
  show thesis
  proof (cases "c = Inr False")
    case True
    then show thesis using run ok c same
      by (auto simp: save_profile_def cache_invalidate_def split: if_splits intro: undone stuck)
  next
    case False
    then have "r = Inr (PairTokenRedeemed pid (pe_fingerprint env (''ed25519:'' @ key)) (pe_key_id env key)) \<and> s' = s3
        \<and> k' = cache_invalidate pid (save_profile pid (append_key env now chosen key old) k)"
      using run by (auto split: sum.splits bool.splits)
    then show thesis using redeemed [OF ok(1,2) _ _ False] c by simp
  qed
next
  case False
  then show thesis
    using assms by (auto simp: pair_device_redeem_reserved_def Let_def split: option.splits if_splits sum.splits intro: refused)
qed

text \<open>
  C6.  Redeeming a pairing token is all or nothing, over any token store.  When the request succeeds, the
  presented token was redeemable, the profile of the principal it is bound to gains the presented key with
  the token's own scope and label (unless the key was registered already) and is otherwise as it was, no
  other profile changes, the cached profile is dropped, and on a store that meets the contract of an
  atomic backend the token is gone.  In every other case no profile changes at all, with one exception that
  the reply reports: the profile was saved, the token could no longer be spent, and taking the key back
  failed because the profile could not be read or written again.
\<close>

theorem redeem_all_or_nothing:
  assumes run: "pair_device_redeem env clock token public_key k = (r, k')"
  shows "if (\<exists>pid fpr kid. r = PairTokenRedeemed pid fpr kid) \<or> r = ErrInternal ProfileRollbackFailed
    then \<exists>pid key s chosen old new s'. DevicePubkey_normalize public_key = Inr key
      \<and> pk_store k = Some s \<and> pk_store k' = Some s'
      \<and> redeemable (pe_codec env) (pe_ops env) (clock 0) (pe_hash_token env token) s = Inr (Some chosen)
      \<and> pk_alias_for k (principal_uid chosen) = Some pid \<and> pk_profiles k pid = Some old
      \<and> pk_profiles k' = (pk_profiles k)(pid := Some new) \<and> gains_key (pe_key_id env) chosen key old new
      \<and> (if r = ErrInternal ProfileRollbackFailed then \<not> (pe_reload_ok env \<and> pe_restore_ok env)
         else r = PairTokenRedeemed pid (pe_fingerprint env (''ed25519:'' @ key)) (pe_key_id env key)
           \<and> pk_cache k' pid = None
           \<and> (\<forall>view good. atomic_kv (pe_ops env) view good \<longrightarrow> occupancy (token_hash chosen) (view s') = 0))
    else pk_profiles k' = pk_profiles k"
proof (cases "\<exists>key s chosen s1. DevicePubkey_normalize public_key = Inr key \<and> pk_store k = Some s \<and> pe_import_ok env
    \<and> redeemable (pe_codec env) (pe_ops env) (clock 0) (pe_hash_token env token) s = Inr (Some chosen)
    \<and> reserve_if_unchanged (pe_codec env) (pe_ops env) (clock 1) chosen s = (Inr True, s1)")
  case True
  then obtain key s chosen s1 where ok: "DevicePubkey_normalize public_key = Inr key" "pk_store k = Some s" "pe_import_ok env"
      "redeemable (pe_codec env) (pe_ops env) (clock 0) (pe_hash_token env token) s = Inr (Some chosen)"
    and res: "reserve_if_unchanged (pe_codec env) (pe_ops env) (clock 1) chosen s = (Inr True, s1)" by blast
  obtain r1 s2 k1 where reserved: "pair_device_redeem_reserved env (clock 2) (clock 3) chosen key s1 k = (r1, s2, k1)"
    by (metis prod_cases3)
  note whole = run [unfolded pair_device_redeem_def, simplified ok res reserved sum.case option.case prod.case
      bool.case if_True not_True_eq_False if_False]
  from reserved show ?thesis
  proof (cases rule: redeem_reserved_cases)
    case (refused e)
    then show ?thesis using whole by (auto split: prod.splits sum.splits)
  next
    case (redeemed pid old c)
    have gone: "occupancy (token_hash chosen) (view s2) = 0" if "atomic_kv (pe_ops env) view good" for view good
      using atomic_kv.reserve_then_consume [OF that res, of "clock 3"] redeemed(4,5) by auto
    have r: "r = PairTokenRedeemed pid (pe_fingerprint env (''ed25519:'' @ key)) (pe_key_id env key)" "k' = k1\<lparr>pk_store := Some s2\<rparr>"
      using whole redeemed(3) by simp_all
    then show ?thesis
      using ok redeemed(1,2,6) gone append_key_gains [of env chosen key old "clock 2"]
      by (auto simp: cache_invalidate_def save_profile_def)
  next
    case undone
    then show ?thesis using whole by auto
  next
    case (stuck pid old)
    then have "r = ErrInternal ProfileRollbackFailed" "k' = k1\<lparr>pk_store := Some s2\<rparr>" using whole by simp_all
    then show ?thesis
      using ok stuck(1,2,4,6) append_key_gains [of env chosen key old "clock 2"] by (auto simp: save_profile_def)
  qed
next
  case False
  then show ?thesis
    using run
    by (auto simp: pair_device_redeem_def split: sum.splits option.splits prod.splits bool.splits if_splits simp del: One_nat_def)
qed

definition demo_store :: MemoryKvStore where
  "demo_store = snd (issue demo_codec memory_kv demo_token MemoryKvStore_new)"

definition demo_key :: string where
  "demo_key = replicate 64 CHR ''a''"

definition demo_env :: "MemoryKvStore PairEnv" where
  "demo_env =
     \<lparr>pe_codec = demo_codec, pe_ops = memory_kv, pe_hash_token = (\<lambda>_. token_hash demo_token),
      pe_key_id = take 16, pe_fingerprint = (\<lambda>s. s), pe_import_ok = True, pe_load_ok = True,
      pe_save_ok = True, pe_reload_ok = True, pe_restore_ok = True\<rparr>"

definition demo_kernel :: "MemoryKvStore PairKernel" where
  "demo_kernel =
     \<lparr>pk_store = Some demo_store, pk_profiles = (\<lambda>_. None)(default_principal := Some PrincipalProfile_default),
      pk_cache = (\<lambda>_. None), pk_groups = builtin_only,
      pk_uid_for = (\<lambda>_. Some (principal_uid demo_token)), pk_alias_for = (\<lambda>_. Some default_principal)\<rparr>"

lemma validate_auth_update:
  assumes "PrincipalProfile_validate p = Inr ()" and "AuthConfig_validate a = Inr ()"
  shows "PrincipalProfile_validate (p\<lparr>auth := a\<rparr>) = Inr ()"
proof -
  have "typed_fields (p\<lparr>auth := a\<rparr>) = typed_fields p" by (simp add: typed_fields_def)
  then show ?thesis
    using assms by (simp add: PrincipalProfile_validate_def result_simps split: if_splits)
qed

lemma demo_append_valid:
  "PrincipalProfile_validate (append_key demo_env 10 demo_token demo_key PrincipalProfile_default) = Inr ()"
proof -
  have "validate_device_key (DeviceKey_new (take 16) demo_key (Scoped [''self:*''] []) None 10) = Inr ()" by code_simp
  then have "AuthConfig_validate (auth (append_key demo_env 10 demo_token demo_key PrincipalProfile_default)) = Inr ()"
    by (simp add: AuthConfig_validate_def append_key_auth PrincipalProfile_default_def
        device_by_typed_pubkey_def demo_env_def demo_token_def)
  from validate_auth_update [OF default_profile_valid this] show ?thesis
    by (simp add: append_key_def Let_def)
qed

lemma demo_store_view: "mem_view demo_store = (\<lambda>_. None)(entry_of Redeemable (token_hash demo_token) := Some ''{}'')"
  using mem.issue_follows [of MemoryKvStore_new demo_codec demo_token]
  by (auto simp: demo_store_def mem.follows_def demo_eval fun_eq_iff split: prod.splits)

lemma demo_redeem:
  "\<exists>k'. pair_device_redeem demo_env (\<lambda>_. 10) ''t'' demo_key demo_kernel =
     (PairTokenRedeemed default_principal (''ed25519:'' @ demo_key) (replicate 16 CHR ''a''), k')"
proof -
  have "canonical_pubkey demo_key" by code_simp
  then have "DevicePubkey_normalize demo_key = Inr demo_key" by (rule normalize_canonical)
  moreover have "redeemable demo_codec memory_kv 10 (token_hash demo_token) demo_store = Inr (Some demo_token)"
    by (simp add: mem.redeemable_view demo_eval demo_store_view)
  moreover obtain s1 where res: "reserve_if_unchanged demo_codec memory_kv 10 demo_token demo_store = (Inr True, s1)"
    using mem.reserve_follows [of demo_store demo_codec 10 demo_token]
    by (auto simp: mem.follows_def demo_eval demo_store_view split: prod.splits)
  moreover obtain s2 where "consume_reservation demo_codec memory_kv 10 demo_token s1 = (Inr True, s2)"
    using mem.reserve_then_consume [OF res, of 10] by (auto simp: demo_expiry)
  moreover have "take 16 demo_key = replicate 16 CHR ''a''" by (simp add: demo_key_def)
  moreover have "pe_codec demo_env = demo_codec" "pe_ops demo_env = memory_kv" "pe_import_ok demo_env"
    "pe_load_ok demo_env" "pe_save_ok demo_env" "pe_hash_token demo_env ''t'' = token_hash demo_token"
    "pe_key_id demo_env = take 16" "pe_fingerprint demo_env = (\<lambda>s. s)"
    by (simp_all add: demo_env_def)
  moreover have "pk_store demo_kernel = Some demo_store" "pk_alias_for demo_kernel u = Some default_principal"
    "pk_profiles demo_kernel default_principal = Some PrincipalProfile_default" for u
    by (simp_all add: demo_kernel_def)
  ultimately show ?thesis
    by (simp add: pair_device_redeem_def pair_device_redeem_reserved_def Let_def demo_append_valid)
qed

theorem redeem_all_or_nothing_witness:
  "\<exists>k' new d. pair_device_redeem demo_env (\<lambda>_. 10) ''t'' demo_key demo_kernel
        = (PairTokenRedeemed default_principal (''ed25519:'' @ demo_key) (replicate 16 CHR ''a''), k')
     \<and> pk_profiles k' default_principal = Some new \<and> public_keys (auth new) = [d]
     \<and> pubkey d = demo_key \<and> scope d = Scoped [''self:*''] []"
proof -
  obtain k' where run: "pair_device_redeem demo_env (\<lambda>_. 10) ''t'' demo_key demo_kernel =
     (PairTokenRedeemed default_principal (''ed25519:'' @ demo_key) (replicate 16 CHR ''a''), k')"
    using demo_redeem by blast
  have e: "pe_codec demo_env = demo_codec" "pe_ops demo_env = memory_kv" "pe_hash_token demo_env ''t'' = token_hash demo_token"
      "pk_store demo_kernel = Some demo_store"
      "pk_profiles demo_kernel = (\<lambda>_. None)(default_principal := Some PrincipalProfile_default)"
    by (simp_all add: demo_env_def demo_kernel_def)
  have t: "redeemable demo_codec memory_kv 10 (token_hash demo_token) demo_store = Inr (Some demo_token)"
    by (simp add: mem.redeemable_view demo_eval demo_store_view)
  have "canonical_pubkey demo_key" by code_simp
  then have key: "DevicePubkey_normalize demo_key = Inr demo_key" by (rule normalize_canonical)
  from redeem_all_or_nothing [OF run] obtain old new where
    "pk_profiles demo_kernel default_principal = Some old" "pk_profiles k' default_principal = Some new"
    "gains_key (pe_key_id demo_env) demo_token demo_key old new"
    by (auto simp: e t key)
  then have new: "pk_profiles k' default_principal = Some new"
    and g: "gains_key (pe_key_id demo_env) demo_token demo_key PrincipalProfile_default new" by (simp_all add: e)
  have "public_keys (auth PrincipalProfile_default) = []" by (simp add: PrincipalProfile_default_def)
  moreover have "tk_scope demo_token = Scoped [''self:*''] []" by (simp add: demo_token_def)
  ultimately obtain d where "public_keys (auth new) = [d]" "pubkey d = demo_key" "scope d = Scoped [''self:*''] []"
    using g by (auto simp: gains_key_def)
  then show ?thesis using run new by blast
qed

section \<open>Revoking a device\<close>

lemma remove_device_auth:
  "public_keys (auth (remove_device kid p)) = filter (\<lambda>d. key_id d \<noteq> kid) (public_keys (auth p))"
  by (simp add: remove_device_def Let_def)

lemma resolve_device_absent:
  "\<forall>d \<in> set (public_keys (auth p)). key_id d \<noteq> kid \<Longrightarrow>
     resolve_device p caller (Some kid) cap = Inl (DeviceScopeDenied caller cap)"
  by (auto simp: resolve_device_def device_by_typed_key_id_def find_None_ball split: sum.split option.split
      dest: find_Some_iff)

text \<open>
  C34.  A revoked device fails closed at once: after a successful revocation the profile the kernel
  next resolves for the principal has every other key and not the revoked one, so a request that
  authenticates with the revoked key id is refused whatever capability it needs, and no other
  principal's profile changed.
\<close>

theorem revoked_device_fails_closed:
  assumes "pair_device_revoke env pid kid k = (PairDeviceRevoked i, k')" and "pe_load_ok env"
  shows "\<exists>old new k''. pk_profiles k pid = Some old \<and> cache_resolve env k' pid = (Some new, k'')
     \<and> resolve_device new pid (Some kid) cap = Inl (DeviceScopeDenied pid cap)
     \<and> public_keys (auth new) = filter (\<lambda>d. key_id d \<noteq> kid) (public_keys (auth old))
     \<and> (\<forall>pid'. pid' \<noteq> pid \<longrightarrow> pk_profiles k' pid' = pk_profiles k pid')"
proof -
  obtain old where old: "pk_profiles k pid = Some old"
    and k': "k' = cache_invalidate pid (save_profile pid (remove_device kid old) k)"
    using assms(1) by (auto simp: pair_device_revoke_def Let_def split: sum.splits option.splits if_splits)
  have "resolve_device (remove_device kid old) pid (Some kid) cap = Inl (DeviceScopeDenied pid cap)"
    by (rule resolve_device_absent) (simp add: remove_device_auth)
  then show ?thesis
    using assms(2) old
    by (auto simp: k' cache_resolve_def cache_invalidate_def save_profile_def remove_device_auth)
qed

theorem revoked_device_fails_closed_witness:
  "let k = demo_kernel\<lparr>pk_profiles := (\<lambda>_. Some paired_profile)\<rparr>
   in \<exists>new k''. cache_resolve demo_env (snd (pair_device_revoke demo_env default_principal (replicate 16 CHR ''a'') k))
          default_principal = (Some new, k'') \<and> public_keys (auth new) = []"
proof -
  let ?k = "demo_kernel\<lparr>pk_profiles := (\<lambda>_. Some paired_profile)\<rparr>" and ?kid = "replicate 16 CHR ''a''"
  have "validate_device_key_id ?kid = Inr ()" by code_simp
  moreover have rest: "filter (\<lambda>d. key_id d \<noteq> ?kid) (public_keys (auth paired_profile)) = []"
    "length (public_keys (auth paired_profile)) = 1"
    by (simp_all add: paired_profile_def DeviceKey_new_def)
  moreover have "PrincipalProfile_validate (remove_device ?kid paired_profile) = Inr ()"
    using validate_auth_update [OF default_profile_valid, of "auth (remove_device ?kid paired_profile)"] rest(1)
    by (simp add: remove_device_def Let_def AuthConfig_validate_def) (simp add: paired_profile_def)
  ultimately obtain k' where run: "pair_device_revoke demo_env default_principal ?kid ?k = (PairDeviceRevoked ?kid, k')"
    by (simp add: pair_device_revoke_def demo_env_def Let_def remove_device_auth)
  have "pe_load_ok demo_env" by (simp add: demo_env_def)
  from revoked_device_fails_closed [OF run this, of "''agent:create''"]
  obtain new k'' where "cache_resolve demo_env k' default_principal = (Some new, k'')"
    "public_keys (auth new) = filter (\<lambda>d. key_id d \<noteq> ?kid) (public_keys (auth paired_profile))"
    by auto
  then show ?thesis using rest(1) by (simp add: Let_def run)
qed

end
