(* ===== verification/Kernel_Api.thy ===== *)
theory Kernel_Api
  imports Pair_Device
begin

text \<open>
  The wire types of the management API in \<open>crates/astrid-core/src/kernel_api\<close>: the kernel requests,
  the admin requests and the values they carry.  A Rust struct variant is a constructor whose
  arguments are the fields in the order of the source; identifiers that wrap a UUID or a digest
  (\<open>StorageMountId\<close>, \<open>SessionId\<close>, \<open>CapsuleInstallBatchId\<close>, \<open>FleetUid\<close>, \<open>UserUid\<close>) are their text.
\<close>

section \<open>Install and environment values\<close>

type_synonym CapsuleInstallBatchId = string
type_synonym SessionId = string
type_synonym StorageMountId = string
type_synonym FleetUid = string
type_synonym UserUid = string

record InstalledCapsuleGeneration =
  ig_archive :: string
  ig_metadata :: string
  ig_authority :: string

record CapsuleInstallBatchMember =
  bm_id :: string
  bm_version :: string
  bm_source_digest :: string
  bm_archive_digest :: string
  bm_source_bytes :: u64
  bm_expected_generation :: "InstalledCapsuleGeneration option"

record CapsuleInstallBatchContext =
  bx_batch_id :: CapsuleInstallBatchId
  bx_member_id :: string

record CapsuleInstallResumeReceipt =
  rr_id :: string
  rr_archive_digest :: string
  rr_generation :: InstalledCapsuleGeneration

datatype EnvStorageScope = EnvAgent | EnvShared
datatype EnvValueKind = EnvText | EnvSecret

record CapsuleInstallProvenance =
  ip_distro :: "string option"
  ip_source_digest :: "string option"

datatype CapsuleInstallAuthority = Automatic | ExplicitApproval | OperatorDistribution

record CapsuleInstallEnv =
  ie_key :: string
  ie_value :: string
  ie_kind :: EnvValueKind

section \<open>Kernel requests\<close>

datatype KernelRequest =
    BeginCapsuleInstallBatch "PrincipalId option" "CapsuleInstallBatchMember list"
  | InstallCapsule string bool "PrincipalId option" "CapsuleInstallProvenance option"
      CapsuleInstallAuthority "CapsuleInstallEnv list" "InstalledCapsuleGeneration option"
      "CapsuleInstallBatchContext option"
  | FinishCapsuleInstallBatch CapsuleInstallBatchId "PrincipalId option"
  | GetInstalledCapsuleIdentity string
  | GetCapsuleInstallResumeReceipt string
  | PutCapsuleInstallResumeReceipt CapsuleInstallResumeReceipt
  | ApproveCapability string string
  | ListCapsules
  | ReloadCapsules
  | ReloadCapsule string
  | UnloadCapsule string
  | RemoveCapsule string bool bool
  | PromoteWorkspace string
  | RollbackWorkspace string
  | GetCommands
  | GetCapsuleMetadata
  | GetCapsuleMetadataForPrincipal PrincipalId
  | Shutdown "string option"
  | GetStatus
  | GetAgentReadiness

section \<open>Admin requests\<close>

record DistroCapsuleProvenance =
  dc_name :: string
  dc_version :: string
  dc_source :: string
  dc_hash :: string
  dc_resolved_ref :: "string option"

record DistroProvenance =
  dp_schema_version :: u32
  dp_distro_id :: string
  dp_distro_version :: string
  dp_resolved_at :: string
  dp_capsules :: "DistroCapsuleProvenance list"
  dp_manifest_hash :: "string option"

record AuditExportRequest =
  ax_session :: SessionId
  ax_principal :: "PrincipalId option"
  ax_from :: u64
  ax_cursor :: "string option"
  ax_limit :: "u32 option"
  ax_receipts_from :: "u64 option"

record AuditAnchorMarkChain =
  amc_session :: SessionId
  amc_principal :: "PrincipalId option"
  amc_position :: u64
  amc_head_hash_hex :: string

record AuditAnchorEvidence =
  ae_network :: string
  ae_checkpoint_digest_hex :: string
  ae_link_position :: u64
  ae_certifying_round :: "u64 option"
  ae_seal_digest_hex :: "string option"

record AuditAnchorMarkRequest =
  am_evidence :: AuditAnchorEvidence
  am_chains :: "AuditAnchorMarkChain list"

datatype StorageProviderViewV1 = PrincipalView PrincipalId | FleetView FleetUid | AdminView
datatype StorageProviderAccessV1 = ReadOnly | ReadWrite

datatype (plugins only: code) AdminRequestKind =
    AgentCreate string "string list" "string list" "PrincipalId option" "PrincipalId option" bool
  | AgentDelete PrincipalId
  | AgentEnable PrincipalId
  | AgentDisable PrincipalId
  | AgentList
  | UserPrincipalList
  | UserPrincipalClaim PrincipalId
  | AgentModify PrincipalId "string list" "string list" "string list" "string list"
  | QuotaUserList
  | QuotaAssignUser PrincipalId UserUid
  | QuotaSet PrincipalId Quotas
  | QuotaGet PrincipalId
  | UsageGet PrincipalId
  | EnvSet PrincipalId string string string EnvValueKind EnvStorageScope bool
  | EnvSetIfAbsent PrincipalId string string string EnvValueKind
  | EnvList PrincipalId "string option"
  | EnvDelete PrincipalId string string EnvValueKind EnvStorageScope
  | DistroLockGet PrincipalId
  | DistroLockSet PrincipalId DistroProvenance "string option"
  | DistroSelfGrant
  | GroupCreate string "string list" "string option" bool
  | GroupDelete string
  | GroupModify string "string list option" "string option option" "bool option"
  | GroupList
  | CapsGrant PrincipalId "string list" bool
  | CapsRevoke PrincipalId "string list"
  | CapsTokenMint PrincipalId string "string option" "u64 option"
  | CapsTokenRevoke string
  | CapsTokenList PrincipalId
  | InviteIssue string "u64 option" u32 "string option"
  | InviteRedeem string string "string option"
  | InviteList
  | InviteRevoke string
  | PairDeviceIssue "u64 option" "string option" PairScopeArg
  | PairDeviceRedeem string string
  | PairDeviceList PrincipalId
  | PairDeviceRevoke PrincipalId string
  | AuditStats
  | AuditPrune u64 "u64 option"
  | AuditHealth
  | AuditHeads
  | AuditExport AuditExportRequest
  | AuditAnchorMark AuditAnchorMarkRequest
  | AuditAnchorStatus
  | StorageMountIssue StorageProviderViewV1 StorageProviderAccessV1 string string
  | StorageMountStatus StorageMountId
  | StorageMountSync StorageMountId
  | StorageMountRevoke StorageMountId

record AdminKernelRequest =
  akr_request_id :: "string option"
  akr_kind :: AdminRequestKind

end
