(* ===== verification/Request_Policy.thy ===== *)
theory Request_Policy
  imports Kernel_Api
begin

text \<open>
  The authority tables of the management API: which scope a request exercises, which capability it
  needs under that scope, its method name and the principal it targets
  (\<open>crates/astrid-kernel/src/kernel_router/request_policy.rs\<close> and \<open>admin/mod.rs\<close>), and the catalog
  of grantable capabilities of \<open>crates/astrid-core/src/capability_grammar.rs\<close>.
\<close>

section \<open>Kernel requests\<close>

datatype AuthorityScope = SelfScope | GlobalScope

definition resolve_scope :: "KernelRequest \<Rightarrow> PrincipalId \<Rightarrow> AuthorityScope" where
  "resolve_scope request caller =
     (case request of
        ReloadCapsules \<Rightarrow> GlobalScope
      | InstallCapsule _ _ (Some target) _ _ _ _ _ \<Rightarrow>
          if target \<noteq> caller then GlobalScope else SelfScope
      | BeginCapsuleInstallBatch (Some target) _ \<Rightarrow>
          if target \<noteq> caller then GlobalScope else SelfScope
      | FinishCapsuleInstallBatch _ (Some target) \<Rightarrow>
          if target \<noteq> caller then GlobalScope else SelfScope
      | GetCapsuleMetadataForPrincipal target \<Rightarrow>
          if target \<noteq> caller then GlobalScope else SelfScope
      | _ \<Rightarrow> SelfScope)"

definition request_target_principal :: "KernelRequest \<Rightarrow> PrincipalId \<Rightarrow> PrincipalId option" where
  "request_target_principal request caller =
     (case request of
        InstallCapsule _ _ (Some target) _ _ _ _ _ \<Rightarrow> if target \<noteq> caller then Some target else None
      | BeginCapsuleInstallBatch (Some target) _ \<Rightarrow> if target \<noteq> caller then Some target else None
      | FinishCapsuleInstallBatch _ (Some target) \<Rightarrow> if target \<noteq> caller then Some target else None
      | GetCapsuleMetadataForPrincipal target \<Rightarrow> if target \<noteq> caller then Some target else None
      | _ \<Rightarrow> None)"

definition required_capability :: "KernelRequest \<Rightarrow> AuthorityScope \<Rightarrow> string" where
  "required_capability request sc =
     (let by_scope = (\<lambda>own global. case sc of SelfScope \<Rightarrow> own | GlobalScope \<Rightarrow> global)
      in case request of
           Shutdown _ \<Rightarrow> ''system:shutdown''
         | GetStatus \<Rightarrow> ''system:status''
         | ReloadCapsules \<Rightarrow> by_scope ''self:capsule:reload'' ''capsule:reload''
         | ReloadCapsule _ \<Rightarrow> by_scope ''self:capsule:reload'' ''capsule:reload''
         | UnloadCapsule _ \<Rightarrow> by_scope ''self:capsule:remove'' ''capsule:remove''
         | RemoveCapsule _ _ _ \<Rightarrow> by_scope ''self:capsule:remove'' ''capsule:remove''
         | PromoteWorkspace _ \<Rightarrow> ''self:workspace:promote''
         | RollbackWorkspace _ \<Rightarrow> ''self:workspace:rollback''
         | InstallCapsule _ _ _ _ _ _ _ _ \<Rightarrow> by_scope ''self:capsule:install'' ''capsule:install''
         | BeginCapsuleInstallBatch _ _ \<Rightarrow> by_scope ''self:capsule:install'' ''capsule:install''
         | FinishCapsuleInstallBatch _ _ \<Rightarrow> by_scope ''self:capsule:install'' ''capsule:install''
         | GetInstalledCapsuleIdentity _ \<Rightarrow> ''self:capsule:install''
         | GetCapsuleInstallResumeReceipt _ \<Rightarrow> ''self:capsule:install''
         | PutCapsuleInstallResumeReceipt _ \<Rightarrow> ''self:capsule:install''
         | ListCapsules \<Rightarrow> by_scope ''self:capsule:list'' ''capsule:list''
         | GetCommands \<Rightarrow> by_scope ''self:capsule:list'' ''capsule:list''
         | GetCapsuleMetadata \<Rightarrow> by_scope ''self:capsule:list'' ''capsule:list''
         | GetCapsuleMetadataForPrincipal _ \<Rightarrow> by_scope ''self:capsule:list'' ''capsule:list''
         | GetAgentReadiness \<Rightarrow> by_scope ''self:capsule:list'' ''capsule:list''
         | ApproveCapability _ _ \<Rightarrow> ''self:approval:respond'')"

definition omit_success_kernel_audit :: "KernelRequest \<Rightarrow> bool" where
  "omit_success_kernel_audit request \<longleftrightarrow> request = GetStatus \<or> request = GetAgentReadiness"

definition kernel_request_method :: "KernelRequest \<Rightarrow> string" where
  "kernel_request_method request =
     (case request of
        ReloadCapsules \<Rightarrow> ''ReloadCapsules''
      | ReloadCapsule _ \<Rightarrow> ''ReloadCapsule''
      | UnloadCapsule _ \<Rightarrow> ''UnloadCapsule''
      | RemoveCapsule _ _ _ \<Rightarrow> ''RemoveCapsule''
      | PromoteWorkspace _ \<Rightarrow> ''PromoteWorkspace''
      | RollbackWorkspace _ \<Rightarrow> ''RollbackWorkspace''
      | BeginCapsuleInstallBatch _ _ \<Rightarrow> ''BeginCapsuleInstallBatch''
      | InstallCapsule _ _ _ _ _ _ _ _ \<Rightarrow> ''InstallCapsule''
      | FinishCapsuleInstallBatch _ _ \<Rightarrow> ''FinishCapsuleInstallBatch''
      | GetInstalledCapsuleIdentity _ \<Rightarrow> ''GetInstalledCapsuleIdentity''
      | GetCapsuleInstallResumeReceipt _ \<Rightarrow> ''GetCapsuleInstallResumeReceipt''
      | PutCapsuleInstallResumeReceipt _ \<Rightarrow> ''PutCapsuleInstallResumeReceipt''
      | ApproveCapability _ _ \<Rightarrow> ''ApproveCapability''
      | ListCapsules \<Rightarrow> ''ListCapsules''
      | GetCommands \<Rightarrow> ''GetCommands''
      | GetCapsuleMetadata \<Rightarrow> ''GetCapsuleMetadata''
      | GetCapsuleMetadataForPrincipal _ \<Rightarrow> ''GetCapsuleMetadataForPrincipal''
      | GetAgentReadiness \<Rightarrow> ''GetAgentReadiness''
      | Shutdown _ \<Rightarrow> ''Shutdown''
      | GetStatus \<Rightarrow> ''GetStatus'')"

section \<open>Admin requests\<close>

definition resolve_admin_scope :: "AdminRequestKind \<Rightarrow> PrincipalId \<Rightarrow> AuthorityScope" where
  "resolve_admin_scope req caller =
     (let own = (\<lambda>p. if p = caller then SelfScope else GlobalScope)
      in case req of
           EnvSet p _ _ _ _ sc _ \<Rightarrow> if sc = EnvShared \<or> p \<noteq> caller then GlobalScope else SelfScope
         | EnvDelete p _ _ _ sc \<Rightarrow> if sc = EnvShared \<or> p \<noteq> caller then GlobalScope else SelfScope
         | QuotaGet p \<Rightarrow> own p
         | QuotaSet p _ \<Rightarrow> own p
         | UsageGet p \<Rightarrow> own p
         | EnvList p _ \<Rightarrow> own p
         | EnvSetIfAbsent p _ _ _ _ \<Rightarrow> own p
         | DistroLockGet p \<Rightarrow> own p
         | DistroLockSet p _ _ \<Rightarrow> own p
         | PairDeviceList p \<Rightarrow> own p
         | PairDeviceRevoke p _ \<Rightarrow> own p
         | StorageMountIssue (PrincipalView p) _ _ _ \<Rightarrow> own p
         | AgentList \<Rightarrow> SelfScope
         | UserPrincipalList \<Rightarrow> SelfScope
         | GroupList \<Rightarrow> SelfScope
         | PairDeviceIssue _ _ _ \<Rightarrow> SelfScope
         | DistroSelfGrant \<Rightarrow> SelfScope
         | StorageMountStatus _ \<Rightarrow> SelfScope
         | StorageMountSync _ \<Rightarrow> SelfScope
         | StorageMountRevoke _ \<Rightarrow> SelfScope
         | StorageMountIssue (FleetView _) _ _ _ \<Rightarrow> SelfScope
         | AgentCreate _ _ _ _ _ _ \<Rightarrow> GlobalScope
         | QuotaAssignUser _ _ \<Rightarrow> GlobalScope
         | QuotaUserList \<Rightarrow> GlobalScope
         | UserPrincipalClaim _ \<Rightarrow> GlobalScope
         | AgentDelete _ \<Rightarrow> GlobalScope
         | AgentEnable _ \<Rightarrow> GlobalScope
         | AgentDisable _ \<Rightarrow> GlobalScope
         | AgentModify _ _ _ _ _ \<Rightarrow> GlobalScope
         | GroupCreate _ _ _ _ \<Rightarrow> GlobalScope
         | GroupDelete _ \<Rightarrow> GlobalScope
         | GroupModify _ _ _ _ \<Rightarrow> GlobalScope
         | CapsGrant _ _ _ \<Rightarrow> GlobalScope
         | CapsRevoke _ _ \<Rightarrow> GlobalScope
         | CapsTokenMint _ _ _ _ \<Rightarrow> GlobalScope
         | CapsTokenRevoke _ \<Rightarrow> GlobalScope
         | CapsTokenList _ \<Rightarrow> GlobalScope
         | InviteIssue _ _ _ _ \<Rightarrow> GlobalScope
         | InviteRedeem _ _ _ \<Rightarrow> GlobalScope
         | InviteList \<Rightarrow> GlobalScope
         | InviteRevoke _ \<Rightarrow> GlobalScope
         | PairDeviceRedeem _ _ \<Rightarrow> GlobalScope
         | AuditStats \<Rightarrow> GlobalScope
         | AuditPrune _ _ \<Rightarrow> GlobalScope
         | AuditHealth \<Rightarrow> GlobalScope
         | AuditHeads \<Rightarrow> GlobalScope
         | AuditExport _ \<Rightarrow> GlobalScope
         | AuditAnchorMark _ \<Rightarrow> GlobalScope
         | AuditAnchorStatus \<Rightarrow> GlobalScope
         | StorageMountIssue AdminView _ _ _ \<Rightarrow> GlobalScope)"

definition storage_mount_required_capability :: "AdminRequestKind \<Rightarrow> AuthorityScope \<Rightarrow> string" where
  "storage_mount_required_capability request sc =
     (case request of
        StorageMountIssue AdminView ReadOnly _ _ \<Rightarrow> ''storage:mount:system:read''
      | StorageMountIssue AdminView ReadWrite _ _ \<Rightarrow> ''storage:mount:system:write''
      | StorageMountIssue _ access _ _ \<Rightarrow>
          (case (access, sc) of
             (ReadOnly, SelfScope) \<Rightarrow> ''self:storage:mount:read''
           | (ReadWrite, SelfScope) \<Rightarrow> ''self:storage:mount:write''
           | (ReadOnly, GlobalScope) \<Rightarrow> ''storage:mount:read''
           | (ReadWrite, GlobalScope) \<Rightarrow> ''storage:mount:write'')
      | _ \<Rightarrow> ''self:storage:mount'')"

definition required_capability_for_admin_request ::
  "AdminRequestKind \<Rightarrow> AuthorityScope \<Rightarrow> string" where
  "required_capability_for_admin_request req sc =
     (let by_scope = (\<lambda>own global. case sc of SelfScope \<Rightarrow> own | GlobalScope \<Rightarrow> global)
      in case req of
           AgentCreate _ _ _ inherit_from clone_from _ \<Rightarrow>
             (if clone_from \<noteq> None then ''agent:create:clone''
              else if inherit_from \<noteq> None then ''agent:create:inherit''
              else ''agent:create'')
         | UserPrincipalClaim _ \<Rightarrow> ''agent:create''
         | AgentDelete _ \<Rightarrow> ''agent:delete''
         | AgentEnable _ \<Rightarrow> ''agent:enable''
         | AgentDisable _ \<Rightarrow> ''agent:disable''
         | AgentModify _ _ _ _ _ \<Rightarrow> ''agent:modify''
         | AgentList \<Rightarrow> by_scope ''self:agent:list'' ''agent:list''
         | UserPrincipalList \<Rightarrow> ''self:agent:list''
         | DistroSelfGrant \<Rightarrow> ''self:distro:grant''
         | QuotaSet _ _ \<Rightarrow> by_scope ''self:quota:set'' ''quota:set''
         | QuotaAssignUser _ _ \<Rightarrow> ''quota:set''
         | QuotaUserList \<Rightarrow> ''quota:set''
         | EnvSet _ _ _ _ _ _ _ \<Rightarrow> by_scope ''self:env:write'' ''env:write''
         | EnvSetIfAbsent _ _ _ _ _ \<Rightarrow> by_scope ''self:env:write'' ''env:write''
         | EnvDelete _ _ _ _ _ \<Rightarrow> by_scope ''self:env:write'' ''env:write''
         | EnvList _ _ \<Rightarrow> by_scope ''self:env:read'' ''env:read''
         | DistroLockGet _ \<Rightarrow> by_scope ''self:capsule:install'' ''capsule:install''
         | DistroLockSet _ _ _ \<Rightarrow> by_scope ''self:capsule:install'' ''capsule:install''
         | QuotaGet _ \<Rightarrow> by_scope ''self:quota:get'' ''quota:get''
         | UsageGet _ \<Rightarrow> by_scope ''self:quota:get'' ''quota:get''
         | GroupCreate _ _ _ _ \<Rightarrow> ''group:create''
         | GroupDelete _ \<Rightarrow> ''group:delete''
         | GroupModify _ _ _ _ \<Rightarrow> ''group:modify''
         | GroupList \<Rightarrow> by_scope ''self:group:list'' ''group:list''
         | CapsGrant _ _ _ \<Rightarrow> ''caps:grant''
         | CapsRevoke _ _ \<Rightarrow> ''caps:revoke''
         | CapsTokenMint _ _ _ _ \<Rightarrow> ''caps:token:mint''
         | CapsTokenRevoke _ \<Rightarrow> ''caps:token:revoke''
         | CapsTokenList _ \<Rightarrow> ''caps:token:list''
         | InviteIssue _ _ _ _ \<Rightarrow> ''invite:issue''
         | InviteRedeem _ _ _ \<Rightarrow> ''invite:redeem''
         | InviteList \<Rightarrow> ''invite:list''
         | InviteRevoke _ \<Rightarrow> ''invite:revoke''
         | PairDeviceRedeem _ _ \<Rightarrow> ''auth:pair:redeem''
         | PairDeviceIssue _ _ requested \<Rightarrow>
             if pair_scope_requires_admin requested then ''self:auth:pair:admin'' else ''self:auth:pair''
         | PairDeviceList _ \<Rightarrow> by_scope ''self:auth:pair'' ''auth:pair''
         | PairDeviceRevoke _ _ \<Rightarrow> by_scope ''self:auth:pair'' ''auth:pair''
         | AuditStats \<Rightarrow> ''audit:stats''
         | AuditPrune _ _ \<Rightarrow> ''audit:prune''
         | AuditHealth \<Rightarrow> ''audit:health''
         | AuditHeads \<Rightarrow> ''audit:heads''
         | AuditAnchorStatus \<Rightarrow> ''audit:heads''
         | AuditExport _ \<Rightarrow> ''audit:export''
         | AuditAnchorMark _ \<Rightarrow> ''audit:anchor''
         | StorageMountIssue _ _ _ _ \<Rightarrow> storage_mount_required_capability req sc
         | StorageMountStatus _ \<Rightarrow> storage_mount_required_capability req sc
         | StorageMountSync _ \<Rightarrow> storage_mount_required_capability req sc
         | StorageMountRevoke _ \<Rightarrow> storage_mount_required_capability req sc)"

definition admin_request_method :: "AdminRequestKind \<Rightarrow> string" where
  "admin_request_method req =
     (case req of
        AgentCreate _ _ _ _ _ _ \<Rightarrow> ''admin.agent.create''
      | AgentDelete _ \<Rightarrow> ''admin.agent.delete''
      | AgentEnable _ \<Rightarrow> ''admin.agent.enable''
      | AgentDisable _ \<Rightarrow> ''admin.agent.disable''
      | AgentModify _ _ _ _ _ \<Rightarrow> ''admin.agent.modify''
      | AgentList \<Rightarrow> ''admin.agent.list''
      | UserPrincipalList \<Rightarrow> ''admin.user.principals''
      | UserPrincipalClaim _ \<Rightarrow> ''admin.user.principal.claim''
      | QuotaSet _ _ \<Rightarrow> ''admin.quota.set''
      | QuotaUserList \<Rightarrow> ''admin.quota.user_list''
      | QuotaAssignUser _ _ \<Rightarrow> ''admin.quota.assign_user''
      | QuotaGet _ \<Rightarrow> ''admin.quota.get''
      | UsageGet _ \<Rightarrow> ''admin.usage.get''
      | EnvSet _ _ _ _ _ _ _ \<Rightarrow> ''admin.env.set''
      | EnvSetIfAbsent _ _ _ _ _ \<Rightarrow> ''admin.env.set_if_absent''
      | EnvList _ _ \<Rightarrow> ''admin.env.list''
      | EnvDelete _ _ _ _ _ \<Rightarrow> ''admin.env.delete''
      | DistroLockGet _ \<Rightarrow> ''admin.distro.lock.get''
      | DistroLockSet _ _ _ \<Rightarrow> ''admin.distro.lock.set''
      | DistroSelfGrant \<Rightarrow> ''admin.distro.self.grant''
      | GroupCreate _ _ _ _ \<Rightarrow> ''admin.group.create''
      | GroupDelete _ \<Rightarrow> ''admin.group.delete''
      | GroupModify _ _ _ _ \<Rightarrow> ''admin.group.modify''
      | GroupList \<Rightarrow> ''admin.group.list''
      | CapsGrant _ _ _ \<Rightarrow> ''admin.caps.grant''
      | CapsRevoke _ _ \<Rightarrow> ''admin.caps.revoke''
      | CapsTokenMint _ _ _ _ \<Rightarrow> ''admin.caps.token.mint''
      | CapsTokenRevoke _ \<Rightarrow> ''admin.caps.token.revoke''
      | CapsTokenList _ \<Rightarrow> ''admin.caps.token.list''
      | InviteIssue _ _ _ _ \<Rightarrow> ''admin.invite.issue''
      | InviteRedeem _ _ _ \<Rightarrow> ''admin.invite.redeem''
      | InviteList \<Rightarrow> ''admin.invite.list''
      | InviteRevoke _ \<Rightarrow> ''admin.invite.revoke''
      | PairDeviceIssue _ _ _ \<Rightarrow> ''admin.auth.pair.issue''
      | PairDeviceRedeem _ _ \<Rightarrow> ''admin.auth.pair.redeem''
      | PairDeviceList _ \<Rightarrow> ''admin.auth.pair.list''
      | PairDeviceRevoke _ _ \<Rightarrow> ''admin.auth.pair.revoke''
      | AuditStats \<Rightarrow> ''admin.audit.stats''
      | AuditPrune _ _ \<Rightarrow> ''admin.audit.prune''
      | AuditHealth \<Rightarrow> ''admin.audit.health''
      | AuditHeads \<Rightarrow> ''admin.audit.heads''
      | AuditExport _ \<Rightarrow> ''admin.audit.export''
      | AuditAnchorMark _ \<Rightarrow> ''admin.audit.anchor_mark''
      | AuditAnchorStatus \<Rightarrow> ''admin.audit.anchor_status''
      | StorageMountIssue _ _ _ _ \<Rightarrow> ''admin.storage.mount.issue''
      | StorageMountStatus _ \<Rightarrow> ''admin.storage.mount.status''
      | StorageMountSync _ \<Rightarrow> ''admin.storage.mount.sync''
      | StorageMountRevoke _ \<Rightarrow> ''admin.storage.mount.revoke'')"

definition admin_target_principal :: "AdminRequestKind \<Rightarrow> PrincipalId option" where
  "admin_target_principal req =
     (case req of
        AgentDelete p \<Rightarrow> Some p
      | AgentEnable p \<Rightarrow> Some p
      | AgentDisable p \<Rightarrow> Some p
      | AgentModify p _ _ _ _ \<Rightarrow> Some p
      | UserPrincipalClaim p \<Rightarrow> Some p
      | QuotaAssignUser p _ \<Rightarrow> Some p
      | QuotaSet p _ \<Rightarrow> Some p
      | QuotaGet p \<Rightarrow> Some p
      | UsageGet p \<Rightarrow> Some p
      | EnvSet p _ _ _ _ _ _ \<Rightarrow> Some p
      | EnvSetIfAbsent p _ _ _ _ \<Rightarrow> Some p
      | EnvList p _ \<Rightarrow> Some p
      | EnvDelete p _ _ _ _ \<Rightarrow> Some p
      | DistroLockGet p \<Rightarrow> Some p
      | DistroLockSet p _ _ \<Rightarrow> Some p
      | CapsGrant p _ _ \<Rightarrow> Some p
      | CapsRevoke p _ \<Rightarrow> Some p
      | CapsTokenMint p _ _ _ \<Rightarrow> Some p
      | CapsTokenList p \<Rightarrow> Some p
      | PairDeviceList p \<Rightarrow> Some p
      | PairDeviceRevoke p _ \<Rightarrow> Some p
      | _ \<Rightarrow> None)"

definition omit_success_admin_audit :: "AdminRequestKind \<Rightarrow> bool" where
  "omit_success_admin_audit request =
     (case request of AuditHeads \<Rightarrow> True | AuditExport _ \<Rightarrow> True | AuditAnchorMark _ \<Rightarrow> True | _ \<Rightarrow> False)"

section \<open>Redaction of audited parameters\<close>

text \<open>
  \<open>serde_json::Value\<close>.  The derived serialiser and the fingerprint functions are the fields of
  \<open>AuditEncoding\<close>.
\<close>

datatype Json =
    JNull | JBool bool | JNumber nat | JString string
  | JArray "Json list" | JObject "(string \<times> Json) list"

record AuditEncoding =
  aud_to_value :: "AdminRequestKind \<Rightarrow> Json option"
  aud_fingerprint_public_key :: "string \<Rightarrow> string"
  aud_invite_hash_token :: "string \<Rightarrow> string"
  aud_pair_hash_token :: "string \<Rightarrow> string"

definition canonical_token_fingerprint :: "string \<Rightarrow> string option" where
  "canonical_token_fingerprint v =
     (if CHR '':'' \<notin> set v then None
      else let algorithm = takeWhile (\<lambda>c. c \<noteq> CHR '':'') v;
               digest = tl (dropWhile (\<lambda>c. c \<noteq> CHR '':'') v)
           in if map to_ascii_lowercase algorithm = ''blake3'' \<and> length digest = 64
                 \<and> list_all is_ascii_hexdigit digest
              then Some (''blake3:'' @ map to_ascii_lowercase digest) else None)"

definition fingerprint_revoke_input :: "AuditEncoding \<Rightarrow> string \<Rightarrow> string" where
  "fingerprint_revoke_input enc token =
     (case canonical_token_fingerprint token of Some fp \<Rightarrow> fp | None \<Rightarrow> aud_invite_hash_token enc token)"

definition redact_params ::
  "AuditEncoding \<Rightarrow> AdminRequestKind \<Rightarrow> (string, Json) hash_map \<Rightarrow> (string, Json) hash_map" where
  "redact_params enc req params =
     (case req of
        InviteRedeem token public_key _ \<Rightarrow>
          hm_insert ''token_fingerprint'' (JString (aud_invite_hash_token enc token))
            (hm_remove ''token''
              (hm_insert ''public_key_fingerprint'' (JString (aud_fingerprint_public_key enc public_key))
                (hm_remove ''public_key'' params)))
      | InviteRevoke token \<Rightarrow>
          hm_insert ''token_fingerprint'' (JString (fingerprint_revoke_input enc token))
            (hm_remove ''token'' params)
      | PairDeviceRedeem token public_key \<Rightarrow>
          hm_insert ''token_fingerprint'' (JString (aud_pair_hash_token enc token))
            (hm_remove ''token''
              (hm_insert ''public_key_fingerprint'' (JString (aud_fingerprint_public_key enc public_key))
                (hm_remove ''public_key'' params)))
      | EnvSet _ _ _ _ _ _ _ \<Rightarrow>
          hm_insert ''value'' (JString ''<redacted>'') (hm_remove ''value'' params)
      | EnvSetIfAbsent _ _ _ _ _ \<Rightarrow>
          hm_insert ''value'' (JString ''<redacted>'') (hm_remove ''value'' params)
      | AuditAnchorMark request \<Rightarrow>
          hm_insert ''chain_count'' (JNumber (length (am_chains request))) (hm_remove ''chains'' params)
      | _ \<Rightarrow> params)"

definition sanitize_admin_audit_params :: "AuditEncoding \<Rightarrow> AdminRequestKind \<Rightarrow> Json option" where
  "sanitize_admin_audit_params enc req =
     (case aud_to_value enc req of
        Some (JObject val) \<Rightarrow>
          (case hm_get val ''params'' of
             Some (JObject params) \<Rightarrow>
               Some (JObject (hm_insert ''params'' (JObject (redact_params enc req params)) val))
           | _ \<Rightarrow> None)
      | _ \<Rightarrow> None)"

section \<open>The catalog\<close>

datatype CapabilityCategory =
    CatAgent | CatCaps | CatQuota | CatGroup | CatInvite | CatCapsule | CatSystem | CatApproval

datatype CapabilityScope = CapSelf | CapGlobal

datatype CapabilityDanger = Safe | Normal | Elevated | Extreme

record CapabilityInfo =
  ci_id :: string
  ci_label :: string
  ci_description :: string
  ci_category :: CapabilityCategory
  ci_scope :: CapabilityScope
  ci_danger :: CapabilityDanger

definition CATALOG_A :: "CapabilityInfo list" where
  "CATALOG_A =
   [\<lparr>ci_id = ''system:shutdown'', ci_label = ''Shut down daemon'',
     ci_description = ''Gracefully stop the Astrid daemon. The CLI and dashboard disconnect; pending work is allowed to finish under the configured shutdown grace period.'',
     ci_category = CatSystem, ci_scope = CapGlobal, ci_danger = Extreme\<rparr>,
    \<lparr>ci_id = ''system:status'', ci_label = ''Read daemon status'',
     ci_description = ''View daemon PID, uptime, connected-client count, and loaded-capsule list.'',
     ci_category = CatSystem, ci_scope = CapGlobal, ci_danger = Safe\<rparr>,
    \<lparr>ci_id = ''capsule:install'', ci_label = ''Install capsules'',
     ci_description = ''Install a new capsule into the daemon'' @ [CHR 0x27] @ ''s configured install target. Does not grant any principal access by itself.'',
     ci_category = CatCapsule, ci_scope = CapGlobal, ci_danger = Extreme\<rparr>,
    \<lparr>ci_id = ''self:capsule:install'', ci_label = ''Install capsules (own workspace)'',
     ci_description = ''Install a capsule into the caller'' @ [CHR 0x27] @ ''s own CWD/workspace capsule slot. Future kernel work; see also: capsule:install.'',
     ci_category = CatCapsule, ci_scope = CapSelf, ci_danger = Elevated\<rparr>,
    \<lparr>ci_id = ''capsule:reload'', ci_label = ''Reload all capsules'',
     ci_description = ''Trigger a re-discovery of installed capsules system-wide. Causes a brief pause as capsules unload and reload.'',
     ci_category = CatCapsule, ci_scope = CapGlobal, ci_danger = Normal\<rparr>,
    \<lparr>ci_id = ''self:capsule:reload'', ci_label = ''Reload capsules (self)'',
     ci_description = ''Self-scoped variant of capsule:reload.'',
     ci_category = CatCapsule, ci_scope = CapSelf, ci_danger = Normal\<rparr>,
    \<lparr>ci_id = ''capsule:remove'', ci_label = ''Remove capsules'',
     ci_description = ''Remove an installed capsule from the daemon'' @ [CHR 0x27] @ ''s configured install target and unload it from the running daemon. Principal grants are unchanged; reversible by reinstalling.'',
     ci_category = CatCapsule, ci_scope = CapGlobal, ci_danger = Elevated\<rparr>,
    \<lparr>ci_id = ''self:capsule:remove'', ci_label = ''Remove capsules (self)'',
     ci_description = ''Self-scoped variant of capsule:remove.'',
     ci_category = CatCapsule, ci_scope = CapSelf, ci_danger = Normal\<rparr>,
    \<lparr>ci_id = ''self:workspace:promote'', ci_label = ''Promote workspace changes'',
     ci_description = ''Commit a non-git capsule workspace'' @ [CHR 0x27] @ ''s copy-on-write changes into the pristine workspace (the gate'' @ [CHR 0x27] @ ''s approve). No-op for a git-managed or No-CoW workspace.'',
     ci_category = CatCapsule, ci_scope = CapSelf, ci_danger = Elevated\<rparr>,
    \<lparr>ci_id = ''self:workspace:rollback'', ci_label = ''Roll back workspace changes'',
     ci_description = ''Discard a non-git capsule workspace'' @ [CHR 0x27] @ ''s copy-on-write changes, restoring the pristine contents (the gate'' @ [CHR 0x27] @ ''s reject). No-op for a git-managed or No-CoW workspace.'',
     ci_category = CatCapsule, ci_scope = CapSelf, ci_danger = Normal\<rparr>,
    \<lparr>ci_id = ''capsule:list'', ci_label = ''List all capsules'',
     ci_description = ''Enumerate every capsule installed on the host, including manifest metadata.'',
     ci_category = CatCapsule, ci_scope = CapGlobal, ci_danger = Safe\<rparr>,
    \<lparr>ci_id = ''self:capsule:list'', ci_label = ''List capsules (self)'',
     ci_description = ''Self-scoped variant of capsule:list. Always granted to the agent built-in.'',
     ci_category = CatCapsule, ci_scope = CapSelf, ci_danger = Safe\<rparr>,
    \<lparr>ci_id = ''self:distro:grant'', ci_label = ''Apply distro capsule grants (self)'',
     ci_description = ''Grant the caller the exact capsule set already admitted in its own signed Distro lock. Installation and authority granting remain separate operations.'',
     ci_category = CatCapsule, ci_scope = CapSelf, ci_danger = Elevated\<rparr>]"

definition CATALOG_B :: "CapabilityInfo list" where
  "CATALOG_B =
   [\<lparr>ci_id = ''agent:create'', ci_label = ''Create agents'',
     ci_description = ''Provision a new agent principal. Doesn'' @ [CHR 0x27] @ ''t grant any caps by itself '' @ em_dash @ '' combine with caps:grant or move the new agent into a group.'',
     ci_category = CatAgent, ci_scope = CapGlobal, ci_danger = Normal\<rparr>,
    \<lparr>ci_id = ''agent:create:inherit'', ci_label = ''Create agents from inherited state'',
     ci_description = ''Provision a new agent principal by copying env, KV, and secret state from an existing source principal. Does not copy the source profile.'',
     ci_category = CatAgent, ci_scope = CapGlobal, ci_danger = Extreme\<rparr>,
    \<lparr>ci_id = ''agent:create:clone'', ci_label = ''Clone agents'',
     ci_description = ''Provision a new agent principal by copying another principal'' @ [CHR 0x27] @ ''s capability/resource profile plus env, KV, and secret state. Does not copy auth keys.'',
     ci_category = CatAgent, ci_scope = CapGlobal, ci_danger = Extreme\<rparr>,
    \<lparr>ci_id = ''agent:delete'', ci_label = ''Delete agents'',
     ci_description = ''Remove an agent principal. Cannot delete the bootstrap `default` principal. The principal'' @ [CHR 0x27] @ ''s home directory is NOT scrubbed (ops concern).'',
     ci_category = CatAgent, ci_scope = CapGlobal, ci_danger = Elevated\<rparr>,
    \<lparr>ci_id = ''agent:enable'', ci_label = ''Enable agents'',
     ci_description = ''Re-enable a previously disabled agent. New invocations resume.'',
     ci_category = CatAgent, ci_scope = CapGlobal, ci_danger = Normal\<rparr>,
    \<lparr>ci_id = ''agent:disable'', ci_label = ''Disable agents'',
     ci_description = ''Suspend an agent without deleting it. In-flight invocations finish under the old value; new ones are refused.'',
     ci_category = CatAgent, ci_scope = CapGlobal, ci_danger = Elevated\<rparr>,
    \<lparr>ci_id = ''agent:modify'', ci_label = ''Modify agent groups'',
     ci_description = ''Add or remove group memberships on an agent. Changes which capabilities the agent inherits.'',
     ci_category = CatAgent, ci_scope = CapGlobal, ci_danger = Elevated\<rparr>,
    \<lparr>ci_id = ''agent:list'', ci_label = ''List all agents'',
     ci_description = ''Enumerate every agent principal on this host with their groups, grants, and revokes.'',
     ci_category = CatAgent, ci_scope = CapGlobal, ci_danger = Safe\<rparr>,
    \<lparr>ci_id = ''self:agent:list'', ci_label = ''View own agent row'',
     ci_description = ''Read this principal'' @ [CHR 0x27] @ ''s own AgentSummary. Always granted to the agent built-in so members can introspect their own permissions.'',
     ci_category = CatAgent, ci_scope = CapSelf, ci_danger = Safe\<rparr>,
    \<lparr>ci_id = ''quota:set'', ci_label = ''Set agent quotas'',
     ci_description = ''Set resource ceilings (RAM, CPU time, IPC throughput) on any agent.'',
     ci_category = CatQuota, ci_scope = CapGlobal, ci_danger = Normal\<rparr>,
    \<lparr>ci_id = ''self:quota:set'', ci_label = ''Set own quotas'',
     ci_description = ''Lower or retain own resource ceilings. Increasing an allocation requires quota:set.'',
     ci_category = CatQuota, ci_scope = CapSelf, ci_danger = Normal\<rparr>,
    \<lparr>ci_id = ''quota:get'', ci_label = ''Read agent quotas'',
     ci_description = ''View the resource ceilings configured on any agent.'',
     ci_category = CatQuota, ci_scope = CapGlobal, ci_danger = Safe\<rparr>,
    \<lparr>ci_id = ''self:quota:get'', ci_label = ''Read own quotas'',
     ci_description = ''Read the caller'' @ [CHR 0x27] @ ''s own resource ceilings. Always granted to the agent built-in.'',
     ci_category = CatQuota, ci_scope = CapSelf, ci_danger = Safe\<rparr>]"

definition CATALOG_C :: "CapabilityInfo list" where
  "CATALOG_C =
   [\<lparr>ci_id = ''group:create'', ci_label = ''Create capability groups'',
     ci_description = ''Define a new custom capability group. Members inherit the group'' @ [CHR 0x27] @ ''s capabilities.'',
     ci_category = CatGroup, ci_scope = CapGlobal, ci_danger = Elevated\<rparr>,
    \<lparr>ci_id = ''group:delete'', ci_label = ''Delete capability groups'',
     ci_description = ''Remove a custom capability group. Built-in groups (admin, agent, restricted) cannot be deleted.'',
     ci_category = CatGroup, ci_scope = CapGlobal, ci_danger = Elevated\<rparr>,
    \<lparr>ci_id = ''group:modify'', ci_label = ''Modify capability groups'',
     ci_description = ''Edit the capabilities, description, or `unsafe_admin` flag on a custom group. Changes propagate to every member on the next authz check.'',
     ci_category = CatGroup, ci_scope = CapGlobal, ci_danger = Elevated\<rparr>,
    \<lparr>ci_id = ''group:list'', ci_label = ''List all groups'',
     ci_description = ''Enumerate every group (built-in + custom) with its capability set.'',
     ci_category = CatGroup, ci_scope = CapGlobal, ci_danger = Safe\<rparr>,
    \<lparr>ci_id = ''self:group:list'', ci_label = ''List groups (self-membership)'',
     ci_description = ''Self-scoped group:list '' @ em_dash @ '' for resolving the caller'' @ [CHR 0x27] @ ''s own inherited capabilities. Always granted to the agent built-in.'',
     ci_category = CatGroup, ci_scope = CapSelf, ci_danger = Safe\<rparr>,
    \<lparr>ci_id = ''caps:grant'', ci_label = ''Grant capabilities'',
     ci_description = ''Append capability patterns to a principal'' @ [CHR 0x27] @ ''s grants. With `unsafe_admin`, can mint wildcard (`*`) grants. Effectively a meta-permission '' @ em_dash @ '' anyone with this can elevate themselves.'',
     ci_category = CatCaps, ci_scope = CapGlobal, ci_danger = Extreme\<rparr>,
    \<lparr>ci_id = ''caps:revoke'', ci_label = ''Revoke capabilities'',
     ci_description = ''Append capability patterns to a principal'' @ [CHR 0x27] @ ''s revokes (highest-precedence deny). Cannot revoke from the bootstrap `default` principal.'',
     ci_category = CatCaps, ci_scope = CapGlobal, ci_danger = Elevated\<rparr>,
    \<lparr>ci_id = ''caps:token:mint'', ci_label = ''Mint capability tokens'',
     ci_description = ''Mint a signed capability token pre-granting a principal access to a resource (e.g. `mcp://server:tool`), bypassing per-use approval. An escalation primitive '' @ em_dash @ '' anyone with this can pre-authorize tool access.'',
     ci_category = CatCaps, ci_scope = CapGlobal, ci_danger = Extreme\<rparr>,
    \<lparr>ci_id = ''caps:token:revoke'', ci_label = ''Revoke capability tokens'',
     ci_description = ''Revoke a previously minted capability token by id. Revocation is global and final '' @ em_dash @ '' the token no longer authorizes for any principal.'',
     ci_category = CatCaps, ci_scope = CapGlobal, ci_danger = Elevated\<rparr>,
    \<lparr>ci_id = ''caps:token:list'', ci_label = ''List capability tokens'',
     ci_description = ''List the non-revoked, non-expired capability tokens minted for a principal.'',
     ci_category = CatCaps, ci_scope = CapGlobal, ci_danger = Safe\<rparr>,
    \<lparr>ci_id = ''invite:issue'', ci_label = ''Issue invite tokens'',
     ci_description = ''Mint invite tokens that let new principals self-enroll into a designated group. The token IS the auth '' @ em_dash @ '' anyone holding it can redeem.'',
     ci_category = CatInvite, ci_scope = CapGlobal, ci_danger = Elevated\<rparr>,
    \<lparr>ci_id = ''invite:redeem'', ci_label = ''Redeem invite tokens (no-op grant)'',
     ci_description = ''Capability name preserved for completeness '' @ em_dash @ '' the kernel bypasses the cap check on redemption because the token itself is the auth. Granting this to anyone is a no-op.'',
     ci_category = CatInvite, ci_scope = CapGlobal, ci_danger = Normal\<rparr>,
    \<lparr>ci_id = ''invite:list'', ci_label = ''List outstanding invites'',
     ci_description = ''Enumerate outstanding invite tokens by fingerprint (never the raw token).'',
     ci_category = CatInvite, ci_scope = CapGlobal, ci_danger = Safe\<rparr>,
    \<lparr>ci_id = ''invite:revoke'', ci_label = ''Revoke invites'',
     ci_description = ''Invalidate an outstanding invite token before it'' @ [CHR 0x27] @ ''s redeemed.'',
     ci_category = CatInvite, ci_scope = CapGlobal, ci_danger = Normal\<rparr>]"

definition CATALOG_D :: "CapabilityInfo list" where
  "CATALOG_D =
   [\<lparr>ci_id = ''audit:read_all'', ci_label = ''View full audit firehose'',
     ci_description = ''Subscribe to every audit entry across every principal via /api/events. Without this cap, the SSE stream is filtered to the caller'' @ [CHR 0x27] @ ''s own entries only.'',
     ci_category = CatSystem, ci_scope = CapGlobal, ci_danger = Elevated\<rparr>,
    \<lparr>ci_id = ''self:approval:respond'', ci_label = ''Approve own capability requests'',
     ci_description = ''Respond to capability-approval prompts addressed to this principal. Always granted to the agent built-in (an agent can only approve its own requests, never another'' @ [CHR 0x27] @ ''s).'',
     ci_category = CatApproval, ci_scope = CapSelf, ci_danger = Safe\<rparr>,
    \<lparr>ci_id = ''self:auth:pair'', ci_label = ''Pair an additional device'',
     ci_description = ''Mint a short-lived pair-device token that lets a new device add its ed25519 public key to this principal'' @ [CHR 0x27] @ ''s AuthConfig.public_keys. The kernel always binds the token to the caller'' @ [CHR 0x27] @ ''s own principal regardless of wire-level hints.'',
     ci_category = CatApproval, ci_scope = CapSelf, ci_danger = Normal\<rparr>,
    \<lparr>ci_id = ''self:auth:pair:admin'', ci_label = ''Pair a full-scope device'',
     ci_description = ''Mint a FULL-scope (unattenuated) pair-device token; a scoped device cannot. A device paired without this capability is restricted to a capability scope that can never widen the principal'' @ [CHR 0x27] @ ''s effective permissions, so this gates the ability to add a device that acts with the principal'' @ [CHR 0x27] @ ''s full authority.'',
     ci_category = CatApproval, ci_scope = CapSelf, ci_danger = Elevated\<rparr>,
    \<lparr>ci_id = ''auth:pair:redeem'', ci_label = ''Redeem pair-device tokens (no-op grant)'',
     ci_description = ''Capability name preserved for completeness '' @ em_dash @ '' the kernel bypasses the cap check on pair-device redemption because the token itself is the auth. Granting this to anyone is a no-op.'',
     ci_category = CatApproval, ci_scope = CapGlobal, ci_danger = Normal\<rparr>,
    \<lparr>ci_id = ''auth:pair'', ci_label = ''Manage any principal'' @ [CHR 0x27] @ ''s paired devices'',
     ci_description = ''List and revoke the paired devices (registered ed25519 keys) of ANY principal. The self form, self:auth:pair, lets a principal manage its own devices; this global form is the admin-tier sibling for operating on another principal'' @ [CHR 0x27] @ ''s device fleet. Conferred by the admin group'' @ [CHR 0x27] @ ''s universal grant.'',
     ci_category = CatApproval, ci_scope = CapGlobal, ci_danger = Elevated\<rparr>]"

definition CAPABILITY_CATALOG :: "CapabilityInfo list" where
  "CAPABILITY_CATALOG = CATALOG_A @ CATALOG_B @ CATALOG_C @ CATALOG_D"

definition known_capabilities :: "string list" where
  "known_capabilities = map ci_id CAPABILITY_CATALOG"

definition KNOWN_CAPABILITIES_COUNT :: nat where
  "KNOWN_CAPABILITIES_COUNT = 46"

lemmas catalog_defs = CAPABILITY_CATALOG_def CATALOG_A_def CATALOG_B_def CATALOG_C_def CATALOG_D_def

lemma known_capabilities_eval:
  "known_capabilities =
    [''system:shutdown'', ''system:status'', ''capsule:install'', ''self:capsule:install'',
     ''capsule:reload'', ''self:capsule:reload'', ''capsule:remove'', ''self:capsule:remove'',
     ''self:workspace:promote'', ''self:workspace:rollback'', ''capsule:list'', ''self:capsule:list'',
     ''self:distro:grant'', ''agent:create'', ''agent:create:inherit'', ''agent:create:clone'',
     ''agent:delete'', ''agent:enable'', ''agent:disable'', ''agent:modify'', ''agent:list'',
     ''self:agent:list'', ''quota:set'', ''self:quota:set'', ''quota:get'', ''self:quota:get'',
     ''group:create'', ''group:delete'', ''group:modify'', ''group:list'', ''self:group:list'',
     ''caps:grant'', ''caps:revoke'', ''caps:token:mint'', ''caps:token:revoke'', ''caps:token:list'',
     ''invite:issue'', ''invite:redeem'', ''invite:list'', ''invite:revoke'', ''audit:read_all'',
     ''self:approval:respond'', ''self:auth:pair'', ''self:auth:pair:admin'', ''auth:pair:redeem'',
     ''auth:pair'']"
  by (simp add: known_capabilities_def catalog_defs)


section \<open>The tables name exact capabilities\<close>

definition kernel_table :: "string list" where
  "kernel_table =
     [''system:shutdown'', ''system:status'', ''self:capsule:reload'', ''capsule:reload'',
      ''self:capsule:remove'', ''capsule:remove'', ''self:workspace:promote'',
      ''self:workspace:rollback'', ''self:capsule:install'', ''capsule:install'',
      ''self:capsule:list'', ''capsule:list'', ''self:approval:respond'']"

definition admin_table :: "string list" where
  "admin_table =
     [''agent:create:clone'', ''agent:create:inherit'', ''agent:create'', ''agent:delete'',
      ''agent:enable'', ''agent:disable'', ''agent:modify'', ''self:agent:list'', ''agent:list'',
      ''self:distro:grant'', ''self:quota:set'', ''quota:set'', ''self:capsule:install'',
      ''capsule:install'', ''self:quota:get'', ''quota:get'', ''group:create'', ''group:delete'',
      ''group:modify'', ''self:group:list'', ''group:list'', ''caps:grant'', ''caps:revoke'',
      ''caps:token:mint'', ''caps:token:revoke'', ''caps:token:list'', ''invite:issue'',
      ''invite:redeem'', ''invite:list'', ''invite:revoke'', ''auth:pair:redeem'',
      ''self:auth:pair:admin'', ''self:auth:pair'', ''auth:pair'']"

definition uncatalogued_table :: "string list" where
  "uncatalogued_table =
     [''self:env:write'', ''env:write'', ''self:env:read'', ''env:read'', ''audit:stats'',
      ''audit:prune'', ''audit:health'', ''audit:heads'', ''audit:export'', ''audit:anchor'',
      ''storage:mount:system:read'', ''storage:mount:system:write'', ''self:storage:mount:read'',
      ''self:storage:mount:write'', ''storage:mount:read'', ''storage:mount:write'',
      ''self:storage:mount'']"

text \<open>The requests whose capability the catalog does not list.\<close>

definition uncatalogued :: "AdminRequestKind \<Rightarrow> bool" where
  "uncatalogued r =
     (case r of
        EnvSet _ _ _ _ _ _ _ \<Rightarrow> True | EnvSetIfAbsent _ _ _ _ _ \<Rightarrow> True | EnvDelete _ _ _ _ _ \<Rightarrow> True
      | EnvList _ _ \<Rightarrow> True | AuditStats \<Rightarrow> True | AuditPrune _ _ \<Rightarrow> True | AuditHealth \<Rightarrow> True
      | AuditHeads \<Rightarrow> True | AuditExport _ \<Rightarrow> True | AuditAnchorMark _ \<Rightarrow> True
      | AuditAnchorStatus \<Rightarrow> True | StorageMountIssue _ _ _ _ \<Rightarrow> True | StorageMountStatus _ \<Rightarrow> True
      | StorageMountSync _ \<Rightarrow> True | StorageMountRevoke _ \<Rightarrow> True | _ \<Rightarrow> False)"

lemma required_in_kernel_table: "required_capability r sc \<in> set kernel_table"
  by (cases r; cases sc) (simp_all add: required_capability_def kernel_table_def)

lemma storage_mount_in_table:
  "storage_mount_required_capability r sc \<in> set uncatalogued_table"
  by (auto simp: storage_mount_required_capability_def uncatalogued_table_def
      split: AdminRequestKind.split StorageProviderViewV1.split StorageProviderAccessV1.split
        AuthorityScope.split)

lemma required_in_admin_table:
  "required_capability_for_admin_request r sc
     \<in> (if uncatalogued r then set uncatalogued_table else set admin_table)"
  using storage_mount_in_table [of r sc]
  by (cases r; cases sc)
     (simp_all add: required_capability_for_admin_request_def uncatalogued_def admin_table_def
        uncatalogued_table_def)

lemma tables_against_catalog:
  "list_all (\<lambda>c. c \<in> set known_capabilities) (kernel_table @ admin_table)"
  "list_all (\<lambda>c. c \<notin> set known_capabilities) uncatalogued_table"
  unfolding known_capabilities_eval by code_simp+

text \<open>An exact capability is one of the grammar with no star segment.\<close>

definition exact_capability :: "string \<Rightarrow> bool" where
  "exact_capability c \<longleftrightarrow> validate_capability c = Inr () \<and> ''*'' \<notin> set (split_on CHR '':'' c)"

lemma tables_exact: "list_all exact_capability (kernel_table @ admin_table @ uncatalogued_table)"
  by code_simp

lemma catalog_exact: "list_all exact_capability known_capabilities"
  unfolding known_capabilities_eval by code_simp

text \<open>
  Every capability either routing table can ask for is an exact capability of the grammar, so a
  request is never refused or granted because its requirement is itself a pattern.
\<close>

lemma required_capabilities_exact:
  "exact_capability (required_capability k sc) \<and>
   exact_capability (required_capability_for_admin_request r sc)"
  using tables_exact required_in_kernel_table [of k sc] required_in_admin_table [of r sc]
  by (auto simp: list_all_iff split: if_splits)

text \<open>
  The catalog lists 46 distinct exact capabilities, marks an entry as self-scoped exactly when
  its id starts with \<open>self:\<close>, lists every capability the kernel table asks for, and lists what
  the admin table asks for except for the environment, audit and storage-mount requests, whose
  capabilities it does not name.
\<close>

lemma catalog_against_tables:
  "length CAPABILITY_CATALOG = KNOWN_CAPABILITIES_COUNT \<and> distinct known_capabilities
   \<and> list_all (\<lambda>e. exact_capability (ci_id e) \<and> (ci_scope e = CapSelf) = starts_with ''self:'' (ci_id e))
       CAPABILITY_CATALOG
   \<and> required_capability k sc \<in> set known_capabilities
   \<and> (required_capability_for_admin_request r sc \<in> set known_capabilities) = (\<not> uncatalogued r)"
proof -
  have "list_all (\<lambda>e. (ci_scope e = CapSelf) = starts_with ''self:'' (ci_id e)) CAPABILITY_CATALOG"
    by (simp add: catalog_defs starts_with_def)
  moreover have "list_all (\<lambda>e. exact_capability (ci_id e)) CAPABILITY_CATALOG"
    using catalog_exact by (simp add: known_capabilities_def list_all_iff)
  moreover have "length CAPABILITY_CATALOG = KNOWN_CAPABILITIES_COUNT"
    by (simp add: catalog_defs KNOWN_CAPABILITIES_COUNT_def)
  moreover have "distinct known_capabilities"
    unfolding known_capabilities_eval by code_simp
  ultimately show ?thesis
    using tables_against_catalog required_in_kernel_table [of k sc] required_in_admin_table [of r sc]
    by (auto simp: list_all_iff split: if_splits)
qed

section \<open>Requests that reach beyond the caller\<close>

text \<open>
  An admin request reaches beyond its caller when it names another principal, writes the
  host-wide environment, mounts a view that is not the caller's or a fleet's, or edits or reads
  state that belongs to no principal (groups, invites, audit log, token ids, new principals).
\<close>

definition reaches_beyond :: "AdminRequestKind \<Rightarrow> PrincipalId \<Rightarrow> bool" where
  "reaches_beyond r caller \<longleftrightarrow>
     (\<exists>p. admin_target_principal r = Some p \<and> p \<noteq> caller) \<or>
     (case r of
        EnvSet _ _ _ _ _ sc _ \<Rightarrow> sc = EnvShared
      | EnvDelete _ _ _ _ sc \<Rightarrow> sc = EnvShared
      | StorageMountIssue (PrincipalView p) _ _ _ \<Rightarrow> p \<noteq> caller
      | StorageMountIssue AdminView _ _ _ \<Rightarrow> True
      | AgentCreate _ _ _ _ _ _ \<Rightarrow> True
      | GroupCreate _ _ _ _ \<Rightarrow> True | GroupDelete _ \<Rightarrow> True | GroupModify _ _ _ _ \<Rightarrow> True
      | InviteIssue _ _ _ _ \<Rightarrow> True | InviteList \<Rightarrow> True | InviteRevoke _ \<Rightarrow> True
      | CapsTokenRevoke _ \<Rightarrow> True | QuotaUserList \<Rightarrow> True
      | AuditStats \<Rightarrow> True | AuditPrune _ _ \<Rightarrow> True | AuditHealth \<Rightarrow> True | AuditHeads \<Rightarrow> True
      | AuditExport _ \<Rightarrow> True | AuditAnchorMark _ \<Rightarrow> True | AuditAnchorStatus \<Rightarrow> True
      | _ \<Rightarrow> False)"

definition root_segment :: "string \<Rightarrow> string" where
  "root_segment c = hd (split_on CHR '':'' c)"

text \<open>
  A principal is confined when its own grants and those of its groups start with the segment
  \<open>self\<close> or \<open>delegate\<close>, as the patterns of the built-in agent group do.
\<close>

definition confined_pattern :: "string \<Rightarrow> bool" where
  "confined_pattern p \<longleftrightarrow> root_segment p = ''self'' \<or> root_segment p = ''delegate''"

definition confined :: "PrincipalProfile \<Rightarrow> GroupConfig \<Rightarrow> bool" where
  "confined p gc \<longleftrightarrow> list_all confined_pattern (grants p) \<and>
     list_all (\<lambda>n. case hm_get (group_map gc) n of
                     None \<Rightarrow> True | Some g \<Rightarrow> list_all confined_pattern (capabilities g)) (groups p)"

lemma matches_root:
  assumes "capability_matches p c" and "root_segment p \<noteq> ''*''"
  shows "root_segment c = root_segment p"
proof -
  obtain x xs y ys where "split_on CHR '':'' p = x # xs" "split_on CHR '':'' c = y # ys"
    by (meson neq_Nil_conv split_on_not_Nil)
  then show ?thesis
    using assms by (auto simp: capability_matches_segments root_segment_def split: if_splits)
qed

lemma confined_authority:
  assumes "confined p gc" and "authority p gc sc cap"
  shows "confined_pattern cap"
proof -
  have star: "root_segment q \<noteq> ''*''" if "confined_pattern q" for q
    using that by (auto simp: confined_pattern_def)
  obtain q where "capability_matches q cap" "confined_pattern q"
    using assms by (fastforce simp: authority_def group_confers_def confined_def list_all_iff)
  then show ?thesis using matches_root star by (auto simp: confined_pattern_def)
qed

lemma beyond_global: "reaches_beyond r caller \<Longrightarrow> resolve_admin_scope r caller = GlobalScope"
  by (cases r) (auto simp: reaches_beyond_def resolve_admin_scope_def admin_target_principal_def
      split: StorageProviderViewV1.splits)

lemma kernel_target_global:
  "request_target_principal r caller = Some p \<Longrightarrow> resolve_scope r caller = GlobalScope \<and> p \<noteq> caller"
  by (cases r) (auto simp: request_target_principal_def resolve_scope_def split: option.splits if_splits)

lemma beyond_open:
  assumes "reaches_beyond r caller"
  shows "\<not> confined_pattern (required_capability_for_admin_request r (resolve_admin_scope r caller))"
  unfolding beyond_global [OF assms]
  using assms
  by (cases r)
     (auto simp: required_capability_for_admin_request_def storage_mount_required_capability_def
       reaches_beyond_def confined_pattern_def root_segment_def admin_target_principal_def
       split: StorageProviderViewV1.splits StorageProviderAccessV1.splits)

lemma kernel_target_open:
  assumes "request_target_principal r caller = Some p"
  shows "\<not> confined_pattern (required_capability r (resolve_scope r caller))"
  using assms kernel_target_global [OF assms]
  by (cases r) (auto simp: request_target_principal_def required_capability_def confined_pattern_def
      root_segment_def split: option.splits)

definition secret_fields :: "AdminRequestKind \<Rightarrow> string list" where
  "secret_fields r =
     (case r of
        InviteRedeem _ _ _ \<Rightarrow> [''token'', ''public_key'']
      | PairDeviceRedeem _ _ \<Rightarrow> [''token'', ''public_key'']
      | InviteRevoke _ \<Rightarrow> [''token'']
      | EnvSet _ _ _ _ _ _ _ \<Rightarrow> [''value'']
      | EnvSetIfAbsent _ _ _ _ _ \<Rightarrow> [''value'']
      | _ \<Rightarrow> [])"

definition added_fields :: "AdminRequestKind \<Rightarrow> string list" where
  "added_fields r =
     (case r of
        InviteRedeem _ _ _ \<Rightarrow> [''token_fingerprint'', ''public_key_fingerprint'']
      | PairDeviceRedeem _ _ \<Rightarrow> [''token_fingerprint'', ''public_key_fingerprint'']
      | InviteRevoke _ \<Rightarrow> [''token_fingerprint'']
      | AuditAnchorMark _ \<Rightarrow> [''chains'', ''chain_count'']
      | _ \<Rightarrow> [])"

lemma redact_params_secret:
  "f \<in> set (secret_fields r) \<Longrightarrow> hm_get (redact_params enc r params) f \<in> {None, Some (JString ''<redacted>'')}"
  by (cases r) (auto simp: secret_fields_def redact_params_def hm.get_insert hm.get_remove)

lemma redact_params_other:
  "f \<notin> set (secret_fields r) \<Longrightarrow> f \<notin> set (added_fields r) \<Longrightarrow>
     hm_get (redact_params enc r params) f = hm_get params f"
  by (cases r) (auto simp: secret_fields_def added_fields_def redact_params_def hm.get_insert hm.get_remove)

text \<open>
  The audit log never stores a bearer token, a public key or an environment value of a request:
  in the recorded parameters the secret fields are absent or replaced, tokens and keys appear as
  fingerprints only, and every other field is recorded as sent.
\<close>

theorem audit_params_redacted:
  assumes "sanitize_admin_audit_params enc r = Some j"
  shows "\<exists>val params out. aud_to_value enc r = Some (JObject val)
     \<and> hm_get val ''params'' = Some (JObject params)
     \<and> j = JObject (hm_insert ''params'' (JObject out) val)
     \<and> (\<forall>f \<in> set (secret_fields r). hm_get out f \<in> {None, Some (JString ''<redacted>'')})
     \<and> (\<forall>f. f \<notin> set (secret_fields r) \<and> f \<notin> set (added_fields r) \<longrightarrow> hm_get out f = hm_get params f)"
proof -
  obtain val params where "aud_to_value enc r = Some (JObject val)"
    "hm_get val ''params'' = Some (JObject params)"
    "j = JObject (hm_insert ''params'' (JObject (redact_params enc r params)) val)"
    using assms by (auto simp: sanitize_admin_audit_params_def split: option.splits Json.splits)
  then show ?thesis using redact_params_secret redact_params_other by blast
qed

definition demo_encoding :: AuditEncoding where
  "demo_encoding =
     \<lparr>aud_to_value = (\<lambda>r. case r of PairDeviceRedeem token key \<Rightarrow>
          Some (JObject [(''method'', JString ''PairDeviceRedeem''),
                         (''params'', JObject [(''token'', JString token), (''public_key'', JString key)])])
        | _ \<Rightarrow> None),
      aud_fingerprint_public_key = take 4, aud_invite_hash_token = take 4, aud_pair_hash_token = take 4\<rparr>"

theorem audit_params_redacted_witness:
  "\<exists>val out. sanitize_admin_audit_params demo_encoding (PairDeviceRedeem ''astrid_pair_x'' ''abcdef'') =
       Some (JObject (hm_insert ''params'' (JObject out) val))
     \<and> hm_get out ''token'' \<in> {None, Some (JString ''<redacted>'')}
     \<and> hm_get out ''public_key'' \<in> {None, Some (JString ''<redacted>'')}"
proof -
  let ?r = "PairDeviceRedeem ''astrid_pair_x'' ''abcdef''"
  have "sanitize_admin_audit_params demo_encoding ?r \<noteq> None" by code_simp
  then obtain j where j: "sanitize_admin_audit_params demo_encoding ?r = Some j" by blast
  moreover have "set (secret_fields ?r) = {''token'', ''public_key''}" by (simp add: secret_fields_def)
  ultimately show ?thesis using audit_params_redacted [OF j] by (metis insertI1 insertI2)
qed

end
