(* ===== verification/Rate_Limit.thy ===== *)
theory Rate_Limit
  imports Request_Policy
begin

text \<open>
  The per-principal rate limiter of the management API
  (\<open>crates/astrid-kernel/src/kernel_router/rate_limit.rs\<close>): a sliding window of one minute per
  principal and method, with a periodic sweep that drops idle buckets.  Instants are nanoseconds of
  the monotonic clock; \<open>saturating_duration_since\<close> is subtraction of natural numbers.
\<close>

section \<open>State\<close>

definition MANAGEMENT_RATE_LIMIT_WINDOW :: nat where
  "MANAGEMENT_RATE_LIMIT_WINDOW = 60 * 1000000000"

record RateLimitsConfig =
  elicitation_per_server_per_min :: u32
  max_pending_requests :: u32
  capsule_reload_per_min :: u32

record RateLimitKey =
  rk_principal :: PrincipalId
  rk_method :: string

record ManagementRateLimiter =
  rl_buckets :: "(RateLimitKey, nat list) hash_map"
  rl_last_global_prune :: nat
  rl_limits :: RateLimitsConfig

definition with_limits :: "nat \<Rightarrow> RateLimitsConfig \<Rightarrow> ManagementRateLimiter" where
  "with_limits now limits = \<lparr>rl_buckets = [], rl_last_global_prune = now, rl_limits = limits\<rparr>"

section \<open>Operations\<close>

fun prune_timestamps :: "nat \<Rightarrow> nat list \<Rightarrow> nat list" where
  "prune_timestamps now [] = []"
| "prune_timestamps now (oldest # rest) =
     (if MANAGEMENT_RATE_LIMIT_WINDOW \<le> now - oldest then prune_timestamps now rest else oldest # rest)"

definition prune_expired ::
  "nat \<Rightarrow> (RateLimitKey, nat list) hash_map \<Rightarrow> (RateLimitKey, nat list) hash_map" where
  "prune_expired now buckets =
     filter (\<lambda>(_, ts). ts \<noteq> []) (map (\<lambda>(k, ts). (k, prune_timestamps now ts)) buckets)"

definition check_at ::
  "PrincipalId \<Rightarrow> string \<Rightarrow> u32 \<Rightarrow> nat \<Rightarrow> ManagementRateLimiter \<Rightarrow> bool \<times> ManagementRateLimiter" where
  "check_at p method max_per_minute now self =
     (let self = (if MANAGEMENT_RATE_LIMIT_WINDOW \<le> now - rl_last_global_prune self
                  then self\<lparr>rl_buckets := prune_expired now (rl_buckets self), rl_last_global_prune := now\<rparr>
                  else self);
          key = \<lparr>rk_principal = p, rk_method = method\<rparr>;
          timestamps = prune_timestamps now
            (case hm_get (rl_buckets self) key of Some ts \<Rightarrow> ts | None \<Rightarrow> [])
      in if unat max_per_minute \<le> length timestamps
         then (False, self\<lparr>rl_buckets := hm_insert key timestamps (rl_buckets self)\<rparr>)
         else (True, self\<lparr>rl_buckets := hm_insert key (timestamps @ [now]) (rl_buckets self)\<rparr>))"

definition rate_limit_max :: "KernelRequest \<Rightarrow> RateLimitsConfig \<Rightarrow> u32 option" where
  "rate_limit_max req limits =
     (case req of
        ReloadCapsules \<Rightarrow> Some (capsule_reload_per_min limits)
      | ReloadCapsule _ \<Rightarrow> Some (capsule_reload_per_min limits)
      | UnloadCapsule _ \<Rightarrow> Some (capsule_reload_per_min limits)
      | RemoveCapsule _ _ _ \<Rightarrow> Some (capsule_reload_per_min limits)
      | PromoteWorkspace _ \<Rightarrow> Some (capsule_reload_per_min limits)
      | RollbackWorkspace _ \<Rightarrow> Some (capsule_reload_per_min limits)
      | BeginCapsuleInstallBatch _ _ \<Rightarrow> Some 2
      | FinishCapsuleInstallBatch _ _ \<Rightarrow> Some 4
      | InstallCapsule _ _ _ _ _ _ _ _ \<Rightarrow> Some 10
      | ApproveCapability _ _ \<Rightarrow> Some 10
      | Shutdown _ \<Rightarrow> Some 1
      | ListCapsules \<Rightarrow> None
      | GetCommands \<Rightarrow> None
      | GetCapsuleMetadata \<Rightarrow> None
      | GetCapsuleMetadataForPrincipal _ \<Rightarrow> None
      | GetAgentReadiness \<Rightarrow> None
      | GetInstalledCapsuleIdentity _ \<Rightarrow> None
      | GetCapsuleInstallResumeReceipt _ \<Rightarrow> None
      | PutCapsuleInstallResumeReceipt _ \<Rightarrow> None
      | GetStatus \<Rightarrow> None)"

definition limit_for :: "ManagementRateLimiter \<Rightarrow> KernelRequest \<Rightarrow> string \<times> u32 option" where
  "limit_for self req = (kernel_request_method req, rate_limit_max req (rl_limits self))"

section \<open>The sliding window\<close>

text \<open>
  The abstract limiter remembers every grant it ever made and grants a request exactly when fewer
  than the limit of the same principal and method were granted within the last window.
\<close>

record RateCall =
  rc_key :: RateLimitKey
  rc_max :: u32
  rc_now :: nat

definition live :: "nat \<Rightarrow> nat \<Rightarrow> bool" where
  "live now t \<longleftrightarrow> now - t < MANAGEMENT_RATE_LIMIT_WINDOW"

definition times_of :: "RateLimitKey \<Rightarrow> (RateLimitKey \<times> nat) list \<Rightarrow> nat list" where
  "times_of key history = map snd (filter (\<lambda>(k, _). k = key) history)"

definition window_admits :: "(RateLimitKey \<times> nat) list \<Rightarrow> RateCall \<Rightarrow> bool" where
  "window_admits history c \<longleftrightarrow>
     length (filter (live (rc_now c)) (times_of (rc_key c) history)) < unat (rc_max c)"

fun window_spec :: "(RateLimitKey \<times> nat) list \<Rightarrow> RateCall list \<Rightarrow> bool list" where
  "window_spec history [] = []"
| "window_spec history (c # cs) =
     (if window_admits history c then True # window_spec (history @ [(rc_key c, rc_now c)]) cs
      else False # window_spec history cs)"

fun run_checks :: "RateCall list \<Rightarrow> ManagementRateLimiter \<Rightarrow> bool list" where
  "run_checks [] l = []"
| "run_checks (c # cs) l =
     (let (ok, l') = check_at (rk_principal (rc_key c)) (rk_method (rc_key c)) (rc_max c) (rc_now c) l
      in ok # run_checks cs l')"

definition bucket :: "ManagementRateLimiter \<Rightarrow> RateLimitKey \<Rightarrow> nat list" where
  "bucket l key = (case hm_get (rl_buckets l) key of Some ts \<Rightarrow> ts | None \<Rightarrow> [])"

text \<open>
  At time \<open>now\<close> a bucket tracks a list of grant times when it is ascending, holds no future
  instant and has the same live instants from now on; a limiter tracks a history when every bucket
  does.
\<close>

definition tracks_times :: "nat \<Rightarrow> nat list \<Rightarrow> nat list \<Rightarrow> bool" where
  "tracks_times now b ts0 \<longleftrightarrow> sorted b \<and> (\<forall>t \<in> set b. t \<le> now) \<and>
     (\<forall>later \<ge> now. filter (live later) b = filter (live later) ts0)"

definition tracks :: "nat \<Rightarrow> ManagementRateLimiter \<Rightarrow> (RateLimitKey \<times> nat) list \<Rightarrow> bool" where
  "tracks now l history \<longleftrightarrow> hm_wf (rl_buckets l) \<and>
     (\<forall>key. tracks_times now (bucket l key) (times_of key history))"

lemma live_mono: "now \<le> later \<Longrightarrow> live later t \<Longrightarrow> live now t"
  by (simp add: live_def)

lemma prune_timestamps_sorted: "sorted ts \<Longrightarrow> prune_timestamps now ts = filter (live now) ts"
proof (induction ts)
  case (Cons t ts)
  then have "live now t \<Longrightarrow> filter (live now) ts = ts"
    by (auto simp: live_def filter_id_conv)
  moreover have "(MANAGEMENT_RATE_LIMIT_WINDOW \<le> now - t) = (\<not> live now t)" by (auto simp: live_def)
  ultimately show ?case using Cons by simp
qed simp

lemma filter_live_mono: "now \<le> later \<Longrightarrow> filter (live later) (filter (live now) ts) = filter (live later) ts"
  using live_mono by (auto intro!: filter_cong)

lemma tracks_times_prune:
  assumes "tracks_times now b ts0"
  shows "prune_timestamps now b = filter (live now) ts0"
    and "tracks_times now (filter (live now) ts0) ts0"
proof -
  have s: "sorted b" and le: "\<forall>t \<in> set b. t \<le> now" and f: "filter (live now) ts0 = filter (live now) b"
    using assms by (auto simp: tracks_times_def)
  then show "prune_timestamps now b = filter (live now) ts0" by (simp add: prune_timestamps_sorted)
  have "sorted (filter (live now) ts0)" unfolding f by (rule sorted_wrt_filter [OF s])
  moreover have "\<forall>t \<in> set (filter (live now) ts0). t \<le> now"
    unfolding f using le by simp
  ultimately show "tracks_times now (filter (live now) ts0) ts0"
    unfolding tracks_times_def using filter_live_mono by blast
qed

lemma tracks_times_grant:
  "tracks_times now b ts0 \<Longrightarrow> tracks_times now (b @ [now]) (ts0 @ [now])"
  by (auto simp: tracks_times_def sorted_append)

lemma tracks_times_later: "tracks_times now b ts0 \<Longrightarrow> now \<le> later \<Longrightarrow> tracks_times later b ts0"
  by (auto simp: tracks_times_def intro: order_trans)

lemma bucket_prune:
  assumes "hm_wf (rl_buckets l)"
  shows "bucket (l\<lparr>rl_buckets := prune_expired now (rl_buckets l), rl_last_global_prune := n\<rparr>) key
       = prune_timestamps now (bucket l key)"
    and "hm_wf (prune_expired now (rl_buckets l))"
proof -
  have "(case hm_get (prune_expired now m) key of Some ts \<Rightarrow> ts | None \<Rightarrow> []) =
      prune_timestamps now (case hm_get m key of Some ts \<Rightarrow> ts | None \<Rightarrow> [])"
    if "hm_wf m" for m :: "(RateLimitKey, nat list) hash_map"
    using that
  proof (induction m)
    case (Cons p m)
    obtain k ts where p: "p = (k, ts)" by (cases p)
    have none: "hm_get (prune_expired now m) k = None"
      using Cons.prems by (force simp: p hm_wf_def hm_get_None_iff prune_expired_def image_iff)
    show ?case using Cons none by (auto simp: p prune_expired_def hm_wf_def)
  qed (simp add: prune_expired_def)
  with assms show "bucket (l\<lparr>rl_buckets := prune_expired now (rl_buckets l), rl_last_global_prune := n\<rparr>) key
       = prune_timestamps now (bucket l key)"
    by (simp add: bucket_def)
  have "distinct (map fst (map (\<lambda>(k, ts). (k, prune_timestamps now ts)) (rl_buckets l)))"
    using assms by (simp add: hm_wf_def split_def comp_def)
  then show "hm_wf (prune_expired now (rl_buckets l))"
    by (simp add: hm_wf_def prune_expired_def distinct_map_filter)
qed

lemma tracks_prune:
  assumes "tracks now l h"
  shows "tracks now (l\<lparr>rl_buckets := prune_expired now (rl_buckets l), rl_last_global_prune := n\<rparr>) h"
proof -
  have wf: "hm_wf (rl_buckets l)" and t: "\<And>key. tracks_times now (bucket l key) (times_of key h)"
    using assms by (auto simp: tracks_def)
  show ?thesis
    by (simp add: tracks_def bucket_prune [OF wf] tracks_times_prune(1) [OF t] tracks_times_prune(2) [OF t])
qed

lemma tracks_bucket_update:
  assumes "tracks now l h" and "tracks_times now ts (times_of key h')"
    and "\<And>k. k \<noteq> key \<Longrightarrow> times_of k h' = times_of k h"
  shows "tracks now (l\<lparr>rl_buckets := hm_insert key ts (rl_buckets l)\<rparr>) h'"
proof -
  have "bucket (l\<lparr>rl_buckets := hm_insert key ts (rl_buckets l)\<rparr>) k = (if k = key then ts else bucket l k)" for k
    by (simp add: bucket_def hm.get_insert)
  then show ?thesis using assms by (auto simp: tracks_def hm.wf_insert)
qed

lemma check_at_step:
  assumes "tracks now l h" and "check_at p m mx now l = (ok, l')"
  defines "key \<equiv> \<lparr>rk_principal = p, rk_method = m\<rparr>"
  shows "ok = window_admits h \<lparr>rc_key = key, rc_max = mx, rc_now = now\<rparr>"
    and "tracks now l' (if ok then h @ [(key, now)] else h)"
proof -
  define l1 where "l1 = (if MANAGEMENT_RATE_LIMIT_WINDOW \<le> now - rl_last_global_prune l
      then l\<lparr>rl_buckets := prune_expired now (rl_buckets l), rl_last_global_prune := now\<rparr> else l)"
  have t1: "tracks now l1 h" using assms(1) tracks_prune by (simp add: l1_def)
  let ?ts = "filter (live now) (times_of key h)"
  have "tracks_times now (bucket l1 key) (times_of key h)" using t1 by (simp add: tracks_def)
  note ts = tracks_times_prune [OF this]
  have ok: "ok = (length ?ts < unat mx)"
    and l': "l' = l1\<lparr>rl_buckets := hm_insert key (if ok then ?ts @ [now] else ?ts) (rl_buckets l1)\<rparr>"
    using assms(2) ts(1) unfolding check_at_def l1_def [symmetric] key_def [symmetric] bucket_def [symmetric] Let_def
    by (auto split: if_splits)
  show "ok = window_admits h \<lparr>rc_key = key, rc_max = mx, rc_now = now\<rparr>"
    by (simp add: ok window_admits_def)
  have hist: "times_of k (h @ [(key, now)]) = (if k = key then times_of k h @ [now] else times_of k h)" for k
    by (simp add: times_of_def)
  show "tracks now l' (if ok then h @ [(key, now)] else h)"
  proof (cases ok)
    case True
    then show ?thesis
      using tracks_bucket_update [OF t1, of "?ts @ [now]" key "h @ [(key, now)]"] tracks_times_grant [OF ts(2)]
      by (simp add: l' hist)
  next
    case False
    then show ?thesis using tracks_bucket_update [OF t1, of ?ts key h] ts(2) by (simp add: l')
  qed
qed

lemma run_checks_tracks:
  "tracks now l h \<Longrightarrow> sorted (map rc_now cs) \<Longrightarrow> \<forall>c \<in> set cs. now \<le> rc_now c \<Longrightarrow>
     run_checks cs l = window_spec h cs"
proof (induction cs arbitrary: now l h)
  case (Cons c cs)
  obtain ok l' where run: "check_at (rk_principal (rc_key c)) (rk_method (rc_key c)) (rc_max c) (rc_now c) l = (ok, l')"
    by fastforce
  have key: "\<lparr>rk_principal = rk_principal (rc_key c), rk_method = rk_method (rc_key c)\<rparr> = rc_key c" by simp
  have t: "tracks (rc_now c) l h" using Cons.prems by (auto simp: tracks_def intro: tracks_times_later)
  note step = check_at_step [OF t run, unfolded key]
  from Cons.IH [OF step(2)] Cons.prems step(1) show ?case
    by (cases ok) (auto simp: run window_admits_def)
qed simp

text \<open>
  C38.  The rate limiter is exactly the one-minute sliding window: on any sequence of requests by any
  principals, at nondecreasing times, it grants a request if and only if fewer than its limit of the
  same principal and method were granted within the last minute; the bucket pruning and the periodic
  sweep never change an answer.
\<close>

theorem rate_limiter_is_sliding_window:
  assumes "sorted (map rc_now cs)"
  shows "run_checks cs (with_limits start limits) = window_spec [] cs"
proof (rule run_checks_tracks [where now = 0])
  show "tracks 0 (with_limits start limits) []"
    by (simp add: tracks_def tracks_times_def with_limits_def bucket_def times_of_def)
qed (use assms in simp_all)

definition demo_call :: "nat \<Rightarrow> RateCall" where
  "demo_call t = \<lparr>rc_key = \<lparr>rk_principal = default_principal, rk_method = ''Shutdown''\<rparr>, rc_max = 1, rc_now = t\<rparr>"

theorem rate_limiter_is_sliding_window_witness:
  "run_checks [demo_call 5, demo_call 7, demo_call 60000000005] 
     (with_limits 0 \<lparr>elicitation_per_server_per_min = 10, max_pending_requests = 50, capsule_reload_per_min = 14\<rparr>)
   = [True, False, True]"
  using rate_limiter_is_sliding_window [of "[demo_call 5, demo_call 7, demo_call 60000000005]" 0
    "\<lparr>elicitation_per_server_per_min = 10, max_pending_requests = 50, capsule_reload_per_min = 14\<rparr>"]
  by (simp add: demo_call_def window_admits_def times_of_def live_def MANAGEMENT_RATE_LIMIT_WINDOW_def)

end
