(* ===== verification/Install_Batch.thy ===== *)
theory Install_Batch
  imports Kernel_Api
begin

text \<open>
  The capsule-install batch leases of \<open>crates/astrid-kernel/src/kernel_router/install_batch.rs\<close>.
  A lease replaces the ordinary per-install rate charge by one bounded charge: it admits a fixed set
  of members, each for at most two attempts and one recovery.

  Instants are nanoseconds of a monotonic clock; an operation takes the value its call of
  \<open>Instant::now\<close> returned, and \<open>be_instant_max\<close> is the last instant the platform can
  represent.  The file system, the digest, the semantic-version parser and the identifier generator
  are parameters: \<open>be_fs\<close> gives what opening, inspecting and reading a path yields.
\<close>

section \<open>State\<close>

definition MAX_BATCH_MEMBERS :: nat where
  "MAX_BATCH_MEMBERS = 64"

definition MAX_BATCH_SOURCE_BYTES :: u64 where
  "MAX_BATCH_SOURCE_BYTES = 512 * 1024 * 1024"

definition MAX_MEMBER_ATTEMPTS :: u8 where
  "MAX_MEMBER_ATTEMPTS = 2"

definition NANOS_PER_SEC :: nat where
  "NANOS_PER_SEC = 1000000000"

definition BATCH_LEASE_LIFETIME :: nat where
  "BATCH_LEASE_LIFETIME = 15 * 60 * NANOS_PER_SEC"

record MemberState =
  ms_declaration :: CapsuleInstallBatchMember
  ms_attempts :: u8
  ms_completed :: bool
  ms_recovery_attempted :: bool

text \<open>\<open>members\<close> is a \<open>BTreeMap\<close>: an association list that is read in key order.\<close>

record Lease =
  ls_caller :: PrincipalId
  ls_target :: PrincipalId
  ls_expires_at :: nat
  ls_members :: "(string, MemberState) hash_map"

record InstallBatchRegistry =
  ir_leases :: "(CapsuleInstallBatchId, Lease) hash_map"

definition InstallBatchRegistry_default :: InstallBatchRegistry where
  "InstallBatchRegistry_default = \<lparr>ir_leases = []\<rparr>"

record InstallBatchLease =
  bl_batch_id :: CapsuleInstallBatchId
  bl_expires_in_secs :: nat

datatype InstallBatchReservation =
    Pending CapsuleInstallBatchMember
  | Completed CapsuleInstallBatchMember

fun reservation_member :: "InstallBatchReservation \<Rightarrow> CapsuleInstallBatchMember" where
  "reservation_member (Pending m) = m"
| "reservation_member (Completed m) = m"

datatype InstallBatchError =
    BatchSize
  | BadMemberId string
  | BadMemberVersion string
  | BadMemberDigest string
  | BadMemberArchiveDigest string
  | BadMemberBytes string
  | BadMemberGeneration string
  | SourceSizeOverflow
  | SourceCeiling
  | DuplicateMember string
  | OtherBatchActive PrincipalId
  | LeaseExpiryOverflow
  | LeaseAbsent
  | LeaseNotOwned
  | MemberNotDeclared string
  | ProvenanceMismatch string
  | RecoveryExhausted string
  | AttemptsExhausted string
  | SourceOpenFailed string
  | SourceInspectFailed string
  | SourceSizeOrType string
  | SourceReadFailed string
  | SourceChanged string
  | SourceNoLongerMatches string
  | MemberDisappeared
  | VerifyFailed string
  | BatchIncomplete string

record SourceFile =
  sf_opens :: bool
  sf_inspects :: bool
  sf_is_symlink :: bool
  sf_is_file :: bool
  sf_len :: u64
  sf_content :: "string option"

record BatchEnv =
  be_semver_render :: "string \<Rightarrow> string option"
  be_fs :: "string \<Rightarrow> SourceFile"
  be_blake3_hex :: "string \<Rightarrow> string"
  be_instant_max :: nat

section \<open>Validation of members\<close>

definition CapsuleId_valid :: "string \<Rightarrow> bool" where
  "CapsuleId_valid i \<longleftrightarrow> i \<noteq> [] \<and>
     list_all (\<lambda>c. is_ascii_lowercase c \<or> is_ascii_digit c \<or> c = CHR ''-'') i"

definition is_lower_hex :: "char \<Rightarrow> bool" where
  "is_lower_hex c \<longleftrightarrow> is_ascii_digit c \<or> (97 \<le> char_code c \<and> char_code c \<le> 102)"

definition canonical_source_digest :: "string \<Rightarrow> bool" where
  "canonical_source_digest v \<longleftrightarrow>
     length v = 71 \<and> starts_with ''blake3:'' v \<and> list_all is_lower_hex (drop 7 v)"

definition GENERATION_HEX_LEN :: nat where
  "GENERATION_HEX_LEN = 64"

definition parse_generation_object_ok :: "string \<Rightarrow> bool" where
  "parse_generation_object_ok v \<longleftrightarrow> length v = GENERATION_HEX_LEN \<and> list_all is_lower_hex v"

definition parse_installed_generation_ok :: "InstalledCapsuleGeneration \<Rightarrow> bool" where
  "parse_installed_generation_ok g \<longleftrightarrow>
     parse_generation_object_ok (ig_archive g) \<and> parse_generation_object_ok (ig_metadata g)
     \<and> parse_generation_object_ok (ig_authority g)"

definition validate_member ::
  "BatchEnv \<Rightarrow> CapsuleInstallBatchMember \<Rightarrow> (InstallBatchError, unit) result" where
  "validate_member env m =
     (if \<not> CapsuleId_valid (bm_id m) then Inl (BadMemberId (bm_id m))
      else case be_semver_render env (bm_version m) of
        None \<Rightarrow> Inl (BadMemberVersion (bm_id m))
      | Some rendered \<Rightarrow>
          if 128 < length (bm_version m) \<or> rendered \<noteq> bm_version m then Inl (BadMemberVersion (bm_id m))
          else if \<not> canonical_source_digest (bm_source_digest m) then Inl (BadMemberDigest (bm_id m))
          else if \<not> canonical_source_digest (bm_archive_digest m)
            then Inl (BadMemberArchiveDigest (bm_id m))
          else if bm_source_bytes m = 0 \<or> 64 * 1024 * 1024 < bm_source_bytes m
            then Inl (BadMemberBytes (bm_id m))
          else (case bm_expected_generation m of
                  None \<Rightarrow> Inr ()
                | Some g \<Rightarrow> if parse_installed_generation_ok g then Inr ()
                            else Inl (BadMemberGeneration (bm_id m))))"

section \<open>Archive sources\<close>

definition open_batch_archive_source ::
  "BatchEnv \<Rightarrow> string \<Rightarrow> CapsuleInstallBatchMember \<Rightarrow> (InstallBatchError, SourceFile) result" where
  "open_batch_archive_source env source expected =
     (let file = be_fs env source
      in if \<not> sf_opens file then Inl (SourceOpenFailed source)
         else if \<not> sf_inspects file then Inl (SourceInspectFailed source)
         else if sf_is_symlink file \<or> \<not> sf_is_file file \<or> sf_len file \<noteq> bm_source_bytes expected
           then Inl (SourceSizeOrType (bm_id expected))
         else Inr file)"

definition digest_open_batch_archive_source ::
  "BatchEnv \<Rightarrow> string \<Rightarrow> SourceFile \<Rightarrow> CapsuleInstallBatchMember \<Rightarrow> (InstallBatchError, string) result" where
  "digest_open_batch_archive_source env source file expected =
     (case sf_content file of
        None \<Rightarrow> Inl (SourceReadFailed source)
      | Some content \<Rightarrow>
          let limit = (if bm_source_bytes expected = - 1 then - 1 else bm_source_bytes expected + 1);
              bounded = take (unat limit) content
          in if length bounded \<noteq> unat (bm_source_bytes expected)
               then Inl (SourceChanged (bm_id expected))
             else Inr (''blake3:'' @ be_blake3_hex env bounded))"

section \<open>Operations of the registry\<close>

definition prune_expired_at :: "nat \<Rightarrow> InstallBatchRegistry \<Rightarrow> InstallBatchRegistry" where
  "prune_expired_at now reg = reg\<lparr>ir_leases := hm_retain (\<lambda>_ lease. now < ls_expires_at lease) (ir_leases reg)\<rparr>"

definition remaining_lease_secs :: "nat \<Rightarrow> nat \<Rightarrow> nat" where
  "remaining_lease_secs expires_at now =
     (let remaining = expires_at - now
      in min (remaining div NANOS_PER_SEC + (if remaining mod NANOS_PER_SEC \<noteq> 0 then 1 else 0)) (2 ^ 64 - 1))"

fun declare_members ::
  "BatchEnv \<Rightarrow> CapsuleInstallBatchMember list \<Rightarrow> u64 \<Rightarrow> (string, MemberState) hash_map
     \<Rightarrow> (InstallBatchError, (string, MemberState) hash_map) result" where
  "declare_members env [] acc declared = Inr declared"
| "declare_members env (m # ms) acc declared =
     (case validate_member env m of
        Inl e \<Rightarrow> Inl e
      | Inr _ \<Rightarrow>
          if 2 ^ 64 \<le> unat acc + unat (bm_source_bytes m) then Inl SourceSizeOverflow
          else if MAX_BATCH_SOURCE_BYTES < acc + bm_source_bytes m then Inl SourceCeiling
          else if hm_contains_key declared (bm_id m) then Inl (DuplicateMember (bm_id m))
          else declare_members env ms (acc + bm_source_bytes m)
                 (hm_insert (bm_id m)
                    \<lparr>ms_declaration = m, ms_attempts = 0, ms_completed = False,
                     ms_recovery_attempted = False\<rparr> declared))"

definition same_declaration ::
  "(string, MemberState) hash_map \<Rightarrow> (string, MemberState) hash_map \<Rightarrow> bool" where
  "same_declaration existing declared \<longleftrightarrow>
     length existing = length declared \<and>
     list_all (\<lambda>(i, st). case hm_get declared i of
                 None \<Rightarrow> False | Some c \<Rightarrow> ms_declaration c = ms_declaration st) existing"

definition batch_begin ::
  "BatchEnv \<Rightarrow> nat \<Rightarrow> nat \<Rightarrow> CapsuleInstallBatchId \<Rightarrow> PrincipalId \<Rightarrow> PrincipalId
     \<Rightarrow> CapsuleInstallBatchMember list \<Rightarrow> InstallBatchRegistry
     \<Rightarrow> (InstallBatchError, InstallBatchLease) result \<times> InstallBatchRegistry" where
  "batch_begin env now now' fresh caller target members reg =
     (let reg = prune_expired_at now reg
      in if members = [] \<or> MAX_BATCH_MEMBERS < length members then (Inl BatchSize, reg)
         else case declare_members env members 0 [] of
           Inl e \<Rightarrow> (Inl e, reg)
         | Inr declared \<Rightarrow>
             (case find (\<lambda>(_, l). ls_caller l = caller \<and> ls_target l = target) (ir_leases reg) of
                Some (batch_id, lease) \<Rightarrow>
                  if same_declaration (ls_members lease) declared
                  then (Inr \<lparr>bl_batch_id = batch_id,
                             bl_expires_in_secs = remaining_lease_secs (ls_expires_at lease) now\<rparr>, reg)
                  else (Inl (OtherBatchActive target), reg)
              | None \<Rightarrow>
                  if be_instant_max env < now' + BATCH_LEASE_LIFETIME then (Inl LeaseExpiryOverflow, reg)
                  else (Inr \<lparr>bl_batch_id = fresh,
                             bl_expires_in_secs = BATCH_LEASE_LIFETIME div NANOS_PER_SEC\<rparr>,
                        reg\<lparr>ir_leases := hm_insert fresh
                              \<lparr>ls_caller = caller, ls_target = target,
                               ls_expires_at = now' + BATCH_LEASE_LIFETIME, ls_members = declared\<rparr>
                              (ir_leases reg)\<rparr>)))"

definition set_member ::
  "CapsuleInstallBatchId \<Rightarrow> Lease \<Rightarrow> string \<Rightarrow> MemberState \<Rightarrow> InstallBatchRegistry \<Rightarrow> InstallBatchRegistry" where
  "set_member b lease i st reg =
     reg\<lparr>ir_leases := hm_insert b (lease\<lparr>ls_members := hm_insert i st (ls_members lease)\<rparr>) (ir_leases reg)\<rparr>"

definition strip_file_scheme :: "string \<Rightarrow> string" where
  "strip_file_scheme source = (case strip_prefix ''file://'' source of Some r \<Rightarrow> r | None \<Rightarrow> source)"

definition batch_reserve_member ::
  "BatchEnv \<Rightarrow> CapsuleInstallBatchContext \<Rightarrow> string \<Rightarrow> Lease \<Rightarrow> MemberState \<Rightarrow> InstallBatchRegistry
     \<Rightarrow> (InstallBatchError, InstallBatchReservation) result \<times> InstallBatchRegistry" where
  "batch_reserve_member env ctx source lease member reg =
     (let path = strip_file_scheme source; d = ms_declaration member
      in if ms_completed member then
           if ms_recovery_attempted member then (Inl (RecoveryExhausted (bx_member_id ctx)), reg)
           else
             (and_then (open_batch_archive_source env path d) (\<lambda>file.
              and_then (digest_open_batch_archive_source env path file d) (\<lambda>exact.
                if exact \<noteq> bm_source_digest d then Inl (SourceNoLongerMatches (bx_member_id ctx))
                else Inr (Completed d))),
              set_member (bx_batch_id ctx) lease (bx_member_id ctx)
                (member\<lparr>ms_recovery_attempted := True\<rparr>) reg)
         else if MAX_MEMBER_ATTEMPTS \<le> ms_attempts member
           then (Inl (AttemptsExhausted (bx_member_id ctx)), reg)
         else case open_batch_archive_source env path d of
             Inl e \<Rightarrow> (Inl e, reg)
           | Inr _ \<Rightarrow>
               (Inr (Pending d),
                set_member (bx_batch_id ctx) lease (bx_member_id ctx)
                  (member\<lparr>ms_attempts := (if ms_attempts member = 255 then 255 else ms_attempts member + 1)\<rparr>)
                  reg))"

definition batch_reserve ::
  "BatchEnv \<Rightarrow> nat \<Rightarrow> PrincipalId \<Rightarrow> PrincipalId \<Rightarrow> CapsuleInstallBatchContext \<Rightarrow> string
     \<Rightarrow> CapsuleInstallProvenance option \<Rightarrow> InstallBatchRegistry
     \<Rightarrow> (InstallBatchError, InstallBatchReservation) result \<times> InstallBatchRegistry" where
  "batch_reserve env now caller target ctx source provenance reg =
     (let reg = prune_expired_at now reg
      in case hm_get (ir_leases reg) (bx_batch_id ctx) of
           None \<Rightarrow> (Inl LeaseAbsent, reg)
         | Some lease \<Rightarrow>
             if ls_caller lease \<noteq> caller \<or> ls_target lease \<noteq> target then (Inl LeaseNotOwned, reg)
             else (case hm_get (ls_members lease) (bx_member_id ctx) of
                     None \<Rightarrow> (Inl (MemberNotDeclared (bx_member_id ctx)), reg)
                   | Some member \<Rightarrow>
                       if Option.bind provenance ip_source_digest \<noteq> Some (bm_source_digest (ms_declaration member))
                       then (Inl (ProvenanceMismatch (bx_member_id ctx)), reg)
                       else batch_reserve_member env ctx source lease member reg))"

definition batch_complete ::
  "CapsuleInstallBatchContext \<Rightarrow> InstallBatchRegistry
     \<Rightarrow> (InstallBatchError, unit) result \<times> InstallBatchRegistry" where
  "batch_complete ctx reg =
     (case hm_get (ir_leases reg) (bx_batch_id ctx) of
        None \<Rightarrow> (Inl LeaseAbsent, reg)
      | Some lease \<Rightarrow>
          (case hm_get (ls_members lease) (bx_member_id ctx) of
             None \<Rightarrow> (Inl MemberDisappeared, reg)
           | Some member \<Rightarrow>
               (Inr (), set_member (bx_batch_id ctx) lease (bx_member_id ctx)
                          (member\<lparr>ms_completed := True\<rparr>) reg)))"

definition batch_finish ::
  "nat \<Rightarrow> PrincipalId \<Rightarrow> PrincipalId \<Rightarrow> CapsuleInstallBatchId
     \<Rightarrow> (PrincipalId \<Rightarrow> CapsuleInstallBatchMember \<Rightarrow> (InstallBatchError, bool) result)
     \<Rightarrow> InstallBatchRegistry \<Rightarrow> (InstallBatchError, unit) result \<times> InstallBatchRegistry" where
  "batch_finish now caller target b verify reg =
     (let reg = prune_expired_at now reg
      in case hm_get (ir_leases reg) b of
           None \<Rightarrow> (Inl LeaseAbsent, reg)
         | Some lease \<Rightarrow>
             if ls_caller lease \<noteq> caller \<or> ls_target lease \<noteq> target then (Inl LeaseNotOwned, reg)
             else (case try_each (\<lambda>(_, st).
                          and_then (verify (ls_target lease) (ms_declaration st)) (\<lambda>ok.
                            if ok then Inr () else Inl (BatchIncomplete (bm_id (ms_declaration st)))))
                        (sort_key fst (ls_members lease)) of
                     Inl e \<Rightarrow> (Inl e, reg)
                   | Inr _ \<Rightarrow> (Inr (), reg\<lparr>ir_leases := hm_remove b (ir_leases reg)\<rparr>)))"

section \<open>Runs of the registry\<close>

datatype BatchOp =
    OpBegin nat nat CapsuleInstallBatchId PrincipalId PrincipalId "CapsuleInstallBatchMember list"
  | OpReserve nat PrincipalId PrincipalId CapsuleInstallBatchContext string
      "CapsuleInstallProvenance option"
  | OpComplete CapsuleInstallBatchContext
  | OpFinish nat PrincipalId PrincipalId CapsuleInstallBatchId
      "PrincipalId \<Rightarrow> CapsuleInstallBatchMember \<Rightarrow> (InstallBatchError, bool) result"

text \<open>An operation answers whether it succeeded.\<close>

fun apply_batch_op :: "BatchEnv \<Rightarrow> BatchOp \<Rightarrow> InstallBatchRegistry \<Rightarrow> bool \<times> InstallBatchRegistry" where
  "apply_batch_op env (OpBegin now now' fresh caller target ms) reg =
     apfst is_ok (batch_begin env now now' fresh caller target ms reg)"
| "apply_batch_op env (OpReserve now caller target ctx source prov) reg =
     apfst is_ok (batch_reserve env now caller target ctx source prov reg)"
| "apply_batch_op env (OpComplete ctx) reg = apfst is_ok (batch_complete ctx reg)"
| "apply_batch_op env (OpFinish now caller target b verify) reg =
     apfst is_ok (batch_finish now caller target b verify reg)"

fun run_batch :: "BatchEnv \<Rightarrow> BatchOp list \<Rightarrow> InstallBatchRegistry \<Rightarrow> bool list \<times> InstallBatchRegistry" where
  "run_batch env [] reg = ([], reg)"
| "run_batch env (op # ops) reg =
     (let (w, reg') = apply_batch_op env op reg; (ws, reg'') = run_batch env ops reg'
      in (w # ws, reg''))"

fun creates :: "CapsuleInstallBatchId \<Rightarrow> BatchOp \<Rightarrow> bool" where
  "creates b (OpBegin _ _ fresh _ _ _) \<longleftrightarrow> fresh = b"
| "creates b _ \<longleftrightarrow> False"

fun reserves :: "CapsuleInstallBatchId \<Rightarrow> BatchOp \<Rightarrow> bool" where
  "reserves b (OpReserve _ _ _ ctx _ _) \<longleftrightarrow> bx_batch_id ctx = b"
| "reserves b _ \<longleftrightarrow> False"

fun reserves_member :: "CapsuleInstallBatchId \<Rightarrow> string \<Rightarrow> BatchOp \<Rightarrow> bool" where
  "reserves_member b i (OpReserve _ _ _ ctx _ _) \<longleftrightarrow> bx_batch_id ctx = b \<and> bx_member_id ctx = i"
| "reserves_member b i _ \<longleftrightarrow> False"

definition granted :: "(BatchOp \<Rightarrow> bool) \<Rightarrow> BatchOp list \<Rightarrow> bool list \<Rightarrow> nat" where
  "granted P ops ws = length (filter (\<lambda>(op, w). P op \<and> w) (zip ops ws))"

section \<open>The invariant\<close>

definition lease_ok :: "Lease \<Rightarrow> bool" where
  "lease_ok l \<longleftrightarrow> hm_wf (ls_members l) \<and> ls_members l \<noteq> [] \<and> length (ls_members l) \<le> MAX_BATCH_MEMBERS
     \<and> (\<forall>(i, st) \<in> set (ls_members l). bm_id (ms_declaration st) = i \<and> ms_attempts st \<le> MAX_MEMBER_ATTEMPTS)
     \<and> sum_list (map (\<lambda>(_, st). unat (bm_source_bytes (ms_declaration st))) (ls_members l))
         \<le> unat MAX_BATCH_SOURCE_BYTES"

definition registry_ok :: "InstallBatchRegistry \<Rightarrow> bool" where
  "registry_ok reg \<longleftrightarrow> hm_wf (ir_leases reg) \<and> (\<forall>b l. hm_get (ir_leases reg) b = Some l \<longrightarrow> lease_ok l)
     \<and> (\<forall>b b' l l'. hm_get (ir_leases reg) b = Some l \<and> hm_get (ir_leases reg) b' = Some l'
          \<and> ls_caller l = ls_caller l' \<and> ls_target l = ls_target l' \<longrightarrow> b = b')"

lemma hm_insert_present:
  "hm_get m k = Some v \<Longrightarrow> hm_wf m \<Longrightarrow> length (hm_insert k w m) = length m
     \<and> sum_list (map (\<lambda>(_, x). f x) (hm_insert k w m)) + f v = sum_list (map (\<lambda>(_, x). f x) m) + (f w :: nat)"
  by (induction m) (auto simp: hm_insert_def hm_wf_def split: if_splits)

lemma hm_insert_fresh:
  "hm_get m k = None \<Longrightarrow> hm_insert k w m = m @ [(k, w)]"
  by (induction m) (auto simp: hm_insert_def split: if_splits)

lemma hm_insert_not_Nil: "hm_insert k v m \<noteq> []"
  by (cases m) (auto simp: hm_insert_def)

lemma registry_ok_default: "registry_ok InstallBatchRegistry_default"
  by (simp add: registry_ok_def InstallBatchRegistry_default_def)

lemma registry_ok_prune: "registry_ok reg \<Longrightarrow> registry_ok (prune_expired_at now reg)"
  by (auto simp: registry_ok_def prune_expired_at_def hm_get_retain_Some)

lemma registry_ok_remove: "registry_ok reg \<Longrightarrow> registry_ok (reg\<lparr>ir_leases := hm_remove b (ir_leases reg)\<rparr>)"
  by (auto simp: registry_ok_def hm.get_remove hm.wf_remove split: if_splits)

lemma lease_ok_set:
  assumes "lease_ok l" and "hm_get (ls_members l) i = Some st"
    and "ms_declaration st' = ms_declaration st" and "ms_attempts st' \<le> MAX_MEMBER_ATTEMPTS"
  shows "lease_ok (l\<lparr>ls_members := hm_insert i st' (ls_members l)\<rparr>)"
proof -
  have wf: "hm_wf (ls_members l)" using assms(1) by (simp add: lease_ok_def)
  have "(i, st) \<in> set (ls_members l)" by (rule hm_get_mem [OF assms(2)])
  then show ?thesis
    using assms hm_insert_present [OF assms(2) wf, of st' "\<lambda>s. unat (bm_source_bytes (ms_declaration s))"]
    by (auto simp: lease_ok_def hm.wf_insert hm_insert_not_Nil hm_set_insert [OF wf])
qed

lemma registry_ok_set_member:
  assumes "registry_ok reg" and "hm_get (ir_leases reg) b = Some l" and "hm_get (ls_members l) i = Some st"
    and "ms_declaration st' = ms_declaration st" and "ms_attempts st' \<le> MAX_MEMBER_ATTEMPTS"
  shows "registry_ok (set_member b l i st' reg)"
proof -
  have "lease_ok (l\<lparr>ls_members := hm_insert i st' (ls_members l)\<rparr>)"
    using assms lease_ok_set by (auto simp: registry_ok_def)
  then show ?thesis
    using assms(1,2)
    by (auto simp: registry_ok_def set_member_def hm.get_insert hm.wf_insert split: if_splits)
qed

definition declared_ok :: "u64 \<Rightarrow> (string, MemberState) hash_map \<Rightarrow> bool" where
  "declared_ok acc m \<longleftrightarrow> hm_wf m \<and> acc \<le> MAX_BATCH_SOURCE_BYTES
     \<and> (\<forall>(i, st) \<in> set m. bm_id (ms_declaration st) = i \<and> ms_attempts st = 0)
     \<and> sum_list (map (\<lambda>(_, st). unat (bm_source_bytes (ms_declaration st))) m) = unat acc"

lemma declare_members_ok:
  "declare_members env ms acc m = Inr m' \<Longrightarrow> declared_ok acc m \<Longrightarrow>
     (\<exists>acc'. declared_ok acc' m') \<and> length m' = length m + length ms"
proof (induction env ms acc m rule: declare_members.induct)
  case (2 env x ms acc m)
  let ?st = "\<lparr>ms_declaration = x, ms_attempts = 0, ms_completed = False, ms_recovery_attempted = False\<rparr>"
  have v: "validate_member env x = Inr ()" and no_wrap: "\<not> 2 ^ 64 \<le> unat acc + unat (bm_source_bytes x)"
    and le: "acc + bm_source_bytes x \<le> MAX_BATCH_SOURCE_BYTES" and new: "hm_get m (bm_id x) = None"
    and rec: "declare_members env ms (acc + bm_source_bytes x) (hm_insert (bm_id x) ?st m) = Inr m'"
    using 2(2) by (auto simp: hm_contains_key_def not_less split: sum.splits if_splits)
  have "unat (acc + bm_source_bytes x) = unat acc + unat (bm_source_bytes x)"
    using no_wrap by (simp add: unat_word_ariths)
  then have "declared_ok (acc + bm_source_bytes x) (hm_insert (bm_id x) ?st m)"
    using 2(3) le new
    by (force simp: declared_ok_def hm_insert_fresh hm_wf_def hm_get_None_iff image_iff)
  with 2(1) [of "()"] v no_wrap le new rec show ?case
    by (simp add: hm_contains_key_def not_less hm_insert_fresh)
qed auto

lemma registry_ok_begin:
  assumes "registry_ok reg"
  shows "registry_ok (snd (batch_begin env now now' fresh caller target ms reg))"
proof -
  let ?reg = "prune_expired_at now reg"
  have ok: "registry_ok ?reg" using assms by (rule registry_ok_prune)
  have "registry_ok (?reg\<lparr>ir_leases := hm_insert fresh \<lparr>ls_caller = caller, ls_target = target,
          ls_expires_at = now' + BATCH_LEASE_LIFETIME, ls_members = declared\<rparr> (ir_leases ?reg)\<rparr>)"
    if d: "declare_members env ms 0 [] = Inr declared" and ms: "ms \<noteq> []" "length ms \<le> MAX_BATCH_MEMBERS"
      and free: "find (\<lambda>(_, l). ls_caller l = caller \<and> ls_target l = target) (ir_leases ?reg) = None" for declared
  proof -
    have "declared_ok 0 []" by (simp add: declared_ok_def MAX_BATCH_SOURCE_BYTES_def)
    from declare_members_ok [OF d this] ms
    have "lease_ok \<lparr>ls_caller = caller, ls_target = target,
          ls_expires_at = now' + BATCH_LEASE_LIFETIME, ls_members = declared\<rparr>"
      by (fastforce simp: lease_ok_def declared_ok_def word_le_nat_alt)
    moreover have "\<not> (ls_caller l = caller \<and> ls_target l = target)"
      if "hm_get (ir_leases ?reg) b = Some l" for b l
      using free hm_get_mem [OF that] by (auto simp: find_None_iff)
    ultimately show ?thesis
      using ok by (auto simp: registry_ok_def hm.get_insert hm.wf_insert split: if_splits)
  qed
  then show ?thesis
    using ok by (auto simp: batch_begin_def Let_def not_less split: sum.splits option.splits)
qed

lemma attempts_step: "\<not> MAX_MEMBER_ATTEMPTS \<le> x \<Longrightarrow> x \<noteq> 255 \<and> unat (x + 1) = unat x + 1 \<and> unat x < 2"
  by (auto simp: MAX_MEMBER_ATTEMPTS_def word_le_nat_alt unat_word_ariths)

text \<open>
  What a reservation does to the registry: after pruning it either leaves it alone or rewrites
  the addressed member, keeping the declaration and spending one slot when it succeeds.
\<close>

definition slots :: "MemberState \<Rightarrow> nat" where
  "slots st = (2 - unat (ms_attempts st)) + (if ms_recovery_attempted st then 0 else 1)"

definition spends_slot :: "MemberState \<Rightarrow> MemberState \<Rightarrow> bool" where
  "spends_slot st st' \<longleftrightarrow> ms_declaration st' = ms_declaration st \<and> slots st' + 1 = slots st
     \<and> (ms_attempts st \<le> MAX_MEMBER_ATTEMPTS \<longrightarrow> ms_attempts st' \<le> MAX_MEMBER_ATTEMPTS)"

lemma reserve_member_effect:
  assumes "batch_reserve_member env ctx source l st reg = (r, reg')"
  shows "(reg' = reg \<and> \<not> is_ok r) \<or>
    (\<exists>st'. reg' = set_member (bx_batch_id ctx) l (bx_member_id ctx) st' reg \<and> spends_slot st st')"
proof (cases "ms_completed st")
  case True
  then show ?thesis
    using assms
    by (cases "ms_recovery_attempted st")
       (auto simp: batch_reserve_member_def Let_def spends_slot_def slots_def
          intro!: exI [of _ "st\<lparr>ms_recovery_attempted := True\<rparr>"])
next
  case False
  show ?thesis
  proof (cases "MAX_MEMBER_ATTEMPTS \<le> ms_attempts st")
    case False
    from attempts_step [OF this] \<open>\<not> ms_completed st\<close> False assms show ?thesis
      by (cases "open_batch_archive_source env (strip_file_scheme source) (ms_declaration st)")
         (auto simp: batch_reserve_member_def Let_def spends_slot_def slots_def word_le_nat_alt MAX_MEMBER_ATTEMPTS_def
            intro!: exI [of _ "st\<lparr>ms_attempts := ms_attempts st + 1\<rparr>"])
  qed (use \<open>\<not> ms_completed st\<close> assms in \<open>auto simp: batch_reserve_member_def\<close>)
qed

lemma reserve_effect:
  assumes "batch_reserve env now caller target ctx source prov reg = (r, reg')"
  shows "(reg' = prune_expired_at now reg \<and> \<not> is_ok r) \<or>
    (\<exists>l st st'. hm_get (ir_leases (prune_expired_at now reg)) (bx_batch_id ctx) = Some l
       \<and> hm_get (ls_members l) (bx_member_id ctx) = Some st \<and> spends_slot st st'
       \<and> reg' = set_member (bx_batch_id ctx) l (bx_member_id ctx) st' (prune_expired_at now reg))"
  using assms
  by (auto simp: batch_reserve_def Let_def split: option.splits if_splits dest!: reserve_member_effect)

lemma registry_ok_reserve:
  assumes "registry_ok reg"
  shows "registry_ok (snd (batch_reserve env now caller target ctx source prov reg))"
proof -
  have ok: "registry_ok (prune_expired_at now reg)" using assms by (rule registry_ok_prune)
  obtain r reg' where run: "batch_reserve env now caller target ctx source prov reg = (r, reg')" by fastforce
  have "registry_ok reg'"
    using reserve_effect [OF run]
  proof (elim disjE exE conjE)
    fix l st st'
    assume l: "hm_get (ir_leases (prune_expired_at now reg)) (bx_batch_id ctx) = Some l"
      "hm_get (ls_members l) (bx_member_id ctx) = Some st" "spends_slot st st'"
      and reg': "reg' = set_member (bx_batch_id ctx) l (bx_member_id ctx) st' (prune_expired_at now reg)"
    have "lease_ok l" using ok l(1) by (auto simp: registry_ok_def)
    then have "ms_attempts st \<le> MAX_MEMBER_ATTEMPTS"
      using hm_get_mem [OF l(2)] by (auto simp: lease_ok_def)
    then show ?thesis
      using l(3) registry_ok_set_member [OF ok l(1,2)] by (simp add: reg' spends_slot_def)
  qed (use ok in simp)
  then show ?thesis by (simp add: run)
qed

lemma registry_ok_complete:
  assumes "registry_ok reg"
  shows "registry_ok (snd (batch_complete ctx reg))"
proof -
  have "registry_ok (set_member (bx_batch_id ctx) l (bx_member_id ctx) (st\<lparr>ms_completed := True\<rparr>) reg)"
    if "hm_get (ir_leases reg) (bx_batch_id ctx) = Some l" "hm_get (ls_members l) (bx_member_id ctx) = Some st"
    for l st
  proof (rule registry_ok_set_member [OF assms that])
    have "lease_ok l" using assms that(1) by (auto simp: registry_ok_def)
    then show "ms_attempts (st\<lparr>ms_completed := True\<rparr>) \<le> MAX_MEMBER_ATTEMPTS"
      using hm_get_mem [OF that(2)] by (auto simp: lease_ok_def)
  qed simp
  then show ?thesis using assms by (simp add: batch_complete_def split: option.splits)
qed

lemma registry_ok_finish:
  "registry_ok reg \<Longrightarrow> registry_ok (snd (batch_finish now caller target b verify reg))"
  by (auto simp: batch_finish_def Let_def registry_ok_prune registry_ok_remove split: option.splits sum.splits)

lemma registry_ok_op: "registry_ok reg \<Longrightarrow> registry_ok (snd (apply_batch_op env op reg))"
  by (cases op) (simp_all add: registry_ok_begin registry_ok_reserve registry_ok_complete registry_ok_finish)

lemma registry_ok_run: "registry_ok reg \<Longrightarrow> registry_ok (snd (run_batch env ops reg))"
proof (induction ops arbitrary: reg)
  case (Cons op ops)
  from Cons.IH [OF registry_ok_op [OF Cons.prems]] show ?case by (simp add: split_def Let_def)
qed simp

section \<open>The budget of a lease\<close>

text \<open>
  A budget is a measure of the registry that every granted operation of a kind spends and that no
  other operation raises, as long as the identifier \<open>b\<close> is not handed out again.
\<close>

locale slot_budget =
  fixes env :: BatchEnv and b :: CapsuleInstallBatchId
    and budget :: "InstallBatchRegistry \<Rightarrow> nat" and charged :: "BatchOp \<Rightarrow> bool"
  assumes budget_step: "registry_ok reg \<Longrightarrow> \<not> creates b op \<Longrightarrow> apply_batch_op env op reg = (w, reg') \<Longrightarrow>
      (if charged op \<and> w then 1 else 0) + budget reg' \<le> budget reg"
begin

lemma budget_run:
  "registry_ok reg \<Longrightarrow> list_all (\<lambda>op. \<not> creates b op) ops \<Longrightarrow> run_batch env ops reg = (ws, reg') \<Longrightarrow>
     granted charged ops ws + budget reg' \<le> budget reg"
proof (induction ops arbitrary: reg ws)
  case Nil
  then show ?case by (simp add: granted_def)
next
  case (Cons op ops)
  obtain w reg1 where op: "apply_batch_op env op reg = (w, reg1)" by fastforce
  obtain ws1 where rest: "run_batch env ops reg1 = (ws1, reg')" and ws: "ws = w # ws1"
    using Cons.prems(3) op by (auto simp: Let_def split: prod.splits)
  have "registry_ok reg1" using registry_ok_op [OF Cons.prems(1), of env op] op by simp
  from Cons.IH [OF this _ rest] budget_step [OF Cons.prems(1) _ op] Cons.prems(2)
  show ?case by (auto simp: ws granted_def)
qed

end

definition lease_slots :: "CapsuleInstallBatchId \<Rightarrow> InstallBatchRegistry \<Rightarrow> nat" where
  "lease_slots b reg = (case hm_get (ir_leases reg) b of
     None \<Rightarrow> 0 | Some l \<Rightarrow> sum_list (map (\<lambda>(_, st). slots st) (ls_members l)))"

definition member_slots :: "CapsuleInstallBatchId \<Rightarrow> string \<Rightarrow> InstallBatchRegistry \<Rightarrow> nat" where
  "member_slots b i reg = (case hm_get (ir_leases reg) b of
     None \<Rightarrow> 0 | Some l \<Rightarrow> (case hm_get (ls_members l) i of None \<Rightarrow> 0 | Some st \<Rightarrow> slots st))"

lemma hm_get_prune:
  "registry_ok reg \<Longrightarrow> hm_get (ir_leases (prune_expired_at now reg)) b =
     (case hm_get (ir_leases reg) b of Some l \<Rightarrow> if now < ls_expires_at l then Some l else None | None \<Rightarrow> None)"
  by (simp add: prune_expired_at_def hm_get_retain registry_ok_def)

lemma slots_prune:
  assumes "registry_ok reg"
  shows "lease_slots b (prune_expired_at now reg) \<le> lease_slots b reg"
    and "member_slots b i (prune_expired_at now reg) \<le> member_slots b i reg"
  by (simp_all add: lease_slots_def member_slots_def hm_get_prune [OF assms] split: option.split)

lemma slots_set_member:
  assumes ok: "registry_ok reg" and l: "hm_get (ir_leases reg) b' = Some l"
    and st: "hm_get (ls_members l) i' = Some st" and n: "slots st' + n = slots st"
  shows "lease_slots b (set_member b' l i' st' reg) + (if b = b' then n else 0) = lease_slots b reg"
    and "member_slots b i (set_member b' l i' st' reg) + (if b = b' \<and> i = i' then n else 0) = member_slots b i reg"
proof -
  have "lease_ok l" using ok l by (auto simp: registry_ok_def)
  then have wf: "hm_wf (ls_members l)" by (simp add: lease_ok_def)
  from hm_insert_present [OF st wf, of st' slots] n l
  show "lease_slots b (set_member b' l i' st' reg) + (if b = b' then n else 0) = lease_slots b reg"
    by (auto simp: lease_slots_def set_member_def hm.get_insert)
  show "member_slots b i (set_member b' l i' st' reg) + (if b = b' \<and> i = i' then n else 0) = member_slots b i reg"
    using l st n by (auto simp: member_slots_def set_member_def hm.get_insert)
qed

lemma slots_reserve:
  assumes ok: "registry_ok reg" and run: "batch_reserve env now caller target ctx source prov reg = (r, reg')"
  shows "(if bx_batch_id ctx = b \<and> is_ok r then 1 else 0) + lease_slots b reg' \<le> lease_slots b reg"
    and "(if bx_batch_id ctx = b \<and> bx_member_id ctx = i \<and> is_ok r then 1 else 0) + member_slots b i reg'
           \<le> member_slots b i reg"
proof -
  let ?reg = "prune_expired_at now reg"
  note pr = slots_prune(1) [OF ok, of b now] slots_prune(2) [OF ok, of b i now]
  have "(if bx_batch_id ctx = b \<and> is_ok r then 1 else 0) + lease_slots b reg' \<le> lease_slots b reg
     \<and> (if bx_batch_id ctx = b \<and> bx_member_id ctx = i \<and> is_ok r then 1 else 0) + member_slots b i reg'
         \<le> member_slots b i reg"
    using reserve_effect [OF run]
  proof (elim disjE exE conjE)
    fix l st st'
    assume l: "hm_get (ir_leases ?reg) (bx_batch_id ctx) = Some l"
      "hm_get (ls_members l) (bx_member_id ctx) = Some st" "spends_slot st st'"
      and reg': "reg' = set_member (bx_batch_id ctx) l (bx_member_id ctx) st' ?reg"
    have "slots st' + 1 = slots st" using l(3) by (simp add: spends_slot_def)
    from slots_set_member(1) [OF registry_ok_prune [OF ok] l(1,2) this, of b]
      slots_set_member(2) [OF registry_ok_prune [OF ok] l(1,2) this, of b i] pr
    show ?thesis by (auto simp: reg' split: if_splits)
  qed (use pr in simp)
  then show "(if bx_batch_id ctx = b \<and> is_ok r then 1 else 0) + lease_slots b reg' \<le> lease_slots b reg"
    and "(if bx_batch_id ctx = b \<and> bx_member_id ctx = i \<and> is_ok r then 1 else 0) + member_slots b i reg'
           \<le> member_slots b i reg" by blast+
qed

lemma slots_complete:
  assumes "registry_ok reg"
  shows "lease_slots b (snd (batch_complete ctx reg)) = lease_slots b reg"
    and "member_slots b i (snd (batch_complete ctx reg)) = member_slots b i reg"
proof -
  have s: "slots (st\<lparr>ms_completed := True\<rparr>) + 0 = slots st" for st by (simp add: slots_def)
  show "lease_slots b (snd (batch_complete ctx reg)) = lease_slots b reg"
    using slots_set_member(1) [OF assms _ _ s] by (fastforce simp: batch_complete_def split: option.split)
  show "member_slots b i (snd (batch_complete ctx reg)) = member_slots b i reg"
    using slots_set_member(2) [OF assms _ _ s] by (fastforce simp: batch_complete_def split: option.split)
qed

lemma slots_remove:
  "lease_slots b (reg\<lparr>ir_leases := hm_remove b' (ir_leases reg)\<rparr>) \<le> lease_slots b reg"
  "member_slots b i (reg\<lparr>ir_leases := hm_remove b' (ir_leases reg)\<rparr>) \<le> member_slots b i reg"
  by (simp_all add: lease_slots_def member_slots_def hm.get_remove split: option.split)

lemma slots_finish:
  assumes "registry_ok reg"
  shows "lease_slots b (snd (batch_finish now caller target b' verify reg)) \<le> lease_slots b reg"
    and "member_slots b i (snd (batch_finish now caller target b' verify reg)) \<le> member_slots b i reg"
  using slots_prune(1) [OF assms, of b now] slots_prune(2) [OF assms, of b i now]
    slots_remove(1) [where reg = "prune_expired_at now reg" and b' = b' and b = b]
    slots_remove(2) [where reg = "prune_expired_at now reg" and b' = b' and b = b and i = i]
  by (auto simp: batch_finish_def Let_def split: option.split sum.split)

lemma slots_begin:
  assumes "registry_ok reg" and "fresh \<noteq> b"
  shows "lease_slots b (snd (batch_begin env now now' fresh caller target ms reg)) \<le> lease_slots b reg"
    and "member_slots b i (snd (batch_begin env now now' fresh caller target ms reg)) \<le> member_slots b i reg"
proof -
  have other: "lease_slots b (r\<lparr>ir_leases := hm_insert fresh l (ir_leases r)\<rparr>) = lease_slots b r"
    "member_slots b i (r\<lparr>ir_leases := hm_insert fresh l (ir_leases r)\<rparr>) = member_slots b i r" for r l
    using assms(2) by (simp_all add: lease_slots_def member_slots_def hm.get_insert)
  show "lease_slots b (snd (batch_begin env now now' fresh caller target ms reg)) \<le> lease_slots b reg"
    and "member_slots b i (snd (batch_begin env now now' fresh caller target ms reg)) \<le> member_slots b i reg"
    using slots_prune(1) [OF assms(1), of b now] slots_prune(2) [OF assms(1), of b i now] other
    by (auto simp: batch_begin_def Let_def split: option.split sum.split)
qed

lemma op_budget:
  assumes "registry_ok reg" and "\<not> creates b op"
  shows "(if reserves b op \<and> fst (apply_batch_op env op reg) then 1 else 0)
           + lease_slots b (snd (apply_batch_op env op reg)) \<le> lease_slots b reg"
    and "(if reserves_member b i op \<and> fst (apply_batch_op env op reg) then 1 else 0)
           + member_slots b i (snd (apply_batch_op env op reg)) \<le> member_slots b i reg"
proof -
  note facts = slots_reserve [OF assms(1) prod.collapse [symmetric]] slots_complete [OF assms(1)]
    slots_finish [OF assms(1)] slots_begin [OF assms(1)]
  show "(if reserves b op \<and> fst (apply_batch_op env op reg) then 1 else 0)
           + lease_slots b (snd (apply_batch_op env op reg)) \<le> lease_slots b reg"
    using assms(2) facts by (cases op) simp_all
  show "(if reserves_member b i op \<and> fst (apply_batch_op env op reg) then 1 else 0)
           + member_slots b i (snd (apply_batch_op env op reg)) \<le> member_slots b i reg"
    using assms(2) facts by (cases op) simp_all
qed

interpretation lease: slot_budget env b "lease_slots b" "reserves b" for env b
  using op_budget(1) by unfold_locales (metis fst_conv snd_conv)

interpretation member: slot_budget env b "member_slots b i" "reserves_member b i" for env b i
  using op_budget(2) by unfold_locales (metis fst_conv snd_conv)

lemma slots_le: "slots st \<le> 3"
  by (auto simp: slots_def)

lemma lease_slots_le:
  assumes "registry_ok reg"
  shows "lease_slots b reg \<le> 3 * MAX_BATCH_MEMBERS"
proof (cases "hm_get (ir_leases reg) b")
  case (Some l)
  have "sum_list (map (\<lambda>(_, st). slots st) xs) \<le> 3 * length xs" for xs :: "(string \<times> MemberState) list"
    using slots_le by (induction xs) (auto simp: add_mono)
  moreover have "length (ls_members l) \<le> MAX_BATCH_MEMBERS"
    using assms Some by (auto simp: registry_ok_def lease_ok_def)
  ultimately show ?thesis using Some by (fastforce simp: lease_slots_def intro: order_trans)
qed (simp add: lease_slots_def)

lemma member_slots_le: "member_slots b i reg \<le> 3"
  using slots_le by (simp add: member_slots_def split: option.split)

text \<open>
  C37.  A lease is a bounded substitute for the ordinary rate limit.  Over any run of registry
  operations, by any callers, at any times and whatever the file system answers, in which the
  identifier of the lease is not generated again, at most three reservations of one member and at
  most 192 reservations of the whole lease are granted, and the registry stays well formed: at most
  one lease per caller and target, each within the member, attempt and size limits.
\<close>

theorem install_batch_budget:
  assumes "registry_ok reg" and "run_batch env ops reg = (ws, reg')"
    and "list_all (\<lambda>op. \<not> creates b op) ops"
  shows "registry_ok reg' \<and> granted (reserves_member b i) ops ws \<le> 3 \<and> granted (reserves b) ops ws \<le> 192"
  using lease.budget_run [OF assms(1,3,2)] member.budget_run [OF assms(1,3,2), of i]
    lease_slots_le [OF assms(1), of b] member_slots_le [of b i reg] registry_ok_run [OF assms(1), of env ops]
    assms(2)
  by (simp add: MAX_BATCH_MEMBERS_def)

lemma member_bytes_le:
  assumes "lease_ok l" and "hm_get (ls_members l) i = Some st"
  shows "unat (bm_source_bytes (ms_declaration st)) \<le> unat MAX_BATCH_SOURCE_BYTES"
proof -
  have "unat (bm_source_bytes (ms_declaration st))
      \<le> sum_list (map (\<lambda>(_, st). unat (bm_source_bytes (ms_declaration st))) (ls_members l))"
    using hm_get_mem [OF assms(2)] by (intro member_le_sum_list) force+
  then show ?thesis using assms(1) by (simp add: lease_ok_def)
qed

lemma open_source_Inr:
  "open_batch_archive_source env path d = Inr f \<longleftrightarrow> f = be_fs env path \<and> sf_opens f \<and> sf_inspects f
     \<and> \<not> sf_is_symlink f \<and> sf_is_file f \<and> sf_len f = bm_source_bytes d"
  by (auto simp: open_batch_archive_source_def Let_def)

lemma digest_source_Inr:
  assumes "bm_source_bytes d \<noteq> - 1"
  shows "digest_open_batch_archive_source env path f d = Inr x \<longleftrightarrow>
     (\<exists>c. sf_content f = Some c \<and> length c = unat (bm_source_bytes d) \<and> x = ''blake3:'' @ be_blake3_hex env c)"
proof -
  have "unat (bm_source_bytes d + 1) = unat (bm_source_bytes d) + 1"
    using assms unatSuc [of "bm_source_bytes d"] by (simp add: add.commute add_eq_0_iff2 minus_equation_iff)
  then show ?thesis using assms by (auto simp: digest_open_batch_archive_source_def Let_def split: option.splits)
qed

lemma reserve_member_grant:
  assumes "batch_reserve_member env ctx source l st reg = (Inr res, reg')"
    and "bm_source_bytes (ms_declaration st) \<noteq> - 1"
  shows "let f = be_fs env (strip_file_scheme source); d = ms_declaration st
     in reservation_member res = d \<and> sf_is_file f \<and> \<not> sf_is_symlink f \<and> sf_len f = bm_source_bytes d
       \<and> ms_completed st = (res = Completed d)
       \<and> (ms_completed st \<longrightarrow> (\<exists>c. sf_content f = Some c \<and> ''blake3:'' @ be_blake3_hex env c = bm_source_digest d))"
  using assms
  by (cases "ms_completed st")
     (auto simp: batch_reserve_member_def Let_def and_then_Inr_iff open_source_Inr digest_source_Inr
       split: if_splits sum.splits)

text \<open>
  A reservation is granted only to the caller and target of a live lease, for a declared member
  whose declared digest is the one in the request's provenance, and from a regular file of the
  declared size; a completed member is granted again only when the file still has the declared
  digest.
\<close>

lemma reservation_only_as_declared:
  assumes "batch_reserve env now caller target ctx source prov reg = (Inr res, reg')" and "registry_ok reg"
  shows "\<exists>l st p f. hm_get (ir_leases reg) (bx_batch_id ctx) = Some l \<and> now < ls_expires_at l
     \<and> ls_caller l = caller \<and> ls_target l = target
     \<and> hm_get (ls_members l) (bx_member_id ctx) = Some st \<and> reservation_member res = ms_declaration st
     \<and> prov = Some p \<and> ip_source_digest p = Some (bm_source_digest (ms_declaration st))
     \<and> f = be_fs env (strip_file_scheme source) \<and> sf_is_file f \<and> \<not> sf_is_symlink f
     \<and> sf_len f = bm_source_bytes (ms_declaration st)
     \<and> (ms_completed st = (res = Completed (ms_declaration st)))
     \<and> (ms_completed st \<longrightarrow> (\<exists>c. sf_content f = Some c \<and>
          ''blake3:'' @ be_blake3_hex env c = bm_source_digest (ms_declaration st)))"
proof -
  obtain l st where l: "hm_get (ir_leases (prune_expired_at now reg)) (bx_batch_id ctx) = Some l"
    and own: "ls_caller l = caller" "ls_target l = target"
    and st: "hm_get (ls_members l) (bx_member_id ctx) = Some st"
    and prov: "Option.bind prov ip_source_digest = Some (bm_source_digest (ms_declaration st))"
    and run: "batch_reserve_member env ctx source l st (prune_expired_at now reg) = (Inr res, reg')"
    using assms(1) by (auto simp: batch_reserve_def Let_def split: option.splits if_splits)
  have live: "hm_get (ir_leases reg) (bx_batch_id ctx) = Some l" "now < ls_expires_at l"
    using l by (auto simp: hm_get_prune [OF assms(2)] split: option.splits if_splits)
  have "lease_ok l" using assms(2) live(1) by (auto simp: registry_ok_def)
  then have "bm_source_bytes (ms_declaration st) \<le> MAX_BATCH_SOURCE_BYTES"
    using member_bytes_le [OF _ st] by (simp add: word_le_nat_alt)
  moreover have "\<not> - 1 \<le> MAX_BATCH_SOURCE_BYTES" by code_simp
  ultimately have small: "bm_source_bytes (ms_declaration st) \<noteq> - 1" by metis
  obtain p where p: "prov = Some p" "ip_source_digest p = Some (bm_source_digest (ms_declaration st))"
    using prov by (cases prov) auto
  show ?thesis
    by (intro exI [of _ l] exI [of _ st] exI [of _ p] exI [of _ "be_fs env (strip_file_scheme source)"])
       (use own st live p reserve_member_grant [OF run small] in \<open>simp add: Let_def\<close>)
qed

definition demo_member :: CapsuleInstallBatchMember where
  "demo_member = \<lparr>bm_id = ''one'', bm_version = ''1.2.3'',
     bm_source_digest = ''blake3:'' @ replicate 64 CHR ''a'',
     bm_archive_digest = ''blake3:'' @ replicate 64 CHR ''b'', bm_source_bytes = 3,
     bm_expected_generation = None\<rparr>"

definition demo_batch_env :: BatchEnv where
  "demo_batch_env = \<lparr>be_semver_render = Some,
     be_fs = (\<lambda>_. \<lparr>sf_opens = True, sf_inspects = True, sf_is_symlink = False, sf_is_file = True,
                   sf_len = 3, sf_content = Some ''abc''\<rparr>),
     be_blake3_hex = (\<lambda>_. replicate 64 CHR ''a''), be_instant_max = 1000\<rparr>"

definition demo_lease :: Lease where
  "demo_lease = \<lparr>ls_caller = default_principal, ls_target = default_principal, ls_expires_at = 900,
     ls_members = [(''one'', \<lparr>ms_declaration = demo_member, ms_attempts = 0, ms_completed = False,
                              ms_recovery_attempted = False\<rparr>)]\<rparr>"

definition demo_registry :: InstallBatchRegistry where
  "demo_registry = \<lparr>ir_leases = [(''b1'', demo_lease)]\<rparr>"

lemma demo_registry_ok: "registry_ok demo_registry"
  by (auto simp: registry_ok_def demo_registry_def demo_lease_def lease_ok_def hm_wf_def
      MAX_BATCH_MEMBERS_def MAX_MEMBER_ATTEMPTS_def MAX_BATCH_SOURCE_BYTES_def demo_member_def split: if_splits)

abbreviation demo_reserve :: BatchOp where
  "demo_reserve \<equiv> OpReserve 10 default_principal default_principal
     \<lparr>bx_batch_id = ''b1'', bx_member_id = ''one''\<rparr> ''file:///one''
     (Some \<lparr>ip_distro = None, ip_source_digest = Some (''blake3:'' @ replicate 64 CHR ''a'')\<rparr>)"

lemma demo_run:
  "fst (run_batch demo_batch_env
     [demo_reserve, demo_reserve, demo_reserve,
      OpComplete \<lparr>bx_batch_id = ''b1'', bx_member_id = ''one''\<rparr>, demo_reserve, demo_reserve] demo_registry)
   = [True, True, False, True, True, False]"
  by code_simp

theorem install_batch_budget_witness:
  "\<exists>reg'. run_batch demo_batch_env
     [demo_reserve, demo_reserve, demo_reserve,
      OpComplete \<lparr>bx_batch_id = ''b1'', bx_member_id = ''one''\<rparr>, demo_reserve, demo_reserve] demo_registry
       = ([True, True, False, True, True, False], reg') \<and> registry_ok reg'"
proof -
  let ?ops = "[demo_reserve, demo_reserve, demo_reserve,
      OpComplete \<lparr>bx_batch_id = ''b1'', bx_member_id = ''one''\<rparr>, demo_reserve, demo_reserve]"
  obtain ws reg' where ws: "run_batch demo_batch_env ?ops demo_registry = (ws, reg')" by (rule prod.exhaust)
  have run: "run_batch demo_batch_env ?ops demo_registry = ([True, True, False, True, True, False], reg')"
    using ws demo_run by (simp only: fst_conv)
  have "list_all (\<lambda>op. \<not> creates ''b1'' op) ?ops" by simp
  from install_batch_budget [OF demo_registry_ok run this] run show ?thesis by blast
qed

end
