(* ===== verification/Management_Router.thy ===== *)
theory Management_Router
  imports Rate_Limit Install_Batch
begin

text \<open>
  The gate of the management API: \<open>authorize_request\<close> and \<open>handle_request\<close> of
  \<open>crates/astrid-kernel/src/kernel_router/mod.rs\<close>, the resolution of the caller (\<open>caller.rs\<close>), and
  \<open>handle_admin_request\<close> with \<open>authorize_admin_request\<close> (\<open>admin/mod.rs\<close>,
  \<open>admin/request_authorization.rs\<close>).

  The state of a router is the kernel state its handlers work on (a type parameter), the rate
  limiter, the batch registry, the entries of the audit log and the published replies.  The handlers
  behind the gate are functions of the environment, so every statement holds for all of them; besides
  its reply and the new kernel state a handler returns the entries that it appended to the audit log
  itself (as \<open>grant_audit.rs\<close> does for grants and tokens), of which nothing is assumed.  So are
  the profile cache, the group configuration, the curve decoding of a public key and whether an audit
  row could be persisted.  Log output, the keepalive frames and the live broadcast of audit rows are
  not modelled.
\<close>

section \<open>The caller of a message\<close>

datatype CallerResolutionError = CallerMissing | CallerInvalid

definition resolve_caller :: "string option \<Rightarrow> (CallerResolutionError, PrincipalId) result" where
  "resolve_caller message_principal =
     (case message_principal of
        None \<Rightarrow> Inl CallerMissing
      | Some raw \<Rightarrow> map_err (\<lambda>_. CallerInvalid) (PrincipalId_new raw))"

definition resolve_connection_principal ::
  "string option \<Rightarrow> (CallerResolutionError, PrincipalId) result" where
  "resolve_connection_principal message_principal =
     (case message_principal of
        Some raw \<Rightarrow> map_err (\<lambda>_. CallerInvalid) (PrincipalId_new raw)
      | None \<Rightarrow> Inr anonymous)"

definition response_topic_for :: "string \<Rightarrow> string" where
  "response_topic_for request_topic =
     (case strip_prefix ''astrid.v1.request.'' request_topic of
        None \<Rightarrow> request_topic
      | Some suffix \<Rightarrow> ''astrid.v1.response.'' @ suffix)"

definition ADMIN_TOPIC_PREFIX :: string where
  "ADMIN_TOPIC_PREFIX = ''astrid.v1.admin.''"

definition admin_response_topic :: "string \<Rightarrow> string" where
  "admin_response_topic input_topic =
     (case strip_prefix ADMIN_TOPIC_PREFIX input_topic of
        None \<Rightarrow> input_topic
      | Some suffix \<Rightarrow> ''astrid.v1.admin.response.'' @ suffix)"

section \<open>Audit rows, replies and state\<close>

datatype RouterError =
    ShuttingDown
  | Denied PermissionError
  | BatchRefused InstallBatchError
  | RateLimited u32 string
  | UnknownBatchTarget PrincipalId
  | CompletedMemberChanged string
  | PairRefused PairIssuePreflightError
  | HandlerFailed string
  | CallerRequired CallerResolutionError

datatype AuthorizationProof =
    ProofSystem PrincipalId string
  | ProofToken
  | ProofDenied RouterError

datatype AuditOutcome = AuditSuccess | AuditFailure RouterError

record AdminAuditEntry =
  aa_caller :: PrincipalId
  aa_method :: string
  aa_required_cap :: string
  aa_device_key_id :: "string option"
  aa_target :: "PrincipalId option"
  aa_params :: "Json option"
  aa_authorization :: AuthorizationProof
  aa_outcome :: AuditOutcome

datatype 'r Reply =
    Handled 'r
  | BatchStarted CapsuleInstallBatchId nat
  | BatchFinished
  | MemberResumed string "string option"
  | Refused RouterError

text \<open>The audit log holds the rows of the router and, in between, the entries of the handlers.\<close>

datatype 'a LogEntry = RouterRow AdminAuditEntry | HandlerEntry 'a

record ('k, 'r, 'a) RouterState =
  rs_kernel :: 'k
  rs_limiter :: ManagementRateLimiter
  rs_batches :: InstallBatchRegistry
  rs_audit :: "'a LogEntry list"
  rs_replies :: "(string \<times> PrincipalId \<times> string option \<times> 'r Reply) list"

record ('k, 'r, 'a) RouterEnv =
  re_admit :: bool
  re_profile :: "'k \<Rightarrow> PrincipalId \<Rightarrow> PrincipalProfile option"
  re_groups :: "'k \<Rightarrow> GroupConfig"
  re_pubkey_from_hex :: "string \<Rightarrow> u8 list option"
  re_persists :: "AdminAuditEntry \<Rightarrow> bool"
  re_batch :: BatchEnv
  re_fresh_batch_id :: CapsuleInstallBatchId
  re_knows_uid :: "'k \<Rightarrow> PrincipalId \<Rightarrow> bool"
  re_installed_member ::
    "'k \<Rightarrow> PrincipalId \<Rightarrow> CapsuleInstallBatchMember
       \<Rightarrow> (InstallBatchError, (string \<times> string option) option) result"
  re_handle :: "AuthorizedRequest \<Rightarrow> KernelRequest \<Rightarrow> 'k \<Rightarrow> 'r \<times> 'a list \<times> 'k"
  re_install ::
    "AuthorizedRequest \<Rightarrow> KernelRequest \<Rightarrow> CapsuleInstallBatchMember option \<Rightarrow> 'k \<Rightarrow> 'r \<times> 'a list \<times> 'k"
  re_is_success :: "'r \<Rightarrow> bool"
  re_encoding :: AuditEncoding
  re_dispatch :: "AuthorizedRequest \<Rightarrow> AdminRequestKind \<Rightarrow> 'k \<Rightarrow> 'r \<times> 'a list \<times> 'k"
  re_redeem :: "PrincipalId \<Rightarrow> AdminRequestKind \<Rightarrow> 'k \<Rightarrow> 'r \<times> 'a list \<times> 'k"
  re_error :: "'r \<Rightarrow> string option"
  re_rejected_marks :: "'r \<Rightarrow> string option"

definition publish ::
  "string \<Rightarrow> PrincipalId \<Rightarrow> string option \<Rightarrow> 'r Reply \<Rightarrow> ('k, 'r, 'a) RouterState \<Rightarrow> ('k, 'r, 'a) RouterState" where
  "publish topic caller kid reply s = s\<lparr>rs_replies := rs_replies s @ [(topic, caller, kid, reply)]\<rparr>"

definition record_admin_audit ::
  "('k, 'r, 'a) RouterEnv \<Rightarrow> AdminAuditEntry \<Rightarrow> ('k, 'r, 'a) RouterState \<Rightarrow> ('k, 'r, 'a) RouterState" where
  "record_admin_audit env entry s =
     (if re_persists env entry then s\<lparr>rs_audit := rs_audit s @ [RouterRow entry]\<rparr> else s)"

text \<open>What a handler leaves behind: the kernel state and its own entries in the audit log.\<close>

definition handler_effect :: "'a list \<Rightarrow> 'k \<Rightarrow> ('k, 'r, 'a) RouterState \<Rightarrow> ('k, 'r, 'a) RouterState" where
  "handler_effect entries k s = s\<lparr>rs_kernel := k, rs_audit := rs_audit s @ map HandlerEntry entries\<rparr>"

section \<open>Authorization\<close>

definition authorized_check :: "AuthorizedRequest \<Rightarrow> CapabilityCheck" where
  "authorized_check a =
     (let c = CapabilityCheck_new (ar_profile a) (ar_groups a) (ar_principal a)
      in case ar_device_scope a of Some sc \<Rightarrow> with_device_scope c sc | None \<Rightarrow> c)"

definition require_shared_env_write ::
  "AuthorizedRequest \<Rightarrow> (PermissionError, AuthorizedRequest) result" where
  "require_shared_env_write a = and_then (require (authorized_check a) ''env:write'') (\<lambda>_. Inr a)"

definition authorize_request ::
  "('k, 'r, 'a) RouterEnv \<Rightarrow> 'k \<Rightarrow> PrincipalId \<Rightarrow> string option \<Rightarrow> string
     \<Rightarrow> (PermissionError, AuthorizedRequest) result" where
  "authorize_request env k caller device_key_id required_cap =
     (case re_profile env k caller of
        None \<Rightarrow> Inl (MissingCapability caller required_cap)
      | Some profile \<Rightarrow>
          if \<not> enabled profile then Inl (PrincipalDisabled caller)
          else
            and_then (resolve_device profile caller device_key_id required_cap) (\<lambda>device.
            and_then
              (case device of
                 None \<Rightarrow> Inr None
               | Some d \<Rightarrow> (case validate_device_key_id (key_id d) of
                             Inl _ \<Rightarrow> Inl (DeviceScopeDenied caller required_cap)
                           | Inr _ \<Rightarrow> Inr (Some (key_id d)))) (\<lambda>kid.
            and_then
              (case device of
                 None \<Rightarrow> Inr None
               | Some d \<Rightarrow> (case re_pubkey_from_hex env (pubkey d) of
                             None \<Rightarrow> Inl (DeviceScopeDenied caller required_cap)
                           | Some pk \<Rightarrow> Inr (Some pk))) (\<lambda>pk.
              let a = \<lparr>ar_principal = caller, ar_profile = profile, ar_groups = re_groups env k,
                       ar_device_scope = map_option scope device, ar_device_key_id = kid,
                       ar_authenticated_public_key = pk\<rparr>
              in and_then (require (authorized_check a) required_cap) (\<lambda>_. Inr a)))))"

section \<open>Kernel requests\<close>

definition stages_secret :: "KernelRequest \<Rightarrow> bool" where
  "stages_secret req =
     (case req of InstallCapsule _ _ _ _ _ env _ _ \<Rightarrow> list_ex (\<lambda>v. ie_kind v = EnvSecret) env | _ \<Rightarrow> False)"

text \<open>
  The two checks of the preamble: the capability of the request and, for an install that stages
  secrets, the shared environment capability on the same authorization.
\<close>

definition checked_authorization ::
  "('k, 'r, 'a) RouterEnv \<Rightarrow> 'k \<Rightarrow> PrincipalId \<Rightarrow> string option \<Rightarrow> KernelRequest
     \<Rightarrow> string \<times> (PermissionError, AuthorizedRequest) result" where
  "checked_authorization env k caller kid req =
     (let required_cap = required_capability req (resolve_scope req caller)
      in case authorize_request env k caller kid required_cap of
           Inr a \<Rightarrow> if stages_secret req then (''env:write'', require_shared_env_write a)
                    else (required_cap, Inr a)
         | Inl e \<Rightarrow> (required_cap, Inl e))"

definition reserve_for_request ::
  "('k, 'r, 'a) RouterEnv \<Rightarrow> nat \<Rightarrow> PrincipalId \<Rightarrow> KernelRequest \<Rightarrow> InstallBatchRegistry
     \<Rightarrow> (InstallBatchError, InstallBatchReservation option) result \<times> InstallBatchRegistry" where
  "reserve_for_request env now caller req reg =
     (case req of
        InstallCapsule source _ target_principal provenance _ _ _ (Some context) \<Rightarrow>
          (case batch_reserve (re_batch env) now caller
                  (case target_principal of Some t \<Rightarrow> t | None \<Rightarrow> caller) context source provenance reg of
             (Inr member, reg') \<Rightarrow> (Inr (Some member), reg')
           | (Inl e, reg') \<Rightarrow> (Inl e, reg'))
      | _ \<Rightarrow> (Inr None, reg))"

definition perform_request ::
  "('k, 'r, 'a) RouterEnv \<Rightarrow> (nat \<Rightarrow> nat) \<Rightarrow> PrincipalId \<Rightarrow> AuthorizedRequest \<Rightarrow> InstallBatchReservation option
     \<Rightarrow> KernelRequest \<Rightarrow> ('k, 'r, 'a) RouterState \<Rightarrow> 'r Reply \<times> ('k, 'r, 'a) RouterState" where
  "perform_request env clock caller authorization held req s =
     (case req of
        BeginCapsuleInstallBatch target_principal members \<Rightarrow>
          let target = (case target_principal of Some t \<Rightarrow> t | None \<Rightarrow> caller)
          in if \<not> re_knows_uid env (rs_kernel s) target then (Refused (UnknownBatchTarget target), s)
             else (case batch_begin (re_batch env) (clock 2) (clock 3) (re_fresh_batch_id env) caller target
                          members (rs_batches s) of
                     (Inr lease, reg) \<Rightarrow>
                       (BatchStarted (bl_batch_id lease) (bl_expires_in_secs lease), s\<lparr>rs_batches := reg\<rparr>)
                   | (Inl e, reg) \<Rightarrow> (Refused (BatchRefused e), s\<lparr>rs_batches := reg\<rparr>))
      | InstallCapsule _ _ target_principal _ _ _ _ batch \<Rightarrow>
          let target = (case target_principal of Some t \<Rightarrow> t | None \<Rightarrow> caller)
          in (case held of
                Some (Completed member) \<Rightarrow>
                  (case re_installed_member env (rs_kernel s) target member of
                     Inr (Some (version, wasm_hash)) \<Rightarrow> (MemberResumed version wasm_hash, s)
                   | Inr None \<Rightarrow> (Refused (CompletedMemberChanged (bm_id member)), s)
                   | Inl e \<Rightarrow> (Refused (BatchRefused e), s))
              | _ \<Rightarrow>
                  (case re_install env authorization req (map_option reservation_member held) (rs_kernel s) of
                     (r, entries, k) \<Rightarrow>
                       (case (re_is_success env r, batch) of
                          (True, Some context) \<Rightarrow>
                            (case batch_complete context (rs_batches s) of
                               (Inl e, reg) \<Rightarrow>
                                 (Refused (BatchRefused e), (handler_effect entries k s)\<lparr>rs_batches := reg\<rparr>)
                             | (Inr _, reg) \<Rightarrow> (Handled r, (handler_effect entries k s)\<lparr>rs_batches := reg\<rparr>))
                        | _ \<Rightarrow> (Handled r, handler_effect entries k s))))
      | FinishCapsuleInstallBatch batch_id target_principal \<Rightarrow>
          let target = (case target_principal of Some t \<Rightarrow> t | None \<Rightarrow> caller)
          in (case batch_finish (clock 2) caller target batch_id
                     (\<lambda>t m. and_then (re_installed_member env (rs_kernel s) t m) (\<lambda>i. Inr (i \<noteq> None)))
                     (rs_batches s) of
                (Inr _, reg) \<Rightarrow> (BatchFinished, s\<lparr>rs_batches := reg\<rparr>)
              | (Inl e, reg) \<Rightarrow> (Refused (BatchRefused e), s\<lparr>rs_batches := reg\<rparr>))
      | _ \<Rightarrow>
          (case re_handle env authorization req (rs_kernel s) of
             (r, entries, k) \<Rightarrow> (Handled r, handler_effect entries k s)))"

definition handle_request ::
  "('k, 'r, 'a) RouterEnv \<Rightarrow> (nat \<Rightarrow> nat) \<Rightarrow> string \<Rightarrow> PrincipalId \<Rightarrow> string option \<Rightarrow> KernelRequest
     \<Rightarrow> ('k, 'r, 'a) RouterState \<Rightarrow> ('k, 'r, 'a) RouterState" where
  "handle_request env clock topic caller kid req s =
     (let answer = (\<lambda>reply. publish (response_topic_for topic) caller kid reply);
          row = (\<lambda>cap proof outcome.
            \<lparr>aa_caller = caller, aa_method = kernel_request_method req, aa_required_cap = cap,
             aa_device_key_id = kid, aa_target = request_target_principal req caller, aa_params = None,
             aa_authorization = proof, aa_outcome = outcome\<rparr>)
      in if \<not> re_admit env then answer (Refused ShuttingDown) s
         else case checked_authorization env (rs_kernel s) caller kid req of
           (cap, Inl e) \<Rightarrow>
             answer (Refused (Denied e))
               (record_admin_audit env (row cap (ProofDenied (Denied e)) (AuditFailure (Denied e))) s)
         | (cap, Inr authorization) \<Rightarrow>
             let proof = ProofSystem caller cap
             in case reserve_for_request env (clock 0) caller req (rs_batches s) of
                  (Inl e, reg) \<Rightarrow>
                    answer (Refused (BatchRefused e))
                      (record_admin_audit env (row cap proof (AuditFailure (BatchRefused e)))
                        (s\<lparr>rs_batches := reg\<rparr>))
                | (Inr held, reg) \<Rightarrow>
                    let s1 = s\<lparr>rs_batches := reg\<rparr>;
                        (rate_method, ordinary_limit) = limit_for (rs_limiter s1) req;
                        limit = (if held = None then ordinary_limit else None);
                        (admitted, limiter) =
                          (case limit of
                             None \<Rightarrow> (True, rs_limiter s1)
                           | Some mx \<Rightarrow> check_at caller rate_method mx (clock 1) (rs_limiter s1));
                        s2 = s1\<lparr>rs_limiter := limiter\<rparr>
                    in if \<not> admitted
                       then let reason = RateLimited (the limit) rate_method
                            in answer (Refused reason) (record_admin_audit env (row cap proof (AuditFailure reason)) s2)
                       else let s3 = (if omit_success_kernel_audit req then s2
                                      else record_admin_audit env (row cap proof AuditSuccess) s2);
                                (reply, s4) = perform_request env clock caller authorization held req s3
                            in answer reply s4)"

section \<open>Admin requests\<close>

text \<open>
  A handler's reply is an error when \<open>re_error\<close> gives its message; \<open>rejected_marks\<close> of the
  anchor handler, which reports the chains a mark rejected, is \<open>re_rejected_marks\<close>.
\<close>

definition skipped_row_failure :: "('k, 'r, 'a) RouterEnv \<Rightarrow> 'r \<Rightarrow> string option" where
  "skipped_row_failure env body =
     (case re_error env body of Some e \<Rightarrow> Some e | None \<Rightarrow> re_rejected_marks env body)"

definition redeem_audit_proof :: "('k, 'r, 'a) RouterEnv \<Rightarrow> 'r \<Rightarrow> AuthorizationProof \<times> AuditOutcome" where
  "redeem_audit_proof env body =
     (case re_error env body of
        Some reason \<Rightarrow> (ProofDenied (HandlerFailed reason), AuditFailure (HandlerFailed reason))
      | None \<Rightarrow> (ProofToken, AuditSuccess))"

record AdminAuthorizationContext =
  ac_caller :: PrincipalId
  ac_device_key_id :: "string option"
  ac_method :: string
  ac_required_cap :: string
  ac_target :: "PrincipalId option"
  ac_params :: "Json option"

definition context_row ::
  "AdminAuthorizationContext \<Rightarrow> AuthorizationProof \<Rightarrow> AuditOutcome \<Rightarrow> AdminAuditEntry" where
  "context_row c proof outcome =
     \<lparr>aa_caller = ac_caller c, aa_method = ac_method c, aa_required_cap = ac_required_cap c,
      aa_device_key_id = ac_device_key_id c, aa_target = ac_target c, aa_params = ac_params c,
      aa_authorization = proof, aa_outcome = outcome\<rparr>"

definition allowed_admin_authorization :: "AdminAuthorizationContext \<Rightarrow> AuthorizationProof" where
  "allowed_admin_authorization c = ProofSystem (ac_caller c) (ac_required_cap c)"

definition record_admin_authorization_failure ::
  "('k, 'r, 'a) RouterEnv \<Rightarrow> AdminAuthorizationContext \<Rightarrow> RouterError
     \<Rightarrow> ('k, 'r, 'a) RouterState \<Rightarrow> ('k, 'r, 'a) RouterState" where
  "record_admin_authorization_failure env c e s =
     record_admin_audit env (context_row c (ProofDenied e) (AuditFailure e)) s"

definition record_admin_request_failure ::
  "('k, 'r, 'a) RouterEnv \<Rightarrow> AdminAuthorizationContext \<Rightarrow> RouterError
     \<Rightarrow> ('k, 'r, 'a) RouterState \<Rightarrow> ('k, 'r, 'a) RouterState" where
  "record_admin_request_failure env c e s =
     record_admin_audit env (context_row c (allowed_admin_authorization c) (AuditFailure e)) s"

definition records_itself :: "AdminRequestKind \<Rightarrow> bool" where
  "records_itself req = (case req of QuotaSet _ _ \<Rightarrow> True | QuotaAssignUser _ _ \<Rightarrow> True | _ \<Rightarrow> False)"

definition authorize_admin_request ::
  "('k, 'r, 'a) RouterEnv \<Rightarrow> AdminAuthorizationContext \<Rightarrow> AdminRequestKind \<Rightarrow> ('k, 'r, 'a) RouterState
     \<Rightarrow> (RouterError, AuthorizedRequest) result \<times> ('k, 'r, 'a) RouterState" where
  "authorize_admin_request env c req s =
     (case authorize_request env (rs_kernel s) (ac_caller c) (ac_device_key_id c) (ac_required_cap c) of
        Inl e \<Rightarrow> (Inl (Denied e), record_admin_authorization_failure env c (Denied e) s)
      | Inr authorization \<Rightarrow>
          (case (case req of
                   PairDeviceIssue expires_secs _ requested \<Rightarrow>
                     preflight_pair_device_issue authorization expires_secs requested
                 | _ \<Rightarrow> Inr ()) of
             Inl (PreBadInput e) \<Rightarrow>
               (Inl (PairRefused (PreBadInput e)),
                record_admin_request_failure env c (PairRefused (PreBadInput e)) s)
           | Inl (PreUnauthorized e) \<Rightarrow>
               (Inl (PairRefused (PreUnauthorized e)),
                record_admin_authorization_failure env c (PairRefused (PreUnauthorized e)) s)
           | Inr _ \<Rightarrow>
               if omit_success_admin_audit req \<or> records_itself req then (Inr authorization, s)
               else (Inr authorization,
                     record_admin_audit env (context_row c (allowed_admin_authorization c) AuditSuccess) s)))"

definition is_redeem :: "AdminRequestKind \<Rightarrow> bool" where
  "is_redeem req = (case req of InviteRedeem _ _ _ \<Rightarrow> True | PairDeviceRedeem _ _ \<Rightarrow> True | _ \<Rightarrow> False)"

definition admin_context ::
  "('k, 'r, 'a) RouterEnv \<Rightarrow> PrincipalId \<Rightarrow> string option \<Rightarrow> AdminRequestKind \<Rightarrow> AdminAuthorizationContext" where
  "admin_context env caller kid req =
     \<lparr>ac_caller = caller, ac_device_key_id = kid, ac_method = admin_request_method req,
      ac_required_cap = required_capability_for_admin_request req (resolve_admin_scope req caller),
      ac_target = admin_target_principal req,
      ac_params = sanitize_admin_audit_params (re_encoding env) req\<rparr>"

definition handle_redeem_admin_request ::
  "('k, 'r, 'a) RouterEnv \<Rightarrow> string \<Rightarrow> PrincipalId \<Rightarrow> string option \<Rightarrow> AdminRequestKind
     \<Rightarrow> ('k, 'r, 'a) RouterState \<Rightarrow> ('k, 'r, 'a) RouterState" where
  "handle_redeem_admin_request env response_topic caller kid req s =
     (let (body, entries, k) = re_redeem env caller req (rs_kernel s);
          (proof, outcome) = redeem_audit_proof env body
      in publish response_topic caller kid (Handled body)
           (record_admin_audit env
              (context_row ((admin_context env caller kid req)\<lparr>ac_target := None\<rparr>) proof outcome)
              (handler_effect entries k s)))"

definition handle_admin_request ::
  "('k, 'r, 'a) RouterEnv \<Rightarrow> string \<Rightarrow> PrincipalId \<Rightarrow> string option \<Rightarrow> AdminRequestKind
     \<Rightarrow> ('k, 'r, 'a) RouterState \<Rightarrow> ('k, 'r, 'a) RouterState" where
  "handle_admin_request env topic caller kid req s =
     (let answer = (\<lambda>reply. publish (admin_response_topic topic) caller kid reply);
          c = admin_context env caller kid req
      in if \<not> re_admit env then answer (Refused ShuttingDown) s
         else if is_redeem req
           then handle_redeem_admin_request env (admin_response_topic topic) caller kid req s
         else case authorize_admin_request env c req s of
                (Inl e, s1) \<Rightarrow> answer (Refused e) s1
              | (Inr authorization, s1) \<Rightarrow>
                  let (body, entries, k) = re_dispatch env authorization req (rs_kernel s1);
                      s2 = handler_effect entries k s1;
                      s3 = (if omit_success_admin_audit req
                            then case skipped_row_failure env body of
                                   Some e \<Rightarrow> record_admin_request_failure env c (HandlerFailed e) s2
                                 | None \<Rightarrow> s2
                            else s2)
                  in answer (Handled body) s3)"

definition reject_admin_request_without_caller ::
  "('k, 'r, 'a) RouterEnv \<Rightarrow> string \<Rightarrow> string option \<Rightarrow> AdminRequestKind \<Rightarrow> CallerResolutionError
     \<Rightarrow> ('k, 'r, 'a) RouterState \<Rightarrow> ('k, 'r, 'a) RouterState" where
  "reject_admin_request_without_caller env topic kid req e s =
     (let answer = (\<lambda>reply. publish (admin_response_topic topic) anonymous kid reply)
      in if \<not> re_admit env then answer (Refused ShuttingDown) s
         else answer (Refused (CallerRequired e))
                (record_admin_audit env
                   (context_row (admin_context env anonymous kid req)
                      (ProofDenied (CallerRequired e)) (AuditFailure (CallerRequired e))) s))"

text \<open>
  What the dispatcher loop does with an admin message whose payload parsed as an admin request (the
  agent-derivation messages, which the loop hands to \<open>agent_derive\<close> before, are not modelled).
\<close>

definition route_admin_message ::
  "('k, 'r, 'a) RouterEnv \<Rightarrow> string \<Rightarrow> string option \<Rightarrow> string option \<Rightarrow> AdminRequestKind
     \<Rightarrow> ('k, 'r, 'a) RouterState \<Rightarrow> ('k, 'r, 'a) RouterState" where
  "route_admin_message env topic message_principal kid req s =
     (if starts_with ''astrid.v1.admin.response.'' topic then s
      else case resolve_caller message_principal of
             Inl e \<Rightarrow> reject_admin_request_without_caller env topic kid req e s
           | Inr caller \<Rightarrow> handle_admin_request env topic caller kid req s)"

section \<open>What an authorization means\<close>

text \<open>The device scope a request runs under: none without a device, else that of the named key.\<close>

definition device_floor :: "PrincipalProfile \<Rightarrow> string option \<Rightarrow> DeviceScope option \<Rightarrow> bool" where
  "device_floor profile kid sc =
     (case kid of
        None \<Rightarrow> sc = None
      | Some i \<Rightarrow> \<exists>d \<in> set (public_keys (auth profile)). key_id d = i \<and> sc = Some (scope d))"

text \<open>The caller is enabled and its profile, groups and device confer the capability.\<close>

definition entitled ::
  "('k, 'r, 'a) RouterEnv \<Rightarrow> 'k \<Rightarrow> PrincipalId \<Rightarrow> string option \<Rightarrow> string \<Rightarrow> bool" where
  "entitled env k caller kid cap \<longleftrightarrow>
     (\<exists>profile sc. re_profile env k caller = Some profile \<and> enabled profile
        \<and> device_floor profile kid sc \<and> authority profile (re_groups env k) sc cap)"

lemma has_authorized_check:
  assumes "config_wf (ar_groups a)"
  shows "has (authorized_check a) cap = authority (ar_profile a) (ar_groups a) (ar_device_scope a) cap"
  by (cases "ar_device_scope a")
     (simp_all add: authorized_check_def has_authority [OF assms] has_authority_device [OF assms])

lemma resolve_device_floor:
  assumes "resolve_device profile caller kid cap = Inr device"
  shows "device_floor profile kid (map_option scope device)"
proof (cases kid)
  case None
  with assms show ?thesis by (simp add: resolve_device_def device_floor_def)
next
  case (Some i)
  show ?thesis
  proof (cases "device_by_typed_key_id (auth profile) i")
    case None
    with assms Some show ?thesis by (simp add: resolve_device_def split: sum.splits)
  next
    case (Some d)
    with assms \<open>kid = Some i\<close> have "device = Some d" by (simp add: resolve_device_def split: sum.splits)
    then show ?thesis
      using find_Some_iff [of "\<lambda>k. key_id k = i" "public_keys (auth profile)" d] Some \<open>kid = Some i\<close>
      by (auto simp: device_floor_def device_by_typed_key_id_def)
  qed
qed

lemma authorize_request_Inr:
  assumes "authorize_request env k caller kid cap = Inr a"
  shows "re_profile env k caller = Some (ar_profile a) \<and> enabled (ar_profile a)
    \<and> ar_principal a = caller \<and> ar_groups a = re_groups env k
    \<and> device_floor (ar_profile a) kid (ar_device_scope a) \<and> has (authorized_check a) cap"
proof (cases "re_profile env k caller")
  case (Some profile)
  then have en: "enabled profile" using assms by (simp add: authorize_request_def split: if_splits)
  with assms Some obtain device where d: "resolve_device profile caller kid cap = Inr device"
    by (auto simp: authorize_request_def result_simps)
  then show ?thesis
    using assms Some en resolve_device_floor [OF d]
    by (auto simp: authorize_request_def result_simps require_iff_has Let_def)
qed (use assms in \<open>simp add: authorize_request_def\<close>)

lemma authorize_request_entitled:
  assumes "config_wf (re_groups env k)" and "authorize_request env k caller kid cap = Inr a"
  shows "entitled env k caller kid cap"
  using authorize_request_Inr [OF assms(2)] has_authorized_check [of a cap] assms(1)
  unfolding entitled_def by metis

lemma checked_authorization_entitled:
  assumes wf: "config_wf (re_groups env k)" and "checked_authorization env k caller kid req = (cap, Inr a)"
  shows "entitled env k caller kid (required_capability req (resolve_scope req caller))
    \<and> (stages_secret req \<longrightarrow> entitled env k caller kid ''env:write'')"
proof -
  let ?cap = "required_capability req (resolve_scope req caller)"
  have a: "authorize_request env k caller kid ?cap = Inr a"
    and env: "stages_secret req \<Longrightarrow> has (authorized_check a) ''env:write''"
    using assms(2)
    by (auto simp: checked_authorization_def Let_def require_shared_env_write_def result_simps require_iff_has
        split: sum.splits if_splits)
  then show ?thesis
    using authorize_request_entitled [OF wf a] authorize_request_Inr [OF a] has_authorized_check [of a "''env:write''"] wf
    unfolding entitled_def by metis
qed

section \<open>Nothing happens without authority\<close>

lemma record_admin_audit_simps [simp]:
  "rs_kernel (record_admin_audit env e s) = rs_kernel s"
  "rs_limiter (record_admin_audit env e s) = rs_limiter s"
  "rs_batches (record_admin_audit env e s) = rs_batches s"
  "rs_replies (record_admin_audit env e s) = rs_replies s"
  by (simp_all add: record_admin_audit_def)

lemma handler_effect_simps [simp]:
  "rs_kernel (handler_effect es k s) = k" "rs_limiter (handler_effect es k s) = rs_limiter s"
  "rs_batches (handler_effect es k s) = rs_batches s" "rs_replies (handler_effect es k s) = rs_replies s"
  by (simp_all add: handler_effect_def)

lemma publish_simps [simp]:
  "rs_kernel (publish t c i r s) = rs_kernel s" "rs_limiter (publish t c i r s) = rs_limiter s"
  "rs_batches (publish t c i r s) = rs_batches s" "rs_audit (publish t c i r s) = rs_audit s"
  "rs_replies (publish t c i r s) = rs_replies s @ [(t, c, i, r)]"
  by (simp_all add: publish_def)

lemma handle_request_denied:
  assumes "\<not> re_admit env \<or> checked_authorization env (rs_kernel s) caller kid req = (cap, Inl e)"
  shows "rs_kernel (handle_request env clock topic caller kid req s) = rs_kernel s"
    and "rs_limiter (handle_request env clock topic caller kid req s) = rs_limiter s"
    and "rs_batches (handle_request env clock topic caller kid req s) = rs_batches s"
  using assms by (auto simp: handle_request_def Let_def)

text \<open>
  C1.  No kernel request takes effect without authority.  If handling a request changes the kernel
  state, the rate limiter or the batch registry, then the caller has an enabled profile whose grants,
  groups and authenticating device confer exactly the capability the tables demand for that request
  and scope, and, when the request stages secrets, the shared environment capability as well.
\<close>

theorem kernel_request_needs_authority:
  assumes "config_wf (re_groups env (rs_kernel s))"
    and "s' = handle_request env clock topic caller kid req s"
    and "rs_kernel s' \<noteq> rs_kernel s \<or> rs_batches s' \<noteq> rs_batches s \<or> rs_limiter s' \<noteq> rs_limiter s"
  shows "entitled env (rs_kernel s) caller kid (required_capability req (resolve_scope req caller))
    \<and> (stages_secret req \<longrightarrow> entitled env (rs_kernel s) caller kid ''env:write'')"
proof -
  obtain cap r where c: "checked_authorization env (rs_kernel s) caller kid req = (cap, r)" by fastforce
  show ?thesis
  proof (cases r)
    case (Inl e)
    then show ?thesis using handle_request_denied [of env s caller kid req cap e clock topic] c assms(2,3) by simp
  next
    case (Inr a)
    then show ?thesis using checked_authorization_entitled [OF assms(1)] c by simp
  qed
qed

lemma authorize_admin_request_kernel:
  "rs_kernel (snd (authorize_admin_request env c req s)) = rs_kernel s"
  by (auto simp: authorize_admin_request_def record_admin_authorization_failure_def record_admin_request_failure_def
      split: sum.splits AdminRequestKind.splits PairIssuePreflightError.splits)

lemma authorize_admin_request_Inr:
  "authorize_admin_request env c req s = (Inr a, s') \<Longrightarrow>
     authorize_request env (rs_kernel s) (ac_caller c) (ac_device_key_id c) (ac_required_cap c) = Inr a"
  by (auto simp: authorize_admin_request_def split: sum.splits PairIssuePreflightError.splits if_splits)

text \<open>
  C2.  No admin request other than a token redemption takes effect without authority: if handling it
  changes the kernel state, the caller has an enabled profile whose grants, groups and device confer
  the capability the admin table demands.
\<close>

theorem admin_request_needs_authority:
  assumes "config_wf (re_groups env (rs_kernel s))" and "\<not> is_redeem req"
    and "rs_kernel (handle_admin_request env topic caller kid req s) \<noteq> rs_kernel s"
  shows "entitled env (rs_kernel s) caller kid
           (required_capability_for_admin_request req (resolve_admin_scope req caller))"
proof -
  let ?c = "admin_context env caller kid req"
  obtain r s1 where a: "authorize_admin_request env ?c req s = (r, s1)" by fastforce
  then have s1: "rs_kernel s1 = rs_kernel s" using authorize_admin_request_kernel by (metis snd_conv)
  show ?thesis
  proof (cases r)
    case (Inl e)
    then have "rs_kernel (handle_admin_request env topic caller kid req s) = rs_kernel s"
      using a s1 assms(2) by (simp add: handle_admin_request_def Let_def)
    with assms(3) show ?thesis by contradiction
  next
    case (Inr au)
    then show ?thesis
      using authorize_request_entitled [OF assms(1)] authorize_admin_request_Inr [of env ?c req s au s1] a
      by (simp add: admin_context_def)
  qed
qed

section \<open>Confined principals\<close>

lemma confined_not_entitled:
  assumes "re_profile env k caller = Some profile" and "confined profile (re_groups env k)"
    and "\<not> confined_pattern cap"
  shows "\<not> entitled env k caller kid cap"
  using assms confined_authority by (auto simp: entitled_def)

lemma beyond_not_redeem: "reaches_beyond req caller \<Longrightarrow> \<not> is_redeem req"
  by (cases req) (auto simp: reaches_beyond_def is_redeem_def admin_target_principal_def)

lemma authorize_admin_request_Inl:
  assumes "authorize_request env (rs_kernel s) (ac_caller c) (ac_device_key_id c) (ac_required_cap c) = Inl e"
  shows "authorize_admin_request env c req s = (Inl (Denied e), record_admin_authorization_failure env c (Denied e) s)"
  using assms by (simp add: authorize_admin_request_def)

text \<open>
  C3.  A confined principal (every grant and every group pattern of it starts with \<open>self\<close> or
  \<open>delegate\<close>, as for members of the built-in agent group) cannot reach beyond itself: an admin
  request that names another principal, writes the shared environment, mounts a foreign view or edits
  state that belongs to no principal is refused with a permission error, whatever device it comes
  from, and the kernel state is untouched.
\<close>

theorem confined_principal_stays_home:
  assumes "re_admit env" and "config_wf (re_groups env (rs_kernel s))"
    and "re_profile env (rs_kernel s) caller = Some profile"
    and "confined profile (re_groups env (rs_kernel s))" and "reaches_beyond req caller"
  shows "\<exists>e. rs_kernel (handle_admin_request env topic caller kid req s) = rs_kernel s
     \<and> rs_replies (handle_admin_request env topic caller kid req s)
         = rs_replies s @ [(admin_response_topic topic, caller, kid, Refused (Denied e))]"
proof -
  let ?c = "admin_context env caller kid req"
  have "\<not> entitled env (rs_kernel s) caller kid (ac_required_cap ?c)"
    using confined_not_entitled [OF assms(3,4) beyond_open [OF assms(5)]] by (simp add: admin_context_def)
  then have "authorize_request env (rs_kernel s) caller kid (ac_required_cap ?c) \<noteq> Inr a" for a
    using authorize_request_entitled [OF assms(2)] by blast
  then obtain e where "authorize_request env (rs_kernel s) caller kid (ac_required_cap ?c) = Inl e"
    by (metis sum.exhaust)
  then have "authorize_admin_request env ?c req s = (Inl (Denied e), record_admin_authorization_failure env ?c (Denied e) s)"
    by (intro authorize_admin_request_Inl) (simp add: admin_context_def)
  then show ?thesis
    using assms(1) beyond_not_redeem [OF assms(5)]
    by (simp add: handle_admin_request_def Let_def record_admin_authorization_failure_def)
qed

section \<open>The audit trail\<close>

lemma authorize_admin_request_rows:
  assumes "\<forall>e. re_persists env e" and "\<not> omit_success_admin_audit req" and "\<not> records_itself req"
    and "authorize_admin_request env c req s = (r, s1)"
  shows "\<exists>pf. rs_audit s1 = rs_audit s @
        [RouterRow (context_row c pf (case r of Inl e \<Rightarrow> AuditFailure e | Inr _ \<Rightarrow> AuditSuccess))]
     \<and> rs_replies s1 = rs_replies s"
proof (cases "authorize_request env (rs_kernel s) (ac_caller c) (ac_device_key_id c) (ac_required_cap c)")
  case (Inl e)
  then show ?thesis
    using assms by (auto simp: authorize_admin_request_def record_admin_authorization_failure_def record_admin_audit_def)
next
  case (Inr a)
  define pre where "pre = (case req of
      PairDeviceIssue expires_secs _ requested \<Rightarrow> preflight_pair_device_issue a expires_secs requested | _ \<Rightarrow> Inr ())"
  show ?thesis
  proof (cases pre)
    case (Inr u)
    then show ?thesis
      using assms \<open>authorize_request _ _ _ _ _ = Inr a\<close>
      by (auto simp: authorize_admin_request_def pre_def [symmetric] record_admin_audit_def)
  next
    case (Inl e)
    then show ?thesis
      using assms \<open>authorize_request _ _ _ _ _ = Inr a\<close>
      by (cases e) (auto simp: authorize_admin_request_def pre_def [symmetric] record_admin_request_failure_def
          record_admin_authorization_failure_def record_admin_audit_def)
  qed
qed

text \<open>
  C35.  Every admin request is audited.  Take an admitted admin request other than the quota changes, which
  record themselves, and the three anchoring reads, whose success is not recorded, in a kernel that can
  persist its audit rows.  The router appends exactly one row for it, made out to its caller, with its method,
  the capability demanded and the redacted parameters, and answers exactly once.  A refusal is the failure
  that the row records, and nothing else reaches the log.  Otherwise the row records success before the
  handler runs, and the handler's own entries follow it; for a redemption, which has no authority to check,
  the row follows the handler's entries and records whether the handler failed.
\<close>

theorem admin_requests_audited:
  assumes "re_admit env" and "\<forall>e. re_persists env e"
    and "\<not> omit_success_admin_audit req" and "\<not> records_itself req"
  shows "\<exists>row reply before after.
     rs_audit (handle_admin_request env topic caller kid req s)
         = rs_audit s @ map HandlerEntry before @ [RouterRow row] @ map HandlerEntry after
     \<and> rs_replies (handle_admin_request env topic caller kid req s)
         = rs_replies s @ [(admin_response_topic topic, caller, kid, reply)]
     \<and> aa_caller row = caller \<and> aa_method row = admin_request_method req
     \<and> aa_required_cap row = required_capability_for_admin_request req (resolve_admin_scope req caller)
     \<and> aa_params row = sanitize_admin_audit_params (re_encoding env) req
     \<and> (case reply of
          Refused e \<Rightarrow> aa_outcome row = AuditFailure e \<and> before = [] \<and> after = []
        | Handled body \<Rightarrow>
            if is_redeem req
            then after = [] \<and> aa_outcome row = (case re_error env body of
                   Some reason \<Rightarrow> AuditFailure (HandlerFailed reason) | None \<Rightarrow> AuditSuccess)
            else before = [] \<and> aa_outcome row = AuditSuccess
        | _ \<Rightarrow> False)"
proof (cases "is_redeem req")
  case True
  obtain body entries k where h: "re_redeem env caller req (rs_kernel s) = (body, entries, k)" by (metis prod_cases3)
  obtain pf outcome where o: "redeem_audit_proof env body = (pf, outcome)" by fastforce
  let ?row = "context_row ((admin_context env caller kid req)\<lparr>ac_target := None\<rparr>) pf outcome"
  have "outcome = (case re_error env body of Some reason \<Rightarrow> AuditFailure (HandlerFailed reason) | None \<Rightarrow> AuditSuccess)"
    using o by (auto simp: redeem_audit_proof_def split: option.splits)
  then show ?thesis
    using assms(1,2) True h o
    by - (rule exI [of _ ?row], rule exI [of _ "Handled body"], rule exI [of _ entries], rule exI [of _ "[]"],
        simp add: handle_admin_request_def handle_redeem_admin_request_def Let_def record_admin_audit_def
          context_row_def admin_context_def handler_effect_def)
next
  case False
  let ?c = "admin_context env caller kid req"
  obtain r s1 where a: "authorize_admin_request env ?c req s = (r, s1)" by fastforce
  from authorize_admin_request_rows [OF assms(2,3,4) a] obtain pf where
    rows: "rs_audit s1 = rs_audit s @ [RouterRow (context_row ?c pf (case r of Inl e \<Rightarrow> AuditFailure e | Inr _ \<Rightarrow> AuditSuccess))]"
      "rs_replies s1 = rs_replies s" by blast
  let ?row = "context_row ?c pf (case r of Inl e \<Rightarrow> AuditFailure e | Inr _ \<Rightarrow> AuditSuccess)"
  show ?thesis
  proof (cases r)
    case (Inl e)
    then show ?thesis
      using assms(1) False rows a
      by (intro exI [of _ ?row] exI [of _ "Refused e"] exI [of _ "[]"])
         (simp add: handle_admin_request_def Let_def context_row_def admin_context_def)
  next
    case (Inr au)
    obtain body entries k where h: "re_dispatch env au req (rs_kernel s1) = (body, entries, k)" by (metis prod_cases3)
    show ?thesis
      using assms(1,3) False rows a Inr h
      by - (rule exI [of _ ?row], rule exI [of _ "Handled body"], rule exI [of _ "[]"], rule exI [of _ entries],
          simp add: handle_admin_request_def Let_def context_row_def admin_context_def handler_effect_def)
  qed
qed

section \<open>A concrete router\<close>

text \<open>The kernel state is the number of requests handled.\<close>

definition demo_router_env :: "(nat, string, string) RouterEnv" where
  "demo_router_env =
     \<lparr>re_admit = True, re_profile = (\<lambda>_ _. Some agent_profile), re_groups = (\<lambda>_. builtin_only),
      re_pubkey_from_hex = (\<lambda>_. Some []), re_persists = (\<lambda>_. True), re_batch = demo_batch_env,
      re_fresh_batch_id = ''b'', re_knows_uid = (\<lambda>_ _. True), re_installed_member = (\<lambda>_ _ _. Inr None),
      re_handle = (\<lambda>_ _ k. (''ok'', [], Suc k)), re_install = (\<lambda>_ _ _ k. (''ok'', [], Suc k)),
      re_is_success = (\<lambda>_. True), re_encoding = demo_encoding, re_dispatch = (\<lambda>_ _ k. (''ok'', [''grant''], Suc k)),
      re_redeem = (\<lambda>_ _ k. (''ok'', [''grant''], Suc k)), re_error = (\<lambda>_. None), re_rejected_marks = (\<lambda>_. None)\<rparr>"

definition demo_router_state :: "(nat, string, string) RouterState" where
  "demo_router_state =
     \<lparr>rs_kernel = 0,
      rs_limiter = with_limits 0 \<lparr>elicitation_per_server_per_min = 10, max_pending_requests = 50,
                                  capsule_reload_per_min = 14\<rparr>,
      rs_batches = InstallBatchRegistry_default, rs_audit = [], rs_replies = []\<rparr>"

lemma demo_groups_wf: "config_wf (re_groups demo_router_env k)"
  by (simp add: demo_router_env_def config_wf_builtin_only)

lemma demo_authorized:
  assumes "has (CapabilityCheck_new agent_profile builtin_only caller) cap"
  shows "\<exists>a. authorize_request demo_router_env k caller None cap = Inr a"
proof -
  have "require (CapabilityCheck_new agent_profile builtin_only caller) cap = Inr ()"
    using assms by (simp add: require_iff_has)
  then show ?thesis
    by (simp add: authorize_request_def demo_router_env_def resolve_device_def authorized_check_def agent_profile_def
        PrincipalProfile_default_def)
qed

theorem kernel_request_needs_authority_witness:
  "entitled demo_router_env 0 default_principal None ''self:capsule:list''"
proof -
  have "has (CapabilityCheck_new agent_profile builtin_only default_principal) ''self:capsule:list''" by code_simp
  from demo_authorized [OF this] obtain a where
    "authorize_request demo_router_env 0 default_principal None ''self:capsule:list'' = Inr a" by blast
  then have "rs_kernel (handle_request demo_router_env id ''astrid.v1.request.x'' default_principal None ListCapsules
      demo_router_state) = 1"
    by (simp add: handle_request_def Let_def checked_authorization_def required_capability_def resolve_scope_def
        stages_secret_def reserve_for_request_def limit_for_def rate_limit_max_def perform_request_def
        demo_router_state_def omit_success_kernel_audit_def) (simp add: demo_router_env_def)
  then show ?thesis
    using kernel_request_needs_authority [OF demo_groups_wf refl, where s = demo_router_state and clock = id
        and topic = "''astrid.v1.request.x''" and caller = default_principal and kid = None and req = ListCapsules]
    by (simp add: demo_router_state_def required_capability_def resolve_scope_def)
qed

theorem admin_request_needs_authority_witness:
  "entitled demo_router_env 0 default_principal None ''self:group:list''"
proof -
  have "has (CapabilityCheck_new agent_profile builtin_only default_principal) ''self:group:list''" by code_simp
  from demo_authorized [OF this] obtain a where
    "authorize_request demo_router_env 0 default_principal None ''self:group:list'' = Inr a" by blast
  then have "rs_kernel (handle_admin_request demo_router_env ''astrid.v1.admin.x'' default_principal None GroupList
      demo_router_state) = 1"
    by (simp add: handle_admin_request_def Let_def is_redeem_def admin_context_def resolve_admin_scope_def
        required_capability_for_admin_request_def authorize_admin_request_def demo_router_state_def
        omit_success_admin_audit_def records_itself_def) (simp add: demo_router_env_def)
  then show ?thesis
    using admin_request_needs_authority [OF demo_groups_wf, of GroupList "''astrid.v1.admin.x''" default_principal
        None demo_router_state]
    by (simp add: demo_router_state_def is_redeem_def required_capability_for_admin_request_def
        resolve_admin_scope_def)
qed

theorem confined_principal_stays_home_witness:
  "\<exists>e. rs_replies (handle_admin_request demo_router_env ''astrid.v1.admin.x'' default_principal None
          (EnvSet default_principal ''c'' ''k'' ''v'' EnvSecret EnvShared False) demo_router_state)
      = [(''astrid.v1.admin.response.x'', default_principal, None, Refused (Denied e))]"
proof -
  have "admin_response_topic ''astrid.v1.admin.x'' = ''astrid.v1.admin.response.x''"
    by (simp add: admin_response_topic_def ADMIN_TOPIC_PREFIX_def)
  moreover have "confined agent_profile builtin_only" by code_simp
  ultimately show ?thesis
    using confined_principal_stays_home [of demo_router_env demo_router_state default_principal agent_profile
        "EnvSet default_principal ''c'' ''k'' ''v'' EnvSecret EnvShared False" "''astrid.v1.admin.x''" None]
    by (simp add: demo_router_env_def demo_router_state_def config_wf_builtin_only reaches_beyond_def)
qed

theorem admin_requests_audited_witness:
  "\<exists>row e. rs_audit (handle_admin_request demo_router_env ''astrid.v1.admin.x'' default_principal None
          (AgentDelete default_principal) demo_router_state) = [RouterRow row]
     \<and> aa_method row = ''admin.agent.delete'' \<and> aa_required_cap row = ''agent:delete'' \<and> aa_outcome row = AuditFailure e"
proof -
  let ?req = "AgentDelete default_principal" and ?topic = "''astrid.v1.admin.x''"
  have d: "re_admit demo_router_env" "\<forall>e. re_persists demo_router_env e" "rs_audit demo_router_state = []"
      "rs_replies demo_router_state = []"
    by (simp_all add: demo_router_env_def demo_router_state_def)
  have r: "\<not> omit_success_admin_audit ?req" "\<not> records_itself ?req"
    by (simp_all add: omit_success_admin_audit_def records_itself_def)
  have "\<not> has (CapabilityCheck_new agent_profile builtin_only default_principal) ''agent:delete''" by code_simp
  then have "authorize_request demo_router_env (rs_kernel demo_router_state) default_principal None ''agent:delete'' \<noteq> Inr a" for a
    using authorize_request_Inr [of demo_router_env "rs_kernel demo_router_state" default_principal None "''agent:delete''" a]
    by (auto simp: demo_router_env_def device_floor_def authorized_check_def)
  then obtain e where e: "authorize_request demo_router_env (rs_kernel demo_router_state) default_principal None ''agent:delete'' = Inl e"
    by (metis sum.exhaust)
  let ?c = "admin_context demo_router_env default_principal None ?req"
  have "ac_required_cap ?c = ''agent:delete''"
    by (simp add: admin_context_def required_capability_for_admin_request_def)
  then have "authorize_admin_request demo_router_env ?c ?req demo_router_state
      = (Inl (Denied e), record_admin_authorization_failure demo_router_env ?c (Denied e) demo_router_state)"
    by (intro authorize_admin_request_Inl) (simp add: e, simp add: admin_context_def e)
  then have "rs_replies (handle_admin_request demo_router_env ?topic default_principal None ?req demo_router_state)
      = [(admin_response_topic ?topic, default_principal, None, Refused (Denied e))]"
    using d by (simp add: handle_admin_request_def Let_def is_redeem_def record_admin_authorization_failure_def)
  then show ?thesis
    using admin_requests_audited [OF d(1,2) r, of ?topic default_principal None demo_router_state] d(3,4)
    by (auto simp: admin_request_method_def required_capability_for_admin_request_def)
qed

end
