(* ===== verification/Toposort.thy ===== *)
theory Toposort
  imports Hash_Map "HOL-Library.Multiset"
begin

text \<open>
  The load order of capsules: \<open>crates/astrid-capsule/src/toposort.rs\<close>, with the import and export
  iterators of \<open>crates/astrid-capsule-types/src/manifest/mod.rs\<close>.  Kahn's algorithm over the
  import/export edges either orders the manifests or reports the capsules it could not place.

  Versions and version requirements are their text; whether a requirement matches a version
  (the \<open>semver\<close> package) is the parameter \<open>matches\<close>.  A decrement below zero or an access out of
  range, which would panic, is \<open>None\<close>; the theorems show it cannot happen.
\<close>

section \<open>Manifests and edges\<close>

record ImportDef =
  imp_version :: string
  imp_optional :: bool

record ExportDef =
  exp_version :: string

record CapsuleManifest =
  cm_name :: string
  cm_imports :: "(string, (string, ImportDef) hash_map) hash_map"
  cm_exports :: "(string, (string, ExportDef) hash_map) hash_map"

type_synonym ManifestEntry = "CapsuleManifest \<times> string"

definition export_triples :: "CapsuleManifest \<Rightarrow> (string \<times> string \<times> string) list" where
  "export_triples m = concat (map (\<lambda>(ns, ifaces). map (\<lambda>(n, d). (ns, n, exp_version d)) ifaces) (cm_exports m))"

definition import_tuples :: "CapsuleManifest \<Rightarrow> (string \<times> string \<times> string \<times> bool) list" where
  "import_tuples m =
     concat (map (\<lambda>(ns, ifaces). map (\<lambda>(n, d). (ns, n, imp_version d, imp_optional d)) ifaces) (cm_imports m))"

definition import_satisfied_by ::
  "(string \<Rightarrow> string \<Rightarrow> bool) \<Rightarrow> string \<Rightarrow> string \<Rightarrow> string \<Rightarrow> string \<Rightarrow> string \<Rightarrow> string \<Rightarrow> bool" where
  "import_satisfied_by matches import_ns import_name import_req export_ns export_name export_ver \<longleftrightarrow>
     import_ns = export_ns \<and> import_name = export_name \<and> matches import_req export_ver"

definition provides :: "(string \<Rightarrow> string \<Rightarrow> bool) \<Rightarrow> string \<times> string \<times> string \<times> bool \<Rightarrow> CapsuleManifest \<Rightarrow> bool" where
  "provides matches imp m =
     (case imp of (imp_ns, imp_name, imp_req, _) \<Rightarrow>
        list_ex (\<lambda>(ns, name, ver). import_satisfied_by matches imp_ns imp_name imp_req ns name ver)
          (export_triples m))"

text \<open>The edges in the order the three nested loops push them: provider first, importer second.\<close>

definition edge_list :: "(string \<Rightarrow> string \<Rightarrow> bool) \<Rightarrow> ManifestEntry list \<Rightarrow> (nat \<times> nat) list" where
  "edge_list matches manifests =
     concat (map (\<lambda>(idx, manifest, _).
       concat (map (\<lambda>imp.
         map (\<lambda>(prov_idx, _). (prov_idx, idx))
           (filter (\<lambda>(prov_idx, m, _). prov_idx \<noteq> idx \<and> provides matches imp m) (enumerate 0 manifests)))
         (import_tuples manifest)))
       (enumerate 0 manifests))"

definition add_edge :: "nat \<times> nat \<Rightarrow> nat list list \<times> nat list \<Rightarrow> nat list list \<times> nat list" where
  "add_edge e st =
     (case (e, st) of ((prov_idx, idx), dependents, in_degree) \<Rightarrow>
        (dependents[prov_idx := dependents ! prov_idx @ [idx]], in_degree[idx := in_degree ! idx + 1]))"

section \<open>The breadth-first loop\<close>

fun release :: "nat list \<Rightarrow> nat list \<Rightarrow> nat list \<Rightarrow> (nat list \<times> nat list) option" where
  "release [] queue in_degree = Some (queue, in_degree)"
| "release (dependent # rest) queue in_degree =
     (if length in_degree \<le> dependent \<or> in_degree ! dependent = 0 then None
      else let in_degree' = in_degree[dependent := in_degree ! dependent - 1]
           in release rest (if in_degree' ! dependent = 0 then queue @ [dependent] else queue) in_degree')"

lemma release_measure:
  "release ds q d = Some (q', d') \<Longrightarrow> length q' + sum_list d' \<le> length q + sum_list d"
proof (induction ds q d rule: release.induct)
  case (2 x ds q d)
  then have x: "x < length d" "d ! x \<noteq> 0" by (auto split: if_splits)
  have "sum_list (d[x := d ! x - 1]) + 1 = sum_list d"
    using x member_le_sum_list [of "d ! x" d] by (simp add: sum_list_update)
  with 2 x show ?case by (auto simp: Let_def split: if_splits)
qed simp

function kahn_loop :: "nat list list \<Rightarrow> nat list \<Rightarrow> nat list \<Rightarrow> nat list \<Rightarrow> (nat list \<times> nat list) option" where
  "kahn_loop dependents [] order in_degree = Some (order, in_degree)"
| "kahn_loop dependents (idx # queue) order in_degree =
     (if length dependents \<le> idx then None
      else case release (dependents ! idx) queue in_degree of
             None \<Rightarrow> None
           | Some (queue', in_degree') \<Rightarrow> kahn_loop dependents queue' (order @ [idx]) in_degree')"
  by pat_completeness auto
termination
  by (relation "measure (\<lambda>(_, q, _, d). length q + sum_list d)") (auto dest: release_measure)

definition toposort_manifests ::
  "(string \<Rightarrow> string \<Rightarrow> bool) \<Rightarrow> ManifestEntry list
     \<Rightarrow> (string list \<times> ManifestEntry list, ManifestEntry list) result option" where
  "toposort_manifests matches manifests =
     (if length manifests \<le> 1 then Some (Inr manifests)
      else
        let len = length manifests;
            (dependents, in_degree) = fold add_edge (edge_list matches manifests) (replicate len [], replicate len 0);
            queue = map fst (filter (\<lambda>(_, d). d = 0) (enumerate 0 in_degree))
        in case kahn_loop dependents queue [] in_degree of
             None \<Rightarrow> None
           | Some (order, remaining) \<Rightarrow>
               if length order \<noteq> len
               then Some (Inl (map (\<lambda>(i, _). cm_name (fst (manifests ! i)))
                                 (filter (\<lambda>(_, d). 0 < d) (enumerate 0 remaining)), manifests))
               else Some (Inr (map (\<lambda>i. manifests ! i) order)))"

section \<open>The tables built from the edges\<close>

definition edges_ok :: "nat \<Rightarrow> (nat \<times> nat) list \<Rightarrow> bool" where
  "edges_ok n E \<longleftrightarrow> (\<forall>(p, i) \<in> set E. p < n \<and> i < n \<and> p \<noteq> i)"

definition deps :: "(nat \<times> nat) list \<Rightarrow> nat \<Rightarrow> nat list" where
  "deps E p = map snd (filter (\<lambda>e. fst e = p) E)"

definition pending :: "(nat \<times> nat) list \<Rightarrow> nat set \<Rightarrow> nat \<Rightarrow> nat" where
  "pending E done i = length (filter (\<lambda>(p, j). j = i \<and> p \<notin> done) E)"

lemma edge_list_iff:
  "(p, i) \<in> set (edge_list matches ms) \<longleftrightarrow>
     p < length ms \<and> i < length ms \<and> p \<noteq> i \<and>
     (\<exists>imp \<in> set (import_tuples (fst (ms ! i))). provides matches imp (fst (ms ! p)))"
  by (auto simp: edge_list_def in_set_enumerate_eq split_def image_iff intro!: bexI [of _ "(i, ms ! i)"])

text \<open>The specification of the order: which manifest has to load before which.\<close>

definition load_before :: "(string \<Rightarrow> string \<Rightarrow> bool) \<Rightarrow> ManifestEntry list \<Rightarrow> (nat \<times> nat) set" where
  "load_before matches ms =
     {(p, i). p < length ms \<and> i < length ms \<and> p \<noteq> i \<and>
        (\<exists>(ns, name, req, opt) \<in> set (import_tuples (fst (ms ! i))). \<exists>ver.
           (ns, name, ver) \<in> set (export_triples (fst (ms ! p))) \<and> matches req ver)}"

lemma edge_list_set: "set (edge_list matches ms) = load_before matches ms"
proof -
  have "provides matches imp m \<longleftrightarrow>
      (case imp of (ns, name, req, opt) \<Rightarrow> \<exists>ver. (ns, name, ver) \<in> set (export_triples m) \<and> matches req ver)" for imp m
    by (auto simp: provides_def import_satisfied_by_def list_ex_iff split: prod.splits)
  then show ?thesis by (auto simp: set_eq_iff edge_list_iff load_before_def)
qed

lemma edge_list_ok: "edges_ok (length ms) (edge_list matches ms)"
  using edge_list_iff by (auto simp: edges_ok_def)

lemma build_tables:
  assumes "edges_ok n E" and "length D = n" and "length d = n"
  shows "\<exists>D' d'. fold add_edge E (D, d) = (D', d') \<and> length D' = n \<and> length d' = n
     \<and> (\<forall>p < n. D' ! p = D ! p @ deps E p) \<and> (\<forall>i < n. d' ! i = d ! i + pending E {} i)"
  using assms
proof (induction E arbitrary: D d)
  case (Cons e E)
  obtain p i where e: "e = (p, i)" by (cases e)
  have ok: "edges_ok n E" and pi: "p < n" "i < n" using Cons.prems(1) by (auto simp: edges_ok_def e)
  from Cons.IH [OF ok, of "D[p := D ! p @ [i]]" "d[i := d ! i + 1]"] Cons.prems(2,3) pi
  show ?case by (auto simp: e add_edge_def deps_def pending_def nth_list_update)
qed (simp add: deps_def pending_def)

section \<open>The loop invariant\<close>

lemma release_spec:
  assumes "\<forall>x \<in> set ds. x < length d" and "\<forall>x. count_list ds x \<le> (if x < length d then d ! x else 0)"
  shows "\<exists>new d'. release ds q d = Some (q @ new, d') \<and> length d' = length d \<and> distinct new
     \<and> set new = {x \<in> set ds. d ! x = count_list ds x} \<and> (\<forall>x < length d. d' ! x = d ! x - count_list ds x)"
  using assms
proof (induction ds arbitrary: q d)
  case (Cons y ds)
  have y: "y < length d" "d ! y \<noteq> 0" using Cons.prems(1) Cons.prems(2)[rule_format, of y] by auto
  let ?d = "d[y := d ! y - 1]" and ?q = "if d ! y = 1 then q @ [y] else q"
  have "\<forall>x. count_list ds x \<le> (if x < length ?d then ?d ! x else 0)"
  proof
    fix x show "count_list ds x \<le> (if x < length ?d then ?d ! x else 0)"
      using Cons.prems(2)[rule_format, of x] y by (auto simp: nth_list_update split: if_splits)
  qed
  from Cons.IH [OF _ this, of ?q] Cons.prems(1) obtain new d' where
    r: "release ds ?q ?d = Some (?q @ new, d')" "length d' = length d" "distinct new"
      "set new = {x \<in> set ds. ?d ! x = count_list ds x}" "\<forall>x < length d. d' ! x = ?d ! x - count_list ds x"
    by auto
  let ?new = "if d ! y = 1 then y # new else new"
  have "release (y # ds) q d = Some (q @ ?new, d')"
    using y r(1) by (auto simp: Let_def nth_list_update)
  moreover have "distinct ?new \<and> set ?new = {x \<in> set (y # ds). d ! x = count_list (y # ds) x}"
  proof (cases "d ! y = 1")
    case True
    then have "count_list ds y = 0" using Cons.prems(2)[rule_format, of y] y by simp
    then have "y \<notin> set ds" by (simp add: count_list_0_iff)
    with True r y Cons.prems(1) show ?thesis by (auto simp: nth_list_update count_list_0_iff)
  next
    case False
    with r y Cons.prems(1) show ?thesis by (auto simp: nth_list_update count_list_0_iff split: if_splits)
  qed
  moreover have "\<forall>x < length d. d' ! x = d ! x - count_list (y # ds) x"
    using r(5) y by (auto simp: nth_list_update)
  ultimately show ?case using r(2) by blast
qed auto

definition kahn_inv :: "nat \<Rightarrow> (nat \<times> nat) list \<Rightarrow> nat list \<Rightarrow> nat list \<Rightarrow> nat list \<Rightarrow> bool" where
  "kahn_inv n E Q ord d \<longleftrightarrow> length d = n \<and> distinct (ord @ Q) \<and> set (ord @ Q) \<subseteq> {..<n}
     \<and> (\<forall>i < n. d ! i = pending E (set ord) i) \<and> (\<forall>i < n. i \<in> set (ord @ Q) \<longleftrightarrow> d ! i = 0)
     \<and> (\<forall>xs i ys. ord = xs @ i # ys \<longrightarrow> (\<forall>p. (p, i) \<in> set E \<longrightarrow> p \<in> set xs))"

lemma kahn_invD:
  assumes "kahn_inv n E Q ord d"
  shows "length d = n" and "distinct (ord @ Q)" and "set (ord @ Q) \<subseteq> {..<n}"
    and "i < n \<Longrightarrow> d ! i = pending E (set ord) i" and "i < n \<Longrightarrow> i \<in> set (ord @ Q) \<longleftrightarrow> d ! i = 0"
    and "ord = xs @ i # ys \<Longrightarrow> (p, i) \<in> set E \<Longrightarrow> p \<in> set xs"
  using assms unfolding kahn_inv_def by blast+

lemma pending_0_iff: "pending E S i = 0 \<longleftrightarrow> (\<forall>p. (p, i) \<in> set E \<longrightarrow> p \<in> S)"
  by (auto simp: pending_def filter_empty_conv)

lemma pending_insert:
  "idx \<notin> S \<Longrightarrow> pending E (insert idx S) i + count_list (deps E idx) i = pending E S i"
  by (induction E) (auto simp: pending_def deps_def)

lemma kahn_inv_step:
  assumes inv: "kahn_inv n E (idx # Q) ord d" and ok: "edges_ok n E"
  shows "\<exists>Q' d'. release (deps E idx) Q d = Some (Q', d') \<and> kahn_inv n E Q' (ord @ [idx]) d'"
proof -
  note I = kahn_invD [OF inv]
  have len: "length d = n" by (rule I(1))
  have idx: "idx < n" "idx \<notin> set ord" "idx \<notin> set Q" and dist: "distinct (ord @ Q)" and sub: "set (ord @ Q) \<subseteq> {..<n}"
    using I(2,3) by auto
  note d = I(4) and zero = I(5) and topo = I(6)
  have range: "\<forall>x \<in> set (deps E idx). x < n" using ok by (auto simp: edges_ok_def deps_def)
  have split: "pending E (insert idx (set ord)) i + count_list (deps E idx) i = pending E (set ord) i" for i
    by (rule pending_insert [OF idx(2)])
  have "\<forall>x. count_list (deps E idx) x \<le> (if x < length d then d ! x else 0)"
  proof
    fix x show "count_list (deps E idx) x \<le> (if x < length d then d ! x else 0)"
      using split [of x] d [of x] range len by (auto simp: count_list_0_iff)
  qed
  from release_spec [OF _ this, of Q] range len obtain new d' where
    rel: "release (deps E idx) Q d = Some (Q @ new, d')" and d': "length d' = n" "distinct new"
      "set new = {x \<in> set (deps E idx). d ! x = count_list (deps E idx) x}"
      "\<And>x. x < n \<Longrightarrow> d' ! x = d ! x - count_list (deps E idx) x"
    by auto
  have pend: "d' ! i = pending E (set (ord @ [idx])) i" if "i < n" for i
    using d'(4) [OF that] d [OF that] split [of i] by simp
  have new: "x \<in> set new \<longleftrightarrow> d ! x \<noteq> 0 \<and> d' ! x = 0" if "x < n" for x
  proof -
    have "x \<in> set new \<longleftrightarrow> count_list (deps E idx) x \<noteq> 0 \<and> d ! x = count_list (deps E idx) x"
      unfolding d'(3) by (auto simp: count_list_0_iff)
    with d'(4) [OF that] d [OF that] split [of x] show ?thesis by arith
  qed
  have new_lt: "set new \<subseteq> {..<n}" using d'(3) range by auto
  have pre: "p \<in> set ord" if "(p, idx) \<in> set E" for p
    using zero [OF idx(1)] d [OF idx(1)] that by (simp add: pending_0_iff)
  have "kahn_inv n E (Q @ new) (ord @ [idx]) d'"
    unfolding kahn_inv_def
  proof (intro conjI allI impI)
    show "distinct ((ord @ [idx]) @ Q @ new)"
    proof -
      have "x \<notin> set (ord @ idx # Q)" if "x \<in> set new" for x
        using that new new_lt zero by (metis lessThan_iff subsetD)
      then show ?thesis using dist idx d'(2) by auto
    qed
    show "set ((ord @ [idx]) @ Q @ new) \<subseteq> {..<n}" using sub idx new_lt by auto
    show "i \<in> set ((ord @ [idx]) @ Q @ new) \<longleftrightarrow> d' ! i = 0" if "i < n" for i
      using new [OF that] zero [OF that] d'(4) [OF that] by auto
    show "p \<in> set xs" if "ord @ [idx] = xs @ i # ys" "(p, i) \<in> set E" for xs i ys p
      using that topo pre by (cases ys rule: rev_cases) auto
  qed (use d'(1) pend in auto)
  with rel show ?thesis by blast
qed

lemma kahn_loop_inv:
  assumes ok: "edges_ok n E" and D: "length D = n" "\<forall>p < n. D ! p = deps E p"
  shows "kahn_inv n E Q ord d \<Longrightarrow> \<exists>ord' d'. kahn_loop D Q ord d = Some (ord', d') \<and> kahn_inv n E [] ord' d'"
  using D
proof (induction D Q ord d rule: kahn_loop.induct)
  case (2 D idx Q ord d)
  then have idx: "idx < n" by (auto simp: kahn_inv_def)
  from kahn_inv_step [OF 2(2) ok] obtain Q' d' where
    "release (deps E idx) Q d = Some (Q', d')" "kahn_inv n E Q' (ord @ [idx]) d'" by blast
  with 2 idx show ?case by auto
qed auto

section \<open>What the loop leaves behind\<close>

definition behind_cycle :: "(nat \<times> nat) set \<Rightarrow> nat \<Rightarrow> bool" where
  "behind_cycle R i \<longleftrightarrow> (\<exists>c. (c, c) \<in> R\<^sup>+ \<and> (c, i) \<in> R\<^sup>*)"

lemma placed_before:
  assumes "\<And>xs i ys p. ord = xs @ i # ys \<Longrightarrow> (p, i) \<in> R \<Longrightarrow> p \<in> set xs"
  shows "(p, i) \<in> R\<^sup>+ \<Longrightarrow> ord = xs @ i # ys \<Longrightarrow> p \<in> set xs"
proof (induction rule: converse_trancl_induct)
  case (step p q)
  then obtain xs1 xs2 where "xs = xs1 @ q # xs2" by (metis split_list)
  with step assms [of xs1 q "xs2 @ i # ys" p] show ?case by simp
qed (use assms in blast)

lemma stuck_behind_cycle:
  assumes fin: "finite R" and stuck: "\<And>i. i \<in> U \<Longrightarrow> \<exists>p \<in> U. (p, i) \<in> R" and i: "i \<in> U"
  shows "behind_cycle R i"
proof -
  let ?P = "{c \<in> U. (c, i) \<in> R\<^sup>*}"
  let ?S = "R \<inter> ?P \<times> ?P"
  have "\<not> wf ?S"
  proof
    assume "wf ?S"
    moreover have "i \<in> ?P" using i by simp
    ultimately obtain z where z: "z \<in> ?P" "\<And>y. (y, z) \<in> ?S \<Longrightarrow> y \<notin> ?P" by (rule wfE_min) blast
    obtain p where "p \<in> U" "(p, z) \<in> R" using stuck z(1) by blast
    moreover from this z(1) have "p \<in> ?P" by (auto intro: converse_rtrancl_into_rtrancl)
    ultimately show False using z by blast
  qed
  then have "\<not> acyclic ?S" using fin finite_acyclic_wf by blast
  then obtain c where c: "(c, c) \<in> ?S\<^sup>+" by (auto simp: acyclic_def)
  then have "(c, c) \<in> R\<^sup>+" by (rule trancl_mono) blast
  moreover have "c \<in> ?P" using c by (rule tranclE) blast+
  ultimately show ?thesis by (auto simp: behind_cycle_def)
qed

lemma kahn_final:
  assumes inv: "kahn_inv n E [] ord d" and ok: "edges_ok n E" and i: "i < n"
  shows "0 < d ! i \<longleftrightarrow> behind_cycle (set E) i" and "i \<in> set ord \<longleftrightarrow> \<not> behind_cycle (set E) i"
proof -
  note I = kahn_invD [OF inv, simplified append_Nil2]
  note dist = I(2) and d = I(4) and zero = I(5) and topo = I(6)
  have pre: "p \<in> set ord" if "(p, j) \<in> (set E)\<^sup>*" "j \<in> set ord" for p j
  proof -
    obtain xs ys where ord: "ord = xs @ j # ys" using \<open>j \<in> set ord\<close> by (metis split_list)
    show ?thesis using that rtranclD [OF that(1)] placed_before [OF topo _ ord] by (auto simp: ord)
  qed
  have "\<exists>p \<in> {j. j < n \<and> j \<notin> set ord}. (p, j) \<in> set E" if "j \<in> {j. j < n \<and> j \<notin> set ord}" for j
    using that zero [of j] d [of j] ok by (auto simp: pending_0_iff edges_ok_def)
  then have "behind_cycle (set E) i" if "i \<notin> set ord"
    using stuck_behind_cycle [of "set E" "{j. j < n \<and> j \<notin> set ord}" i] that i by blast
  moreover have "i \<notin> set ord" if cyc: "behind_cycle (set E) i"
  proof
    assume io: "i \<in> set ord"
    obtain c where c: "(c, c) \<in> (set E)\<^sup>+" "(c, i) \<in> (set E)\<^sup>*" using cyc by (auto simp: behind_cycle_def)
    then have "c \<in> set ord" using pre io by blast
    then obtain xs ys where "ord = xs @ c # ys" by (metis split_list)
    with placed_before [OF topo c(1)] dist show False by auto
  qed
  ultimately show "i \<in> set ord \<longleftrightarrow> \<not> behind_cycle (set E) i" by blast
  with zero [OF i] show "0 < d ! i \<longleftrightarrow> behind_cycle (set E) i" by (metis neq0_conv)
qed

lemma kahn_start:
  assumes "edges_ok n E"
  shows "\<exists>D d. fold add_edge E (replicate n [], replicate n 0) = (D, d) \<and> length D = n \<and> (\<forall>p < n. D ! p = deps E p)
     \<and> kahn_inv n E (map fst (filter (\<lambda>(_, d). d = 0) (enumerate 0 d))) [] d"
proof -
  from build_tables [OF assms, of "replicate n []" "replicate n 0"] obtain D d where
    f: "fold add_edge E (replicate n [], replicate n 0) = (D, d)" "length D = n" "length d = n"
      "\<forall>p < n. D ! p = deps E p" "\<forall>i < n. d ! i = pending E {} i" by auto
  let ?Q = "map fst (filter (\<lambda>(_, d). d = 0) (enumerate 0 d))"
  have "distinct ?Q" by (rule distinct_map_filter) simp
  moreover have Q: "set ?Q = {i. i < n \<and> d ! i = 0}"
    using f(3) by (auto simp: in_set_enumerate_eq image_iff)
  ultimately have "kahn_inv n E ?Q [] d"
    unfolding kahn_inv_def append_Nil using f(3,5) by (simp only: Q) auto
  with f show ?thesis by blast
qed

section \<open>The sort as a whole\<close>

definition loads_in_order :: "(string \<Rightarrow> string \<Rightarrow> bool) \<Rightarrow> ManifestEntry list \<Rightarrow> ManifestEntry list \<Rightarrow> bool" where
  "loads_in_order matches ms out \<longleftrightarrow> (\<exists>order. out = map (\<lambda>i. ms ! i) order \<and> distinct order
     \<and> set order = {..<length ms} \<and> (\<forall>xs i ys p. order = xs @ i # ys \<longrightarrow> (p, i) \<in> load_before matches ms \<longrightarrow> p \<in> set xs))"

lemma acyclic_iff_none_behind: "acyclic R \<longleftrightarrow> (\<forall>i. \<not> behind_cycle R i)"
  by (auto simp: acyclic_def behind_cycle_def)

lemma behind_cycle_bound:
  assumes "edges_ok n E" and "behind_cycle (set E) i" shows "i < n"
proof -
  obtain c where "(c, c) \<in> (set E)\<^sup>+" "(c, i) \<in> (set E)\<^sup>*" using assms(2) by (auto simp: behind_cycle_def)
  then have "(c, i) \<in> (set E)\<^sup>+" by simp
  then show ?thesis by (rule tranclE) (use assms(1) in \<open>auto simp: edges_ok_def\<close>)
qed

lemma small_acyclic: "length ms \<le> 1 \<Longrightarrow> load_before matches ms = {}"
  by (auto simp: load_before_def)

lemma names_filter:
  "length d = n \<Longrightarrow> map (\<lambda>(i, _). f i) (filter (\<lambda>(_, x). 0 < x) (enumerate 0 d)) = map f (filter (\<lambda>i. 0 < d ! i) [0..<n])"
proof -
  have "enumerate 0 d = map (\<lambda>i. (i, d ! i)) [0..<length d]"
    by (rule nth_equalityI) (simp_all add: nth_enumerate_eq)
  then show "length d = n \<Longrightarrow> ?thesis" by (simp add: filter_map comp_def)
qed

lemma toposort_loop:
  fixes matches ms
  defines "n \<equiv> length ms" and "E \<equiv> edge_list matches ms"
  assumes "1 < n"
  shows "\<exists>ord d. kahn_inv n E [] ord d \<and> toposort_manifests matches ms =
     Some (if length ord \<noteq> n then Inl (map (\<lambda>i. cm_name (fst (ms ! i))) (filter (\<lambda>i. 0 < d ! i) [0..<n]), ms)
           else Inr (map (\<lambda>i. ms ! i) ord))"
proof -
  have ok: "edges_ok n E" by (simp add: n_def E_def edge_list_ok)
  obtain D d where D: "fold add_edge E (replicate n [], replicate n 0) = (D, d)" "length D = n" "\<forall>p < n. D ! p = deps E p"
    and inv: "kahn_inv n E (map fst (filter (\<lambda>(_, d). d = 0) (enumerate 0 d))) [] d"
    using kahn_start [OF ok] by blast
  obtain ord d' where loop: "kahn_loop D (map fst (filter (\<lambda>(_, d). d = 0) (enumerate 0 d))) [] d = Some (ord, d')"
    and fin: "kahn_inv n E [] ord d'"
    using kahn_loop_inv [OF ok D(2,3) inv] by blast
  have "toposort_manifests matches ms =
     Some (if length ord \<noteq> n then Inl (map (\<lambda>i. cm_name (fst (ms ! i))) (filter (\<lambda>i. 0 < d' ! i) [0..<n]), ms)
           else Inr (map (\<lambda>i. ms ! i) ord))"
    using assms(3) D(1) loop names_filter [OF kahn_invD(1) [OF fin], of "\<lambda>i. cm_name (fst (ms ! i))"]
    by (simp add: toposort_manifests_def n_def E_def)
  with fin show ?thesis by blast
qed

lemma kahn_order:
  assumes inv: "kahn_inv n E [] ord d" and ok: "edges_ok n E"
  shows "length ord = n \<longleftrightarrow> acyclic (set E)" and "length ord = n \<Longrightarrow> set ord = {..<n}"
proof -
  note I = kahn_invD [OF inv, simplified append_Nil2]
  have card: "card (set ord) = length ord" using I(2) by (rule distinct_card)
  then show all: "length ord = n \<Longrightarrow> set ord = {..<n}" using I(3) by (metis card_lessThan card_subset_eq finite_lessThan)
  have "acyclic (set E) \<longleftrightarrow> (\<forall>i < n. i \<in> set ord)"
    using kahn_final(2) [OF inv ok] behind_cycle_bound [OF ok] by (auto simp: acyclic_iff_none_behind)
  also have "\<dots> \<longleftrightarrow> set ord = {..<n}" using I(3) by auto
  also have "\<dots> \<longleftrightarrow> length ord = n" using all card by (metis card_lessThan)
  finally show "length ord = n \<longleftrightarrow> acyclic (set E)" by blast
qed

text \<open>
  C36.  Capsule loading order.  The sort never panics and always returns.  When no chain of imports
  leads back to its start it returns a permutation of the manifests in which every capsule stands
  behind all capsules that export something it imports; otherwise it returns the list it was given,
  with the names of exactly those capsules that lie on a cycle or import, directly or through
  others, from one.
\<close>

theorem toposort_decides:
  "case toposort_manifests matches ms of
     None \<Rightarrow> False
   | Some (Inr out) \<Rightarrow> acyclic (load_before matches ms) \<and> loads_in_order matches ms out
   | Some (Inl (names, back)) \<Rightarrow>
       \<not> acyclic (load_before matches ms) \<and> back = ms \<and>
       names = map (\<lambda>i. cm_name (fst (ms ! i))) (filter (behind_cycle (load_before matches ms)) [0..<length ms])"
proof (cases "length ms \<le> 1")
  case True
  then have "loads_in_order matches ms ms"
    unfolding loads_in_order_def small_acyclic [OF True] by (intro exI [of _ "[0..<length ms]"]) (auto simp: map_nth)
  with True show ?thesis by (simp add: toposort_manifests_def small_acyclic wf_acyclic)
next
  case False
  let ?E = "edge_list matches ms"
  obtain ord d where inv: "kahn_inv (length ms) ?E [] ord d" and run: "toposort_manifests matches ms =
     Some (if length ord \<noteq> length ms then Inl (map (\<lambda>i. cm_name (fst (ms ! i))) (filter (\<lambda>i. 0 < d ! i) [0..<length ms]), ms)
           else Inr (map (\<lambda>i. ms ! i) ord))"
    using toposort_loop [of ms matches] False by auto
  note ord = kahn_order [OF inv edge_list_ok]
  have names: "filter (\<lambda>i. 0 < d ! i) [0..<length ms] = filter (behind_cycle (load_before matches ms)) [0..<length ms]"
    by (rule filter_cong) (simp_all add: kahn_final(1) [OF inv edge_list_ok] edge_list_set)
  have "loads_in_order matches ms (map (\<lambda>i. ms ! i) ord)" if "length ord = length ms"
    unfolding loads_in_order_def edge_list_set [symmetric]
    using ord(2) [OF that] kahn_invD(2,6) [OF inv] by (intro exI [of _ ord]) auto
  with ord(1) show ?thesis by (simp add: run names edge_list_set)
qed

definition example_capsule :: "string \<Rightarrow> string list \<Rightarrow> string list \<Rightarrow> ManifestEntry" where
  "example_capsule name imports exports =
     (\<lparr>cm_name = name,
       cm_imports = [(''astrid'', map (\<lambda>n. (n, \<lparr>imp_version = ''1.0.0'', imp_optional = False\<rparr>)) imports)],
       cm_exports = [(''astrid'', map (\<lambda>n. (n, \<lparr>exp_version = ''1.0.0''\<rparr>)) exports)]\<rparr>,
      ''/capsules/'' @ name)"

lemmas example_simps = example_capsule_def import_tuples_def export_triples_def provides_def import_satisfied_by_def
  edge_list_def add_edge_def toposort_manifests_def enumerate_eq_zip

text \<open>The shell imports what the session exports, and is listed first.\<close>

theorem toposort_decides_witness:
  "loads_in_order (=) [example_capsule ''shell'' [''session''] [], example_capsule ''session'' [] [''session'']]
     [example_capsule ''session'' [] [''session''], example_capsule ''shell'' [''session''] []]"
proof -
  let ?ms = "[example_capsule ''shell'' [''session''] [], example_capsule ''session'' [] [''session'']]"
  have "toposort_manifests (=) ?ms = Some (Inr (rev ?ms))" by (simp add: example_simps numeral_2_eq_2)
  then show ?thesis using toposort_decides [of "(=)" ?ms] by simp
qed

text \<open>
  The cycle report names more than the cycle: a capsule that merely imports from a member of a
  cycle, and that nothing imports from, is reported as involved in it.
\<close>

theorem cycle_report_overshoots:
  "toposort_manifests (=) [example_capsule ''a'' [''b''] [''a''], example_capsule ''b'' [''a''] [''b''],
       example_capsule ''shell'' [''a''] []]
     = Some (Inl ([''a'', ''b'', ''shell''], [example_capsule ''a'' [''b''] [''a''], example_capsule ''b'' [''a''] [''b''],
         example_capsule ''shell'' [''a''] []]))
   \<and> (2, 2) \<notin> (load_before (=) [example_capsule ''a'' [''b''] [''a''], example_capsule ''b'' [''a''] [''b''],
       example_capsule ''shell'' [''a''] []])\<^sup>+"
proof -
  let ?ms = "[example_capsule ''a'' [''b''] [''a''], example_capsule ''b'' [''a''] [''b''], example_capsule ''shell'' [''a''] []]"
  have E: "edge_list (=) ?ms = [(1, 0), (0, 1), (0, 2)]"
    by (simp add: example_simps numeral_3_eq_3 numeral_2_eq_2)
  have "(2, x) \<notin> load_before (=) ?ms" for x by (simp add: edge_list_set [symmetric] E)
  then have "(2, 2) \<notin> (load_before (=) ?ms)\<^sup>+" by (auto dest: tranclD)
  moreover have "toposort_manifests (=) ?ms = Some (Inl ([''a'', ''b'', ''shell''], ?ms))"
    unfolding toposort_manifests_def E by (simp add: add_edge_def enumerate_eq_zip numeral_3_eq_3 numeral_2_eq_2 example_capsule_def)
  ultimately show ?thesis by blast
qed

end
