(* ===== verification/Op_Run.thy ===== *)
theory Op_Run
  imports Astrid_Prelude
begin

text \<open>
  Runs of a store: a sequence of operations, in the order in which the lock of the store admits
  them.  The two locales carry a step invariant, and a budget that every step can only spend, from
  one operation to whole runs.
\<close>

fun run_ops :: "('op \<Rightarrow> 's \<Rightarrow> 'r \<times> 's) \<Rightarrow> 'op list \<Rightarrow> 's \<Rightarrow> 'r list \<times> 's" where
  "run_ops step [] s = ([], s)"
| "run_ops step (op # ops) s =
     (let (r, s1) = step op s; (rs, s2) = run_ops step ops s1 in (r # rs, s2))"

lemma run_ops_Cons:
  assumes "run_ops step (op # ops) s = (rs, s')"
  obtains r s1 rs1 where "step op s = (r, s1)" "run_ops step ops s1 = (rs1, s')" "rs = r # rs1"
  using assms by (auto simp: Let_def split: prod.splits)

lemma run_ops_length: "run_ops step ops s = (rs, s') \<Longrightarrow> length rs = length ops"
proof (induction ops arbitrary: s rs)
  case (Cons op ops)
  from Cons.prems obtain r s1 rs1 where "run_ops step ops s1 = (rs1, s')" "rs = r # rs1"
    by (rule run_ops_Cons)
  then show ?case using Cons.IH by simp
qed simp

definition spent_by :: "('op \<Rightarrow> 'r \<Rightarrow> nat) \<Rightarrow> 'op list \<Rightarrow> 'r list \<Rightarrow> nat" where
  "spent_by cost ops rs = sum_list (map2 cost ops rs)"

lemma spent_by_simps [simp]:
  "spent_by cost [] rs = 0"
  "spent_by cost (op # ops) (r # rs) = cost op r + spent_by cost ops rs"
  by (simp_all add: spent_by_def)

locale op_machine =
  fixes step :: "'op \<Rightarrow> 's \<Rightarrow> 'r \<times> 's" and ok :: "'s \<Rightarrow> bool" and admitted :: "'op \<Rightarrow> bool"
  assumes ok_step: "ok s \<Longrightarrow> admitted op \<Longrightarrow> step op s = (r, s') \<Longrightarrow> ok s'"
begin

lemma ok_run: "ok s \<Longrightarrow> list_all admitted ops \<Longrightarrow> run_ops step ops s = (rs, s') \<Longrightarrow> ok s'"
proof (induction ops arbitrary: s rs)
  case (Cons op ops)
  from Cons.prems(3) obtain r s1 rs1 where run: "step op s = (r, s1)" "run_ops step ops s1 = (rs1, s')"
    by (rule run_ops_Cons)
  have "ok s1" by (rule ok_step [OF Cons.prems(1) _ run(1)]) (use Cons.prems(2) in simp)
  then show ?case using Cons.IH [OF _ _ run(2)] Cons.prems(2) by simp
qed simp

end

locale budgeted_machine = op_machine +
  fixes budget :: "'b \<Rightarrow> nat" and cost :: "'a \<Rightarrow> 'c \<Rightarrow> nat"
  assumes budget_step: "ok s \<Longrightarrow> admitted op \<Longrightarrow> step op s = (r, s') \<Longrightarrow> cost op r + budget s' \<le> budget s"
begin

lemma budget_run:
  "ok s \<Longrightarrow> list_all admitted ops \<Longrightarrow> run_ops step ops s = (rs, s') \<Longrightarrow>
     spent_by cost ops rs + budget s' \<le> budget s"
proof (induction ops arbitrary: s rs)
  case (Cons op ops)
  from Cons.prems(3) obtain r s1 rs1 where run: "step op s = (r, s1)" "run_ops step ops s1 = (rs1, s')" "rs = r # rs1"
    by (rule run_ops_Cons)
  have adm: "admitted op" using Cons.prems(2) by simp
  have "ok s1" and "cost op r + budget s1 \<le> budget s"
    by (rule ok_step [OF Cons.prems(1) adm run(1)], rule budget_step [OF Cons.prems(1) adm run(1)])
  with Cons.IH [OF _ _ run(2)] Cons.prems(2) run(3) show ?case by simp
qed simp

end

end
