(* ===== verification/Allowance.thy ===== *)
theory Allowance
  imports Op_Run Principal_Profile
begin

text \<open>
  Pre-approved actions: \<open>crates/astrid-approval/src/action.rs\<close> and
  \<open>crates/astrid-approval/src/allowance/{mod,pattern,store}.rs\<close>.

  Glob matching (the \<open>globset\<close> package) is the parameter \<open>glob\<close>: whether a pattern compiles and
  matches.  Paths are Unix paths, and \<open>path_components\<close> is the component iterator of the standard
  library.  Instants are natural numbers; every operation that reads the clock takes the instant it
  reads.  The order of an association list stands for the arbitrary iteration order of a hash map.
  Lock poisoning, which needs a panic inside the store, is not modelled, and neither is the
  signature of an allowance checked by this code.
\<close>

section \<open>Actions and patterns\<close>

datatype Permission = PermRead | PermWrite | PermExecute | PermDelete | PermInvoke | PermList | PermCreate

datatype (plugins only: code) SensitiveAction =
    FileRead string
  | FileDelete string
  | FileWriteOutsideSandbox string
  | ExecuteCommand string "string list"
  | NetworkRequest string string u16
  | TransmitData string string
  | FinancialTransaction string string
  | AccessControlChange string string
  | CapabilityGrant string "Permission list"
  | McpToolCall string string
  | CapsuleExecution string string
  | CapsuleHttpRequest string string string
  | CapsuleFileAccess string string Permission
  | CapsuleNetBind string

datatype AllowancePattern =
    ExactTool string string
  | ServerTools string
  | FilePattern string Permission
  | NetworkHost string string "u16 list option"
  | CommandPattern string
  | WorkspaceRelative string Permission
  | Custom string
  | CapsuleCapability string string
  | CapsuleWildcard string

section \<open>Paths\<close>

datatype Component = RootDir | CurDir | ParentDir | Normal string

definition segment_components :: "string list \<Rightarrow> Component list" where
  "segment_components segs =
     concat (map (\<lambda>s. if s = [] \<or> s = ''.'' then [] else if s = ''..'' then [ParentDir] else [Normal s]) segs)"

definition path_components :: "string \<Rightarrow> Component list" where
  "path_components p =
     (if starts_with ''/'' p then [RootDir] else []) @
     (case split_on CHR ''/'' p of
        [] \<Rightarrow> []
      | s # rest \<Rightarrow> (if s = ''.'' then [CurDir] else segment_components [s]) @ segment_components rest)"

definition path_in_workspace :: "string \<Rightarrow> string option \<Rightarrow> bool" where
  "path_in_workspace path workspace_root =
     (case workspace_root of
        None \<Rightarrow> True
      | Some root \<Rightarrow> starts_with (path_components root) (path_components path))"

section \<open>Matching\<close>

definition contains_shell_operators :: "string \<Rightarrow> bool" where
  "contains_shell_operators cmd \<longleftrightarrow>
     CHR '';'' \<in> set cmd \<or> CHR ''&'' \<in> set cmd \<or> contains_str ''&&'' cmd \<or> contains_str ''||'' cmd
     \<or> CHR ''|'' \<in> set cmd \<or> contains_str ''$('' cmd \<or> CHR 0x60 \<in> set cmd \<or> CHR 0x0A \<in> set cmd
     \<or> CHR ''>'' \<in> set cmd \<or> CHR ''<'' \<in> set cmd"

definition full_command :: "string \<Rightarrow> string list \<Rightarrow> string" where
  "full_command command args = (if args = [] then command else command @ '' '' @ join_with '' '' args)"

definition matches_file_glob :: "(string \<Rightarrow> string \<Rightarrow> bool) \<Rightarrow> string \<Rightarrow> string \<Rightarrow> bool" where
  "matches_file_glob glob pattern path =
     (if ParentDir \<in> set (path_components path) then False else glob pattern path)"

definition pattern_matches ::
  "(string \<Rightarrow> string \<Rightarrow> bool) \<Rightarrow> AllowancePattern \<Rightarrow> SensitiveAction \<Rightarrow> string option \<Rightarrow> bool" where
  "pattern_matches glob self action workspace_root =
     (case (self, action) of
        (ExactTool server tool, McpToolCall action_server action_tool) \<Rightarrow>
          server = action_server \<and> tool = action_tool
      | (ServerTools server, McpToolCall action_server _) \<Rightarrow> server = action_server
      | (FilePattern pattern PermDelete, FileDelete path) \<Rightarrow> matches_file_glob glob pattern path
      | (FilePattern pattern PermWrite, FileWriteOutsideSandbox path) \<Rightarrow> matches_file_glob glob pattern path
      | (FilePattern pattern PermRead, FileRead path) \<Rightarrow> matches_file_glob glob pattern path
      | (WorkspaceRelative pattern PermDelete, FileDelete path) \<Rightarrow>
          path_in_workspace path workspace_root \<and> matches_file_glob glob pattern path
      | (WorkspaceRelative pattern PermWrite, FileWriteOutsideSandbox path) \<Rightarrow>
          path_in_workspace path workspace_root \<and> matches_file_glob glob pattern path
      | (WorkspaceRelative pattern PermRead, FileRead path) \<Rightarrow>
          path_in_workspace path workspace_root \<and> matches_file_glob glob pattern path
      | (NetworkHost capsule_id host ports, NetworkRequest action_capsule_id action_host action_port) \<Rightarrow>
          capsule_id = action_capsule_id \<and> host = action_host
          \<and> (case ports of None \<Rightarrow> True | Some allowed \<Rightarrow> action_port \<in> set allowed)
      | (WorkspaceRelative pattern PermInvoke, McpToolCall server tool) \<Rightarrow>
          workspace_root \<noteq> None \<and> matches_file_glob glob pattern (server @ ''/'' @ tool)
      | (WorkspaceRelative pattern PermExecute, ExecuteCommand command args) \<Rightarrow>
          workspace_root \<noteq> None \<and> \<not> contains_shell_operators (full_command command args)
          \<and> matches_file_glob glob pattern (full_command command args)
      | (CommandPattern pattern, ExecuteCommand command args) \<Rightarrow>
          (let full_cmd = full_command command args
           in if contains_shell_operators full_cmd then False
              else matches_file_glob glob pattern full_cmd
                   \<or> (case strip_suffix '' *'' pattern of None \<Rightarrow> False | Some prefix \<Rightarrow> full_cmd = prefix))
      | (CapsuleCapability capsule_id capability, CapsuleExecution action_pid action_cap) \<Rightarrow>
          capsule_id = action_pid \<and> capability = action_cap
      | (CapsuleCapability capsule_id capability, CapsuleHttpRequest action_pid _ _) \<Rightarrow>
          capsule_id = action_pid \<and> capability = ''http_request''
      | (CapsuleCapability capsule_id capability, CapsuleFileAccess action_pid _ mode) \<Rightarrow>
          capsule_id = action_pid
          \<and> (case mode of
               PermRead \<Rightarrow> capability = ''file_read''
             | PermWrite \<Rightarrow> capability = ''file_write''
             | PermDelete \<Rightarrow> capability = ''file_delete''
             | _ \<Rightarrow> False)
      | (CapsuleWildcard capsule_id, CapsuleExecution action_pid _) \<Rightarrow> capsule_id = action_pid
      | (CapsuleWildcard capsule_id, CapsuleHttpRequest action_pid _ _) \<Rightarrow> capsule_id = action_pid
      | (CapsuleWildcard capsule_id, CapsuleFileAccess action_pid _ _) \<Rightarrow> capsule_id = action_pid
      | _ \<Rightarrow> False)"

section \<open>Allowances\<close>

type_synonym AllowanceId = "128 word"

record Allowance =
  al_id :: AllowanceId
  al_principal :: PrincipalId
  al_action_pattern :: AllowancePattern
  al_created_at :: nat
  al_expires_at :: "nat option"
  al_max_uses :: "u32 option"
  al_uses_remaining :: "u32 option"
  al_session_only :: bool
  al_workspace_root :: "string option"
  al_signature :: string

definition al_is_expired :: "nat \<Rightarrow> Allowance \<Rightarrow> bool" where
  "al_is_expired now a = (case al_expires_at a of None \<Rightarrow> False | Some t \<Rightarrow> t < now)"

definition has_uses_remaining :: "Allowance \<Rightarrow> bool" where
  "has_uses_remaining a = (case al_uses_remaining a of None \<Rightarrow> True | Some r \<Rightarrow> 0 < r)"

definition al_is_valid :: "nat \<Rightarrow> Allowance \<Rightarrow> bool" where
  "al_is_valid now a \<longleftrightarrow> \<not> al_is_expired now a \<and> has_uses_remaining a"

definition allowance_matches ::
  "(string \<Rightarrow> string \<Rightarrow> bool) \<Rightarrow> nat \<Rightarrow> Allowance \<Rightarrow> SensitiveAction \<Rightarrow> string option \<Rightarrow> bool" where
  "allowance_matches glob now allowance action workspace_root =
     (if \<not> al_is_valid now allowance then False
      else case al_workspace_root allowance of
          Some allowance_ws \<Rightarrow>
            if map_option path_components workspace_root \<noteq> Some (path_components allowance_ws) then False
            else pattern_matches glob (al_action_pattern allowance) action workspace_root
        | None \<Rightarrow> pattern_matches glob (al_action_pattern allowance) action workspace_root)"

section \<open>The store\<close>

datatype ApprovalError = StoragePrincipalRetiring PrincipalId | StorageNoAllowances PrincipalId AllowanceId
  | StorageNotFound AllowanceId

record AllowanceStore =
  retiring_principals :: "PrincipalId set"
  allowances :: "(PrincipalId, (AllowanceId, Allowance) hash_map) hash_map"

definition AllowanceStore_new :: AllowanceStore where
  "AllowanceStore_new = \<lparr>retiring_principals = {}, allowances = []\<rparr>"

definition principal_map :: "AllowanceStore \<Rightarrow> PrincipalId \<Rightarrow> (AllowanceId, Allowance) hash_map" where
  "principal_map s p = (case hm_get (allowances s) p of None \<Rightarrow> [] | Some m \<Rightarrow> m)"

definition insert_allowance :: "Allowance \<Rightarrow> AllowanceStore \<Rightarrow> AllowanceStore" where
  "insert_allowance a s =
     s\<lparr>allowances := hm_insert (al_principal a) (hm_insert (al_id a) a (principal_map s (al_principal a))) (allowances s)\<rparr>"

definition add_allowance :: "Allowance \<Rightarrow> AllowanceStore \<Rightarrow> (ApprovalError, unit) result \<times> AllowanceStore" where
  "add_allowance a s =
     (if al_principal a \<in> retiring_principals s then (Inl (StoragePrincipalRetiring (al_principal a)), s)
      else (Inr (), insert_allowance a s))"

definition find_matching ::
  "(string \<Rightarrow> string \<Rightarrow> bool) \<Rightarrow> nat \<Rightarrow> PrincipalId \<Rightarrow> SensitiveAction \<Rightarrow> string option \<Rightarrow> AllowanceStore
     \<Rightarrow> Allowance option" where
  "find_matching glob now p action workspace_root s =
     (if p \<in> retiring_principals s then None
      else case hm_get (allowances s) p of
          None \<Rightarrow> None
        | Some m \<Rightarrow> find (\<lambda>a. allowance_matches glob now a action workspace_root) (hm_values m))"

definition saturating_dec :: "u32 \<Rightarrow> u32" where
  "saturating_dec r = (if r = 0 then 0 else r - 1)"

definition spend_use :: "Allowance \<Rightarrow> Allowance" where
  "spend_use a = a\<lparr>al_uses_remaining := map_option saturating_dec (al_uses_remaining a)\<rparr>"

definition find_matching_and_consume ::
  "(string \<Rightarrow> string \<Rightarrow> bool) \<Rightarrow> nat \<Rightarrow> PrincipalId \<Rightarrow> SensitiveAction \<Rightarrow> string option \<Rightarrow> AllowanceStore
     \<Rightarrow> Allowance option \<times> AllowanceStore" where
  "find_matching_and_consume glob now p action workspace_root s =
     (if p \<in> retiring_principals s then (None, s)
      else case hm_get (allowances s) p of
          None \<Rightarrow> (None, s)
        | Some m0 \<Rightarrow>
            let m = hm_retain (\<lambda>_ a. \<not> al_is_expired now a) m0;
                s1 = s\<lparr>allowances := hm_insert p m (allowances s)\<rparr>
            in case find (\<lambda>a. allowance_matches glob now a action workspace_root) (hm_values m) of
                 None \<Rightarrow> (None, s1)
               | Some found \<Rightarrow>
                   (case hm_get m (al_id found) of
                      None \<Rightarrow> (None, s1)
                    | Some allowance \<Rightarrow>
                        (Some allowance,
                         s\<lparr>allowances := hm_insert p (hm_insert (al_id found) (spend_use allowance) m) (allowances s)\<rparr>)))"

definition consume_use ::
  "PrincipalId \<Rightarrow> AllowanceId \<Rightarrow> AllowanceStore \<Rightarrow> (ApprovalError, bool) result \<times> AllowanceStore" where
  "consume_use p i s =
     (case hm_get (allowances s) p of
        None \<Rightarrow> (Inl (StorageNoAllowances p i), s)
      | Some m \<Rightarrow>
          (case hm_get m i of
             None \<Rightarrow> (Inl (StorageNotFound i), s)
           | Some allowance \<Rightarrow>
               (case al_uses_remaining allowance of
                  Some remaining \<Rightarrow>
                    (Inr (0 < saturating_dec remaining),
                     s\<lparr>allowances := hm_insert p (hm_insert i (spend_use allowance) m) (allowances s)\<rparr>)
                | None \<Rightarrow> (Inr True, s))))"

definition drop_empty ::
  "(PrincipalId, (AllowanceId, Allowance) hash_map) hash_map \<Rightarrow> (PrincipalId, (AllowanceId, Allowance) hash_map) hash_map" where
  "drop_empty ms = hm_retain (\<lambda>_ m. m \<noteq> []) ms"

definition retain_everywhere :: "(Allowance \<Rightarrow> bool) \<Rightarrow> AllowanceStore \<Rightarrow> AllowanceStore" where
  "retain_everywhere P s =
     s\<lparr>allowances := drop_empty (map (\<lambda>(p, m). (p, hm_retain (\<lambda>_ a. P a) m)) (allowances s))\<rparr>"

definition cleanup_expired :: "nat \<Rightarrow> AllowanceStore \<Rightarrow> nat \<times> AllowanceStore" where
  "cleanup_expired now s =
     (sum_list (map (\<lambda>(p, m). length m - length (hm_retain (\<lambda>_ a. \<not> al_is_expired now a) m)) (allowances s)),
      retain_everywhere (\<lambda>a. \<not> al_is_expired now a) s)"

definition clear_session_allowances :: "PrincipalId \<Rightarrow> AllowanceStore \<Rightarrow> AllowanceStore" where
  "clear_session_allowances p s =
     (case hm_get (allowances s) p of
        None \<Rightarrow> s
      | Some m0 \<Rightarrow>
          let m = hm_retain (\<lambda>_ a. \<not> al_session_only a) m0
          in s\<lparr>allowances := (if m = [] then hm_remove p (allowances s) else hm_insert p m (allowances s))\<rparr>)"

definition clear_for_principal :: "PrincipalId \<Rightarrow> AllowanceStore \<Rightarrow> AllowanceStore" where
  "clear_for_principal p s = s\<lparr>allowances := hm_remove p (allowances s)\<rparr>"

definition begin_principal_retirement :: "PrincipalId \<Rightarrow> AllowanceStore \<Rightarrow> AllowanceStore" where
  "begin_principal_retirement p s =
     s\<lparr>retiring_principals := insert p (retiring_principals s), allowances := hm_remove p (allowances s)\<rparr>"

definition finish_principal_retirement :: "PrincipalId \<Rightarrow> AllowanceStore \<Rightarrow> AllowanceStore" where
  "finish_principal_retirement p s = s\<lparr>retiring_principals := retiring_principals s - {p}\<rparr>"

definition clear_all_session_allowances :: "AllowanceStore \<Rightarrow> AllowanceStore" where
  "clear_all_session_allowances s = retain_everywhere (\<lambda>a. \<not> al_session_only a) s"

definition allowance_count :: "AllowanceStore \<Rightarrow> nat" where
  "allowance_count s = sum_list (map length (hm_values (allowances s)))"

definition count_for :: "AllowanceStore \<Rightarrow> PrincipalId \<Rightarrow> nat" where
  "count_for s p = (case hm_get (allowances s) p of None \<Rightarrow> 0 | Some m \<Rightarrow> length m)"

definition export_session_allowances :: "nat \<Rightarrow> PrincipalId \<Rightarrow> AllowanceStore \<Rightarrow> Allowance list" where
  "export_session_allowances now p s =
     (case hm_get (allowances s) p of
        None \<Rightarrow> []
      | Some m \<Rightarrow> filter (\<lambda>a. al_session_only a \<and> al_is_valid now a) (hm_values m))"

definition export_workspace_allowances :: "nat \<Rightarrow> PrincipalId \<Rightarrow> AllowanceStore \<Rightarrow> Allowance list" where
  "export_workspace_allowances now p s =
     (case hm_get (allowances s) p of
        None \<Rightarrow> []
      | Some m \<Rightarrow>
          filter (\<lambda>a. \<not> al_session_only a \<and> al_workspace_root a \<noteq> None \<and> al_is_valid now a) (hm_values m))"

definition import_allowances :: "nat \<Rightarrow> Allowance list \<Rightarrow> AllowanceStore \<Rightarrow> AllowanceStore" where
  "import_allowances now as s =
     fold (\<lambda>a s. if al_is_valid now a then insert_allowance a s else s) as s"

section \<open>The shape of the store\<close>

definition lookup_allowance :: "AllowanceStore \<Rightarrow> PrincipalId \<Rightarrow> AllowanceId \<Rightarrow> Allowance option" where
  "lookup_allowance s p i = hm_get (principal_map s p) i"

definition map_ok :: "PrincipalId \<Rightarrow> (AllowanceId, Allowance) hash_map \<Rightarrow> bool" where
  "map_ok p m \<longleftrightarrow> hm_wf m \<and> (\<forall>i a. hm_get m i = Some a \<longrightarrow> al_id a = i \<and> al_principal a = p)"

definition store_ok :: "AllowanceStore \<Rightarrow> bool" where
  "store_ok s \<longleftrightarrow> hm_wf (allowances s) \<and> (\<forall>p m. hm_get (allowances s) p = Some m \<longrightarrow> map_ok p m)"

lemma store_ok_new: "store_ok AllowanceStore_new"
  by (simp add: store_ok_def AllowanceStore_new_def)

lemma store_okD: "store_ok s \<Longrightarrow> hm_get (allowances s) p = Some m \<Longrightarrow> map_ok p m"
  by (simp add: store_ok_def)

lemma map_ok_principal_map: "store_ok s \<Longrightarrow> map_ok p (principal_map s p)"
  by (auto simp: principal_map_def map_ok_def store_ok_def split: option.split)

lemma lookup_ok: "store_ok s \<Longrightarrow> lookup_allowance s p i = Some a \<Longrightarrow> al_id a = i \<and> al_principal a = p"
  using map_ok_principal_map [of s p] by (simp add: map_ok_def lookup_allowance_def)

lemma map_ok_insert: "map_ok p m \<Longrightarrow> al_id a = i \<Longrightarrow> al_principal a = p \<Longrightarrow> map_ok p (hm_insert i a m)"
  by (simp add: map_ok_def hm.wf_insert hm.get_insert)

lemma map_ok_retain: "map_ok p m \<Longrightarrow> map_ok p (hm_retain P m)"
  by (auto simp: map_ok_def hm_get_retain_Some)

lemma store_ok_put: "store_ok s \<Longrightarrow> map_ok p m \<Longrightarrow> store_ok (s\<lparr>allowances := hm_insert p m (allowances s)\<rparr>)"
  by (simp add: store_ok_def hm.wf_insert hm.get_insert)

lemma lookup_put:
  "lookup_allowance (s\<lparr>allowances := hm_insert p m (allowances s)\<rparr>) q i =
     (if q = p then hm_get m i else lookup_allowance s q i)"
  by (simp add: lookup_allowance_def principal_map_def hm.get_insert)

lemma store_ok_drop: "store_ok s \<Longrightarrow> store_ok (s\<lparr>allowances := hm_remove p (allowances s)\<rparr>)"
  by (simp add: store_ok_def hm.wf_remove hm.get_remove)

lemma lookup_drop:
  "lookup_allowance (s\<lparr>allowances := hm_remove p (allowances s)\<rparr>) q i =
     (if q = p then None else lookup_allowance s q i)"
  by (simp add: lookup_allowance_def principal_map_def hm.get_remove)

lemma store_ok_retiring [simp]: "store_ok (s\<lparr>retiring_principals := R\<rparr>) = store_ok s"
  by (simp add: store_ok_def)

lemma lookup_retiring [simp]: "lookup_allowance (s\<lparr>retiring_principals := R\<rparr>) = lookup_allowance s"
  by (simp add: lookup_allowance_def principal_map_def fun_eq_iff)

lemma hm_get_map_values: "hm_get (map (\<lambda>(k, v). (k, f v)) m) k = map_option f (hm_get m k)"
  by (induction m) auto

lemma hm_wf_map_values: "hm_wf (map (\<lambda>(k, v). (k, f v)) m) = hm_wf m"
  by (simp add: hm_wf_def split_def comp_def)

lemma store_ok_insert: "store_ok s \<Longrightarrow> store_ok (insert_allowance a s)"
  by (simp add: insert_allowance_def store_ok_put map_ok_insert map_ok_principal_map)

lemma lookup_insert:
  "lookup_allowance (insert_allowance a s) p i =
     (if p = al_principal a \<and> i = al_id a then Some a else lookup_allowance s p i)"
  by (simp add: insert_allowance_def lookup_put hm.get_insert) (simp add: lookup_allowance_def)

lemma retain_everywhere_get:
  "store_ok s \<Longrightarrow> hm_get (allowances (retain_everywhere P s)) p =
     (case hm_get (allowances s) p of
        None \<Rightarrow> None
      | Some m \<Rightarrow> let m' = hm_retain (\<lambda>_. P) m in if m' = [] then None else Some m')"
  by (simp add: retain_everywhere_def drop_empty_def hm_get_retain hm_wf_map_values hm_get_map_values store_ok_def
        Let_def split: option.split)

lemma store_ok_retain: "store_ok s \<Longrightarrow> store_ok (retain_everywhere P s)"
  using retain_everywhere_get [of s P] store_okD map_ok_retain
  by (auto simp: store_ok_def retain_everywhere_def drop_empty_def hm_wf_map_values Let_def
        split: option.splits if_splits)

lemma lookup_retain:
  assumes "store_ok s"
  shows "lookup_allowance (retain_everywhere P s) p i =
     (case lookup_allowance s p i of Some a \<Rightarrow> if P a then Some a else None | None \<Rightarrow> None)"
proof (cases "hm_get (allowances s) p")
  case None
  then show ?thesis using assms by (simp add: lookup_allowance_def principal_map_def retain_everywhere_get)
next
  case (Some m)
  have "hm_wf m" using store_okD [OF assms Some] by (simp add: map_ok_def)
  then have get: "hm_get (hm_retain (\<lambda>_. P) m) i = (case hm_get m i of Some a \<Rightarrow> if P a then Some a else None | None \<Rightarrow> None)"
    by (rule hm_get_retain)
  show ?thesis using get
    by (cases "hm_retain (\<lambda>_. P) m = []")
       (simp_all add: lookup_allowance_def principal_map_def retain_everywhere_get [OF assms] Some)
qed

section \<open>What a grant means\<close>

text \<open>A successful lookup that spends a use, by its parts.\<close>

lemma find_matching_and_consume_grant:
  assumes ok: "store_ok s" and run: "find_matching_and_consume glob now p act ws s = (Some a, s')"
  shows "p \<notin> retiring_principals s" and "lookup_allowance s p (al_id a) = Some a"
    and "allowance_matches glob now a act ws"
    and "\<exists>m. hm_get (allowances s) p = Some m \<and> s' = s\<lparr>allowances := hm_insert p
           (hm_insert (al_id a) (spend_use a) (hm_retain (\<lambda>_ b. \<not> al_is_expired now b) m)) (allowances s)\<rparr>"
proof -
  let ?live = "hm_retain (\<lambda>_ b. \<not> al_is_expired now b)"
  obtain m found where m: "p \<notin> retiring_principals s" "hm_get (allowances s) p = Some m"
      and found: "find (\<lambda>a. allowance_matches glob now a act ws) (hm_values (?live m)) = Some found"
      and a: "hm_get (?live m) (al_id found) = Some a"
      and s': "s' = s\<lparr>allowances := hm_insert p (hm_insert (al_id found) (spend_use a) (?live m)) (allowances s)\<rparr>"
    using run by (auto simp: find_matching_and_consume_def Let_def split: if_splits option.splits)
  have mok: "map_ok p m" using store_okD [OF ok m(2)] .
  then have lok: "map_ok p (?live m)" by (rule map_ok_retain)
  have "allowance_matches glob now found act ws" and "found \<in> set (hm_values (?live m))"
    using find_Some_iff [OF found] by auto
  moreover from this(2) obtain k where "hm_get (?live m) k = Some found"
    using lok by (auto simp: hm_values_iff map_ok_def)
  moreover from this have "al_id found = k" using lok by (simp add: map_ok_def)
  ultimately have "a = found" and match: "allowance_matches glob now a act ws" using a by auto
  show "p \<notin> retiring_principals s" by (rule m(1))
  show "allowance_matches glob now a act ws" by (rule match)
  show "lookup_allowance s p (al_id a) = Some a"
    using a m(2) mok \<open>a = found\<close> by (simp add: lookup_allowance_def principal_map_def hm_get_retain_Some map_ok_def)
  show "\<exists>m. hm_get (allowances s) p = Some m \<and> s' = s\<lparr>allowances := hm_insert p
           (hm_insert (al_id a) (spend_use a) (hm_retain (\<lambda>_ b. \<not> al_is_expired now b) m)) (allowances s)\<rparr>"
    using m(2) s' \<open>a = found\<close> by blast
qed

text \<open>What may be approved without asking, action by action.\<close>

definition inside :: "string option \<Rightarrow> string \<Rightarrow> bool" where
  "inside ws path \<longleftrightarrow> (\<forall>root. ws = Some root \<longrightarrow> (\<exists>rest. path_components path = path_components root @ rest))"

definition shell_safe :: "string \<Rightarrow> bool" where
  "shell_safe c \<longleftrightarrow> set c \<inter> {CHR '';'', CHR ''&'', CHR ''|'', CHR 0x60, CHR 0x0A, CHR ''>'', CHR ''<''} = {} \<and> \<not> contains_str ''$('' c"

definition file_grant :: "Permission \<Rightarrow> string \<Rightarrow> string option \<Rightarrow> AllowancePattern \<Rightarrow> bool" where
  "file_grant perm path ws pat \<longleftrightarrow> ''..'' \<notin> set (split_on CHR ''/'' path) \<and>
     ((\<exists>g. pat = FilePattern g perm) \<or> (\<exists>g. pat = WorkspaceRelative g perm) \<and> inside ws path)"

definition confined_grant :: "SensitiveAction \<Rightarrow> string option \<Rightarrow> AllowancePattern \<Rightarrow> bool" where
  "confined_grant action ws pat =
     (case action of
        FileRead path \<Rightarrow> file_grant PermRead path ws pat
      | FileDelete path \<Rightarrow> file_grant PermDelete path ws pat
      | FileWriteOutsideSandbox path \<Rightarrow> file_grant PermWrite path ws pat
      | ExecuteCommand command args \<Rightarrow> shell_safe command \<and> list_all shell_safe args
      | NetworkRequest capsule host port \<Rightarrow>
          \<exists>ports. pat = NetworkHost capsule host ports \<and> (ports = None \<or> (\<exists>ps. ports = Some ps \<and> port \<in> set ps))
      | McpToolCall server tool \<Rightarrow>
          pat = ExactTool server tool \<or> pat = ServerTools server \<or> (\<exists>g. pat = WorkspaceRelative g PermInvoke \<and> ws \<noteq> None)
      | CapsuleExecution capsule capability \<Rightarrow> pat = CapsuleCapability capsule capability \<or> pat = CapsuleWildcard capsule
      | CapsuleHttpRequest capsule _ _ \<Rightarrow> pat = CapsuleCapability capsule ''http_request'' \<or> pat = CapsuleWildcard capsule
      | CapsuleFileAccess capsule _ _ \<Rightarrow> (\<exists>c. pat = CapsuleCapability capsule c) \<or> pat = CapsuleWildcard capsule
      | _ \<Rightarrow> False)"

lemma parent_dir_iff: "ParentDir \<in> set (path_components p) \<longleftrightarrow> ''..'' \<in> set (split_on CHR ''/'' p)"
  by (cases "split_on CHR ''/'' p") (auto simp: path_components_def segment_components_def)

lemma join_with_sub: "a \<in> set args \<Longrightarrow> \<exists>u v. join_with sep args = u @ a @ v"
proof (induction sep args rule: join_with.induct)
  case (3 sep x y xs)
  show ?case
  proof (cases "a = x")
    case True
    then have "join_with sep (x # y # xs) = [] @ a @ sep @ join_with sep (y # xs)" by simp
    then show ?thesis by blast
  next
    case False
    with 3 obtain u v where "join_with sep (y # xs) = u @ a @ v" by auto
    then show ?thesis by (intro exI [of _ "x @ sep @ u"] exI [of _ v]) simp
  qed
qed (auto intro: exI [of _ "[]"])

lemma full_command_sub: "c = command \<or> c \<in> set args \<Longrightarrow> \<exists>u v. full_command command args = u @ c @ v"
proof (elim disjE)
  assume "c = command"
  then have "full_command command args = [] @ c @ (if args = [] then [] else '' '' @ join_with '' '' args)"
    by (simp add: full_command_def)
  then show ?thesis by blast
next
  assume c: "c \<in> set args"
  then obtain u v where "join_with '' '' args = u @ c @ v" using join_with_sub by blast
  then show ?thesis using c by (intro exI [of _ "command @ '' '' @ u"] exI [of _ v]) (auto simp: full_command_def)
qed

lemma shell_safe_sub: "\<not> contains_shell_operators (u @ c @ v) \<Longrightarrow> shell_safe c"
  by (auto simp: contains_shell_operators_def shell_safe_def contains_str_iff) (metis append.assoc)+

lemma shell_safe_command:
  "\<not> contains_shell_operators (full_command command args) \<Longrightarrow> shell_safe command \<and> list_all shell_safe args"
  using full_command_sub shell_safe_sub by (metis Ball_set)

lemma file_glob_no_parent: "matches_file_glob glob g path \<Longrightarrow> ''..'' \<notin> set (split_on CHR ''/'' path)"
  by (simp add: matches_file_glob_def parent_dir_iff split: if_splits)

lemma in_workspace_inside: "path_in_workspace path ws \<Longrightarrow> inside ws path"
  by (auto simp: path_in_workspace_def inside_def starts_with_iff split: option.splits)

lemma pattern_matches_confined:
  assumes "pattern_matches glob pat act ws"
  shows "confined_grant act ws pat"
proof (cases act)
  case (ExecuteCommand command args)
  then have "\<not> contains_shell_operators (full_command command args)"
    using assms by (auto simp: pattern_matches_def Let_def split: AllowancePattern.splits Permission.splits if_splits)
  then show ?thesis using ExecuteCommand by (simp add: confined_grant_def shell_safe_command)
qed (use assms in \<open>auto simp: pattern_matches_def confined_grant_def file_grant_def dest: file_glob_no_parent in_workspace_inside
       split: AllowancePattern.splits Permission.splits option.splits\<close>)

section \<open>Runs of the store\<close>

datatype AllowanceOp =
    AddOp Allowance
  | CheckOp nat PrincipalId SensitiveAction "string option"
  | ConsumeOp PrincipalId AllowanceId
  | CleanupOp nat
  | ClearSessionOp PrincipalId
  | ClearPrincipalOp PrincipalId
  | BeginRetirementOp PrincipalId
  | FinishRetirementOp PrincipalId
  | ClearAllSessionsOp
  | ImportOp nat "Allowance list"

fun apply_allowance_op ::
  "(string \<Rightarrow> string \<Rightarrow> bool) \<Rightarrow> AllowanceOp \<Rightarrow> AllowanceStore \<Rightarrow> Allowance option \<times> AllowanceStore" where
  "apply_allowance_op glob (AddOp a) s = (None, snd (add_allowance a s))"
| "apply_allowance_op glob (CheckOp now p act ws) s = find_matching_and_consume glob now p act ws s"
| "apply_allowance_op glob (ConsumeOp p i) s = (None, snd (consume_use p i s))"
| "apply_allowance_op glob (CleanupOp now) s = (None, snd (cleanup_expired now s))"
| "apply_allowance_op glob (ClearSessionOp p) s = (None, clear_session_allowances p s)"
| "apply_allowance_op glob (ClearPrincipalOp p) s = (None, clear_for_principal p s)"
| "apply_allowance_op glob (BeginRetirementOp p) s = (None, begin_principal_retirement p s)"
| "apply_allowance_op glob (FinishRetirementOp p) s = (None, finish_principal_retirement p s)"
| "apply_allowance_op glob ClearAllSessionsOp s = (None, clear_all_session_allowances s)"
| "apply_allowance_op glob (ImportOp now as) s = (None, import_allowances now as s)"

fun offers :: "PrincipalId \<Rightarrow> AllowanceId \<Rightarrow> AllowanceOp \<Rightarrow> bool" where
  "offers p i (AddOp a) = (al_principal a = p \<and> al_id a = i)"
| "offers p i (ImportOp now as) = list_ex (\<lambda>a. al_principal a = p \<and> al_id a = i) as"
| "offers p i _ = False"

text \<open>
  What one operation can do to the record of an allowance it does not offer: leave it, spend one
  use, or drop it.  A grant of the allowance found it and left one use less.
\<close>

definition shrinks :: "Allowance option \<Rightarrow> Allowance option \<Rightarrow> bool" where
  "shrinks before after \<longleftrightarrow> after = before \<or> after = None \<or> after = map_option spend_use before"

lemma shrinks_refl [simp]: "shrinks x x" and shrinks_None [simp]: "shrinks x None"
  and shrinks_spend [simp]: "shrinks x (map_option spend_use x)"
  by (simp_all add: shrinks_def)

lemma map_ok_get: "store_ok s \<Longrightarrow> hm_get (allowances s) p = Some m \<Longrightarrow> hm_wf m \<and> lookup_allowance s p i = hm_get m i"
  using store_okD [of s p m] by (simp add: map_ok_def lookup_allowance_def principal_map_def)

lemma retain_shrinks: "hm_wf m \<Longrightarrow> shrinks (hm_get m i) (hm_get (hm_retain P m) i)"
  by (simp add: hm_get_retain shrinks_def split: option.split)

lemma import_step:
  "store_ok s \<Longrightarrow> store_ok (import_allowances now as s)"
  "\<not> offers p i (ImportOp now as) \<Longrightarrow> lookup_allowance (import_allowances now as s) p i = lookup_allowance s p i"
  "retiring_principals (import_allowances now as s) = retiring_principals s"
proof -
  show "store_ok s \<Longrightarrow> store_ok (import_allowances now as s)"
    unfolding import_allowances_def by (induction as arbitrary: s) (auto simp: store_ok_insert)
  show "\<not> offers p i (ImportOp now as) \<Longrightarrow> lookup_allowance (import_allowances now as s) p i = lookup_allowance s p i"
    unfolding import_allowances_def by (induction as arbitrary: s) (auto simp: lookup_insert)
  show "retiring_principals (import_allowances now as s) = retiring_principals s"
    unfolding import_allowances_def by (induction as arbitrary: s) (auto simp: insert_allowance_def)
qed

lemma spend_use_fields [simp]:
  "al_id (spend_use a) = al_id a" "al_principal (spend_use a) = al_principal a"
  "al_uses_remaining (spend_use a) = map_option saturating_dec (al_uses_remaining a)"
  by (simp_all add: spend_use_def)

lemma check_step:
  assumes ok: "store_ok s" and run: "find_matching_and_consume glob now p act ws s = (r, s')"
  shows "store_ok s'" and "shrinks (lookup_allowance s q i) (lookup_allowance s' q i)"
    and "retiring_principals s' = retiring_principals s"
proof -
  let ?live = "hm_retain (\<lambda>_ b. \<not> al_is_expired now b)"
  have "store_ok s' \<and> shrinks (lookup_allowance s q i) (lookup_allowance s' q i) \<and> retiring_principals s' = retiring_principals s"
  proof (cases r)
    case (Some a)
    note g = find_matching_and_consume_grant [OF ok run [unfolded Some]]
    obtain m where m: "hm_get (allowances s) p = Some m"
      and s': "s' = s\<lparr>allowances := hm_insert p (hm_insert (al_id a) (spend_use a) (?live m)) (allowances s)\<rparr>"
      using g(4) by blast
    have "map_ok p (?live m)" using store_okD [OF ok m] by (rule map_ok_retain)
    then have "store_ok s'"
      unfolding s' using lookup_ok [OF ok g(2)] by (intro store_ok_put [OF ok] map_ok_insert) simp_all
    moreover have "shrinks (lookup_allowance s q i) (lookup_allowance s' q i)"
      using map_ok_get [OF ok m, of i] g(2) retain_shrinks [of m i "\<lambda>_ b. \<not> al_is_expired now b"]
      by (auto simp: s' lookup_put hm.get_insert shrinks_def)
    ultimately show ?thesis by (simp add: s')
  next
    case None
    have "s' = s \<or> (\<exists>m. hm_get (allowances s) p = Some m \<and> s' = s\<lparr>allowances := hm_insert p (?live m) (allowances s)\<rparr>)"
      using run None by (auto simp: find_matching_and_consume_def Let_def split: if_splits option.splits)
    then show ?thesis
    proof (elim disjE exE conjE)
      fix m assume m: "hm_get (allowances s) p = Some m" and s': "s' = s\<lparr>allowances := hm_insert p (?live m) (allowances s)\<rparr>"
      show ?thesis
        using map_ok_get [OF ok m, of i] store_okD [OF ok m] retain_shrinks [of m i "\<lambda>_ b. \<not> al_is_expired now b"]
        by (auto simp: s' lookup_put store_ok_put ok map_ok_retain)
    qed (use ok in simp)
  qed
  then show "store_ok s'" "shrinks (lookup_allowance s q i) (lookup_allowance s' q i)"
    "retiring_principals s' = retiring_principals s" by blast+
qed

lemma consume_step:
  assumes ok: "store_ok s"
  shows "store_ok (snd (consume_use p j s))"
    and "shrinks (lookup_allowance s q i) (lookup_allowance (snd (consume_use p j s)) q i)"
    and "retiring_principals (snd (consume_use p j s)) = retiring_principals s"
proof -
  have "snd (consume_use p j s) = s \<or> (\<exists>m a. hm_get (allowances s) p = Some m \<and> hm_get m j = Some a \<and>
      snd (consume_use p j s) = s\<lparr>allowances := hm_insert p (hm_insert j (spend_use a) m) (allowances s)\<rparr>)"
    by (auto simp: consume_use_def split: option.split)
  then have "store_ok (snd (consume_use p j s)) \<and> shrinks (lookup_allowance s q i) (lookup_allowance (snd (consume_use p j s)) q i)
      \<and> retiring_principals (snd (consume_use p j s)) = retiring_principals s"
  proof (elim disjE exE conjE)
    fix m a
    assume m: "hm_get (allowances s) p = Some m" and a: "hm_get m j = Some a"
      and s': "snd (consume_use p j s) = s\<lparr>allowances := hm_insert p (hm_insert j (spend_use a) m) (allowances s)\<rparr>"
    have "map_ok p m" by (rule store_okD [OF ok m])
    then have "map_ok p (hm_insert j (spend_use a) m)" using a by (intro map_ok_insert) (auto simp: map_ok_def)
    then show ?thesis
      using map_ok_get [OF ok m, of i] a by (auto simp: s' store_ok_put [OF ok] lookup_put hm.get_insert shrinks_def)
  qed (use ok in simp)
  then show "store_ok (snd (consume_use p j s))"
    "shrinks (lookup_allowance s q i) (lookup_allowance (snd (consume_use p j s)) q i)"
    "retiring_principals (snd (consume_use p j s)) = retiring_principals s" by blast+
qed

lemma retain_everywhere_step:
  assumes "store_ok s"
  shows "shrinks (lookup_allowance s q i) (lookup_allowance (retain_everywhere P s) q i)"
  by (simp add: lookup_retain [OF assms] shrinks_def split: option.split)

lemma clear_session_step:
  assumes ok: "store_ok s"
  shows "store_ok (clear_session_allowances p s)"
    and "shrinks (lookup_allowance s q i) (lookup_allowance (clear_session_allowances p s) q i)"
proof -
  have "store_ok (clear_session_allowances p s) \<and> shrinks (lookup_allowance s q i) (lookup_allowance (clear_session_allowances p s) q i)"
  proof (cases "hm_get (allowances s) p")
    case (Some m)
    show ?thesis
      using map_ok_get [OF ok Some, of i] store_okD [OF ok Some] retain_shrinks [of m i "\<lambda>_ a. \<not> al_session_only a"]
      by (auto simp: clear_session_allowances_def Some Let_def store_ok_put store_ok_drop ok map_ok_retain lookup_put lookup_drop)
  qed (simp add: clear_session_allowances_def ok)
  then show "store_ok (clear_session_allowances p s)"
    "shrinks (lookup_allowance s q i) (lookup_allowance (clear_session_allowances p s) q i)" by blast+
qed

lemma store_ok_begin: "store_ok s \<Longrightarrow> store_ok (begin_principal_retirement p s)"
  by (simp add: begin_principal_retirement_def store_ok_def hm.wf_remove hm.get_remove)

lemma lookup_begin:
  "lookup_allowance (begin_principal_retirement p s) q i = (if q = p then None else lookup_allowance s q i)"
  by (simp add: begin_principal_retirement_def lookup_allowance_def principal_map_def hm.get_remove)

lemma allowance_op_step:
  assumes ok: "store_ok s" and run: "apply_allowance_op glob op s = (r, s')"
  shows "store_ok s'" and "\<not> offers p i op \<Longrightarrow> shrinks (lookup_allowance s p i) (lookup_allowance s' p i)"
proof -
  have "store_ok s' \<and> (\<not> offers p i op \<longrightarrow> shrinks (lookup_allowance s p i) (lookup_allowance s' p i))"
  proof (cases op)
    case (AddOp a)
    then show ?thesis using run ok by (auto simp: add_allowance_def store_ok_insert lookup_insert)
  next
    case (CheckOp now q act ws)
    then show ?thesis using run check_step(1,2) [OF ok] by auto
  next
    case (ConsumeOp q j)
    then show ?thesis using run consume_step(1,2) [OF ok] by auto
  next
    case (CleanupOp now)
    then show ?thesis using run ok by (auto simp: cleanup_expired_def store_ok_retain retain_everywhere_step)
  next
    case (ClearSessionOp q)
    then show ?thesis using run clear_session_step [OF ok] by auto
  next
    case (ClearPrincipalOp q)
    then show ?thesis using run ok by (auto simp: clear_for_principal_def store_ok_drop lookup_drop)
  next
    case (BeginRetirementOp q)
    then show ?thesis using run ok by (auto simp: store_ok_begin lookup_begin)
  next
    case (FinishRetirementOp q)
    then show ?thesis using run ok by (auto simp: finish_principal_retirement_def)
  next
    case ClearAllSessionsOp
    then show ?thesis using run ok by (auto simp: clear_all_session_allowances_def store_ok_retain retain_everywhere_step)
  next
    case (ImportOp now as)
    then show ?thesis using run import_step(1) [OF ok] import_step(2) [where s = s] by auto
  qed
  then show "store_ok s'" and "\<not> offers p i op \<Longrightarrow> shrinks (lookup_allowance s p i) (lookup_allowance s' p i)" by blast+
qed

interpretation store_run: op_machine "apply_allowance_op glob" store_ok "\<lambda>_. True" for glob
  by unfold_locales (rule allowance_op_step(1))

definition reachable_store :: "(string \<Rightarrow> string \<Rightarrow> bool) \<Rightarrow> AllowanceStore \<Rightarrow> bool" where
  "reachable_store glob s \<longleftrightarrow> (\<exists>ops rs. run_ops (apply_allowance_op glob) ops AllowanceStore_new = (rs, s))"

lemma reachable_store_ok: "reachable_store glob s \<Longrightarrow> store_ok s"
  using store_run.ok_run [OF store_ok_new] by (auto simp: reachable_store_def list_all_iff)

section \<open>The budget of a limited allowance\<close>

definition limited :: "PrincipalId \<Rightarrow> AllowanceId \<Rightarrow> AllowanceStore \<Rightarrow> bool" where
  "limited p i s \<longleftrightarrow> store_ok s \<and> (\<forall>a. lookup_allowance s p i = Some a \<longrightarrow> al_uses_remaining a \<noteq> None)"

definition uses_left :: "PrincipalId \<Rightarrow> AllowanceId \<Rightarrow> AllowanceStore \<Rightarrow> nat" where
  "uses_left p i s =
     (case lookup_allowance s p i of
        None \<Rightarrow> 0
      | Some a \<Rightarrow> (case al_uses_remaining a of None \<Rightarrow> 0 | Some n \<Rightarrow> unat n))"

definition granted_as :: "PrincipalId \<Rightarrow> AllowanceId \<Rightarrow> Allowance option \<Rightarrow> bool" where
  "granted_as p i r \<longleftrightarrow> (\<exists>a. r = Some a \<and> al_principal a = p \<and> al_id a = i)"

lemma saturating_dec_unat: "unat (saturating_dec n) = unat n - 1"
  by (simp add: saturating_dec_def unat_minus_one)

lemma shrinks_uses_left:
  assumes "limited p i s" and "shrinks (lookup_allowance s p i) (lookup_allowance s' p i)"
  shows "uses_left p i s' \<le> uses_left p i s"
  using assms
  by (auto simp: shrinks_def uses_left_def limited_def saturating_dec_unat split: option.splits)

lemma only_checks_grant: "apply_allowance_op glob op s = (Some a, s') \<Longrightarrow> \<exists>now q act ws. op = CheckOp now q act ws"
  by (cases op) auto

lemma grant_spends:
  assumes ok: "store_ok s" and run: "apply_allowance_op glob op s = (Some a, s')"
    and lim: "al_uses_remaining a = Some n"
  shows "lookup_allowance s (al_principal a) (al_id a) = Some a" and "0 < unat n"
    and "lookup_allowance s' (al_principal a) (al_id a) = Some (spend_use a)"
proof -
  obtain now q act ws where "find_matching_and_consume glob now q act ws s = (Some a, s')"
    using only_checks_grant [OF run] run by auto
  note g = find_matching_and_consume_grant [OF ok this]
  have q: "q = al_principal a" using lookup_ok [OF ok g(2)] by simp
  show "lookup_allowance s (al_principal a) (al_id a) = Some a" using g(2) q by simp
  show "0 < unat n"
    using g(3) lim by (auto simp: allowance_matches_def al_is_valid_def has_uses_remaining_def unat_gt_0 word_gt_0 split: if_splits)
  show "lookup_allowance s' (al_principal a) (al_id a) = Some (spend_use a)"
    using g(4) q by (auto simp: lookup_put hm.get_insert)
qed

lemma limited_step:
  assumes lim: "limited p i s" and adm: "\<not> offers p i op" and run: "apply_allowance_op glob op s = (r, s')"
  shows "limited p i s'" and "(if granted_as p i r then 1 else 0) + uses_left p i s' \<le> uses_left p i s"
proof -
  have ok: "store_ok s" using lim by (simp add: limited_def)
  note step = allowance_op_step [OF ok run]
  show "limited p i s'" using lim step(1) step(2) [OF adm] by (auto simp: limited_def shrinks_def)
  show "(if granted_as p i r then 1 else 0) + uses_left p i s' \<le> uses_left p i s"
  proof (cases "granted_as p i r")
    case True
    then obtain a where a: "r = Some a" "al_principal a = p" "al_id a = i" by (auto simp: granted_as_def)
    note run' = run [unfolded a(1)]
    obtain n where n: "al_uses_remaining a = Some n"
    proof (cases "al_uses_remaining a")
      case None
      obtain now q act ws where c: "find_matching_and_consume glob now q act ws s = (Some a, s')"
        using only_checks_grant [OF run'] run' by auto
      have "lookup_allowance s p i = Some a"
        using find_matching_and_consume_grant(2) [OF ok c] lookup_ok [OF ok find_matching_and_consume_grant(2) [OF ok c]] a by simp
      with lim None show thesis by (simp add: limited_def)
    qed (use that in blast)
    from grant_spends [OF ok run' n] a n True show ?thesis
      by (simp add: uses_left_def saturating_dec_unat)
  next
    case False
    then show ?thesis using shrinks_uses_left [OF lim step(2) [OF adm]] by simp
  qed
qed

interpretation limited_use: budgeted_machine "apply_allowance_op glob" "limited p i" "\<lambda>op. \<not> offers p i op"
    "uses_left p i" "\<lambda>op r. if granted_as p i r then 1 else 0" for glob p i
  by unfold_locales (auto intro: limited_step(1) dest: limited_step(2))

section \<open>The retirement fence\<close>

definition retired :: "PrincipalId \<Rightarrow> AllowanceStore \<Rightarrow> bool" where
  "retired p s \<longleftrightarrow> store_ok s \<and> p \<in> retiring_principals s \<and> (\<forall>i. lookup_allowance s p i = None)"

fun keeps_fence :: "PrincipalId \<Rightarrow> AllowanceOp \<Rightarrow> bool" where
  "keeps_fence p (FinishRetirementOp q) = (q \<noteq> p)"
| "keeps_fence p (ImportOp now as) = list_all (\<lambda>a. al_principal a \<noteq> p) as"
| "keeps_fence p _ = True"

lemma begin_retired: "store_ok s \<Longrightarrow> retired p (begin_principal_retirement p s)"
  by (simp add: retired_def store_ok_begin lookup_begin) (simp add: begin_principal_retirement_def)

lemma retiring_step:
  assumes ok: "store_ok s" and run: "apply_allowance_op glob op s = (r, s')" and "p \<in> retiring_principals s" "keeps_fence p op"
  shows "p \<in> retiring_principals s'"
proof (cases op)
  case (CheckOp now q act ws)
  then show ?thesis using assms check_step(3) [OF ok] by auto
next
  case (ConsumeOp q j)
  then show ?thesis using assms consume_step(3) [OF ok] by auto
next
  case (ImportOp now as)
  then show ?thesis using assms import_step(3) by auto
qed (use assms in \<open>auto simp: add_allowance_def insert_allowance_def cleanup_expired_def retain_everywhere_def
      clear_session_allowances_def clear_for_principal_def begin_principal_retirement_def finish_principal_retirement_def
      clear_all_session_allowances_def Let_def split: option.splits if_splits\<close>)

lemma retired_step:
  assumes ret: "retired p s" and fence: "keeps_fence p op" and run: "apply_allowance_op glob op s = (r, s')"
  shows "retired p s'" and "\<not> granted_as p i r"
proof -
  have ok: "store_ok s" and p: "p \<in> retiring_principals s" and none: "\<And>i. lookup_allowance s p i = None"
    using ret by (auto simp: retired_def)
  have "lookup_allowance s' p i = None" for i
  proof (cases "offers p i op")
    case True
    then show ?thesis using fence run p none by (cases op) (auto simp: add_allowance_def list_all_iff list_ex_iff)
  next
    case False
    then show ?thesis using allowance_op_step(2) [OF ok run False] none by (simp add: shrinks_def)
  qed
  then show "retired p s'"
    using allowance_op_step(1) [OF ok run] retiring_step [OF ok run p fence] by (simp add: retired_def)
  show "\<not> granted_as p i r"
  proof
    assume "granted_as p i r"
    then obtain a where a: "r = Some a" "al_principal a = p" by (auto simp: granted_as_def)
    then obtain now q act ws where c: "find_matching_and_consume glob now q act ws s = (Some a, s')"
      using only_checks_grant run by fastforce
    then show False
      using find_matching_and_consume_grant(1,2) [OF ok c] lookup_ok [OF ok] a(2) p by blast
  qed
qed

interpretation fence: budgeted_machine "apply_allowance_op glob" "retired p" "keeps_fence p"
    "\<lambda>_. 0" "\<lambda>op r. if \<exists>i. granted_as p i r then 1 else 0" for glob p
  by unfold_locales (auto intro: retired_step(1) dest: retired_step(2))

lemma spent_by_count:
  "length rs = length ops \<Longrightarrow> spent_by (\<lambda>op r. if P r then 1 else 0) ops rs = length (filter P rs)"
  by (induction ops rs rule: list_induct2') auto

section \<open>Properties\<close>

text \<open>
  C13.  What an allowance can approve.  In every store the operations can produce, a check that is
  answered from an allowance used one that was granted to the very principal that asks, that is not
  expired, has a use left and belongs to the workspace at hand, while that principal is not being
  retired.  The action it approves is confined: a file action has no parent-directory step and
  stays inside the workspace of a workspace pattern, a command has no shell operator in any of its
  parts, a network or capsule action belongs to the capsule the grant names, and transfers,
  payments, access changes and capability grants are never approved.  The check spends one use of
  that allowance and changes no other principal's.
\<close>

theorem allowance_grant_confined:
  assumes "reachable_store glob s" and "find_matching_and_consume glob now p act ws s = (Some a, s')"
  shows "al_principal a = p \<and> p \<notin> retiring_principals s \<and> lookup_allowance s p (al_id a) = Some a
    \<and> (\<forall>t. al_expires_at a = Some t \<longrightarrow> now \<le> t) \<and> al_uses_remaining a \<noteq> Some 0
    \<and> (\<forall>root. al_workspace_root a = Some root \<longrightarrow> (\<exists>w. ws = Some w \<and> path_components w = path_components root))
    \<and> confined_grant act ws (al_action_pattern a)
    \<and> lookup_allowance s' p (al_id a) = Some (spend_use a)
    \<and> (\<forall>q i. q \<noteq> p \<longrightarrow> lookup_allowance s' q i = lookup_allowance s q i)"
proof -
  have ok: "store_ok s" by (rule reachable_store_ok [OF assms(1)])
  note g = find_matching_and_consume_grant [OF ok assms(2)]
  have match: "al_is_valid now a" "pattern_matches glob (al_action_pattern a) act ws"
      "\<forall>root. al_workspace_root a = Some root \<longrightarrow> (\<exists>w. ws = Some w \<and> path_components w = path_components root)"
    using g(3) by (auto simp: allowance_matches_def split: if_splits option.splits)
  obtain m where s': "s' = s\<lparr>allowances := hm_insert p (hm_insert (al_id a) (spend_use a)
      (hm_retain (\<lambda>_ b. \<not> al_is_expired now b) m)) (allowances s)\<rparr>" using g(4) by blast
  have "lookup_allowance s' p (al_id a) = Some (spend_use a)"
    and "q \<noteq> p \<Longrightarrow> lookup_allowance s' q i = lookup_allowance s q i" for q i
    by (simp_all add: s' lookup_put hm.get_insert)
  moreover have "\<forall>t. al_expires_at a = Some t \<longrightarrow> now \<le> t" and "al_uses_remaining a \<noteq> Some 0"
    using match(1) by (auto simp: al_is_valid_def al_is_expired_def has_uses_remaining_def)
  ultimately show ?thesis
    using g(1,2) match(3) pattern_matches_confined [OF match(2)] lookup_ok [OF ok g(2)] by blast
qed

definition demo_allowance :: Allowance where
  "demo_allowance = \<lparr>al_id = 7, al_principal = PrincipalId ''alice'', al_action_pattern = CommandPattern ''git push *'',
     al_created_at = 0, al_expires_at = Some 9, al_max_uses = Some 1, al_uses_remaining = Some 1,
     al_session_only = True, al_workspace_root = None, al_signature = []\<rparr>"

definition demo_store :: AllowanceStore where
  "demo_store = snd (add_allowance demo_allowance AllowanceStore_new)"

lemma demo_reachable: "reachable_store glob demo_store"
  unfolding reachable_store_def demo_store_def
  by (intro exI [of _ "[AddOp demo_allowance]"] exI [of _ "[None]"]) simp

lemma demo_check:
  "find_matching_and_consume glob 3 (PrincipalId ''alice'') (ExecuteCommand ''git push'' []) None demo_store =
     (Some demo_allowance, insert_allowance (spend_use demo_allowance) AllowanceStore_new)"
  by (simp add: find_matching_and_consume_def demo_store_def demo_allowance_def add_allowance_def insert_allowance_def
      AllowanceStore_new_def principal_map_def hm_insert_def hm_retain_def hm_values_def al_is_expired_def allowance_matches_def
      al_is_valid_def has_uses_remaining_def pattern_matches_def full_command_def contains_shell_operators_def
      starts_with_def strip_suffix_def spend_use_def)

theorem allowance_grant_confined_witness:
  "confined_grant (ExecuteCommand ''git push'' []) None (CommandPattern ''git push *'') \<and> al_principal demo_allowance = PrincipalId ''alice''"
  using allowance_grant_confined [OF demo_reachable [of "\<lambda>_ _. False"] demo_check] by (simp add: demo_allowance_def)

text \<open>
  C14.  Limited allowances are not overspent.  However the operations of the store interleave, an
  allowance with \<open>n\<close> uses left is granted at most \<open>n\<close> times, unless it is offered to the store again.
\<close>

theorem allowance_use_bound:
  assumes "reachable_store glob s" and "lookup_allowance s p i = Some a" and "al_uses_remaining a = Some n"
    and "list_all (\<lambda>op. \<not> offers p i op) ops" and "run_ops (apply_allowance_op glob) ops s = (rs, s')"
  shows "length (filter (granted_as p i) rs) \<le> unat n"
proof -
  have "limited p i s" using assms(2,3) reachable_store_ok [OF assms(1)] by (simp add: limited_def)
  from limited_use.budget_run [OF this assms(4,5)] spent_by_count [OF run_ops_length [OF assms(5)]]
  show ?thesis using assms(2,3) by (simp add: uses_left_def)
qed

theorem allowance_use_bound_witness:
  "length (filter (granted_as (PrincipalId ''alice'') 7)
     (fst (run_ops (apply_allowance_op (\<lambda>_ _. False))
       [CheckOp 3 (PrincipalId ''alice'') (ExecuteCommand ''git push'' []) None,
        CheckOp 4 (PrincipalId ''alice'') (ExecuteCommand ''git push'' []) None] demo_store))) \<le> unat (1 :: u32)"
proof -
  let ?ops = "[CheckOp 3 (PrincipalId ''alice'') (ExecuteCommand ''git push'' []) None,
        CheckOp 4 (PrincipalId ''alice'') (ExecuteCommand ''git push'' []) None]"
  obtain rs s' where run: "run_ops (apply_allowance_op (\<lambda>_ _. False)) ?ops demo_store = (rs, s')" by (rule prod.exhaust)
  have "lookup_allowance demo_store (PrincipalId ''alice'') 7 = Some demo_allowance"
    by (simp add: demo_store_def add_allowance_def AllowanceStore_new_def lookup_insert) (simp add: demo_allowance_def)
  from allowance_use_bound [OF demo_reachable this _ _ run] show ?thesis
    unfolding run fst_conv by (simp add: demo_allowance_def)
qed

text \<open>
  C15.  Nothing crosses the retirement of a principal.  From the moment a principal is fenced until
  the fence is lifted, no check is answered from an allowance of that principal, whatever else the
  store is asked to do, and once it is lifted the store holds no allowance for the name.  Importing
  saved allowances of that very principal in between is excepted.
\<close>

theorem retirement_fences_principal:
  assumes "reachable_store glob s" and "list_all (keeps_fence p) ops"
    and "run_ops (apply_allowance_op glob) ops (begin_principal_retirement p s) = (rs, s')"
  shows "filter (\<lambda>r. \<exists>i. granted_as p i r) rs = [] \<and> (\<forall>i. lookup_allowance (finish_principal_retirement p s') p i = None)"
proof -
  have "retired p (begin_principal_retirement p s)" by (rule begin_retired [OF reachable_store_ok [OF assms(1)]])
  note run = this assms(2,3)
  from fence.budget_run [OF run] spent_by_count [OF run_ops_length [OF assms(3)]]
  have "length (filter (\<lambda>r. \<exists>i. granted_as p i r) rs) = 0" by simp
  moreover have "retired p s'" by (rule fence.ok_run [OF run])
  ultimately show ?thesis by (simp add: retired_def finish_principal_retirement_def)
qed

theorem retirement_fences_principal_witness:
  "lookup_allowance (finish_principal_retirement (PrincipalId ''alice'')
     (snd (run_ops (apply_allowance_op (\<lambda>_ _. False))
       [AddOp demo_allowance, CheckOp 3 (PrincipalId ''alice'') (ExecuteCommand ''git push'' []) None]
       (begin_principal_retirement (PrincipalId ''alice'') demo_store)))) (PrincipalId ''alice'') 7 = None"
proof -
  let ?p = "PrincipalId ''alice''"
  let ?ops = "[AddOp demo_allowance, CheckOp 3 ?p (ExecuteCommand ''git push'' []) None]"
  obtain rs s' where run: "run_ops (apply_allowance_op (\<lambda>_ _. False)) ?ops (begin_principal_retirement ?p demo_store) = (rs, s')"
    by (rule prod.exhaust)
  from retirement_fences_principal [OF demo_reachable _ run] show ?thesis unfolding run snd_conv by simp
qed

text \<open>
  Importing is not fenced: an allowance imported while its principal is being retired is answered
  from once the fence is lifted.
\<close>

lemma import_crosses_retirement:
  "fst (find_matching_and_consume glob 3 (PrincipalId ''alice'') (ExecuteCommand ''git push'' []) None
     (finish_principal_retirement (PrincipalId ''alice'')
       (import_allowances 2 [demo_allowance] (begin_principal_retirement (PrincipalId ''alice'') AllowanceStore_new))))
   = Some demo_allowance"
proof -
  have "finish_principal_retirement (PrincipalId ''alice'')
       (import_allowances 2 [demo_allowance] (begin_principal_retirement (PrincipalId ''alice'') AllowanceStore_new)) = demo_store"
    by (simp add: finish_principal_retirement_def import_allowances_def begin_principal_retirement_def demo_store_def
        add_allowance_def insert_allowance_def AllowanceStore_new_def principal_map_def hm_remove_def
        demo_allowance_def al_is_valid_def al_is_expired_def has_uses_remaining_def)
  then show ?thesis by (simp add: demo_check)
qed

text \<open>A variable expansion is no shell operator: a command that contains one can be approved from an allowance.\<close>

lemma dollar_variable_approved:
  "pattern_matches glob (CommandPattern ''echo $HOME *'') (ExecuteCommand ''echo $HOME'' []) ws"
  by (simp add: pattern_matches_def full_command_def contains_shell_operators_def starts_with_def strip_suffix_def)

end
