(* ===== verification/Text_Format.thy ===== *)
theory Text_Format
  imports Astrid_Prelude
begin

text \<open>
  The text functions of the Rust standard library that the network and approval code uses: splitting
  at a separator, searching, comparison without case, decimal output, and the integer and UTF-8 readers.
\<close>

section \<open>Definitions\<close>

definition eq_ignore_ascii_case :: "string \<Rightarrow> string \<Rightarrow> bool" where
  "eq_ignore_ascii_case a b = (map to_ascii_lowercase a = map to_ascii_lowercase b)"

text \<open>\<open>str::split_once\<close> and \<open>str::rsplit_once\<close> at a character.\<close>

fun split_once :: "'a \<Rightarrow> 'a list \<Rightarrow> ('a list \<times> 'a list) option" where
  "split_once c [] = None"
| "split_once c (x # xs) = (if x = c then Some ([], xs) else map_option (\<lambda>(a, b). (x # a, b)) (split_once c xs))"

definition rsplit_once :: "'a \<Rightarrow> 'a list \<Rightarrow> ('a list \<times> 'a list) option" where
  "rsplit_once c s = map_option (\<lambda>(a, b). (rev b, rev a)) (split_once c (rev s))"

text \<open>The first occurrence of a pattern, as the text before it and the text after it.\<close>

fun split_at_str :: "'a list \<Rightarrow> 'a list \<Rightarrow> ('a list \<times> 'a list) option" where
  "split_at_str p [] = (if p = [] then Some ([], []) else None)"
| "split_at_str p (x # xs) =
     (case strip_prefix p (x # xs) of
        Some rest \<Rightarrow> Some ([], rest)
      | None \<Rightarrow> map_option (\<lambda>(a, b). (x # a, b)) (split_at_str p xs))"

text \<open>\<open>char::to_digit\<close>, and the checked accumulation of \<open>from_str_radix\<close> for an unsigned type.\<close>

definition to_digit :: "nat \<Rightarrow> char \<Rightarrow> nat option" where
  "to_digit radix c =
     (let v = (if is_ascii_digit c then char_code c - 48
               else if is_ascii_lowercase c then char_code c - 87
               else if is_ascii_uppercase c then char_code c - 55 else radix)
      in if v < radix then Some v else None)"

fun checked_digits :: "nat \<Rightarrow> nat \<Rightarrow> nat \<Rightarrow> string \<Rightarrow> nat option" where
  "checked_digits radix limit acc [] = Some acc"
| "checked_digits radix limit acc (c # cs) =
     (case to_digit radix c of
        None \<Rightarrow> None
      | Some d \<Rightarrow> if acc * radix + d \<le> limit then checked_digits radix limit (acc * radix + d) cs else None)"

definition parse_unsigned :: "nat \<Rightarrow> string \<Rightarrow> nat option" where
  "parse_unsigned limit s =
     (if s = [] \<or> s = ''+'' \<or> s = ''-'' then None
      else checked_digits 10 limit 0 (if hd s = CHR ''+'' then tl s else s))"

definition parse_u16 :: "string \<Rightarrow> u16 option" where
  "parse_u16 s = map_option word_of_nat (parse_unsigned 65535 s)"

text \<open>Decimal output of an unsigned integer.\<close>

fun dec :: "nat \<Rightarrow> string" where
  "dec n = (if n < 10 then [char_of (48 + n)] else dec (n div 10) @ [char_of (48 + n mod 10)])"

declare dec.simps [simp del]

text \<open>\<open>std::str::from_utf8\<close>: which byte strings are well-formed UTF-8.\<close>

definition cont_byte :: "nat \<Rightarrow> nat \<Rightarrow> char \<Rightarrow> bool" where
  "cont_byte lo hi c \<longleftrightarrow> lo \<le> char_code c \<and> char_code c \<le> hi"

fun utf8_valid :: "string \<Rightarrow> bool" where
  "utf8_valid [] = True"
| "utf8_valid (a # s) =
     (let n = char_code a
      in if n < 0x80 then utf8_valid s
         else if 0xC2 \<le> n \<and> n \<le> 0xDF then
           (case s of b # s1 \<Rightarrow> cont_byte 0x80 0xBF b \<and> utf8_valid s1 | _ \<Rightarrow> False)
         else if 0xE0 \<le> n \<and> n \<le> 0xEF then
           (case s of b # c # s2 \<Rightarrow>
              cont_byte (if n = 0xE0 then 0xA0 else 0x80) (if n = 0xED then 0x9F else 0xBF) b
              \<and> cont_byte 0x80 0xBF c \<and> utf8_valid s2 | _ \<Rightarrow> False)
         else if 0xF0 \<le> n \<and> n \<le> 0xF4 then
           (case s of b # c # d # s3 \<Rightarrow>
              cont_byte (if n = 0xF0 then 0x90 else 0x80) (if n = 0xF4 then 0x8F else 0xBF) b
              \<and> cont_byte 0x80 0xBF c \<and> cont_byte 0x80 0xBF d \<and> utf8_valid s3 | _ \<Rightarrow> False)
         else False)"

section \<open>Splitting\<close>

lemma split_once_Some: "split_once c s = Some (a, b) \<longleftrightarrow> s = a @ c # b \<and> c \<notin> set a"
proof (induction s arbitrary: a)
  case (Cons x xs)
  then show ?case by (cases a) auto
qed simp

lemma split_once_None: "split_once c s = None \<longleftrightarrow> c \<notin> set s"
  by (induction s) auto

lemma rsplit_once_Some: "rsplit_once c s = Some (a, b) \<longleftrightarrow> s = a @ c # b \<and> c \<notin> set b"
proof -
  have "rsplit_once c s = Some (a, b) \<longleftrightarrow> split_once c (rev s) = Some (rev b, rev a)"
    by (auto simp: rsplit_once_def)
  also have "\<dots> \<longleftrightarrow> s = a @ c # b \<and> c \<notin> set b"
    unfolding split_once_Some by (auto simp: rev_swap)
  finally show ?thesis .
qed

lemma split_at_str_Some: "split_at_str p s = Some (a, b) \<Longrightarrow> s = a @ p @ b"
  by (induction p s arbitrary: a rule: split_at_str.induct)
    (auto simp: strip_prefix_Some_iff split: if_splits option.splits)

lemma split_at_str_None: "split_at_str p s = None \<longleftrightarrow> \<not> contains_str p s"
proof (induction p s rule: split_at_str.induct)
  case (2 p x xs)
  have "strip_prefix p (x # xs) = None \<longleftrightarrow> \<not> starts_with p (x # xs)" by (auto simp: starts_with_def)
  with 2 show ?case by (auto split: option.splits)
qed simp

lemma eq_ignore_ascii_case_refl [simp]: "eq_ignore_ascii_case a a"
  by (simp add: eq_ignore_ascii_case_def)

section \<open>Numbers\<close>

lemma to_digit_dec: "d < 10 \<Longrightarrow> to_digit 10 (char_of (48 + d)) = Some d"
  by (simp add: to_digit_def ascii_defs of_char_of)

lemma checked_digits_append:
  "checked_digits r t acc (s @ u) =
     (case checked_digits r t acc s of None \<Rightarrow> None | Some n \<Rightarrow> checked_digits r t n u)"
  by (induction r t acc s rule: checked_digits.induct) (auto split: option.splits)

lemma checked_digits_dec:
  assumes "n \<le> t"
  shows "checked_digits 10 t 0 (dec n) = Some n"
  using assms
proof (induction n rule: dec.induct)
  case (1 n)
  show ?case
  proof (cases "n < 10")
    case True
    then show ?thesis using 1 to_digit_dec [of n] by (subst dec.simps) simp
  next
    case False
    then have "checked_digits 10 t 0 (dec (n div 10)) = Some (n div 10)" using 1 by auto
    moreover have "n div 10 * 10 + n mod 10 = n" by simp
    ultimately show ?thesis using False 1(2) to_digit_dec [of "n mod 10"]
      by (subst dec.simps) (simp add: checked_digits_append)
  qed
qed

lemma dec_digits: "c \<in> set (dec n) \<Longrightarrow> is_ascii_digit c"
proof (induction n rule: dec.induct)
  case (1 n)
  then show ?case by (subst (asm) (2) dec.simps) (auto simp: ascii_defs of_char_of split: if_splits)
qed

lemma dec_not_Nil [simp]: "dec n \<noteq> []"
  by (subst dec.simps) auto

lemma dec_hd_digit: "is_ascii_digit (hd (dec n))"
  using dec_digits [of "hd (dec n)" n] by simp

lemma parse_unsigned_dec: "n \<le> t \<Longrightarrow> parse_unsigned t (dec n) = Some n"
proof -
  have h: "is_ascii_digit (hd (dec n))" by (rule dec_hd_digit)
  have s: "\<not> is_ascii_digit (CHR ''+'')" "\<not> is_ascii_digit (CHR ''-'')" by (simp_all add: ascii_defs)
  have "hd (dec n) \<noteq> CHR ''+''" "dec n \<noteq> ''+''" "dec n \<noteq> ''-''" using h s by auto
  moreover assume "n \<le> t"
  ultimately show ?thesis by (simp add: parse_unsigned_def checked_digits_dec)
qed

lemma parse_u16_dec [simp]: "parse_u16 (dec (unat w)) = Some w"
proof -
  have "unat w < 65536" using unsigned_less [of w] by simp
  then show ?thesis by (simp add: parse_u16_def parse_unsigned_dec)
qed

lemma colon_not_in_dec [simp]: "CHR '':'' \<notin> set (dec n)"
  using dec_digits [of "CHR '':''" n] by (auto simp: ascii_defs)

end
