(* ===== verification/Profile_Cache.thy ===== *)
theory Profile_Cache
  imports Principal_Profile Text_Format
begin

text \<open>
  The cache of principal profiles: \<open>crates/astrid-capsule/src/profile_cache/{mod,load}.rs\<close>, with the
  loading and saving of a profile file of \<open>crates/astrid-core/src/profile/io_impl.rs\<close>.

  A profile file is missing, unreadable, not a profile, or the deserialised profile it holds; a
  write replaces it in one rename.  That what \<open>toml\<close> reads back is the profile it wrote is part of this
  representation: a saved file holds the profile that was saved.  A load token is the address of the shared allocation that the
  cache refers to weakly: a number, taken so that it differs from every token a loader still holds
  and from every token the cache refers to.
\<close>

section \<open>Profile files\<close>

datatype ProfileFile = Missing | Unreadable | Malformed | Content PrincipalProfile

datatype ProfileIoError = Io | NotFound | Parse | SaveFailed | InvalidProfile ProfileError
  | EmptyCommand | EmptyWorkspace | PrincipalIsDisabled

definition load_content :: "PrincipalProfile \<Rightarrow> (ProfileIoError, PrincipalProfile) result" where
  "load_content c =
     (let profile = c\<lparr>quotas := coerce_legacy_zero_cpu_fuel (quotas c)\<rparr>
      in case PrincipalProfile_validate profile of Inl e \<Rightarrow> Inl (InvalidProfile e) | Inr _ \<Rightarrow> Inr profile)"

definition load_from_path :: "ProfileFile \<Rightarrow> (ProfileIoError, PrincipalProfile) result" where
  "load_from_path f =
     (case f of
        Missing \<Rightarrow> Inr PrincipalProfile_default
      | Unreadable \<Rightarrow> Inl Io
      | Malformed \<Rightarrow> Inl Parse
      | Content c \<Rightarrow> load_content c)"

definition load_required :: "ProfileFile \<Rightarrow> (ProfileIoError, PrincipalProfile) result" where
  "load_required f =
     (case f of
        Missing \<Rightarrow> Inl NotFound
      | Unreadable \<Rightarrow> Inl Io
      | Malformed \<Rightarrow> Inl Parse
      | Content c \<Rightarrow> load_content c)"

definition save_to_path :: "bool \<Rightarrow> PrincipalProfile \<Rightarrow> (ProfileIoError, ProfileFile) result" where
  "save_to_path write_ok profile =
     (case PrincipalProfile_validate profile of
        Inl e \<Rightarrow> Inl (InvalidProfile e)
      | Inr _ \<Rightarrow> if write_ok then Inr (Content profile) else Inl SaveFailed)"

section \<open>The cache\<close>

type_synonym LoadToken = nat

record ProfileCacheState =
  pc_profiles :: "(PrincipalId, PrincipalProfile) hash_map"
  pc_loads :: "(PrincipalId, LoadToken) hash_map"

definition ProfileCacheState_default :: ProfileCacheState where
  "ProfileCacheState_default = \<lparr>pc_profiles = [], pc_loads = []\<rparr>"

definition pc_invalidate :: "PrincipalId \<Rightarrow> ProfileCacheState \<Rightarrow> ProfileCacheState" where
  "pc_invalidate p st = st\<lparr>pc_profiles := hm_remove p (pc_profiles st), pc_loads := hm_remove p (pc_loads st)\<rparr>"

definition begin_load ::
  "(LoadToken \<Rightarrow> bool) \<Rightarrow> LoadToken \<Rightarrow> PrincipalId \<Rightarrow> ProfileCacheState \<Rightarrow> LoadToken \<times> ProfileCacheState" where
  "begin_load live fresh p st =
     (case hm_get (pc_loads st) p of
        Some token \<Rightarrow>
          if live token then (token, st) else (fresh, st\<lparr>pc_loads := hm_insert p fresh (pc_loads st)\<rparr>)
      | None \<Rightarrow> (fresh, st\<lparr>pc_loads := hm_insert p fresh (pc_loads st)\<rparr>))"

definition is_current :: "PrincipalId \<Rightarrow> LoadToken \<Rightarrow> ProfileCacheState \<Rightarrow> bool" where
  "is_current p token st = (hm_get (pc_loads st) p = Some token)"

definition finish_load :: "(LoadToken \<Rightarrow> bool) \<Rightarrow> PrincipalId \<Rightarrow> LoadToken \<Rightarrow> ProfileCacheState \<Rightarrow> ProfileCacheState" where
  "finish_load live_others p token st =
     (if is_current p token st \<and> \<not> live_others token then st\<lparr>pc_loads := hm_remove p (pc_loads st)\<rparr> else st)"

definition resolve_load :: "PrincipalId \<Rightarrow> ProfileFile \<Rightarrow> (ProfileIoError, PrincipalProfile) result" where
  "resolve_load p f = (if p = default_principal then load_from_path f else load_required f)"

definition publish_loaded ::
  "PrincipalId \<Rightarrow> LoadToken \<Rightarrow> PrincipalProfile \<Rightarrow> ProfileCacheState \<Rightarrow> PrincipalProfile option \<times> ProfileCacheState" where
  "publish_loaded p token profile st =
     (if \<not> is_current p token st then (None, st)
      else case hm_get (pc_profiles st) p of
          Some entry \<Rightarrow> (Some entry, st)
        | None \<Rightarrow> (Some profile, st\<lparr>pc_profiles := hm_insert p profile (pc_profiles st)\<rparr>))"

text \<open>
  One pass of the loop of \<open>resolve\<close> that nothing interrupts; \<open>None\<close> sends the loop round again.  With
  nothing in between a pass always returns, so the loop ends.
\<close>

definition resolve_pass ::
  "PrincipalId \<Rightarrow> ProfileFile \<Rightarrow> ProfileCacheState
     \<Rightarrow> (ProfileIoError, PrincipalProfile) result option \<times> ProfileCacheState" where
  "resolve_pass p f st =
     (case hm_get (pc_profiles st) p of
        Some profile \<Rightarrow> (Some (Inr profile), st)
      | None \<Rightarrow>
          let (token, st1) = begin_load (\<lambda>_. False) 0 p st
          in case resolve_load p f of
               Inl e \<Rightarrow> (Some (Inl e), finish_load (\<lambda>_. False) p token st1)
             | Inr profile \<Rightarrow>
                 (case publish_loaded p token profile st1 of
                    (Some entry, st2) \<Rightarrow> (Some (Inr entry), finish_load (\<lambda>_. False) p token st2)
                  | (None, st2) \<Rightarrow> (None, finish_load (\<lambda>_. False) p token st2)))"

lemma resolve_pass_returns: "resolve_pass p f st \<noteq> (None, st')"
  by (auto simp: resolve_pass_def begin_load_def publish_loaded_def is_current_def hm.get_insert Let_def
      split: option.split sum.split)

function pc_resolve ::
  "PrincipalId \<Rightarrow> ProfileFile \<Rightarrow> ProfileCacheState \<Rightarrow> (ProfileIoError, PrincipalProfile) result \<times> ProfileCacheState" where
  "pc_resolve p f st =
     (case resolve_pass p f st of
        (Some r, st') \<Rightarrow> (r, st')
      | (None, st') \<Rightarrow> pc_resolve p f st')"
  by pat_completeness auto
termination
  by (relation "{}") (auto simp: resolve_pass_returns [symmetric])

declare pc_resolve.simps [simp del]

section \<open>Remembered approvals\<close>

datatype ProfileEdit = EgressEdit string string | CommandEdit string "string option" CommandApprovalLocation

definition egress_entries :: "PrincipalProfile \<Rightarrow> string \<Rightarrow> string list" where
  "egress_entries profile capsule_id =
     (case hm_get (capsule_egress (network profile)) capsule_id of None \<Rightarrow> [] | Some es \<Rightarrow> es)"

text \<open>The load and the change of the two persisting calls; a change of \<open>None\<close> means the entry is already there.\<close>

fun edit_load :: "ProfileEdit \<Rightarrow> PrincipalId \<Rightarrow> ProfileFile \<Rightarrow> (ProfileIoError, PrincipalProfile) result" where
  "edit_load (EgressEdit _ _) p f = load_from_path f"
| "edit_load (CommandEdit _ _ _) p f =
     and_then (if p = default_principal then load_from_path f else load_required f) (\<lambda>profile.
       if \<not> enabled profile then Inl PrincipalIsDisabled else Inr profile)"

fun edit_profile :: "ProfileEdit \<Rightarrow> PrincipalProfile \<Rightarrow> PrincipalProfile option" where
  "edit_profile (EgressEdit capsule_id endpoint) profile =
     (let entries = egress_entries profile capsule_id
      in if list_ex (\<lambda>e. eq_ignore_ascii_case e endpoint) entries then None
         else Some (profile\<lparr>network := (network profile)
                \<lparr>capsule_egress := hm_insert capsule_id (entries @ [endpoint]) (capsule_egress (network profile))\<rparr>\<rparr>))"
| "edit_profile (CommandEdit command workspace_root location) profile =
     (if list_ex (\<lambda>g. ca_command g = command \<and> ca_location g = location \<and> ca_workspace_root g = workspace_root)
           (command_always (approvals profile)) then None
      else Some (profile\<lparr>approvals := (approvals profile)
             \<lparr>command_always := command_always (approvals profile) @
                [\<lparr>ca_command = command, ca_location = location, ca_workspace_root = workspace_root\<rparr>]\<rparr>\<rparr>))"

definition persist_edit ::
  "ProfileEdit \<Rightarrow> bool \<Rightarrow> PrincipalId \<Rightarrow> ProfileFile \<Rightarrow> ProfileCacheState
     \<Rightarrow> (ProfileIoError, unit) result \<times> ProfileFile \<times> ProfileCacheState" where
  "persist_edit edit write_ok p f st =
     (case edit_load edit p f of
        Inl e \<Rightarrow> (Inl e, f, st)
      | Inr profile \<Rightarrow>
          (case edit_profile edit profile of
             None \<Rightarrow> (Inr (), f, st\<lparr>pc_profiles := hm_insert p profile (pc_profiles st)\<rparr>)
           | Some profile' \<Rightarrow>
               (case save_to_path write_ok profile' of
                  Inl e \<Rightarrow> (Inl e, f, st)
                | Inr f' \<Rightarrow> (Inr (), f', pc_invalidate p st))))"

definition persist_egress ::
  "bool \<Rightarrow> PrincipalId \<Rightarrow> string \<Rightarrow> string \<Rightarrow> ProfileFile \<Rightarrow> ProfileCacheState
     \<Rightarrow> (ProfileIoError, unit) result \<times> ProfileFile \<times> ProfileCacheState" where
  "persist_egress write_ok p capsule_id endpoint f st = persist_edit (EgressEdit capsule_id endpoint) write_ok p f st"

definition persist_command_at ::
  "bool \<Rightarrow> PrincipalId \<Rightarrow> string \<Rightarrow> string option \<Rightarrow> CommandApprovalLocation \<Rightarrow> ProfileFile \<Rightarrow> ProfileCacheState
     \<Rightarrow> (ProfileIoError, unit) result \<times> ProfileFile \<times> ProfileCacheState" where
  "persist_command_at write_ok p command workspace_root location f st =
     (let command = trim command
      in if command = [] then (Inl EmptyCommand, f, st)
         else if (case workspace_root of Some w \<Rightarrow> trim w = [] | None \<Rightarrow> False) then (Inl EmptyWorkspace, f, st)
         else persist_edit (CommandEdit command workspace_root location) write_ok p f st)"

definition persist_command_always ::
  "bool \<Rightarrow> PrincipalId \<Rightarrow> string \<Rightarrow> string option \<Rightarrow> ProfileFile \<Rightarrow> ProfileCacheState
     \<Rightarrow> (ProfileIoError, unit) result \<times> ProfileFile \<times> ProfileCacheState" where
  "persist_command_always write_ok p command workspace_root f st =
     persist_command_at write_ok p command workspace_root Hosted f st"

definition persist_astrid_command_always ::
  "bool \<Rightarrow> PrincipalId \<Rightarrow> string \<Rightarrow> ProfileFile \<Rightarrow> ProfileCacheState
     \<Rightarrow> (ProfileIoError, unit) result \<times> ProfileFile \<times> ProfileCacheState" where
  "persist_astrid_command_always write_ok p command f st = persist_command_at write_ok p command None AstridWorkspace f st"

section \<open>Interleavings\<close>

text \<open>
  Threads meet at the lock of the cache and at the profile files.  A loader goes through the phases
  of one pass of \<open>resolve\<close>; a writer outside the cache saves or removes a file and then
  invalidates; a persisting call holds the lock from its load to its end.
\<close>

datatype LoaderPhase =
    LoadBegun PrincipalId LoadToken
  | LoadRead PrincipalId LoadToken "(ProfileIoError, PrincipalProfile) result"
  | LoadDone PrincipalId LoadToken "PrincipalProfile option"

fun phase_token :: "LoaderPhase \<Rightarrow> LoadToken" where
  "phase_token (LoadBegun _ tk) = tk"
| "phase_token (LoadRead _ tk _) = tk"
| "phase_token (LoadDone _ tk _) = tk"

datatype LockPhase = LockFree | EditLoaded PrincipalId ProfileEdit PrincipalProfile | EditSaved PrincipalId

record CacheMachine =
  cm_files :: "PrincipalId \<Rightarrow> ProfileFile"
  cm_cache :: ProfileCacheState
  cm_loaders :: "nat \<Rightarrow> LoaderPhase option"
  cm_writers :: "nat \<Rightarrow> PrincipalId option"
  cm_locked :: LockPhase

definition held_by :: "(nat \<Rightarrow> LoaderPhase option) \<Rightarrow> LoadToken \<Rightarrow> bool" where
  "held_by ls tk \<longleftrightarrow> (\<exists>t ph. ls t = Some ph \<and> phase_token ph = tk)"

definition fresh_token :: "LoadToken \<Rightarrow> CacheMachine \<Rightarrow> bool" where
  "fresh_token tk s \<longleftrightarrow> \<not> held_by (cm_loaders s) tk \<and> (\<forall>p. hm_get (pc_loads (cm_cache s)) p \<noteq> Some tk)"

inductive cache_step :: "CacheMachine \<Rightarrow> CacheMachine \<Rightarrow> bool" where
  step_begin: "cm_locked s = LockFree \<Longrightarrow> cm_loaders s t = None \<Longrightarrow> fresh_token fresh s \<Longrightarrow>
    begin_load (held_by (cm_loaders s)) fresh p (cm_cache s) = (tk, c) \<Longrightarrow>
    cache_step s (s\<lparr>cm_cache := c, cm_loaders := (cm_loaders s)(t \<mapsto> LoadBegun p tk)\<rparr>)"
| step_read: "cm_loaders s t = Some (LoadBegun p tk) \<Longrightarrow>
    cache_step s (s\<lparr>cm_loaders := (cm_loaders s)(t \<mapsto> LoadRead p tk (resolve_load p (cm_files s p)))\<rparr>)"
| step_fail: "cm_loaders s t = Some (LoadRead p tk (Inl e)) \<Longrightarrow>
    cache_step s (s\<lparr>cm_loaders := (cm_loaders s)(t \<mapsto> LoadDone p tk None)\<rparr>)"
| step_publish: "cm_locked s = LockFree \<Longrightarrow> cm_loaders s t = Some (LoadRead p tk (Inr profile)) \<Longrightarrow>
    publish_loaded p tk profile (cm_cache s) = (r, c) \<Longrightarrow>
    cache_step s (s\<lparr>cm_cache := c, cm_loaders := (cm_loaders s)(t \<mapsto> LoadDone p tk r)\<rparr>)"
| step_finish: "cm_locked s = LockFree \<Longrightarrow> cm_loaders s t = Some (LoadDone p tk r) \<Longrightarrow>
    cache_step s (s\<lparr>cm_cache := finish_load (held_by ((cm_loaders s)(t := None))) p tk (cm_cache s),
                     cm_loaders := (cm_loaders s)(t := None)\<rparr>)"
| step_invalidate: "cm_locked s = LockFree \<Longrightarrow> cache_step s (s\<lparr>cm_cache := pc_invalidate p (cm_cache s)\<rparr>)"
| step_write: "cm_writers s w = None \<Longrightarrow>
    cache_step s (s\<lparr>cm_files := (cm_files s)(p := f), cm_writers := (cm_writers s)(w \<mapsto> p)\<rparr>)"
| step_written: "cm_locked s = LockFree \<Longrightarrow> cm_writers s w = Some p \<Longrightarrow>
    cache_step s (s\<lparr>cm_cache := pc_invalidate p (cm_cache s), cm_writers := (cm_writers s)(w := None)\<rparr>)"
| step_edit_load: "cm_locked s = LockFree \<Longrightarrow> edit_load edit p (cm_files s p) = Inr profile \<Longrightarrow>
    cache_step s (s\<lparr>cm_locked := EditLoaded p edit profile\<rparr>)"
| step_edit_present: "cm_locked s = EditLoaded p edit profile \<Longrightarrow> edit_profile edit profile = None \<Longrightarrow>
    cache_step s (s\<lparr>cm_cache := (cm_cache s)\<lparr>pc_profiles := hm_insert p profile (pc_profiles (cm_cache s))\<rparr>,
                     cm_locked := LockFree\<rparr>)"
| step_edit_save: "cm_locked s = EditLoaded p edit profile \<Longrightarrow> edit_profile edit profile = Some profile' \<Longrightarrow>
    save_to_path True profile' = Inr f \<Longrightarrow>
    cache_step s (s\<lparr>cm_files := (cm_files s)(p := f), cm_locked := EditSaved p\<rparr>)"
| step_edit_fail: "cm_locked s = EditLoaded p edit profile \<Longrightarrow> cache_step s (s\<lparr>cm_locked := LockFree\<rparr>)"
| step_edit_saved: "cm_locked s = EditSaved p \<Longrightarrow>
    cache_step s (s\<lparr>cm_cache := pc_invalidate p (cm_cache s), cm_locked := LockFree\<rparr>)"

definition cache_start :: "(PrincipalId \<Rightarrow> ProfileFile) \<Rightarrow> CacheMachine" where
  "cache_start files = \<lparr>cm_files = files, cm_cache = ProfileCacheState_default, cm_loaders = (\<lambda>_. None),
     cm_writers = (\<lambda>_. None), cm_locked = LockFree\<rparr>"

text \<open>A file of a principal is in motion while a writer has saved it and not yet invalidated.\<close>

definition in_motion :: "CacheMachine \<Rightarrow> PrincipalId \<Rightarrow> bool" where
  "in_motion s p \<longleftrightarrow> (\<exists>w. cm_writers s w = Some p) \<or> cm_locked s = EditSaved p"

section \<open>The invariant\<close>

definition fresh_at :: "CacheMachine \<Rightarrow> PrincipalId \<Rightarrow> bool" where
  "fresh_at s p \<longleftrightarrow>
     (\<forall>profile. hm_get (pc_profiles (cm_cache s)) p = Some profile \<longrightarrow> resolve_load p (cm_files s p) = Inr profile)
   \<and> (\<forall>t tk r. cm_loaders s t = Some (LoadRead p tk r) \<longrightarrow> hm_get (pc_loads (cm_cache s)) p = Some tk \<longrightarrow>
        r = resolve_load p (cm_files s p))
   \<and> (\<forall>edit profile. cm_locked s = EditLoaded p edit profile \<longrightarrow> edit_load edit p (cm_files s p) = Inr profile)"

definition cache_inv :: "CacheMachine \<Rightarrow> bool" where
  "cache_inv s \<longleftrightarrow> (\<forall>p. \<not> in_motion s p \<longrightarrow> fresh_at s p)"

lemma fresh_atD:
  assumes "fresh_at s p"
  shows "hm_get (pc_profiles (cm_cache s)) p = Some profile \<Longrightarrow> resolve_load p (cm_files s p) = Inr profile"
    and "cm_loaders s t = Some (LoadRead p tk r) \<Longrightarrow> hm_get (pc_loads (cm_cache s)) p = Some tk \<Longrightarrow>
      r = resolve_load p (cm_files s p)"
    and "cm_locked s = EditLoaded p edit profile \<Longrightarrow> edit_load edit p (cm_files s p) = Inr profile"
  using assms unfolding fresh_at_def by blast+

text \<open>What a step may do to a principal whose file it leaves alone.\<close>

lemma fresh_frame:
  assumes "fresh_at s p" and "cm_files s' p = cm_files s p"
    and "\<And>profile. hm_get (pc_profiles (cm_cache s')) p = Some profile \<Longrightarrow>
      hm_get (pc_profiles (cm_cache s)) p = Some profile \<or> resolve_load p (cm_files s p) = Inr profile"
    and "\<And>t tk r. cm_loaders s' t = Some (LoadRead p tk r) \<Longrightarrow> hm_get (pc_loads (cm_cache s')) p = Some tk \<Longrightarrow>
      (cm_loaders s t = Some (LoadRead p tk r) \<and> hm_get (pc_loads (cm_cache s)) p = Some tk) \<or> r = resolve_load p (cm_files s p)"
    and "\<And>edit profile. cm_locked s' = EditLoaded p edit profile \<Longrightarrow>
      cm_locked s = EditLoaded p edit profile \<or> edit_load edit p (cm_files s p) = Inr profile"
  shows "fresh_at s' p"
  unfolding fresh_at_def assms(2) using assms(3-5) fresh_atD [OF assms(1)] by blast

lemma cache_start_inv: "cache_inv (cache_start files)"
  by (simp add: cache_inv_def fresh_at_def cache_start_def ProfileCacheState_default_def)

lemma get_invalidate [simp]:
  "hm_get (pc_profiles (pc_invalidate p c)) q = (if q = p then None else hm_get (pc_profiles c) q)"
  "hm_get (pc_loads (pc_invalidate p c)) q = (if q = p then None else hm_get (pc_loads c) q)"
  by (simp_all add: pc_invalidate_def hm.get_remove)

lemma begin_load_effect:
  assumes "begin_load live fresh p c = (tk, c')"
  shows "pc_profiles c' = pc_profiles c"
    and "hm_get (pc_loads c') q = Some tk' \<Longrightarrow> hm_get (pc_loads c) q = Some tk' \<or> q = p \<and> tk' = fresh"
  using assms by (auto simp: begin_load_def hm.get_insert split: option.splits if_splits)

lemma finish_load_effect:
  "pc_profiles (finish_load live p tk c) = pc_profiles c"
  "hm_get (pc_loads (finish_load live p tk c)) q = Some tk' \<Longrightarrow> hm_get (pc_loads c) q = Some tk'"
  by (auto simp: finish_load_def hm.get_remove split: if_splits)

text \<open>An entry that is already there was read from a file that exists.\<close>

lemma edit_present_load:
  assumes "edit_load edit p f = Inr profile" and "edit_profile edit profile = None"
  shows "resolve_load p f = Inr profile"
proof (cases edit)
  case (EgressEdit capsule_id endpoint)
  have "f \<noteq> Missing"
  proof
    assume "f = Missing"
    with assms(1) EgressEdit have "profile = PrincipalProfile_default" by (simp add: load_from_path_def)
    with assms(2) EgressEdit show False by (simp add: egress_entries_def PrincipalProfile_default_def Let_def)
  qed
  with assms(1) EgressEdit show ?thesis
    by (cases f) (auto simp: resolve_load_def load_from_path_def load_required_def)
next
  case (CommandEdit command workspace_root location)
  with assms(1) show ?thesis by (auto simp: resolve_load_def result_simps split: if_splits)
qed

lemma cache_step_fresh:
  "cache_step s s' \<Longrightarrow> (\<And>p. \<not> in_motion s p \<Longrightarrow> fresh_at s p) \<Longrightarrow> \<not> in_motion s' q \<Longrightarrow> fresh_at s' q"
proof (induction rule: cache_step.induct)
  case (step_begin s t fresh p tk c)
  then have F: "fresh_at s q" by (simp add: in_motion_def)
  note E = begin_load_effect [OF step_begin(4)]
  have "cm_loaders s u \<noteq> Some (LoadRead q fresh r)" for u r
  proof
    assume "cm_loaders s u = Some (LoadRead q fresh r)"
    then have "held_by (cm_loaders s) (phase_token (LoadRead q fresh r))" unfolding held_by_def by blast
    then show False using step_begin(3) by (simp add: fresh_token_def)
  qed
  then show ?case using E step_begin(1) by (intro fresh_frame [OF F]) (auto split: if_splits)
next
  case (step_read s t p tk)
  then have F: "fresh_at s q" by (simp add: in_motion_def)
  show ?case by (rule fresh_frame [OF F]) (auto split: if_splits)
next
  case (step_fail s t p tk e)
  then have F: "fresh_at s q" by (simp add: in_motion_def)
  show ?case by (rule fresh_frame [OF F]) (auto split: if_splits)
next
  case (step_publish s t p tk profile r c)
  then have F: "fresh_at s q" by (simp add: in_motion_def)
  have loads: "pc_loads c = pc_loads (cm_cache s)"
    using step_publish(3) by (auto simp: publish_loaded_def split: option.splits if_splits)
  have "hm_get (pc_profiles (cm_cache s)) q = Some x \<or> resolve_load q (cm_files s q) = Inr x"
    if "hm_get (pc_profiles c) q = Some x" for x
    using step_publish(2,3) that fresh_atD(2) [OF F, of t tk "Inr profile"]
    by (auto simp: publish_loaded_def is_current_def hm.get_insert split: option.splits if_splits)
  then show ?case using loads by (intro fresh_frame [OF F]) (auto split: if_splits)
next
  case (step_finish s t p tk r)
  then have F: "fresh_at s q" by (simp add: in_motion_def)
  show ?case by (rule fresh_frame [OF F]) (auto simp: finish_load_effect(1) dest: finish_load_effect(2) split: if_splits)
next
  case (step_invalidate s p)
  then have F: "fresh_at s q" by (simp add: in_motion_def)
  show ?case by (rule fresh_frame [OF F]) (auto split: if_splits)
next
  case (step_write s w p f)
  have "((cm_writers s)(w \<mapsto> p)) u \<noteq> Some q" and lock: "cm_locked s \<noteq> EditSaved q" for u
    using step_write(3) by (auto simp: in_motion_def)
  from this(1) have "q \<noteq> p" and "cm_writers s u \<noteq> Some q" for u
    using step_write(1) by (metis fun_upd_apply option.distinct(1))+
  then have "q \<noteq> p" and F: "fresh_at s q" using step_write(2) lock by (auto simp: in_motion_def)
  then show ?case by (intro fresh_frame [OF F]) auto
next
  case (step_written s w p)
  show ?case
  proof (cases "q = p")
    case True
    then show ?thesis using step_written(1) by (simp add: fresh_at_def)
  next
    case False
    have "((cm_writers s)(w := None)) u \<noteq> Some q" for u
      using step_written(4) by (auto simp: in_motion_def)
    then have "cm_writers s u \<noteq> Some q" for u
      using step_written(2) False by (metis fun_upd_apply option.inject)
    then have F: "fresh_at s q" using step_written(1,3) by (auto simp: in_motion_def)
    show ?thesis by (rule fresh_frame [OF F]) (auto split: if_splits)
  qed
next
  case (step_edit_load s edit p profile)
  then have F: "fresh_at s q" by (simp add: in_motion_def)
  show ?case using step_edit_load(2) by (intro fresh_frame [OF F]) auto
next
  case (step_edit_present s p edit profile)
  then have F: "fresh_at s q" by (simp add: in_motion_def)
  have "resolve_load p (cm_files s p) = Inr profile" if "q = p"
    using edit_present_load [OF fresh_atD(3) [OF F] step_edit_present(2)] step_edit_present(1) that by simp
  then show ?case by (intro fresh_frame [OF F]) (auto simp: hm.get_insert split: if_splits)
next
  case (step_edit_save s p edit profile profile' f)
  then have "q \<noteq> p" and F: "fresh_at s q" by (auto simp: in_motion_def)
  then show ?case by (intro fresh_frame [OF F]) auto
next
  case (step_edit_fail s p edit profile)
  then have F: "fresh_at s q" by (simp add: in_motion_def)
  show ?case by (rule fresh_frame [OF F]) auto
next
  case (step_edit_saved s p)
  show ?case
  proof (cases "q = p")
    case True
    then show ?thesis by (simp add: fresh_at_def)
  next
    case False
    then have F: "fresh_at s q" using step_edit_saved by (auto simp: in_motion_def)
    show ?thesis by (rule fresh_frame [OF F]) (auto split: if_splits)
  qed
qed

lemma cache_step_inv: "cache_step s s' \<Longrightarrow> cache_inv s \<Longrightarrow> cache_inv s'"
  using cache_step_fresh by (auto simp: cache_inv_def)

lemma cache_run_inv: "cache_step\<^sup>*\<^sup>* (cache_start files) s \<Longrightarrow> cache_inv s"
  by (induction rule: rtranclp_induct) (auto intro: cache_start_inv cache_step_inv)

section \<open>Saved profiles load as saved\<close>

lemma load_saved: "save_to_path ok profile = Inr f \<Longrightarrow> f = Content profile \<and> load_content profile = Inr profile"
proof -
  assume save: "save_to_path ok profile = Inr f"
  then have valid: "PrincipalProfile_validate profile = Inr ()" and f: "f = Content profile"
    by (auto simp: save_to_path_def split: sum.splits if_splits)
  from valid have "Quotas_validate (quotas profile) = Inr ()"
    by (simp add: PrincipalProfile_validate_def and_then_Inr_iff split: if_splits)
  then have "max_cpu_fuel_per_sec (quotas profile) \<noteq> 0"
    by (auto simp: Quotas_validate_iff quotas_ok_def)
  then have "profile\<lparr>quotas := coerce_legacy_zero_cpu_fuel (quotas profile)\<rparr> = profile"
    by (simp add: coerce_legacy_zero_cpu_fuel_def)
  with valid f show ?thesis by (simp add: load_content_def)
qed

lemma edit_load_from_path: "edit_load edit p f = Inr profile \<Longrightarrow> load_from_path f = Inr profile"
  by (cases edit; cases f) (auto simp: load_from_path_def load_required_def result_simps split: if_splits)

text \<open>The endpoints and the commands a profile remembers.\<close>

definition remembered :: "PrincipalProfile \<Rightarrow> (string \<times> string + CommandAlwaysGrant) set" where
  "remembered profile = Inl ` {(c, e). e \<in> set (egress_entries profile c)} \<union> Inr ` set (command_always (approvals profile))"

definition file_remembers :: "ProfileFile \<Rightarrow> (string \<times> string + CommandAlwaysGrant) set" where
  "file_remembers f = (case load_from_path f of Inr profile \<Rightarrow> remembered profile | Inl _ \<Rightarrow> {})"

fun edit_entry :: "ProfileEdit \<Rightarrow> string \<times> string + CommandAlwaysGrant" where
  "edit_entry (EgressEdit c e) = Inl (c, e)"
| "edit_entry (CommandEdit c w l) = Inr \<lparr>ca_command = c, ca_location = l, ca_workspace_root = w\<rparr>"

lemma edit_profile_remembers:
  "edit_profile edit profile = Some profile' \<Longrightarrow> remembered profile' = insert (edit_entry edit) (remembered profile)"
proof (cases edit)
  case (EgressEdit c e)
  assume "edit_profile edit profile = Some profile'"
  then have p': "profile' = profile\<lparr>network := (network profile)
      \<lparr>capsule_egress := hm_insert c (egress_entries profile c @ [e]) (capsule_egress (network profile))\<rparr>\<rparr>"
    by (auto simp: EgressEdit Let_def split: if_splits)
  have "egress_entries profile' d = (if d = c then egress_entries profile c @ [e] else egress_entries profile d)" for d
    by (simp add: p' egress_entries_def hm.get_insert)
  then have "{(d, x). x \<in> set (egress_entries profile' d)} = insert (c, e) {(d, x). x \<in> set (egress_entries profile d)}"
    by (auto split: if_splits)
  then show ?thesis by (simp add: remembered_def EgressEdit p')
next
  case (CommandEdit c w l)
  assume "edit_profile edit profile = Some profile'"
  then have p': "profile' = profile\<lparr>approvals := (approvals profile)\<lparr>command_always :=
      command_always (approvals profile) @ [\<lparr>ca_command = c, ca_location = l, ca_workspace_root = w\<rparr>]\<rparr>\<rparr>"
    by (auto simp: CommandEdit split: if_splits)
  have "egress_entries profile' = egress_entries profile" by (simp add: p' egress_entries_def fun_eq_iff)
  then show ?thesis by (simp add: remembered_def CommandEdit p')
qed

lemma step_edit_load_held:
  assumes inv: "cache_inv s" and lock: "cm_locked s = EditLoaded p edit profile" and w: "\<forall>w. cm_writers s w \<noteq> Some p"
  shows "load_from_path (cm_files s p) = Inr profile"
proof -
  have "\<not> in_motion s p" using lock w by (simp add: in_motion_def)
  then show ?thesis
    using inv fresh_atD(3) [OF _ lock] edit_load_from_path by (simp add: cache_inv_def)
qed

lemma step_remembers:
  assumes "cache_step s s'" and "cache_inv s" and "\<forall>w. cm_writers s w \<noteq> Some p" and "\<forall>w. cm_writers s' w \<noteq> Some p"
  shows "file_remembers (cm_files s p) \<subseteq> file_remembers (cm_files s' p)"
  using assms
proof (induction rule: cache_step.induct)
  case (step_write s w q f)
  then have "q \<noteq> p" by (auto dest: spec [of _ w])
  then show ?case by simp
next
  case (step_edit_save s q edit profile profile' f)
  show ?case
  proof (cases "q = p")
    case True
    have "load_from_path (cm_files s p) = Inr profile"
      using step_edit_load_held [OF step_edit_save(4)] step_edit_save(1,5) True by simp
    moreover have "load_from_path f = Inr profile'" using load_saved [OF step_edit_save(3)] by (simp add: load_from_path_def)
    ultimately show ?thesis
      using True edit_profile_remembers [OF step_edit_save(2)] by (auto simp: file_remembers_def)
  qed simp
qed simp_all

section \<open>Properties\<close>

text \<open>
  C12.  The cache never serves a stale profile.  However loads, invalidations, writers and persisting
  calls interleave, while no writer of a principal's file stands between its save and its
  invalidation, a cached profile of that principal is what the file loads to, and so is whatever a
  loader that started earlier gets to publish: a load that began before an invalidation cannot
  bring a revoked profile back.
\<close>

theorem cache_never_stale:
  assumes "cache_step\<^sup>*\<^sup>* (cache_start files) s" and "\<not> in_motion s p"
  shows "(\<forall>profile. hm_get (pc_profiles (cm_cache s)) p = Some profile \<longrightarrow> resolve_load p (cm_files s p) = Inr profile)
    \<and> (\<forall>t tk profile entry c. cm_loaders s t = Some (LoadRead p tk (Inr profile)) \<longrightarrow>
         publish_loaded p tk profile (cm_cache s) = (Some entry, c) \<longrightarrow> resolve_load p (cm_files s p) = Inr entry)"
proof -
  have F: "fresh_at s p" using cache_run_inv [OF assms(1)] assms(2) by (simp add: cache_inv_def)
  have "resolve_load p (cm_files s p) = Inr entry"
    if "cm_loaders s t = Some (LoadRead p tk (Inr profile))" "publish_loaded p tk profile (cm_cache s) = (Some entry, c)"
    for t tk profile entry c
  proof (cases "hm_get (pc_profiles (cm_cache s)) p")
    case None
    then have "entry = profile" "hm_get (pc_loads (cm_cache s)) p = Some tk"
      using that(2) by (auto simp: publish_loaded_def is_current_def split: if_splits)
    then show ?thesis using fresh_atD(2) [OF F that(1)] by simp
  next
    case (Some x)
    then have "entry = x" using that(2) by (auto simp: publish_loaded_def split: if_splits)
    then show ?thesis using fresh_atD(1) [OF F Some] by simp
  qed
  with fresh_atD(1) [OF F] show ?thesis by blast
qed

text \<open>
  C16.  Remembered approvals are not lost.  The two persisting calls may run against each other and
  against any number of loads and invalidations: as long as no writer outside the cache touches
  the file of a principal, every endpoint and command its profile remembers stays remembered.
\<close>

theorem persisted_approvals_not_lost:
  assumes "cache_step\<^sup>*\<^sup>* (cache_start files) s"
    and "(\<lambda>x y. cache_step x y \<and> (\<forall>w. cm_writers y w \<noteq> Some p))\<^sup>*\<^sup>* s s'" and "\<forall>w. cm_writers s w \<noteq> Some p"
  shows "file_remembers (cm_files s p) \<subseteq> file_remembers (cm_files s' p)"
proof -
  have "file_remembers (cm_files s p) \<subseteq> file_remembers (cm_files s' p) \<and> cache_inv s' \<and> (\<forall>w. cm_writers s' w \<noteq> Some p)"
    using assms(2)
  proof (induction rule: rtranclp_induct)
    case base
    then show ?case using cache_run_inv [OF assms(1)] assms(3) by simp
  next
    case (step x y)
    then show ?case using step_remembers [of x y p] cache_step_inv [of x y] by blast
  qed
  then show ?thesis by blast
qed

section \<open>Witnesses\<close>

definition alice :: PrincipalId where "alice = PrincipalId ''alice''"

definition demo_files :: "PrincipalId \<Rightarrow> ProfileFile" where
  "demo_files _ = Content PrincipalProfile_default"

definition chat_profile :: PrincipalProfile where
  "chat_profile = PrincipalProfile_default\<lparr>network := \<lparr>egress = [], capsule_egress = [(''chat'', [''127.0.0.1:1234''])]\<rparr>\<rparr>"

lemma load_default: "load_content PrincipalProfile_default = Inr PrincipalProfile_default"
  using load_saved [of True PrincipalProfile_default "Content PrincipalProfile_default"]
  by (simp add: save_to_path_def default_profile_valid)

lemma chat_profile_valid: "PrincipalProfile_validate chat_profile = Inr ()"
proof -
  have "trim ''chat'' = ''chat''" "trim ''127.0.0.1:1234'' = ''127.0.0.1:1234''"
    by (rule trim_graphic; code_simp)+
  then have "NetworkConfig_validate (network chat_profile) = Inr ()"
    by (simp add: NetworkConfig_validate_def chat_profile_def)
  then show ?thesis
    by (simp add: PrincipalProfile_validate_def chat_profile_def PrincipalProfile_default_def Quotas_validate_def
        Quotas_default_def quota_constants AuthConfig_validate_def typed_fields_def
        ApprovalsConfig_validate_def ProcessConfig_validate_def)
qed

lemma chat_edit: "edit_profile (EgressEdit ''chat'' ''127.0.0.1:1234'') PrincipalProfile_default = Some chat_profile"
  by (simp add: chat_profile_def egress_entries_def PrincipalProfile_default_def hm_insert_def)

lemma chat_saved: "save_to_path True chat_profile = Inr (Content chat_profile)"
  by (simp add: save_to_path_def chat_profile_valid)

definition demo_cached :: CacheMachine where
  "demo_cached = (cache_start demo_files)
     \<lparr>cm_cache := \<lparr>pc_profiles = [(alice, PrincipalProfile_default)], pc_loads = [(alice, 0)]\<rparr>,
      cm_loaders := [0 \<mapsto> LoadDone alice 0 (Some PrincipalProfile_default)]\<rparr>"

lemma demo_cached_run: "cache_step\<^sup>*\<^sup>* (cache_start demo_files) demo_cached"
proof -
  let ?s0 = "cache_start demo_files"
  let ?c1 = "\<lparr>pc_profiles = [], pc_loads = [(alice, 0)]\<rparr>"
  let ?s1 = "?s0\<lparr>cm_cache := ?c1, cm_loaders := [0 \<mapsto> LoadBegun alice 0]\<rparr>"
  let ?s2 = "?s0\<lparr>cm_cache := ?c1, cm_loaders := [0 \<mapsto> LoadRead alice 0 (Inr PrincipalProfile_default)]\<rparr>"
  have read: "resolve_load alice (demo_files alice) = Inr PrincipalProfile_default"
    by (simp add: resolve_load_def demo_files_def load_from_path_def load_required_def load_default)
  have "cache_step ?s0 ?s1"
    using step_begin [of ?s0 0 0 alice 0 ?c1]
    by (simp add: cache_start_def fresh_token_def held_by_def begin_load_def ProfileCacheState_default_def hm_insert_def)
  moreover have "cache_step ?s1 ?s2"
    using step_read [of ?s1 0 alice 0] read by (simp add: cache_start_def)
  moreover have "cache_step ?s2 demo_cached"
    using step_publish [of ?s2 0 alice 0 PrincipalProfile_default "Some PrincipalProfile_default"
        "\<lparr>pc_profiles = [(alice, PrincipalProfile_default)], pc_loads = [(alice, 0)]\<rparr>"]
    by (simp add: cache_start_def demo_cached_def publish_loaded_def is_current_def hm_insert_def)
  ultimately show ?thesis by (meson rtranclp.rtrancl_into_rtrancl rtranclp.rtrancl_refl)
qed

theorem cache_never_stale_witness:
  "hm_get (pc_profiles (cm_cache demo_cached)) alice = Some PrincipalProfile_default
   \<and> resolve_load alice (cm_files demo_cached alice) = Inr PrincipalProfile_default"
proof -
  have get: "hm_get (pc_profiles (cm_cache demo_cached)) alice = Some PrincipalProfile_default"
    by (simp add: demo_cached_def)
  have "\<not> in_motion demo_cached alice" by (simp add: in_motion_def demo_cached_def cache_start_def)
  from cache_never_stale [OF demo_cached_run this] get show ?thesis by blast
qed

text \<open>A persisting call of \<open>alice\<close> that nothing interrupts, as three steps of the machine.\<close>

abbreviation quiet_step :: "CacheMachine \<Rightarrow> CacheMachine \<Rightarrow> bool" where
  "quiet_step x y \<equiv> cache_step x y \<and> (\<forall>w. cm_writers y w \<noteq> Some alice)"

lemma persisting_run:
  assumes "edit_load edit alice (files alice) = Inr profile" and "edit_profile edit profile = Some profile'"
    and "save_to_path True profile' = Inr f"
  shows "quiet_step\<^sup>*\<^sup>* (cache_start files) (cache_start (files(alice := f)))"
proof -
  let ?s0 = "cache_start files"
  let ?s1 = "?s0\<lparr>cm_locked := EditLoaded alice edit profile\<rparr>"
  let ?s2 = "?s0\<lparr>cm_files := files(alice := f), cm_locked := EditSaved alice\<rparr>"
  let ?s3 = "cache_start (files(alice := f))"
  have "cache_step ?s0 ?s1"
    using step_edit_load [of ?s0 edit alice profile] assms(1) by (simp add: cache_start_def)
  moreover have "cache_step ?s1 ?s2"
    using step_edit_save [of ?s1 alice edit profile profile' f] assms(2,3) by (simp add: cache_start_def)
  moreover have "cache_step ?s2 ?s3"
    using step_edit_saved [of ?s2 alice]
    by (simp add: cache_start_def pc_invalidate_def ProfileCacheState_default_def hm_remove_def)
  ultimately have "quiet_step ?s0 ?s1" "quiet_step ?s1 ?s2" "quiet_step ?s2 ?s3" by (simp_all add: cache_start_def)
  then show ?thesis
    using rtranclp.rtrancl_into_rtrancl [OF rtranclp.rtrancl_into_rtrancl [OF r_into_rtranclp], of quiet_step ?s0 ?s1 ?s2 ?s3]
    by blast
qed

definition git_profile :: PrincipalProfile where
  "git_profile = chat_profile\<lparr>approvals := \<lparr>command_always =
     [\<lparr>ca_command = ''git'', ca_location = Hosted, ca_workspace_root = None\<rparr>]\<rparr>\<rparr>"

lemma git_edit: "edit_profile (CommandEdit ''git'' None Hosted) chat_profile = Some git_profile"
  by (simp add: git_profile_def chat_profile_def PrincipalProfile_default_def)

lemma git_saved: "save_to_path True git_profile = Inr (Content git_profile)"
proof -
  have "trim ''git'' = ''git''" by (rule trim_graphic; code_simp)
  then have "ApprovalsConfig_validate (approvals git_profile) = Inr ()"
    by (simp add: ApprovalsConfig_validate_def git_profile_def)
  moreover have "typed_fields git_profile = typed_fields chat_profile" by (simp add: typed_fields_def git_profile_def)
  ultimately have "PrincipalProfile_validate git_profile = Inr ()"
    using chat_profile_valid by (simp add: PrincipalProfile_validate_def result_simps git_profile_def split: if_splits)
  then show ?thesis by (simp add: save_to_path_def)
qed

theorem persisted_approvals_not_lost_witness:
  "\<exists>s s'. cache_step\<^sup>*\<^sup>* (cache_start demo_files) s \<and> quiet_step\<^sup>*\<^sup>* s s'
     \<and> Inl (''chat'', ''127.0.0.1:1234'') \<in> file_remembers (cm_files s alice)
     \<and> Inr \<lparr>ca_command = ''git'', ca_location = Hosted, ca_workspace_root = None\<rparr>
         \<in> file_remembers (cm_files s' alice) - file_remembers (cm_files s alice)
     \<and> Inl (''chat'', ''127.0.0.1:1234'') \<in> file_remembers (cm_files s' alice)"
proof -
  let ?f = "demo_files(alice := Content chat_profile)"
  let ?s = "cache_start ?f" and ?s' = "cache_start (?f(alice := Content git_profile))"
  have "quiet_step\<^sup>*\<^sup>* (cache_start demo_files) ?s"
    by (rule persisting_run [OF _ chat_edit chat_saved]) (simp add: demo_files_def load_from_path_def load_default)
  then have run: "cache_step\<^sup>*\<^sup>* (cache_start demo_files) ?s" by (rule rtranclp_mono [THEN predicate2D, rotated]) auto
  have chat: "load_content chat_profile = Inr chat_profile" and git: "load_content git_profile = Inr git_profile"
    using load_saved [OF chat_saved] load_saved [OF git_saved] by simp_all
  have "enabled chat_profile" by (simp add: chat_profile_def PrincipalProfile_default_def)
  then have "edit_load (CommandEdit ''git'' None Hosted) alice (?f alice) = Inr chat_profile"
    by (simp add: load_from_path_def load_required_def chat)
  from persisting_run [where files = ?f, OF this git_edit git_saved] have quiet: "quiet_step\<^sup>*\<^sup>* ?s ?s'" .
  have r: "file_remembers (cm_files ?s alice) = remembered chat_profile"
      "file_remembers (cm_files ?s' alice) = remembered git_profile"
    by (simp_all add: cache_start_def file_remembers_def load_from_path_def chat git)
  have old: "Inl (''chat'', ''127.0.0.1:1234'') \<in> remembered chat_profile"
    by (simp add: remembered_def egress_entries_def chat_profile_def)
  from persisted_approvals_not_lost [OF run quiet] this
  have kept: "Inl (''chat'', ''127.0.0.1:1234'') \<in> file_remembers (cm_files ?s' alice)"
    unfolding r(1) by (auto simp: cache_start_def)
  have fresh: "Inr \<lparr>ca_command = ''git'', ca_location = Hosted, ca_workspace_root = None\<rparr> \<in> remembered git_profile - remembered chat_profile"
    by (auto simp: remembered_def git_profile_def chat_profile_def PrincipalProfile_default_def)
  show ?thesis by (rule exI [of _ ?s], rule exI [of _ ?s']) (intro conjI run quiet kept; use old fresh r in simp)
qed

text \<open>
  Remembering an endpoint recreates the profile of a removed principal, enabled and with the
  default limits, where remembering a command refuses to.
\<close>

lemma persist_egress_resurrects:
  "resolve_load alice Missing = Inl NotFound
   \<and> persist_egress True alice ''chat'' ''127.0.0.1:1234'' Missing st = (Inr (), Content chat_profile, pc_invalidate alice st)
   \<and> enabled chat_profile \<and> resolve_load alice (Content chat_profile) = Inr chat_profile
   \<and> fst (persist_edit (CommandEdit ''git'' None Hosted) True alice Missing st) = Inl NotFound"
  using load_saved [OF chat_saved] chat_edit chat_saved
  by (simp add: resolve_load_def load_required_def load_from_path_def persist_egress_def persist_edit_def
      alice_def default_principal_def) (simp add: chat_profile_def PrincipalProfile_default_def)

end
