(* ===== verification/Host_State.thy ===== *)
theory Host_State
  imports Allowance Profile_Cache Group_Config Text_Format
begin

text \<open>
  The state behind the host functions of a capsule instance, as far as approvals and outgoing traffic
  read it, with the accessors of
  \<open>crates/astrid-capsule/src/engine/wasm/host_state_effective.rs\<close> and the messages of
  \<open>crates/astrid-types/src/ipc.rs\<close>.

  The audit sink is the list of the calls made to it, in order: \<open>SinkCall\<close> says whether the host waited
  for the entry (\<open>commit\<close>) or queued it (\<open>record\<close>).  The receipt of a commit is the position of that call.
  The profile files are part of the state because approvals are saved there.
\<close>

section \<open>Messages\<close>

datatype MessageOrigin = LocalSocket | RemoteGateway | SystemOrigin

type_synonym RequestOwnerId = "128 word"

datatype IpcPayload =
    ApprovalRequired (ar_request_id: string) (ar_owner: RequestOwnerId) (ar_action: string) (ar_resource: string)
      (ar_reason: string)
  | ApprovalResponse string string "string option"
  | OtherPayload

record IpcMessage =
  im_topic :: string
  im_payload :: IpcPayload
  im_principal :: "string option"
  im_request_owner :: "RequestOwnerId option"
  im_origin :: MessageOrigin

datatype AstridEvent = IpcEvent IpcMessage | OtherEvent

definition approval_request_topic :: string where
  "approval_request_topic = ''astrid.v1.approval''"

definition approval_response_topic :: "string \<Rightarrow> string" where
  "approval_response_topic request_id = ''astrid.v1.approval.response.'' @ request_id"

section \<open>The audit sink\<close>

datatype HostApprovalScope = ScopeOnce | ScopeSession | ScopeAlways

datatype HostAuditOutcome = OutcomeAllowed | OutcomeFailed string | OutcomeDenied string

type_synonym HostAuditReceipt = nat

record HostHttpRequest =
  hr_method :: string
  hr_host :: string
  hr_port :: u16
  hr_path_hash :: string
  hr_headers_hash :: string
  hr_body_hash :: string
  hr_body_len :: nat
  hr_redirect_hop :: nat
  hr_injected_secrets :: "string list"

record HostHttpResponse =
  hp_request :: HostAuditReceipt
  hp_status :: "u16 option"
  hp_body_hash :: "string option"
  hp_body_len :: nat
  hp_complete :: bool
  hp_request_ids :: "(string \<times> string) list"

record HostApprovalDecision =
  hd_request_id :: "string option"
  hd_request :: "HostAuditReceipt option"
  hd_action :: string
  hd_resource :: string
  hd_scope :: "HostApprovalScope option"
  hd_via :: string

datatype HostAuditEvent =
    ApprovalRequested string string string
  | ApprovalDecided HostApprovalDecision
  | HttpRequestEvent HostHttpRequest
  | HttpResponseEvent HostHttpResponse

record SinkCall =
  sc_durable :: bool
  sc_principal :: PrincipalId
  sc_event :: HostAuditEvent
  sc_outcome :: HostAuditOutcome

section \<open>The state\<close>

datatype PrincipalMountLocation = NativeMount string | AstridFilesystem

record PrincipalMount =
  pm_location :: PrincipalMountLocation

record HostState =
  hs_principal :: PrincipalId
  hs_capsule_id :: string
  caller_context :: "IpcMessage option"
  invocation_profile :: "PrincipalProfile option"
  invocation_profile_authorized :: bool
  invocation_cancel_token :: "bool option"
  cancel_token :: bool
  invocation_workspace :: "PrincipalMount option"
  hs_workspace :: "PrincipalMount option"
  hs_workspace_root :: string
  hosted_workspace_root :: string
  allowance_store :: "AllowanceStore option"
  profile_cache :: "ProfileCacheState option"
  profile_files :: "PrincipalId \<Rightarrow> ProfileFile"
  local_egress :: "string list"
  audit_sink :: bool
  audit_log :: "SinkCall list"
  published :: "IpcMessage list"

definition sink_record ::
  "bool \<Rightarrow> PrincipalId \<Rightarrow> HostAuditEvent \<Rightarrow> HostAuditOutcome \<Rightarrow> 'z HostState_scheme \<Rightarrow> 'z HostState_scheme" where
  "sink_record durable p event outcome st =
     st\<lparr>audit_log := audit_log st @ [\<lparr>sc_durable = durable, sc_principal = p, sc_event = event, sc_outcome = outcome\<rparr>]\<rparr>"

section \<open>What is in effect for the current call\<close>

definition effective_workspace :: "'z HostState_scheme \<Rightarrow> PrincipalMount option" where
  "effective_workspace st =
     (case invocation_workspace st of Some m \<Rightarrow> Some m | None \<Rightarrow> hs_workspace st)"

definition effective_principal :: "'z HostState_scheme \<Rightarrow> PrincipalId" where
  "effective_principal st =
     (case Option.bind (caller_context st) im_principal of
        None \<Rightarrow> hs_principal st
      | Some s \<Rightarrow> (case PrincipalId_new s of Inl _ \<Rightarrow> hs_principal st | Inr p \<Rightarrow> p))"

definition effective_origin :: "'z HostState_scheme \<Rightarrow> MessageOrigin" where
  "effective_origin st = (case caller_context st of None \<Rightarrow> SystemOrigin | Some m \<Rightarrow> im_origin m)"

definition effective_cancelled :: "'z HostState_scheme \<Rightarrow> bool" where
  "effective_cancelled st =
     (case invocation_cancel_token st of Some c \<Rightarrow> c | None \<Rightarrow> cancel_token st)"

definition invocation_authority_active :: "'z HostState_scheme \<Rightarrow> bool" where
  "invocation_authority_active st \<longleftrightarrow> invocation_profile_authorized st \<and> \<not> effective_cancelled st"

definition effective_profile :: "'z HostState_scheme \<Rightarrow> PrincipalProfile" where
  "effective_profile st =
     (case invocation_profile st of Some p \<Rightarrow> p | None \<Rightarrow> PrincipalProfile_default)"

definition principal_egress_allows :: "'z HostState_scheme \<Rightarrow> string \<Rightarrow> u16 option \<Rightarrow> bool" where
  "principal_egress_allows st host port =
     (if \<not> invocation_authority_active st then False
      else let profile = effective_profile st
        in if \<not> list_ex (\<lambda>g. g = BUILTIN_RESTRICTED) (groups profile) then True
           else list_ex (\<lambda>pattern.
             case rsplit_once CHR '':'' pattern of
               None \<Rightarrow> False
             | Some (pattern_host, pattern_port) \<Rightarrow>
                 if \<not> eq_ignore_ascii_case pattern_host host then False
                 else (case port of
                     Some p \<Rightarrow> pattern_port = ''*'' \<or> parse_u16 pattern_port = Some p
                   | None \<Rightarrow> pattern_port = ''*'' \<or> parse_u16 pattern_port \<noteq> None))
             (egress (network profile)))"

definition path_file_name :: "string \<Rightarrow> string option" where
  "path_file_name p =
     (case rev (path_components p) of Normal s # _ \<Rightarrow> Some s | _ \<Rightarrow> None)"

definition principal_process_allows :: "'z HostState_scheme \<Rightarrow> string \<Rightarrow> bool" where
  "principal_process_allows st command =
     (if \<not> invocation_authority_active st then False
      else let profile = effective_profile st
        in if \<not> list_ex (\<lambda>g. g = BUILTIN_RESTRICTED) (groups profile) then True
           else list_ex (\<lambda>allowed.
             allowed = command \<or> CHR ''/'' \<notin> set allowed \<and> path_file_name command = Some allowed)
             (proc_allow (process profile)))"

section \<open>Reading and saving the profile of a principal\<close>

text \<open>\<open>PrincipalProfileCache::resolve\<close> on the cache of the state.\<close>

definition host_resolve ::
  "PrincipalId \<Rightarrow> ProfileCacheState \<Rightarrow> 'z HostState_scheme \<Rightarrow> (ProfileIoError, PrincipalProfile) result \<times> 'z HostState_scheme" where
  "host_resolve p cache st =
     (let (r, cache') = pc_resolve p (profile_files st p) cache
      in (r, st\<lparr>profile_cache := Some cache'\<rparr>))"

text \<open>One of the persisting calls of the cache, applied to the file of the principal.\<close>

definition host_persist ::
  "(ProfileFile \<Rightarrow> ProfileCacheState \<Rightarrow> (ProfileIoError, unit) result \<times> ProfileFile \<times> ProfileCacheState)
     \<Rightarrow> PrincipalId \<Rightarrow> ProfileCacheState \<Rightarrow> 'z HostState_scheme \<Rightarrow> (ProfileIoError, unit) result \<times> 'z HostState_scheme" where
  "host_persist call p cache st =
     (let (r, file, cache') = call (profile_files st p) cache
      in (r, st\<lparr>profile_cache := Some cache', profile_files := (profile_files st)(p := file)\<rparr>))"

end
