(* ===== verification/Net_Airlock.thy ===== *)
theory Net_Airlock
  imports Astrid_Prelude
begin

text \<open>
  The block set of the network airlock: \<open>crates/astrid-core/src/net.rs\<close>.  An IPv4 address is a word of
  32 bits and an IPv6 address one of 128, both in network order.
\<close>

unbundle bit_operations_syntax

section \<open>Addresses\<close>

type_synonym Ipv4Addr = "32 word"
type_synonym Ipv6Addr = "128 word"

datatype IpAddr = V4 Ipv4Addr | V6 Ipv6Addr

definition octet :: "Ipv4Addr \<Rightarrow> nat \<Rightarrow> u8" where
  "octet a i = ucast (drop_bit (24 - 8 * i) a)"

definition segment :: "Ipv6Addr \<Rightarrow> nat \<Rightarrow> u16" where
  "segment a i = ucast (drop_bit (112 - 16 * i) a)"

definition v4_from_segments :: "u16 \<Rightarrow> u16 \<Rightarrow> Ipv4Addr" where
  "v4_from_segments hi lo = push_bit 16 (ucast hi) OR ucast lo"

definition ipv4_blocked :: "Ipv4Addr \<Rightarrow> bool" where
  "ipv4_blocked ip \<longleftrightarrow>
     octet ip 0 = 127 \<or> ip = 0 \<or> 224 \<le> octet ip 0 \<and> octet ip 0 \<le> 239
     \<or> octet ip 0 = 10 \<or> octet ip 0 = 0 \<or> octet ip 0 = 255
     \<or> octet ip 0 = 172 \<and> 16 \<le> octet ip 1 \<and> octet ip 1 \<le> 31
     \<or> octet ip 0 = 192 \<and> octet ip 1 = 168
     \<or> octet ip 0 = 169 \<and> octet ip 1 = 254
     \<or> octet ip 0 = 100 \<and> 64 \<le> octet ip 1 \<and> octet ip 1 \<le> 127
     \<or> octet ip 0 = 127"

definition ipv6_blocked :: "Ipv6Addr \<Rightarrow> bool" where
  "ipv6_blocked ip \<longleftrightarrow>
     ip = 1 \<or> ip = 0 \<or> segment ip 0 AND 0xff00 = 0xff00
     \<or> segment ip 0 AND 0xfe00 = 0xfc00 \<or> segment ip 0 AND 0xffc0 = 0xfe80 \<or> segment ip 0 AND 0xffc0 = 0xfec0"

definition embedded_ipv4s :: "Ipv6Addr \<Rightarrow> Ipv4Addr list" where
  "embedded_ipv4s ip =
     (let s = segment ip
      in (if s 0 = 0x0064 \<and> s 1 = 0xff9b \<and> list_all (\<lambda>i. s i = 0) [2, 3, 4, 5] then [v4_from_segments (s 6) (s 7)] else [])
       @ (if s 0 = 0x2002 then [v4_from_segments (s 1) (s 2)] else [])
       @ (if s 0 = 0x2001 \<and> s 1 = 0 then [v4_from_segments (s 2) (s 3), v4_from_segments (NOT (s 6)) (NOT (s 7))] else []))"

definition to_ipv4_mapped :: "Ipv6Addr \<Rightarrow> Ipv4Addr option" where
  "to_ipv4_mapped ip =
     (if list_all (\<lambda>i. segment ip i = 0) [0, 1, 2, 3, 4] \<and> segment ip 5 = 0xffff
      then Some (v4_from_segments (segment ip 6) (segment ip 7)) else None)"

definition ip_is_blocked :: "IpAddr \<Rightarrow> bool" where
  "ip_is_blocked ip0 =
     (let ip = (case ip0 of
            V6 ipv6 \<Rightarrow>
              (case to_ipv4_mapped ipv6 of
                 Some ipv4 \<Rightarrow> V4 ipv4
               | None \<Rightarrow>
                   if list_all (\<lambda>i. segment ipv6 i = 0) [0, 1, 2, 3, 4, 5]
                   then V4 (v4_from_segments (segment ipv6 6) (segment ipv6 7)) else ip0)
          | V4 _ \<Rightarrow> ip0)
      in case ip of
           V4 ipv4 \<Rightarrow> ipv4_blocked ipv4
         | V6 ipv6 \<Rightarrow> if list_ex ipv4_blocked (embedded_ipv4s ipv6) then True else ipv6_blocked ipv6)"

section \<open>The block set as address ranges\<close>

text \<open>A range of addresses that share the leading \<open>len\<close> bits of \<open>base\<close>.\<close>

definition in_cidr :: "'a :: len word \<Rightarrow> nat \<Rightarrow> 'a word \<Rightarrow> bool" where
  "in_cidr base len a \<longleftrightarrow> drop_bit (LENGTH('a) - len) a = drop_bit (LENGTH('a) - len) base"

definition v4 :: "nat \<Rightarrow> nat \<Rightarrow> nat \<Rightarrow> nat \<Rightarrow> Ipv4Addr" where
  "v4 a b c d = word_of_nat (a * 2 ^ 24 + b * 2 ^ 16 + c * 2 ^ 8 + d)"

definition blocked_v4 :: "(Ipv4Addr \<times> nat) list" where
  "blocked_v4 =
     [(v4 0 0 0 0, 8), (v4 10 0 0 0, 8), (v4 100 64 0 0, 10), (v4 127 0 0 0, 8), (v4 169 254 0 0, 16),
      (v4 172 16 0 0, 12), (v4 192 168 0 0, 16), (v4 224 0 0 0, 4), (v4 255 0 0 0, 8)]"

definition v6 :: "nat \<Rightarrow> nat \<Rightarrow> Ipv6Addr" where
  "v6 hi shift = push_bit shift (word_of_nat hi)"

text \<open>The words of 32 bits at which an IPv6 address may carry an IPv4 address.\<close>

definition low32 :: "Ipv6Addr \<Rightarrow> Ipv4Addr" where
  "low32 a = ucast a"

definition in_v4_ranges :: "Ipv4Addr \<Rightarrow> bool" where
  "in_v4_ranges a \<longleftrightarrow> (\<exists>(base, len) \<in> set blocked_v4. in_cidr base len a)"

definition in_v6_ranges :: "Ipv6Addr \<Rightarrow> bool" where
  "in_v6_ranges a \<longleftrightarrow>
     in_cidr (v6 0xfc00 112) 7 a \<or> in_cidr (v6 0xfe80 112) 10 a \<or> in_cidr (v6 0xfec0 112) 10 a \<or> in_cidr (v6 0xff00 112) 8 a
     \<or> (in_cidr 0 96 a \<or> in_cidr (v6 0xffff 32) 96 a \<or> in_cidr (v6 0x64ff9b 96) 96 a) \<and> in_v4_ranges (low32 a)
     \<or> in_cidr (v6 0x2002 112) 16 a \<and> in_v4_ranges (ucast (drop_bit 80 a))
     \<or> in_cidr (v6 0x20010000 96) 32 a \<and> (in_v4_ranges (ucast (drop_bit 64 a)) \<or> in_v4_ranges (NOT (low32 a)))"

section \<open>Words as numbers\<close>

lemma unat_drop: "unat (drop_bit n (w :: 'a :: len word)) = unat w div 2 ^ n"
  unfolding unat_drop_bit_eq by (rule drop_bit_eq_div)

lemma octet_unat:
  "unat (octet a 0) = unat a div 65536 div 256" "unat (octet a 1) = unat a div 65536 mod 256"
proof -
  have "unat a < 2 ^ 32" using unsigned_less [of a] by simp
  then have "unat a div 2 ^ 24 < 256" by (simp add: div_less_iff_less_mult)
  then show "unat (octet a 0) = unat a div 65536 div 256"
    by (simp add: octet_def unsigned_ucast_eq unat_drop take_bit_eq_mod div_mult2_eq [symmetric])
  show "unat (octet a 1) = unat a div 65536 mod 256"
    by (simp add: octet_def unsigned_ucast_eq unat_drop take_bit_eq_mod)
qed

lemma segment_unat: "unat (segment a i) = unat a div 2 ^ (112 - 16 * i) mod 65536"
  by (simp add: segment_def unsigned_ucast_eq unat_drop take_bit_eq_mod)

lemma in_cidr_unat: "in_cidr base len (a :: 'a :: len word) \<longleftrightarrow>
    unat a div 2 ^ (LENGTH('a) - len) = unat base div 2 ^ (LENGTH('a) - len)"
  by (simp add: in_cidr_def word_unat_eq_iff unat_drop)

lemma and_high_unat: "unat ((w :: 'a :: len word) AND NOT (mask n)) = unat w div 2 ^ n * 2 ^ n"
proof -
  have "w AND NOT (mask n) = push_bit n (drop_bit n w)"
    by (rule bit_word_eqI) (auto simp: bit_simps)
  moreover have "unat (push_bit n (drop_bit n w)) = unat w div 2 ^ n * 2 ^ n"
  proof -
    have "unat w div 2 ^ n * 2 ^ n \<le> unat w" by simp
    then have "unat w div 2 ^ n * 2 ^ n < 2 ^ LENGTH('a)" using unsigned_less [of w] by (rule le_less_trans)
    then show ?thesis unfolding unsigned_push_bit_eq unat_drop by (simp add: push_bit_eq_mult take_bit_eq_mod)
  qed
  ultimately show ?thesis by simp
qed

lemma v4_from_segments_low32:
  "v4_from_segments (segment a 6) (segment a 7) = low32 a"
  "v4_from_segments (NOT (segment a 6)) (NOT (segment a 7)) = NOT (low32 a)"
  "v4_from_segments (segment a 1) (segment a 2) = ucast (drop_bit 80 a)"
  "v4_from_segments (segment a 2) (segment a 3) = ucast (drop_bit 64 a)"
  by (rule bit_word_eqI, auto simp: v4_from_segments_def segment_def low32_def bit_simps)+

section \<open>Both readings agree on IPv4\<close>

lemma v4_cidr_unat:
  "in_cidr (v4 0 0 0 0) 8 a \<longleftrightarrow> unat a div 65536 div 256 = 0"
  "in_cidr (v4 10 0 0 0) 8 a \<longleftrightarrow> unat a div 65536 div 256 = 10"
  "in_cidr (v4 100 64 0 0) 10 a \<longleftrightarrow> unat a div 65536 div 64 = 401"
  "in_cidr (v4 127 0 0 0) 8 a \<longleftrightarrow> unat a div 65536 div 256 = 127"
  "in_cidr (v4 169 254 0 0) 16 a \<longleftrightarrow> unat a div 65536 = 43518"
  "in_cidr (v4 172 16 0 0) 12 a \<longleftrightarrow> unat a div 65536 div 16 = 2753"
  "in_cidr (v4 192 168 0 0) 16 a \<longleftrightarrow> unat a div 65536 = 49320"
  "in_cidr (v4 224 0 0 0) 4 a \<longleftrightarrow> unat a div 65536 div 4096 = 14"
  "in_cidr (v4 255 0 0 0) 8 a \<longleftrightarrow> unat a div 65536 div 256 = 255"
  by (simp_all add: in_cidr_unat v4_def div_mult2_eq [symmetric])

lemma div_range: "0 < k \<Longrightarrow> (h::nat) div k = q \<longleftrightarrow> k * q \<le> h \<and> h < k * Suc q"
  using dividend_less_times_div [of k h] by (auto intro: div_nat_eqI)

lemma digit_range:
  fixes p r a lo hi :: nat assumes "r < 256" "hi < 256"
  shows "256 * a + lo \<le> 256 * p + r \<and> 256 * p + r < 256 * a + Suc hi \<longleftrightarrow> p = a \<and> lo \<le> r \<and> r \<le> hi"
  using assms by (cases p a rule: linorder_cases) auto

lemma digits_64:
  fixes p r :: nat assumes "r < 256"
  shows "(256 * p + r) div 64 = 401 \<longleftrightarrow> p = 100 \<and> 64 \<le> r \<and> r \<le> 127"
  using digit_range [OF assms, of 127 100 64 p] by (simp add: div_range)

lemma digits_16:
  fixes p r :: nat assumes "r < 256"
  shows "(256 * p + r) div 16 = 2753 \<longleftrightarrow> p = 172 \<and> 16 \<le> r \<and> r \<le> 31"
  using digit_range [OF assms, of 31 172 16 p] by (simp add: div_range)

lemma digits_eq:
  fixes p r a b :: nat assumes "r < 256" "b < 256"
  shows "256 * p + r = 256 * a + b \<longleftrightarrow> p = a \<and> r = b"
  using assms by (cases p a rule: linorder_cases) auto

lemma digits_4096:
  fixes p r :: nat assumes "r < 256"
  shows "(256 * p + r) div 4096 = 14 \<longleftrightarrow> 224 \<le> p \<and> p \<le> 239"
proof -
  have "(57344 \<le> 256 * p + r) = (224 \<le> p)" using assms by linarith
  moreover have "(256 * p + r < 61440) = (p \<le> 239)" using assms by linarith
  ultimately show ?thesis by (simp add: div_range)
qed
lemma ipv4_ranges: "ipv4_blocked a \<longleftrightarrow> in_v4_ranges a"
proof -
  define h where "h = unat a div 65536"
  define p r where "p = h div 256" and "r = h mod 256"
  have r: "r < 256" and h: "h = 256 * p + r" by (simp_all add: p_def r_def)
  have z: "a = 0 \<or> p = 0 \<longleftrightarrow> p = 0" by (auto simp: p_def h_def)
  have o: "unat (octet a 0) = p" "unat (octet a 1) = r" unfolding p_def r_def h_def by (rule octet_unat)+
  have e: "h = 43518 \<longleftrightarrow> p = 169 \<and> r = 254" "h = 49320 \<longleftrightarrow> p = 192 \<and> r = 168"
    using digits_eq [OF r, of 254 p 169] digits_eq [OF r, of 168 p 192] by (simp_all add: h)
  have d: "h div 64 = 401 \<longleftrightarrow> p = 100 \<and> 64 \<le> r \<and> r \<le> 127" "h div 16 = 2753 \<longleftrightarrow> p = 172 \<and> 16 \<le> r \<and> r \<le> 31"
    "h div 4096 = 14 \<longleftrightarrow> 224 \<le> p \<and> p \<le> 239"
    unfolding h by (rule digits_64 [OF r] digits_16 [OF r] digits_4096 [OF r])+
  have "in_v4_ranges a \<longleftrightarrow> p = 0 \<or> p = 10 \<or> h div 64 = 401 \<or> p = 127 \<or> h = 43518 \<or> h div 16 = 2753 \<or> h = 49320
      \<or> h div 4096 = 14 \<or> p = 255"
    unfolding in_v4_ranges_def blocked_v4_def by (simp add: v4_cidr_unat h_def [symmetric] p_def [symmetric])
  moreover have "ipv4_blocked a \<longleftrightarrow> p = 127 \<or> a = 0 \<or> 224 \<le> p \<and> p \<le> 239 \<or> p = 10 \<or> p = 0 \<or> p = 255
      \<or> p = 172 \<and> 16 \<le> r \<and> r \<le> 31 \<or> p = 192 \<and> r = 168 \<or> p = 169 \<and> r = 254 \<or> p = 100 \<and> 64 \<le> r \<and> r \<le> 127"
    unfolding ipv4_blocked_def word_unat_eq_iff [where 'a = 8] word_le_nat_alt [where 'a = 8] o by (simp only: unat_numeral) (simp add: disj_ac)
  ultimately show ?thesis unfolding d e using z by argo
qed

section \<open>Both readings agree on IPv6\<close>

lemma split16: "(x :: nat) = k \<longleftrightarrow> x div 65536 = k div 65536 \<and> x mod 65536 = k mod 65536"
  by (metis div_mult_mod_eq)

lemma segment_eq: "segment a i = c \<longleftrightarrow> unat a div 2 ^ (112 - 16 * i) mod 65536 = unat c"
  by (simp add: word_unat_eq_iff segment_unat)

lemma top_segment: "unat (a :: Ipv6Addr) div 2 ^ 112 mod 65536 = unat a div 2 ^ 112"
proof -
  have "unat a div 2 ^ 112 < 65536" using unsigned_less [of a] by (simp add: div_less_iff_less_mult)
  then show ?thesis by simp
qed

lemma v6_cidr_unat:
  "in_cidr 0 96 (a :: Ipv6Addr) \<longleftrightarrow> unat a div 2 ^ 32 = 0"
  "in_cidr (v6 0xffff 32) 96 a \<longleftrightarrow> unat a div 2 ^ 32 = 0xffff"
  "in_cidr (v6 0x64ff9b 96) 96 a \<longleftrightarrow> unat a div 2 ^ 32 = 0x64ff9b * 2 ^ 64"
  "in_cidr (v6 0x2002 112) 16 a \<longleftrightarrow> unat a div 2 ^ 112 = 0x2002"
  "in_cidr (v6 0x20010000 96) 32 a \<longleftrightarrow> unat a div 2 ^ 96 = 0x20010000"
  "in_cidr (v6 0xfc00 112) 7 a \<longleftrightarrow> unat a div 2 ^ 112 div 2 ^ 9 = 0x7e"
  "in_cidr (v6 0xfe80 112) 10 a \<longleftrightarrow> unat a div 2 ^ 112 div 2 ^ 6 = 0x3fa"
  "in_cidr (v6 0xfec0 112) 10 a \<longleftrightarrow> unat a div 2 ^ 112 div 2 ^ 6 = 0x3fb"
  "in_cidr (v6 0xff00 112) 8 a \<longleftrightarrow> unat a div 2 ^ 112 div 2 ^ 8 = 0xff"
  by (simp_all add: in_cidr_unat v6_def unsigned_push_bit_eq push_bit_eq_mult take_bit_eq_mod div_mult2_eq [symmetric])

lemma unat_segment0: "unat (segment a 0) = unat a div 2 ^ 112"
  using top_segment [of a] by (simp add: segment_unat)

lemma split_segment:
  assumes "m = 112 - 16 * i" "m' = m + 16"
  shows "unat a div 2 ^ m = k \<longleftrightarrow> unat a div 2 ^ m' = k div 65536 \<and> unat (segment a i) = k mod 65536"
proof -
  have "unat a div 2 ^ m' = unat a div 2 ^ m div 65536" unfolding assms(2) by (simp add: power_add div_mult2_eq)
  then show ?thesis using split16 [of "unat a div 2 ^ m" k] unfolding segment_unat assms(1) [symmetric] by simp
qed

lemma top_segments:
  "unat a div 2 ^ 112 = k \<longleftrightarrow> unat (segment a 0) = k"
  "unat a div 2 ^ 96 = k \<longleftrightarrow> unat (segment a 0) = k div 65536 \<and> unat (segment a 1) = k mod 65536"
  "unat a div 2 ^ 32 = k \<longleftrightarrow>
     unat (segment a 0) = k div 65536 div 65536 div 65536 div 65536 div 65536
     \<and> unat (segment a 1) = k div 65536 div 65536 div 65536 div 65536 mod 65536
     \<and> unat (segment a 2) = k div 65536 div 65536 div 65536 mod 65536 
     \<and> unat (segment a 3) = k div 65536 div 65536 mod 65536
     \<and> unat (segment a 4) = k div 65536 mod 65536 \<and> unat (segment a 5) = k mod 65536"
proof -
  have s: "unat a div 2 ^ 96 = k \<longleftrightarrow> unat a div 2 ^ 112 = k div 65536 \<and> unat (segment a 1) = k mod 65536"
    "unat a div 2 ^ 80 = k \<longleftrightarrow> unat a div 2 ^ 96 = k div 65536 \<and> unat (segment a 2) = k mod 65536"
    "unat a div 2 ^ 64 = k \<longleftrightarrow> unat a div 2 ^ 80 = k div 65536 \<and> unat (segment a 3) = k mod 65536"
    "unat a div 2 ^ 48 = k \<longleftrightarrow> unat a div 2 ^ 64 = k div 65536 \<and> unat (segment a 4) = k mod 65536"
    "unat a div 2 ^ 32 = k \<longleftrightarrow> unat a div 2 ^ 48 = k div 65536 \<and> unat (segment a 5) = k mod 65536" for k
    by (rule split_segment; simp)+
  show "unat a div 2 ^ 112 = k \<longleftrightarrow> unat (segment a 0) = k" by (simp only: unat_segment0)
  show "unat a div 2 ^ 96 = k \<longleftrightarrow> unat (segment a 0) = k div 65536 \<and> unat (segment a 1) = k mod 65536"
    by (simp only: s unat_segment0)
  show "unat a div 2 ^ 32 = k \<longleftrightarrow>
     unat (segment a 0) = k div 65536 div 65536 div 65536 div 65536 div 65536
     \<and> unat (segment a 1) = k div 65536 div 65536 div 65536 div 65536 mod 65536
     \<and> unat (segment a 2) = k div 65536 div 65536 div 65536 mod 65536 
     \<and> unat (segment a 3) = k div 65536 div 65536 mod 65536
     \<and> unat (segment a 4) = k div 65536 mod 65536 \<and> unat (segment a 5) = k mod 65536"
    by (simp only: s unat_segment0 conj_assoc)
qed

lemma v6_cidr_segments:
  "in_cidr 0 96 a \<longleftrightarrow> segment a 0 = 0 \<and> segment a 1 = 0 \<and> segment a 2 = 0 \<and> segment a 3 = 0 \<and> segment a 4 = 0 \<and> segment a 5 = 0"
  "in_cidr (v6 0xffff 32) 96 a \<longleftrightarrow>
     segment a 0 = 0 \<and> segment a 1 = 0 \<and> segment a 2 = 0 \<and> segment a 3 = 0 \<and> segment a 4 = 0 \<and> segment a 5 = 0xffff"
  "in_cidr (v6 0x64ff9b 96) 96 a \<longleftrightarrow>
     segment a 0 = 0x64 \<and> segment a 1 = 0xff9b \<and> segment a 2 = 0 \<and> segment a 3 = 0 \<and> segment a 4 = 0 \<and> segment a 5 = 0"
  "in_cidr (v6 0x2002 112) 16 a \<longleftrightarrow> segment a 0 = 0x2002"
  "in_cidr (v6 0x20010000 96) 32 a \<longleftrightarrow> segment a 0 = 0x2001 \<and> segment a 1 = 0"
proof -
  have n: "unat (0 :: u16) = 0" "unat (0xffff :: u16) = 0xffff" "unat (0x64 :: u16) = 0x64" "unat (0xff9b :: u16) = 0xff9b"
    "unat (0x2002 :: u16) = 0x2002" "unat (0x2001 :: u16) = 0x2001" by simp_all
  have d: "0x64ff9b * 2 ^ 64 = (0x64 * 65536 + 0xff9b) * 65536 * 65536 * 65536 * (65536 :: nat)" by simp
  show "in_cidr 0 96 a \<longleftrightarrow> segment a 0 = 0 \<and> segment a 1 = 0 \<and> segment a 2 = 0 \<and> segment a 3 = 0 \<and> segment a 4 = 0 \<and> segment a 5 = 0"
    unfolding v6_cidr_unat top_segments word_unat_eq_iff n by simp
  show "in_cidr (v6 0xffff 32) 96 a \<longleftrightarrow>
     segment a 0 = 0 \<and> segment a 1 = 0 \<and> segment a 2 = 0 \<and> segment a 3 = 0 \<and> segment a 4 = 0 \<and> segment a 5 = 0xffff"
    unfolding v6_cidr_unat top_segments word_unat_eq_iff n by simp
  show "in_cidr (v6 0x64ff9b 96) 96 a \<longleftrightarrow>
     segment a 0 = 0x64 \<and> segment a 1 = 0xff9b \<and> segment a 2 = 0 \<and> segment a 3 = 0 \<and> segment a 4 = 0 \<and> segment a 5 = 0"
    unfolding v6_cidr_unat top_segments word_unat_eq_iff n d by simp
  show "in_cidr (v6 0x2002 112) 16 a \<longleftrightarrow> segment a 0 = 0x2002"
    unfolding v6_cidr_unat top_segments word_unat_eq_iff n by simp
  show "in_cidr (v6 0x20010000 96) 32 a \<longleftrightarrow> segment a 0 = 0x2001 \<and> segment a 1 = 0"
    unfolding v6_cidr_unat top_segments word_unat_eq_iff n by simp
qed

lemma v6_cidr_mask:
  "in_cidr (v6 0xfc00 112) 7 a \<longleftrightarrow> segment a 0 AND 0xfe00 = 0xfc00"
  "in_cidr (v6 0xfe80 112) 10 a \<longleftrightarrow> segment a 0 AND 0xffc0 = 0xfe80"
  "in_cidr (v6 0xfec0 112) 10 a \<longleftrightarrow> segment a 0 AND 0xffc0 = 0xfec0"
  "in_cidr (v6 0xff00 112) 8 a \<longleftrightarrow> segment a 0 AND 0xff00 = 0xff00"
proof -
  have m: "(0xfe00 :: u16) = NOT (mask 9)" "(0xffc0 :: u16) = NOT (mask 6)" "(0xff00 :: u16) = NOT (mask 8)"
    by (simp_all add: mask_eq_decr_exp)
  have n: "unat (0xfc00 :: u16) = 0x7e * 2 ^ 9" "unat (0xfe80 :: u16) = 0x3fa * 2 ^ 6" "unat (0xfec0 :: u16) = 0x3fb * 2 ^ 6"
    "unat (0xff00 :: u16) = 0xff * 2 ^ 8" by simp_all
  have c: "x * 2 ^ j = y * 2 ^ j \<longleftrightarrow> x = y" for x y j :: nat by simp
  have eq: "segment a 0 AND NOT (mask j) = w \<longleftrightarrow> unat a div 2 ^ 112 div 2 ^ j * 2 ^ j = unat w" for j w
    by (simp only: word_unat_eq_iff and_high_unat unat_segment0)
  show "in_cidr (v6 0xfc00 112) 7 a \<longleftrightarrow> segment a 0 AND 0xfe00 = 0xfc00"
    by (simp only: v6_cidr_unat m(1) eq n c)
  show "in_cidr (v6 0xfe80 112) 10 a \<longleftrightarrow> segment a 0 AND 0xffc0 = 0xfe80"
    by (simp only: v6_cidr_unat m(2) eq n c)
  show "in_cidr (v6 0xfec0 112) 10 a \<longleftrightarrow> segment a 0 AND 0xffc0 = 0xfec0"
    by (simp only: v6_cidr_unat m(2) eq n c)
  show "in_cidr (v6 0xff00 112) 8 a \<longleftrightarrow> segment a 0 AND 0xff00 = 0xff00"
    unfolding v6_cidr_unat by (subst m(3)) (simp only: eq n c)
qed

lemma zero_one_compatible: "a = 0 \<or> a = 1 \<Longrightarrow> in_cidr 0 96 (a :: Ipv6Addr)"
  by (auto simp: in_cidr_unat)

lemma embedded_ipv4s_ranges:
  "list_ex ipv4_blocked (embedded_ipv4s a) \<longleftrightarrow>
     in_cidr (v6 0x64ff9b 96) 96 a \<and> in_v4_ranges (low32 a)
     \<or> in_cidr (v6 0x2002 112) 16 a \<and> in_v4_ranges (ucast (drop_bit 80 a))
     \<or> in_cidr (v6 0x20010000 96) 32 a \<and> (in_v4_ranges (ucast (drop_bit 64 a)) \<or> in_v4_ranges (NOT (low32 a)))"
  by (simp add: embedded_ipv4s_def Let_def v4_from_segments_low32 [simplified] v6_cidr_segments ipv4_ranges) blast

lemma ipv6_ranges: "ip_is_blocked (V6 a) \<longleftrightarrow> in_v6_ranges a"
proof (cases "in_cidr (v6 0xffff 32) 96 a \<or> in_cidr 0 96 a")
  case True
  then have z: "segment a 0 = 0" by (auto simp: v6_cidr_segments)
  from True have "ip_is_blocked (V6 a) \<longleftrightarrow> in_v4_ranges (low32 a)"
    by (auto simp: ip_is_blocked_def to_ipv4_mapped_def v6_cidr_segments v4_from_segments_low32 ipv4_ranges)
  with True z show ?thesis unfolding in_v6_ranges_def v6_cidr_mask by (auto simp: v6_cidr_segments)
next
  case False
  with zero_one_compatible [of a] have "a \<noteq> 0" "a \<noteq> 1" by blast+
  with False show ?thesis
    unfolding in_v6_ranges_def ip_is_blocked_def to_ipv4_mapped_def embedded_ipv4s_ranges v6_cidr_mask
      ipv6_blocked_def v6_cidr_segments
    by auto
qed

text \<open>
  C33.  The airlock refuses exactly the addresses of its ranges.  For IPv4 these are 0.0.0.0/8,
  10.0.0.0/8, 100.64.0.0/10, 127.0.0.0/8, 169.254.0.0/16, 172.16.0.0/12, 192.168.0.0/16, 224.0.0.0/4
  and 255.0.0.0/8.  For IPv6 they are fc00::/7, fe80::/10, fec0::/10 and ff00::/8, and every address that
  carries a blocked IPv4 address: in its last 32 bits under ::/96 (so ::, ::1 and the deprecated
  compatible form), ::ffff:0:0/96 and 64:ff9b::/96, in the bits after 2002::/16, and under 2001::/32 in
  the server field or, complemented, in the client field.  No encoding of a blocked address passes, and
  no address outside the ranges is refused.
\<close>

theorem airlock_blocks_exactly:
  "(\<forall>a. ip_is_blocked (V4 a) \<longleftrightarrow> in_v4_ranges a) \<and> (\<forall>a. ip_is_blocked (V6 a) \<longleftrightarrow> in_v6_ranges a)"
  by (simp add: ipv6_ranges) (simp add: ip_is_blocked_def ipv4_ranges)

end
