(* ===== verification/Egress_Airlock.thy ===== *)
theory Egress_Airlock
  imports Net_Airlock Text_Format "HOL-Library.Monad_Syntax"
begin

text \<open>
  The airlock on outgoing HTTP: \<open>crates/astrid-capsule/src/engine/wasm/host/http/ssrf.rs\<close>, with
  \<open>net_connect_pattern_matches\<close> of \<open>crates/astrid-capsule/src/security/manifest_gate.rs\<close>.  The IP address
  reader of the standard library is written out.  Parsing a URL and looking up a name are parameters: the
  record \<open>Url\<close> holds what the code reads from a parsed URL, and a lookup gives addresses or an error.
\<close>

section \<open>The address reader of the standard library\<close>

type_synonym 'a reader = "string \<Rightarrow> ('a \<times> string) option"

text \<open>
  \<open>Parser::read_number\<close> with a bound on the digits, \<open>read_separator\<close>, \<open>read_ipv4_addr\<close>,
  \<open>read_ipv6_addr\<close> with its \<open>read_groups\<close>, and \<open>IpAddr::from_str\<close>.
\<close>

definition read_number :: "nat \<Rightarrow> nat \<Rightarrow> bool \<Rightarrow> nat \<Rightarrow> nat reader" where
  "read_number radix max_digits allow_zero_prefix limit s =
     (let digits = takeWhile (\<lambda>c. to_digit radix c \<noteq> None) s
      in if max_digits < length digits \<or> digits = [] then None
         else if \<not> allow_zero_prefix \<and> hd digits = CHR ''0'' \<and> 1 < length digits then None
         else map_option (\<lambda>v. (v, drop (length digits) s)) (checked_digits radix limit 0 digits))"

definition read_separator :: "char \<Rightarrow> nat \<Rightarrow> 'a reader \<Rightarrow> 'a reader" where
  "read_separator sep i inner s =
     (if i = 0 then inner s
      else case s of [] \<Rightarrow> None | c # rest \<Rightarrow> if c = sep then inner rest else None)"

definition read_octet :: "nat \<Rightarrow> nat reader" where
  "read_octet i = read_separator CHR ''.'' i (read_number 10 3 False 255)"

definition read_ipv4_addr :: "Ipv4Addr reader" where
  "read_ipv4_addr s = do {
     (a, s) \<leftarrow> read_octet 0 s;
     (b, s) \<leftarrow> read_octet 1 s;
     (c, s) \<leftarrow> read_octet 2 s;
     (d, s) \<leftarrow> read_octet 3 s;
     Some (v4 a b c d, s)
   }"

fun read_groups :: "nat \<Rightarrow> nat \<Rightarrow> string \<Rightarrow> nat list \<times> bool \<times> string" where
  "read_groups 0 i s = ([], False, s)"
| "read_groups (Suc n) i s =
     (case (if 0 < n then read_separator CHR '':'' i read_ipv4_addr s else None) of
        Some (a, rest) \<Rightarrow> ([unat a div 65536, unat a mod 65536], True, rest)
      | None \<Rightarrow>
          (case read_separator CHR '':'' i (read_number 16 4 True 65535) s of
             Some (g, rest) \<Rightarrow> (let (gs, v4_end, rest') = read_groups n (Suc i) rest in (g # gs, v4_end, rest'))
           | None \<Rightarrow> ([], False, s)))"

definition v6_from_groups :: "nat list \<Rightarrow> Ipv6Addr" where
  "v6_from_groups gs = word_of_nat (foldl (\<lambda>a g. a * 65536 + g) 0 gs)"

definition read_ipv6_addr :: "Ipv6Addr reader" where
  "read_ipv6_addr s =
     (let (head, head_ipv4, s1) = read_groups 8 0 s
      in if length head = 8 then Some (v6_from_groups head, s1)
         else if head_ipv4 then None
         else case strip_prefix ''::'' s1 of
                None \<Rightarrow> None
              | Some s2 \<Rightarrow>
                  let (tail, _, s3) = read_groups (8 - (length head + 1)) 0 s2
                  in Some (v6_from_groups (head @ replicate (8 - length head - length tail) 0 @ tail), s3))"

definition parse_ip_addr :: "string \<Rightarrow> IpAddr option" where
  "parse_ip_addr s =
     (case (case read_ipv4_addr s of
              Some (a, rest) \<Rightarrow> Some (V4 a, rest)
            | None \<Rightarrow> map_option (\<lambda>(a, rest). (V6 a, rest)) (read_ipv6_addr s)) of
        Some (ip, []) \<Rightarrow> Some ip
      | _ \<Rightarrow> None)"

section \<open>The airlock\<close>

record Url =
  url_text :: string
  url_scheme :: string
  url_host :: "string option"
  url_port :: "u16 option"
  url_path :: string
  url_query :: "string option"

datatype ErrorCode =
    CapabilityDenied | InvalidRequest | DnsError | AirlockRejected | TlsError | Timeout | ConnectionError
  | BodyTooLarge | Closed | Quota | RedirectBlocked | TooManyRedirects | IntegrityMismatch | SchemeDenied
  | DecompressionBomb | Protocol string | Unknown string

definition net_connect_pattern_matches :: "string \<Rightarrow> string \<Rightarrow> u16 \<Rightarrow> bool" where
  "net_connect_pattern_matches pattern host port =
     (case rsplit_once CHR '':'' pattern of
        None \<Rightarrow> False
      | Some (pat_host, pat_port) \<Rightarrow>
          if \<not> eq_ignore_ascii_case pat_host host then False
          else if pat_port = ''*'' then True
          else (case parse_u16 pat_port of None \<Rightarrow> False | Some n \<Rightarrow> n = port))"

text \<open>The escape hatch \<open>SSRF_BYPASS\<close>, read once from the environment, is the argument \<open>bypass\<close>.\<close>

definition is_safe_ip :: "bool \<Rightarrow> IpAddr \<Rightarrow> bool" where
  "is_safe_ip bypass ip = (if bypass then True else \<not> ip_is_blocked ip)"

definition literal_ip :: "string \<Rightarrow> IpAddr option" where
  "literal_ip host =
     (let bare = (case Option.bind (strip_prefix ''['' host) (strip_suffix '']'') of Some h \<Rightarrow> h | None \<Rightarrow> host)
      in parse_ip_addr bare)"

definition egress_allowed :: "string list \<Rightarrow> string \<Rightarrow> u16 \<Rightarrow> bool" where
  "egress_allowed allowlist host port = list_ex (\<lambda>entry. net_connect_pattern_matches entry host port) allowlist"

definition egress_decision ::
  "(string \<Rightarrow> Url option) \<Rightarrow> bool \<Rightarrow> string list \<Rightarrow> string \<Rightarrow> (ErrorCode, string option) result" where
  "egress_decision url_parse bypass allowlist url =
     (case url_parse url of
        None \<Rightarrow> Inl InvalidRequest
      | Some parsed \<Rightarrow>
          (case url_host parsed of
             None \<Rightarrow> Inl InvalidRequest
           | Some host \<Rightarrow>
               if (case url_port parsed of Some port \<Rightarrow> egress_allowed allowlist host port | None \<Rightarrow> False)
               then Inr (Some host)
               else if (case literal_ip host of Some ip \<Rightarrow> \<not> is_safe_ip bypass ip | None \<Rightarrow> False)
               then Inl AirlockRejected
               else Inr None))"

definition url_host_port :: "(string \<Rightarrow> Url option) \<Rightarrow> string \<Rightarrow> (string \<times> u16) option" where
  "url_host_port url_parse url = do {
     parsed \<leftarrow> url_parse url;
     host \<leftarrow> url_host parsed;
     port \<leftarrow> url_port parsed;
     Some (host, port)
   }"

definition redirect_target_blocked :: "bool \<Rightarrow> string option \<Rightarrow> bool" where
  "redirect_target_blocked bypass host =
     (case Option.bind host literal_ip of Some ip \<Rightarrow> \<not> is_safe_ip bypass ip | None \<Rightarrow> False)"

type_synonym SocketAddr = "IpAddr \<times> u16"

definition filter_safe_addrs :: "bool \<Rightarrow> SocketAddr list \<Rightarrow> bool \<Rightarrow> SocketAddr list \<times> bool" where
  "filter_safe_addrs bypass addrs exempt =
     (if exempt then (addrs, False)
      else (filter (\<lambda>a. is_safe_ip bypass (fst a)) addrs, list_ex (\<lambda>a. \<not> is_safe_ip bypass (fst a)) addrs))"

text \<open>
  \<open>SafeDnsResolver::resolve\<close>: the addresses to connect to, if any, with the flags \<open>tripped\<close> and
  \<open>dns_failed\<close> as the call leaves them.  A failed lookup says whether the name was not found.
\<close>

record ResolverFlags =
  rf_tripped :: bool
  rf_dns_failed :: bool

definition resolve_name ::
  "bool \<Rightarrow> string option \<Rightarrow> string \<Rightarrow> (bool, SocketAddr list) result \<Rightarrow> ResolverFlags
     \<Rightarrow> SocketAddr list option \<times> ResolverFlags" where
  "resolve_name bypass exempt_host name lookup flags =
     (let exempt = (case exempt_host of Some h \<Rightarrow> eq_ignore_ascii_case h name | None \<Rightarrow> False)
      in case lookup of
           Inl not_found \<Rightarrow> (None, if not_found then flags\<lparr>rf_dns_failed := True\<rparr> else flags)
         | Inr addrs \<Rightarrow>
             (let (safe_addrs, saw_unsafe) = filter_safe_addrs bypass addrs exempt
              in if safe_addrs = [] then
                   (None, if saw_unsafe then flags\<lparr>rf_tripped := True\<rparr> else flags\<lparr>rf_dns_failed := True\<rparr>)
                 else (Some safe_addrs, flags)))"

definition flag_error :: "ResolverFlags \<Rightarrow> ErrorCode option" where
  "flag_error flags =
     (if rf_tripped flags then Some AirlockRejected
      else if rf_dns_failed flags then Some DnsError else None)"

text \<open>The generic classification of a failed request, \<open>map_reqwest_err\<close>, is the argument \<open>generic\<close>.\<close>

definition airlock_or :: "ResolverFlags \<Rightarrow> ErrorCode \<Rightarrow> ErrorCode" where
  "airlock_or flags generic = (case flag_error flags of Some e \<Rightarrow> e | None \<Rightarrow> generic)"

section \<open>Dotted quads\<close>

lemma takeWhile_append_stop: "\<forall>c \<in> set s. P c \<Longrightarrow> (t = [] \<or> \<not> P (hd t)) \<Longrightarrow> takeWhile P (s @ t) = s"
  by (cases t) auto

lemma dec_to_digit: "c \<in> set (dec n) \<Longrightarrow> to_digit 10 c \<noteq> None"
  using dec_digits [of c n] by (auto simp: to_digit_def ascii_defs Let_def)

lemma dec_length: "n < 1000 \<Longrightarrow> length (dec n) \<le> 3"
proof -
  assume n: "n < 1000"
  have a: "k < 10 \<Longrightarrow> length (dec k) = 1" for k by (simp add: dec.simps)
  have b: "k < 100 \<Longrightarrow> length (dec k) \<le> 2" for k using a [of "k div 10"] by (subst dec.simps) simp
  show ?thesis using n b [of "n div 10"] by (subst dec.simps) simp
qed

lemma dec_leading_zero: "hd (dec n) = CHR ''0'' \<Longrightarrow> n = 0"
proof (induction n rule: dec.induct)
  case (1 n)
  show ?case
  proof (cases "n < 10")
    case True
    with "1.prems" have "of_char (char_of (48 + n) :: char) = (of_char (CHR ''0'') :: nat)" by (subst (asm) dec.simps) simp
    with True show ?thesis by (simp add: of_char_of)
  next
    case False
    with 1 have "n div 10 = 0" by (subst (asm) (2) dec.simps) simp
    with False show ?thesis by simp
  qed
qed

lemma read_number_dec:
  assumes "n \<le> 255" "s = [] \<or> to_digit 10 (hd s) = None"
  shows "read_number 10 3 False 255 (dec n @ s) = Some (n, s)"
proof -
  have t: "takeWhile (\<lambda>c. to_digit 10 c \<noteq> None) (dec n @ s) = dec n"
    using assms(2) dec_to_digit by (intro takeWhile_append_stop) auto
  have l: "length (dec n) \<le> 3" using assms(1) by (intro dec_length) simp
  have z: "hd (dec n) = CHR ''0'' \<Longrightarrow> length (dec n) = 1" using dec_leading_zero [of n] by (auto simp: dec.simps [of 0])
  show ?thesis
    unfolding read_number_def Let_def t using l z checked_digits_dec [OF assms(1)] by auto
qed

definition dotted :: "Ipv4Addr \<Rightarrow> string" where
  "dotted a = join_with ''.'' (map (\<lambda>i. dec (unat (octet a i))) [0, 1, 2, 3])"

lemma four_digits:
  fixes n x y a b c d :: nat
  assumes "n = 256 * x + d" "x = 256 * y + c" "y = 256 * a + b"
  shows "a * 16777216 + b * 65536 + c * 256 + d = n"
  using assms by simp

lemma v4_octets: "v4 (unat (octet a 0)) (unat (octet a 1)) (unat (octet a 2)) (unat (octet a 3)) = a"
proof -
  define n where "n = unat a"
  have o: "unat (octet a i) = n div 2 ^ (24 - 8 * i) mod 256" for i
    by (simp add: octet_def unsigned_ucast_eq unat_drop take_bit_eq_mod n_def)
  define x y where "x = n div 256" and "y = x div 256"
  have "n < 2 ^ 32" using unsigned_less [of a] by (simp add: n_def)
  then have "n div 16777216 mod 256 = n div 16777216" by (simp add: div_less_iff_less_mult)
  then have d: "n div 16777216 mod 256 = y div 256" "n div 65536 mod 256 = y mod 256" "n div 256 mod 256 = x mod 256"
    by (simp_all add: x_def y_def div_mult2_eq [symmetric])
  have "n = 256 * x + n mod 256" "x = 256 * y + x mod 256" "y = 256 * (y div 256) + y mod 256"
    by (simp_all add: x_def y_def)
  then have "y div 256 * 16777216 + y mod 256 * 65536 + x mod 256 * 256 + n mod 256 = n" by (rule four_digits)
  then have "n div 16777216 mod 256 * 16777216 + n div 65536 mod 256 * 65536 + n div 256 mod 256 * 256 + n mod 256 = n"
    by (simp only: d)
  moreover have "unat (octet a 0) = n div 16777216 mod 256" "unat (octet a 1) = n div 65536 mod 256"
    "unat (octet a 2) = n div 256 mod 256" "unat (octet a 3) = n mod 256"
    using o [of 0] o [of 1] o [of 2] o [of 3] by simp_all
  ultimately have "unat (octet a 0) * 2 ^ 24 + unat (octet a 1) * 2 ^ 16 + unat (octet a 2) * 2 ^ 8 + unat (octet a 3) = n"
    by simp
  then show ?thesis unfolding v4_def by (simp only: n_def of_nat_unat) simp
qed

lemma octet_le: "unat (octet a i) \<le> 255"
proof -
  have "unat (octet a i) < 256" using unsigned_less [of "octet a i"] by simp
  then show ?thesis by simp
qed

lemma to_digit_dot: "to_digit 10 (CHR ''.'') = None"
  by (simp add: to_digit_def ascii_defs)

lemma parse_dotted: "parse_ip_addr (dotted a) = Some (V4 a)"
proof -
  have r: "read_number 10 3 False 255 (dec (unat (octet a i)) @ CHR ''.'' # s) = Some (unat (octet a i), CHR ''.'' # s)"
    "read_number 10 3 False 255 (dec (unat (octet a i))) = Some (unat (octet a i), [])" for i s
    using read_number_dec [OF octet_le, of "CHR ''.'' # s" a i] read_number_dec [OF octet_le, of "[]" a i]
    by (simp_all add: to_digit_dot)
  have "read_ipv4_addr (dotted a) = Some (a, [])"
    using v4_octets [of a] by (simp add: read_ipv4_addr_def read_octet_def read_separator_def dotted_def r)
  then show ?thesis by (simp add: parse_ip_addr_def)
qed

lemma literal_dotted: "literal_ip (dotted a) = Some (V4 a)"
proof -
  have "hd (dotted a) = hd (dec (unat (octet a 0)))" "dotted a \<noteq> []" by (simp_all add: dotted_def)
  then have "is_ascii_digit (hd (dotted a))" using dec_hd_digit by simp
  then have "hd (dotted a) \<noteq> CHR ''[''" by (auto simp: ascii_defs)
  then have "strip_prefix ''['' (dotted a) = None" by (cases "dotted a") auto
  then show ?thesis by (simp add: literal_ip_def parse_dotted)
qed

section \<open>Endpoints\<close>

definition endpoint_of :: "string \<Rightarrow> u16 \<Rightarrow> string" where
  "endpoint_of host port = host @ '':'' @ dec (unat port)"

lemma endpoint_matches:
  "net_connect_pattern_matches (endpoint_of host port) h p \<longleftrightarrow> eq_ignore_ascii_case host h \<and> p = port"
proof -
  have r: "rsplit_once CHR '':'' (endpoint_of host port) = Some (host, dec (unat port))"
    by (simp add: rsplit_once_Some endpoint_of_def)
  have "is_ascii_digit (hd (dec (unat port)))" by (rule dec_hd_digit)
  then have "dec (unat port) \<noteq> ''*''" by (auto simp: ascii_defs)
  then show ?thesis by (auto simp: net_connect_pattern_matches_def r)
qed

end
