(* ===== verification/Approval_Host.thy ===== *)
theory Approval_Host
  imports Host_State Egress_Airlock
begin

text \<open>
  Consent of the user for what a capsule does:
  \<open>crates/astrid-capsule/src/engine/wasm/host/approval.rs\<close> (commands),
  \<open>consent_egress.rs\<close> (local endpoints that the airlock refused) and \<open>approval_audit.rs\<close> (the trail), with
  \<open>egress_decision_with_consent\<close> of \<open>http/ssrf.rs\<close>.

  What the code takes from outside is an \<open>ApprovalEnv\<close>: the glob matcher, the clock, the identifiers and the
  signature it generates, the events that arrive on the response topic before the deadline, whether the
  wait was cancelled, and whether a profile write succeeds.  Log messages are not modelled.
\<close>

section \<open>Characters of a UTF-8 string\<close>

text \<open>\<open>str::chars\<close>: every byte that is not a continuation byte starts a character.\<close>

definition is_char_boundary_byte :: "char \<Rightarrow> bool" where
  "is_char_boundary_byte c \<longleftrightarrow> \<not> (0x80 \<le> char_code c \<and> char_code c \<le> 0xBF)"

function utf8_chars :: "string \<Rightarrow> string list" where
  "utf8_chars [] = []"
| "utf8_chars (c # s) =
     (c # takeWhile (\<lambda>b. \<not> is_char_boundary_byte b) s)
     # utf8_chars (dropWhile (\<lambda>b. \<not> is_char_boundary_byte b) s)"
  by pat_completeness auto
termination by (relation "measure length") (auto simp: le_imp_less_Suc length_dropWhile_le)

text \<open>\<open>char::is_control\<close>: U+0000 to U+001F and U+007F to U+009F.\<close>

fun is_control :: "string \<Rightarrow> bool" where
  "is_control [a] \<longleftrightarrow> char_code a < 0x20 \<or> char_code a = 0x7F"
| "is_control [a, b] \<longleftrightarrow> char_code a = 0xC2 \<and> char_code b \<le> 0x9F"
| "is_control _ \<longleftrightarrow> False"

section \<open>Environment\<close>

record ApprovalEnv =
  ae_glob :: "string \<Rightarrow> string \<Rightarrow> bool"
  ae_now :: nat
  ae_request_id :: string
  ae_allowance_id :: AllowanceId
  ae_signature :: string
  ae_events :: "AstridEvent list"
  ae_cancelled :: bool
  ae_cancelled_after :: bool
  ae_write_ok :: bool

section \<open>The trail of one check\<close>

record ApprovalAudit =
  aa_principal :: PrincipalId
  aa_action :: string
  aa_resource :: string
  aa_request_id :: "string option"
  aa_request :: "HostAuditReceipt option"
  aa_decided :: bool

definition approval_audit_new :: "PrincipalId \<Rightarrow> string \<Rightarrow> string \<Rightarrow> ApprovalAudit" where
  "approval_audit_new p action resource =
     \<lparr>aa_principal = p, aa_action = action, aa_resource = resource, aa_request_id = None, aa_request = None,
      aa_decided = False\<rparr>"

definition audit_requested ::
  "string \<Rightarrow> ApprovalAudit \<Rightarrow> 'z HostState_scheme \<Rightarrow> ApprovalAudit \<times> 'z HostState_scheme" where
  "audit_requested request_id audit st =
     (let audit1 = audit\<lparr>aa_request_id := Some request_id\<rparr>
      in if \<not> audit_sink st then (audit1, st)
         else (audit1\<lparr>aa_request := Some (length (audit_log st))\<rparr>,
               sink_record True (aa_principal audit) (ApprovalRequested request_id (aa_action audit) (aa_resource audit))
                 OutcomeAllowed st))"

definition audit_decide ::
  "HostApprovalScope option \<Rightarrow> string \<Rightarrow> HostAuditOutcome \<Rightarrow> bool \<Rightarrow> ApprovalAudit \<Rightarrow> 'z HostState_scheme
     \<Rightarrow> ApprovalAudit \<times> 'z HostState_scheme" where
  "audit_decide sc via outcome may_block audit st =
     (if aa_decided audit then (audit, st)
      else let audit1 = audit\<lparr>aa_decided := True\<rparr>
        in if \<not> audit_sink st then (audit1, st)
           else (audit1,
                 sink_record (may_block \<and> aa_request audit \<noteq> None) (aa_principal audit)
                   (ApprovalDecided \<lparr>hd_request_id = aa_request_id audit, hd_request = aa_request audit,
                      hd_action = aa_action audit, hd_resource = aa_resource audit, hd_scope = sc, hd_via = via\<rparr>)
                   outcome st))"

definition audit_granted ::
  "HostApprovalScope \<Rightarrow> string \<Rightarrow> ApprovalAudit \<Rightarrow> 'z HostState_scheme \<Rightarrow> ApprovalAudit \<times> 'z HostState_scheme" where
  "audit_granted sc via = audit_decide (Some sc) via OutcomeAllowed True"

definition audit_denied ::
  "string \<Rightarrow> string \<Rightarrow> ApprovalAudit \<Rightarrow> 'z HostState_scheme \<Rightarrow> ApprovalAudit \<times> 'z HostState_scheme" where
  "audit_denied via reason = audit_decide None via (OutcomeDenied reason) True"

definition audit_drop :: "ApprovalAudit \<Rightarrow> 'z HostState_scheme \<Rightarrow> 'z HostState_scheme" where
  "audit_drop audit st =
     (if aa_request_id audit \<noteq> None
      then snd (audit_decide None ''error'' (OutcomeDenied ''no decision was applied'') False audit st)
      else st)"

text \<open>A return from a function that owns the trail: the result, and the state after the trail is dropped.\<close>

definition returning :: "'r \<Rightarrow> ApprovalAudit \<times> 'z HostState_scheme \<Rightarrow> 'r \<times> 'z HostState_scheme" where
  "returning r a = (r, audit_drop (fst a) (snd a))"

section \<open>Waiting for the user\<close>

definition event_principal :: "AstridEvent \<Rightarrow> string option" where
  "event_principal e = (case e of IpcEvent m \<Rightarrow> im_principal m | OtherEvent \<Rightarrow> None)"

definition event_request_owner :: "AstridEvent \<Rightarrow> RequestOwnerId option" where
  "event_request_owner e = (case e of IpcEvent m \<Rightarrow> im_request_owner m | OtherEvent \<Rightarrow> None)"

definition response_identity_matches :: "string \<Rightarrow> RequestOwnerId \<Rightarrow> AstridEvent \<Rightarrow> bool" where
  "response_identity_matches expected_principal expected_owner e \<longleftrightarrow>
     event_principal e = Some expected_principal \<and> event_request_owner e = Some expected_owner"

text \<open>The loop over the events that arrive before the deadline; \<open>None\<close> is the timeout.\<close>

fun await_matching_approval_response :: "string \<Rightarrow> RequestOwnerId \<Rightarrow> AstridEvent list \<Rightarrow> AstridEvent option" where
  "await_matching_approval_response p owner [] = None"
| "await_matching_approval_response p owner (e # es) =
     (if response_identity_matches p owner e then Some e else await_matching_approval_response p owner es)"

definition bounded_block_on_cancellable :: "ApprovalEnv \<Rightarrow> 'z HostState_scheme \<Rightarrow> 'a \<Rightarrow> 'a option" where
  "bounded_block_on_cancellable env st result =
     (if effective_cancelled st then None else if ae_cancelled env then None else Some result)"

definition await_user ::
  "ApprovalEnv \<Rightarrow> PrincipalId \<Rightarrow> RequestOwnerId \<Rightarrow> 'z HostState_scheme \<Rightarrow> AstridEvent option" where
  "await_user env p owner st =
     Option.bind (bounded_block_on_cancellable env st (await_matching_approval_response (pid_str p) owner (ae_events env)))
       (\<lambda>e. e)"

definition is_cancelled :: "ApprovalEnv \<Rightarrow> 'z HostState_scheme \<Rightarrow> bool" where
  "is_cancelled env st \<longleftrightarrow> effective_cancelled st \<or> ae_cancelled env \<or> ae_cancelled_after env"

definition audit_no_response ::
  "ApprovalEnv \<Rightarrow> ApprovalAudit \<Rightarrow> 'z HostState_scheme \<Rightarrow> ApprovalAudit \<times> 'z HostState_scheme" where
  "audit_no_response env audit st =
     (if is_cancelled env st then audit_denied ''cancelled'' ''invocation cancelled'' audit st
      else audit_denied ''timeout'' ''no response before the timeout'' audit st)"

definition publish_request ::
  "string \<Rightarrow> string \<Rightarrow> string \<Rightarrow> string \<Rightarrow> PrincipalId \<Rightarrow> RequestOwnerId \<Rightarrow> 'z HostState_scheme \<Rightarrow> 'z HostState_scheme" where
  "publish_request request_id action resource reason p owner st =
     st\<lparr>published := published st @
        [\<lparr>im_topic = approval_request_topic, im_payload = ApprovalRequired request_id owner action resource reason,
          im_principal = Some (pid_str p), im_request_owner = Some owner, im_origin = SystemOrigin\<rparr>]\<rparr>"

definition request_owner_of :: "'z HostState_scheme \<Rightarrow> RequestOwnerId option" where
  "request_owner_of st = Option.bind (caller_context st) im_request_owner"

section \<open>Commands\<close>

datatype ApprovalDecision = Approved | ApprovedSession | ApprovedAlways | Denied | DecisionAllowance

datatype ApprovalErrorCode = AeStoreUnavailable | AeInvalidInput | AeTimeout | AeUnknown string

record ApprovalRequest =
  rq_action :: string
  rq_target_resource :: string

definition MAX_ACTION_LEN :: nat where "MAX_ACTION_LEN = 256"
definition MAX_RESOURCE_LEN :: nat where "MAX_RESOURCE_LEN = 1024"

definition check_allowance ::
  "ApprovalEnv \<Rightarrow> AllowanceStore \<Rightarrow> PrincipalId \<Rightarrow> string \<Rightarrow> string option \<Rightarrow> bool \<times> AllowanceStore" where
  "check_allowance env store p resource workspace_root =
     (let (r, store') = find_matching_and_consume (ae_glob env) (ae_now env) p (ExecuteCommand resource []) workspace_root store
      in (r \<noteq> None, store'))"

definition approval_location :: "'z HostState_scheme \<Rightarrow> CommandApprovalLocation" where
  "approval_location st =
     (case effective_workspace st of
        Some m \<Rightarrow> if pm_location m = AstridFilesystem then AstridWorkspace else Hosted
      | None \<Rightarrow> Hosted)"

text \<open>Guest-supplied text is made safe for display and for patterns.\<close>

definition sanitize_guest_field :: "nat \<Rightarrow> string \<Rightarrow> string" where
  "sanitize_guest_field max_len s = concat (take max_len (filter (\<lambda>c. \<not> is_control c) (utf8_chars (trim s))))"

definition sanitize_action_for_pattern :: "string \<Rightarrow> string" where
  "sanitize_action_for_pattern action =
     concat (take MAX_ACTION_LEN (filter (\<lambda>c. \<not> is_control c) (utf8_chars (trim action))))"

definition glob_metacharacters :: string where
  "glob_metacharacters = ''*?[]{}'' @ [CHR 0x5C]"

definition escape_glob_metacharacters :: "string \<Rightarrow> string" where
  "escape_glob_metacharacters action =
     concat (map (\<lambda>c. if c \<in> set glob_metacharacters then [CHR 0x5C, c] else [c]) action)"

definition command_grant_matches ::
  "ApprovalEnv \<Rightarrow> CommandApprovalLocation \<Rightarrow> string \<Rightarrow> string \<Rightarrow> CommandAlwaysGrant \<Rightarrow> bool" where
  "command_grant_matches env location hosted_identity resource grant =
     (if ca_location grant \<noteq> location then False
      else if \<not> (case (ca_workspace_root grant, location) of
                   (Some workspace, Hosted) \<Rightarrow> path_components workspace = path_components hosted_identity
                 | (None, AstridWorkspace) \<Rightarrow> True
                 | _ \<Rightarrow> False) then False
      else pattern_matches (ae_glob env) (CommandPattern (escape_glob_metacharacters (ca_command grant) @ '' *''))
             (ExecuteCommand resource []) (Some hosted_identity))"

definition check_persisted_allowance ::
  "ApprovalEnv \<Rightarrow> 'z HostState_scheme \<Rightarrow> PrincipalId \<Rightarrow> string
     \<Rightarrow> (ApprovalErrorCode, bool) result \<times> 'z HostState_scheme" where
  "check_persisted_allowance env st p resource =
     (case profile_cache st of
        None \<Rightarrow> (Inr False, st)
      | Some cache \<Rightarrow>
          (case host_resolve p cache st of
             (Inl _, st1) \<Rightarrow> (Inl AeStoreUnavailable, st1)
           | (Inr profile, st1) \<Rightarrow>
               if \<not> enabled profile then (Inr False, st1)
               else let location = approval_location st1; hosted_identity = hosted_workspace_root st1
                 in if location = Hosted \<and> (hosted_identity = [] \<or> \<not> utf8_valid hosted_identity) then (Inr False, st1)
                    else (Inr (list_ex (command_grant_matches env location hosted_identity resource)
                                 (command_always (approvals profile))), st1)))"

definition hosted_workspace_identity :: "'z HostState_scheme \<Rightarrow> (ApprovalErrorCode, string) result" where
  "hosted_workspace_identity st =
     (let path = hosted_workspace_root st
      in if path = [] then Inl AeInvalidInput
         else if utf8_valid path then Inr path else Inl AeInvalidInput)"

definition persist_always ::
  "ApprovalEnv \<Rightarrow> 'z HostState_scheme \<Rightarrow> PrincipalId \<Rightarrow> string \<Rightarrow> (ApprovalErrorCode, unit) result \<times> 'z HostState_scheme" where
  "persist_always env st p action =
     (case profile_cache st of
        None \<Rightarrow> (Inl AeStoreUnavailable, st)
      | Some cache \<Rightarrow>
          (case approval_location st of
             AstridWorkspace \<Rightarrow>
               (let (r, st1) = host_persist (persist_astrid_command_always (ae_write_ok env) p action) p cache st
                in (map_err (\<lambda>_. AeStoreUnavailable) r, st1))
           | Hosted \<Rightarrow>
               (case hosted_workspace_identity st of
                  Inl e \<Rightarrow> (Inl e, st)
                | Inr workspace \<Rightarrow>
                    (let (r, st1) = host_persist (persist_command_always (ae_write_ok env) p action (Some workspace)) p cache st
                     in (map_err (\<lambda>_. AeStoreUnavailable) r, st1)))))"

definition create_allowance_from_decision ::
  "ApprovalEnv \<Rightarrow> AllowanceStore \<Rightarrow> PrincipalId \<Rightarrow> string \<Rightarrow> string \<Rightarrow> string option \<Rightarrow> AllowanceStore" where
  "create_allowance_from_decision env store p action decision workspace_root =
     (if decision \<noteq> ''approve_session'' \<and> decision \<noteq> ''approve_always'' then store
      else let session_only = (decision = ''approve_session'');
               sanitized_action = sanitize_action_for_pattern action
        in if sanitized_action = [] then store
           else snd (add_allowance
             \<lparr>al_id = ae_allowance_id env, al_principal = p,
              al_action_pattern = CommandPattern (escape_glob_metacharacters sanitized_action @ '' *''),
              al_created_at = ae_now env, al_expires_at = None, al_max_uses = None, al_uses_remaining = None,
              al_session_only = session_only, al_workspace_root = workspace_root, al_signature = ae_signature env\<rparr> store))"

definition decision_from_str :: "string \<Rightarrow> ApprovalDecision" where
  "decision_from_str decision =
     (if decision = ''approve'' then Approved
      else if decision = ''approve_session'' then ApprovedSession
      else if decision = ''approve_always'' then ApprovedAlways
      else Denied)"

text \<open>What \<open>request_approval\<close> does with an event that carries the right identity.\<close>

definition apply_approval_response ::
  "ApprovalEnv \<Rightarrow> ApprovalRequest \<Rightarrow> PrincipalId \<Rightarrow> AstridEvent \<Rightarrow> ApprovalAudit \<Rightarrow> 'z HostState_scheme
     \<Rightarrow> (ApprovalErrorCode, ApprovalDecision) result \<times> ApprovalAudit \<times> 'z HostState_scheme" where
  "apply_approval_response env request p event audit st =
     (case event of
        OtherEvent \<Rightarrow> (Inl (AeUnknown ''unexpected event type in approval response''), audit, st)
      | IpcEvent message \<Rightarrow>
          (case im_payload message of
             ApprovalResponse _ decision _ \<Rightarrow>
               (case (if decision = ''approve_always'' then persist_always env st p (rq_action request) else (Inr (), st)) of
                  (Inl error, st1) \<Rightarrow> (Inl error, audit_denied ''user'' ''approve_always could not be persisted'' audit st1)
                | (Inr _, st1) \<Rightarrow>
                    let typed = decision_from_str decision;
                        (audit1, st2) =
                          (case typed of
                             Approved \<Rightarrow> audit_granted ScopeOnce ''user'' audit st1
                           | ApprovedSession \<Rightarrow> audit_granted ScopeSession ''user'' audit st1
                           | ApprovedAlways \<Rightarrow> audit_granted ScopeAlways ''user'' audit st1
                           | _ \<Rightarrow> audit_denied ''user'' ''denied by user'' audit st1);
                        approved = (typed = Approved \<or> typed = ApprovedSession \<or> typed = ApprovedAlways);
                        st3 = (if approved \<and> decision \<noteq> ''approve_always''
                               then (case allowance_store st2 of
                                       None \<Rightarrow> st2
                                     | Some store \<Rightarrow>
                                         st2\<lparr>allowance_store := Some (create_allowance_from_decision env store p
                                               (rq_action request) decision (Some (hs_workspace_root st)))\<rparr>)
                               else st2)
                    in (Inr typed, audit1, st3))
           | _ \<Rightarrow> (Inl (AeUnknown ''unexpected IPC payload type in approval response''), audit, st)))"

definition prompt_user ::
  "ApprovalEnv \<Rightarrow> ApprovalRequest \<Rightarrow> PrincipalId \<Rightarrow> RequestOwnerId \<Rightarrow> ApprovalAudit \<Rightarrow> 'z HostState_scheme
     \<Rightarrow> (ApprovalErrorCode, ApprovalDecision) result \<times> ApprovalAudit \<times> 'z HostState_scheme" where
  "prompt_user env request p owner audit st =
     (let (audit1, st1) = audit_requested (ae_request_id env) audit st;
          st2 = publish_request (ae_request_id env) (rq_action request) (rq_target_resource request)
                  (''Capsule '' @ [CHR 0x27] @ hs_capsule_id st @ [CHR 0x27] @ '' requests approval'') p owner st1
      in case await_user env p owner st2 of
           Some event \<Rightarrow> apply_approval_response env request p event audit1 st2
         | None \<Rightarrow> (Inl AeTimeout, audit_no_response env audit1 st2))"

text \<open>The fast path over the allowance store, when the host has one.\<close>

definition session_check :: "ApprovalEnv \<Rightarrow> 'z HostState_scheme \<Rightarrow> PrincipalId \<Rightarrow> string \<Rightarrow> bool \<times> 'z HostState_scheme" where
  "session_check env st p resource =
     (case allowance_store st of
        None \<Rightarrow> (False, st)
      | Some store \<Rightarrow>
          let (hit, store') = check_allowance env store p resource (Some (hs_workspace_root st))
          in (hit, st\<lparr>allowance_store := Some store'\<rparr>))"

definition request_approval ::
  "ApprovalEnv \<Rightarrow> ApprovalRequest \<Rightarrow> 'z HostState_scheme
     \<Rightarrow> (ApprovalErrorCode, ApprovalDecision) result \<times> 'z HostState_scheme" where
  "request_approval env request0 st =
     (if \<not> invocation_authority_active st then (Inl AeStoreUnavailable, st)
      else if MAX_ACTION_LEN < length (utf8_chars (rq_action request0)) then (Inl AeInvalidInput, st)
      else
        let p = effective_principal st;
            request = \<lparr>rq_action = sanitize_action_for_pattern (rq_action request0),
                       rq_target_resource = sanitize_guest_field MAX_RESOURCE_LEN (rq_target_resource request0)\<rparr>;
            audit = approval_audit_new p (rq_action request) (rq_target_resource request)
        in case check_persisted_allowance env st p (rq_target_resource request) of
             (Inl e, st1) \<Rightarrow> returning (Inl e) (audit, st1)
           | (Inr True, st1) \<Rightarrow>
               returning (Inr DecisionAllowance) (audit_granted ScopeAlways ''remembered_consent'' audit st1)
           | (Inr False, st1) \<Rightarrow>
               (case session_check env st1 p (rq_target_resource request) of
                  (True, st2) \<Rightarrow>
                    returning (Inr DecisionAllowance) (audit_granted ScopeSession ''session_allowance'' audit st2)
                | (False, st2) \<Rightarrow>
                    (case request_owner_of st2 of
                       None \<Rightarrow>
                         returning (Inr Denied)
                           (audit_denied ''no_request_owner'' ''no authenticated request owner'' audit st2)
                     | Some owner \<Rightarrow>
                         (let (r, audit', st') = prompt_user env request p owner audit st2
                          in returning r (audit', st')))))"

section \<open>Local endpoints\<close>

definition EGRESS_CONSENT_ACTION :: string where
  "EGRESS_CONSENT_ACTION = ''local-network-egress''"

definition egress_action :: "string \<Rightarrow> string \<Rightarrow> u16 \<Rightarrow> SensitiveAction" where
  "egress_action capsule_id host port = NetworkRequest capsule_id host port"

definition has_runtime_grant ::
  "ApprovalEnv \<Rightarrow> AllowanceStore \<Rightarrow> PrincipalId \<Rightarrow> string \<Rightarrow> string \<Rightarrow> u16 \<Rightarrow> bool \<times> AllowanceStore" where
  "has_runtime_grant env store p capsule_id host port =
     (let (r, store') = find_matching_and_consume (ae_glob env) (ae_now env) p (egress_action capsule_id host port) None store
      in (r \<noteq> None, store'))"

definition has_persisted_grant ::
  "ProfileCacheState \<Rightarrow> PrincipalId \<Rightarrow> string \<Rightarrow> string \<Rightarrow> u16 \<Rightarrow> 'z HostState_scheme \<Rightarrow> bool \<times> 'z HostState_scheme" where
  "has_persisted_grant cache p capsule_id host port st =
     (case host_resolve p cache st of
        (Inl _, st1) \<Rightarrow> (False, st1)
      | (Inr profile, st1) \<Rightarrow>
          (case hm_get (capsule_egress (network profile)) capsule_id of
             None \<Rightarrow> (False, st1)
           | Some entries \<Rightarrow> (list_ex (\<lambda>entry. net_connect_pattern_matches entry host port) entries, st1)))"

definition add_runtime_grant ::
  "ApprovalEnv \<Rightarrow> AllowanceStore \<Rightarrow> PrincipalId \<Rightarrow> string \<Rightarrow> string \<Rightarrow> u16 \<Rightarrow> bool \<Rightarrow> AllowanceStore" where
  "add_runtime_grant env store p capsule_id host port session_only =
     snd (add_allowance
       \<lparr>al_id = ae_allowance_id env, al_principal = p, al_action_pattern = NetworkHost capsule_id host (Some [port]),
        al_created_at = ae_now env, al_expires_at = None, al_max_uses = None, al_uses_remaining = None,
        al_session_only = session_only, al_workspace_root = None, al_signature = ae_signature env\<rparr> store)"

datatype Decision = Once | Session | Always | Deny

definition classify_decision :: "string \<Rightarrow> Decision" where
  "classify_decision decision =
     (if decision = ''approve'' then Once
      else if decision = ''approve_session'' then Session
      else if decision = ''approve_always'' then Always
      else Deny)"

definition elicit_egress_consent ::
  "ApprovalEnv \<Rightarrow> PrincipalId \<Rightarrow> string \<Rightarrow> ApprovalAudit \<Rightarrow> 'z HostState_scheme
     \<Rightarrow> string \<times> ApprovalAudit \<times> 'z HostState_scheme" where
  "elicit_egress_consent env p endpoint audit st =
     (case request_owner_of st of
        None \<Rightarrow> ([], audit_denied ''no_request_owner'' ''no authenticated request owner'' audit st)
      | Some owner \<Rightarrow>
          let (audit1, st1) = audit_requested (ae_request_id env) audit st;
              st2 = publish_request (ae_request_id env) EGRESS_CONSENT_ACTION endpoint
                      (''Capsule '' @ [CHR 0x27] @ hs_capsule_id st @ [CHR 0x27] @ '' wants to reach the local endpoint ''
                       @ endpoint @ '' (running as '' @ [CHR 0x27] @ pid_str p @ [CHR 0x27] @ '')'') p owner st1
          in case await_user env p owner st2 of
               Some (IpcEvent message) \<Rightarrow>
                 (case im_payload message of
                    ApprovalResponse _ decision _ \<Rightarrow> (decision, audit1, st2)
                  | _ \<Rightarrow> ([], audit_denied ''error'' ''unexpected response payload'' audit1 st2))
             | Some OtherEvent \<Rightarrow> ([], audit_denied ''error'' ''unexpected response event'' audit1 st2)
             | None \<Rightarrow> ([], audit_no_response env audit1 st2))"

text \<open>The effect of a decision: the grants it leaves and the answer for the request in flight.\<close>

definition apply_egress_decision ::
  "ApprovalEnv \<Rightarrow> string \<Rightarrow> PrincipalId \<Rightarrow> string \<Rightarrow> u16 \<Rightarrow> ApprovalAudit \<Rightarrow> 'z HostState_scheme \<Rightarrow> bool \<times> 'z HostState_scheme" where
  "apply_egress_decision env decision p host port audit st =
     (let grant = (\<lambda>session_only st.
            case allowance_store st of
              None \<Rightarrow> st
            | Some store \<Rightarrow>
                st\<lparr>allowance_store := Some (add_runtime_grant env store p (hs_capsule_id st) host port session_only)\<rparr>)
      in case classify_decision decision of
           Deny \<Rightarrow> returning False (audit_denied ''user'' ''not approved'' audit st)
         | Once \<Rightarrow> returning True (audit_granted ScopeOnce ''user'' audit st)
         | Session \<Rightarrow> returning True (audit_granted ScopeSession ''user'' audit (grant True st))
         | Always \<Rightarrow>
             (let st1 = grant False st;
                  st2 = (case profile_cache st1 of
                           None \<Rightarrow> st1
                         | Some cache \<Rightarrow>
                             snd (host_persist (persist_egress (ae_write_ok env) p (hs_capsule_id st) (endpoint_of host port))
                                    p cache st1))
              in returning True (audit_granted ScopeAlways ''user'' audit st2)))"

definition consent_local_egress ::
  "ApprovalEnv \<Rightarrow> string \<Rightarrow> u16 \<Rightarrow> 'z HostState_scheme \<Rightarrow> bool \<times> 'z HostState_scheme" where
  "consent_local_egress env host port st =
     (if effective_origin st \<noteq> LocalSocket then (False, st)
      else case allowance_store st of
          None \<Rightarrow> (False, st)
        | Some store \<Rightarrow>
            let p = effective_principal st;
                audit = approval_audit_new p EGRESS_CONSENT_ACTION (endpoint_of host port);
                (hit, store') = has_runtime_grant env store p (hs_capsule_id st) host port;
                st1 = st\<lparr>allowance_store := Some store'\<rparr>
            in if hit then returning True (audit_granted ScopeSession ''session_grant'' audit st1)
               else (case (case profile_cache st1 of
                             None \<Rightarrow> (False, st1)
                           | Some cache \<Rightarrow> has_persisted_grant cache p (hs_capsule_id st) host port st1) of
                       (True, st2) \<Rightarrow> returning True (audit_granted ScopeAlways ''remembered_consent'' audit st2)
                     | (False, st2) \<Rightarrow>
                         let (decision, audit', st3) = elicit_egress_consent env p (endpoint_of host port) audit st2
                         in apply_egress_decision env decision p host port audit' st3))"

definition egress_decision_with_consent ::
  "(string \<Rightarrow> Url option) \<Rightarrow> bool \<Rightarrow> ApprovalEnv \<Rightarrow> string \<Rightarrow> 'z HostState_scheme
     \<Rightarrow> (ErrorCode, string option) result \<times> 'z HostState_scheme" where
  "egress_decision_with_consent url_parse bypass env url st =
     (case egress_decision url_parse bypass (local_egress st) url of
        Inl AirlockRejected \<Rightarrow>
          (case url_host_port url_parse url of
             None \<Rightarrow> (Inl AirlockRejected, st)
           | Some (host, port) \<Rightarrow>
               (case consent_local_egress env host port st of
                  (True, st1) \<Rightarrow> (Inr (Some host), st1)
                | (False, st1) \<Rightarrow> (Inl AirlockRejected, st1)))
      | other \<Rightarrow> (other, st))"

section \<open>What the trail leaves alone\<close>

lemma sink_record_fields [simp]:
  "allowance_store (sink_record d p e out st) = allowance_store st"
  "profile_files (sink_record d p e out st) = profile_files st"
  "profile_cache (sink_record d p e out st) = profile_cache st"
  "caller_context (sink_record d p e out st) = caller_context st"
  "published (sink_record d p e out st) = published st"
  "audit_sink (sink_record d p e out st) = audit_sink st"
  "hs_capsule_id (sink_record d p e out st) = hs_capsule_id st"
  "hs_workspace_root (sink_record d p e out st) = hs_workspace_root st"
  "audit_log (sink_record d p e out st) =
     audit_log st @ [\<lparr>sc_durable = d, sc_principal = p, sc_event = e, sc_outcome = out\<rparr>]"
  by (simp_all add: sink_record_def)

lemma audit_decide_fields [simp]:
  "allowance_store (snd (audit_decide sc v out b a st)) = allowance_store st"
  "profile_files (snd (audit_decide sc v out b a st)) = profile_files st"
  "profile_cache (snd (audit_decide sc v out b a st)) = profile_cache st"
  "caller_context (snd (audit_decide sc v out b a st)) = caller_context st"
  "published (snd (audit_decide sc v out b a st)) = published st"
  "audit_sink (snd (audit_decide sc v out b a st)) = audit_sink st"
  by (simp_all add: audit_decide_def Let_def)

lemma audit_requested_fields [simp]:
  "allowance_store (snd (audit_requested rid a st)) = allowance_store st"
  "profile_files (snd (audit_requested rid a st)) = profile_files st"
  "profile_cache (snd (audit_requested rid a st)) = profile_cache st"
  "caller_context (snd (audit_requested rid a st)) = caller_context st"
  "published (snd (audit_requested rid a st)) = published st"
  "audit_sink (snd (audit_requested rid a st)) = audit_sink st"
  "hs_capsule_id (snd (audit_requested rid a st)) = hs_capsule_id st"
  by (simp_all add: audit_requested_def Let_def)

lemma audit_drop_fields [simp]:
  "allowance_store (audit_drop a st) = allowance_store st"
  "profile_files (audit_drop a st) = profile_files st"
  "profile_cache (audit_drop a st) = profile_cache st"
  "published (audit_drop a st) = published st"
  by (simp_all add: audit_drop_def)

lemma publish_request_fields [simp]:
  "allowance_store (publish_request rid act res why p owner st) = allowance_store st"
  "profile_files (publish_request rid act res why p owner st) = profile_files st"
  "profile_cache (publish_request rid act res why p owner st) = profile_cache st"
  "audit_sink (publish_request rid act res why p owner st) = audit_sink st"
  "audit_log (publish_request rid act res why p owner st) = audit_log st"
  "hs_capsule_id (publish_request rid act res why p owner st) = hs_capsule_id st"
  by (simp_all add: publish_request_def)

lemma fst_returning [simp]: "fst (returning r a) = r"
  by (simp add: returning_def)

section \<open>Where an approval comes from\<close>

definition answered_by :: "ApprovalEnv \<Rightarrow> PrincipalId \<Rightarrow> RequestOwnerId \<Rightarrow> string \<Rightarrow> bool" where
  "answered_by env p owner decision \<longleftrightarrow>
     (\<exists>m i reason. IpcEvent m \<in> set (ae_events env) \<and> im_principal m = Some (pid_str p)
        \<and> im_request_owner m = Some owner \<and> im_payload m = ApprovalResponse i decision reason)"

definition remembers_command :: "ApprovalEnv \<Rightarrow> 'z HostState_scheme \<Rightarrow> PrincipalId \<Rightarrow> string \<Rightarrow> bool" where
  "remembers_command env st p resource \<longleftrightarrow>
     (\<exists>cache profile. profile_cache st = Some cache \<and> fst (pc_resolve p (profile_files st p) cache) = Inr profile
        \<and> enabled profile
        \<and> list_ex (command_grant_matches env (approval_location st) (hosted_workspace_root st) resource)
            (command_always (approvals profile)))"

definition session_allows ::
  "ApprovalEnv \<Rightarrow> 'z HostState_scheme \<Rightarrow> PrincipalId \<Rightarrow> SensitiveAction \<Rightarrow> string option \<Rightarrow> bool" where
  "session_allows env st p act ws \<longleftrightarrow>
     (\<exists>store a. allowance_store st = Some store \<and> p \<notin> retiring_principals store
        \<and> lookup_allowance store p (al_id a) = Some a \<and> allowance_matches (ae_glob env) (ae_now env) a act ws)"

lemma await_matching_Some:
  "await_matching_approval_response p owner es = Some e \<Longrightarrow> e \<in> set es \<and> response_identity_matches p owner e"
  by (induction es) (auto split: if_splits)

lemma await_user_Some:
  assumes "await_user env p owner st = Some (IpcEvent m)" "im_payload m = ApprovalResponse i decision reason"
  shows "answered_by env p owner decision"
proof -
  have "await_matching_approval_response (pid_str p) owner (ae_events env) = Some (IpcEvent m)"
    using assms(1) by (simp add: await_user_def bounded_block_on_cancellable_def split: if_splits)
  from await_matching_Some [OF this] assms(2) show ?thesis
    by (auto simp: answered_by_def response_identity_matches_def event_principal_def event_request_owner_def)
qed

lemma check_persisted_True:
  assumes "check_persisted_allowance env st p resource = (Inr True, st1)"
  shows "remembers_command env st p resource"
  using assms
  by (auto simp: check_persisted_allowance_def remembers_command_def host_resolve_def Let_def
      approval_location_def effective_workspace_def split: option.splits prod.splits sum.splits if_splits)

lemma check_persisted_frame:
  assumes "check_persisted_allowance env st p resource = (r, st1)"
  shows "\<exists>c. st1 = st\<lparr>profile_cache := c\<rparr>"
proof (cases "profile_cache st")
  case None
  then have "st = st\<lparr>profile_cache := None\<rparr>" by (cases st) simp
  moreover from assms None have "st1 = st" by (simp add: check_persisted_allowance_def)
  ultimately show ?thesis by metis
next
  case (Some cache)
  with assms show ?thesis
    by (auto simp: check_persisted_allowance_def host_resolve_def Let_def split: prod.splits sum.splits if_splits)
qed

lemma check_allowance_hit:
  assumes "allowance_store st = Some store" "store_ok store" "check_allowance env store p resource ws = (True, store')"
  shows "session_allows env st p (ExecuteCommand resource []) ws"
proof -
  obtain a where "find_matching_and_consume (ae_glob env) (ae_now env) p (ExecuteCommand resource []) ws store = (Some a, store')"
    using assms(3) by (auto simp: check_allowance_def Let_def split: prod.splits)
  from find_matching_and_consume_grant(1-3) [OF assms(2) this] show ?thesis
    using assms(1) unfolding session_allows_def by blast
qed

lemma session_check_hit:
  assumes "session_check env st p resource = (True, st1)" "\<And>store. allowance_store st = Some store \<Longrightarrow> store_ok store"
  shows "session_allows env st p (ExecuteCommand resource []) (Some (hs_workspace_root st))"
proof -
  obtain store store' where "allowance_store st = Some store"
      "check_allowance env store p resource (Some (hs_workspace_root st)) = (True, store')"
    using assms(1) by (auto simp: session_check_def Let_def split: option.splits prod.splits)
  with assms(2) check_allowance_hit show ?thesis by blast
qed

lemma session_check_frame:
  assumes "session_check env st p resource = (hit, st1)"
  shows "\<exists>s. st1 = st\<lparr>allowance_store := s\<rparr>"
proof (cases "allowance_store st")
  case None
  then have "st = st\<lparr>allowance_store := None\<rparr>" by (cases st) simp
  moreover from assms None have "st1 = st" by (simp add: session_check_def)
  ultimately show ?thesis by metis
next
  case (Some store)
  with assms show ?thesis by (auto simp: session_check_def Let_def split: prod.splits)
qed

lemma apply_approval_response_Inr:
  assumes "apply_approval_response env request p e audit st = (Inr d, audit', st')"
  obtains m i decision reason where "e = IpcEvent m" "im_payload m = ApprovalResponse i decision reason"
    "d = decision_from_str decision"
proof (cases e)
  case (IpcEvent m)
  then show ?thesis
    using assms that
    by (cases "im_payload m") (auto simp: apply_approval_response_def Let_def split: prod.splits sum.splits)
qed (use assms in \<open>simp add: apply_approval_response_def\<close>)

lemma prompt_user_answer:
  assumes "prompt_user env request p owner audit st = (Inr d, audit', st')"
  shows "\<exists>decision. answered_by env p owner decision \<and> d = decision_from_str decision"
proof -
  obtain st2 e a where await: "await_user env p owner st2 = Some e"
      and run: "apply_approval_response env request p e a st2 = (Inr d, audit', st')"
    using assms by (auto simp: prompt_user_def Let_def split: prod.splits option.splits)
  obtain m i decision reason where "e = IpcEvent m" "im_payload m = ApprovalResponse i decision reason"
      "d = decision_from_str decision"
    using run by (rule apply_approval_response_Inr)
  with await_user_Some [of env p owner st2 m] await show ?thesis by blast
qed

section \<open>The ways a request for approval can go\<close>

text \<open>The request after sanitising, and the trail of the check before anything was recorded.\<close>

definition clean_request :: "ApprovalRequest \<Rightarrow> ApprovalRequest" where
  "clean_request request =
     \<lparr>rq_action = sanitize_action_for_pattern (rq_action request),
      rq_target_resource = sanitize_guest_field MAX_RESOURCE_LEN (rq_target_resource request)\<rparr>"

definition fresh_trail :: "ApprovalRequest \<Rightarrow> 'z HostState_scheme \<Rightarrow> ApprovalAudit" where
  "fresh_trail request st =
     approval_audit_new (effective_principal st) (rq_action (clean_request request)) (rq_target_resource (clean_request request))"

lemma drop_unprompted [simp]: "aa_request_id a = None \<Longrightarrow> audit_drop a st = st"
  by (simp add: audit_drop_def)

lemma trail_request_id [simp]:
  "aa_request_id (fst (audit_decide sc v out b a st)) = aa_request_id a"
  "aa_request_id (fresh_trail request st) = None"
  "\<not> aa_decided (fresh_trail request st)"
  by (simp_all add: audit_decide_def Let_def fresh_trail_def approval_audit_new_def)

lemma request_approval_cases:
  assumes run: "request_approval env request st = (r, st')"
  defines "p \<equiv> effective_principal st" and "rq \<equiv> clean_request request" and "trail \<equiv> fresh_trail request st"
  obtains (refused) e c where "r = Inl e" "st' = st\<lparr>profile_cache := c\<rparr>"
  | (remembered) c where "invocation_authority_active st" "remembers_command env st p (rq_target_resource rq)"
      "r = Inr DecisionAllowance"
      "st' = snd (audit_granted ScopeAlways ''remembered_consent'' trail (st\<lparr>profile_cache := c\<rparr>))"
  | (session) c st2 where "invocation_authority_active st"
      "session_check env (st\<lparr>profile_cache := c\<rparr>) p (rq_target_resource rq) = (True, st2)"
      "r = Inr DecisionAllowance" "st' = snd (audit_granted ScopeSession ''session_allowance'' trail st2)"
  | (no_owner) c s where "request_owner_of st = None" "r = Inr Denied"
      "st' = snd (audit_denied ''no_request_owner'' ''no authenticated request owner'' trail
               (st\<lparr>profile_cache := c, allowance_store := s\<rparr>))"
  | (prompted) c s owner trail' st2 where "invocation_authority_active st" "request_owner_of st = Some owner"
      "prompt_user env rq p owner trail (st\<lparr>profile_cache := c, allowance_store := s\<rparr>) = (r, trail', st2)"
      "st' = audit_drop trail' st2"
proof -
  have self: "st = st\<lparr>profile_cache := profile_cache st\<rparr>" by simp
  show ?thesis
  proof (cases "invocation_authority_active st \<and> length (utf8_chars (rq_action request)) \<le> MAX_ACTION_LEN")
    case False
    with run have "st' = st\<lparr>profile_cache := profile_cache st\<rparr>" "\<exists>e. r = Inl e"
      by (auto simp: request_approval_def not_le split: if_splits)
    then show ?thesis using refused by blast
  next
    case True
    obtain r1 st1 where c: "check_persisted_allowance env st p (rq_target_resource rq) = (r1, st1)" by (meson surj_pair)
    from check_persisted_frame [OF this] obtain ca where st1: "st1 = st\<lparr>profile_cache := ca\<rparr>" by blast
    obtain hit st2 where h: "session_check env st1 p (rq_target_resource rq) = (hit, st2)" by (meson surj_pair)
    from session_check_frame [OF this] obtain sa where st2: "st2 = st1\<lparr>allowance_store := sa\<rparr>" by blast
    have own: "request_owner_of st2 = request_owner_of st" by (simp add: st1 st2 request_owner_of_def)
    note defs = request_approval_def Let_def p_def rq_def trail_def clean_request_def fresh_trail_def returning_def
      audit_granted_def audit_denied_def
    have active: "invocation_authority_active st" using True by simp
    have long: "\<not> MAX_ACTION_LEN < length (utf8_chars (rq_action request))" using True by simp
    consider (err) e where "r1 = Inl e" | (yes) "r1 = Inr True" | (no) "r1 = Inr False" by (cases r1) auto
    then show ?thesis
    proof cases
      case err
      with run c True long have "r = Inl e" "st' = st\<lparr>profile_cache := ca\<rparr>"
        by (simp_all add: defs st1 approval_audit_new_def)
      then show ?thesis by (rule refused)
    next
      case yes
      with run c True long have "r = Inr DecisionAllowance"
        "st' = snd (audit_granted ScopeAlways ''remembered_consent'' trail (st\<lparr>profile_cache := ca\<rparr>))"
        by (simp_all add: defs st1 approval_audit_new_def)
      with True yes c check_persisted_True show ?thesis by (intro remembered) blast+
    next
      case no
      show ?thesis
      proof (cases hit)
        case True
        with run c h no active long have "r = Inr DecisionAllowance"
          "st' = snd (audit_granted ScopeSession ''session_allowance'' trail st2)"
          by (simp_all add: defs approval_audit_new_def)
        with True active h show ?thesis unfolding st1 by (intro session) simp_all
      next
        case False
        show ?thesis
        proof (cases "request_owner_of st")
          case None
          with False run c h no active long have "r = Inr Denied"
            "st' = snd (audit_denied ''no_request_owner'' ''no authenticated request owner'' trail st2)"
            by (simp_all add: defs approval_audit_new_def own)
          with None show ?thesis unfolding st1 st2 by (intro no_owner) simp_all
        next
          case (Some owner)
          obtain r' trail' st3 where q: "prompt_user env rq p owner trail st2 = (r', trail', st3)" by (metis surj_pair)
          with Some False run c h no active long have "r' = r" "st' = audit_drop trail' st3"
            by (simp_all add: defs own)
          with Some active q show ?thesis unfolding st1 st2 by (intro prompted) simp_all
        qed
      qed
    qed
  qed
qed

text \<open>
  C28.  A command is approved only with the consent of the principal that asks: when the answer is anything
  but a denial, the authority of the invocation is live, and either the enabled profile of the principal
  remembers an "always" grant for this workspace whose pattern matches the sanitised command, or a live
  allowance of the principal matches it, or an event stamped with that same principal and with the
  authenticated owner of the request carries the decision that is returned.
\<close>

theorem approval_needs_consent:
  assumes run: "request_approval env request st = (Inr d, st')" and granted: "d \<noteq> Denied"
    and ok: "\<And>store. allowance_store st = Some store \<Longrightarrow> store_ok store"
  defines "resource \<equiv> sanitize_guest_field MAX_RESOURCE_LEN (rq_target_resource request)"
  shows "invocation_authority_active st
    \<and> (d = DecisionAllowance
         \<and> (remembers_command env st (effective_principal st) resource
            \<or> session_allows env st (effective_principal st) (ExecuteCommand resource []) (Some (hs_workspace_root st)))
      \<or> (\<exists>owner decision. request_owner_of st = Some owner
           \<and> answered_by env (effective_principal st) owner decision \<and> d = decision_from_str decision))"
  using run
proof (cases rule: request_approval_cases)
  case (remembered c)
  then show ?thesis by (simp add: resource_def clean_request_def)
next
  case (session c st2)
  then have "session_allows env (st\<lparr>profile_cache := c\<rparr>) (effective_principal st) (ExecuteCommand resource []) (Some (hs_workspace_root st))"
    using session_check_hit [of env "st\<lparr>profile_cache := c\<rparr>" _ resource st2] ok by (simp add: resource_def clean_request_def)
  with session show ?thesis by (auto simp: session_allows_def)
next
  case (prompted c s owner trail' st2)
  with prompt_user_answer show ?thesis by blast
qed (use granted in auto)

section \<open>The trail\<close>

text \<open>The call to the sink that a decision makes, and the decision it carries.\<close>

definition decision_call :: "ApprovalAudit \<Rightarrow> bool \<Rightarrow> HostApprovalScope option \<Rightarrow> string \<Rightarrow> HostAuditOutcome \<Rightarrow> SinkCall" where
  "decision_call a durable sc v out =
     \<lparr>sc_durable = durable, sc_principal = aa_principal a,
      sc_event = ApprovalDecided \<lparr>hd_request_id = aa_request_id a, hd_request = aa_request a, hd_action = aa_action a,
        hd_resource = aa_resource a, hd_scope = sc, hd_via = v\<rparr>,
      sc_outcome = out\<rparr>"

text \<open>
  The trail of one check: a single decision that names no prompt, or the durable record of the one prompt
  that was published, followed by a single decision that names it.
\<close>

definition recorded :: "PrincipalId \<Rightarrow> nat \<Rightarrow> bool \<Rightarrow> IpcMessage list \<Rightarrow> SinkCall list \<Rightarrow> bool" where
  "recorded p base granted prompts rows \<longleftrightarrow>
     (\<exists>d durable out. (hd_scope d \<noteq> None) = granted \<and> (out = OutcomeAllowed) = granted \<and>
        (prompts = [] \<and> hd_request_id d = None \<and> hd_request d = None
           \<and> rows = [\<lparr>sc_durable = durable, sc_principal = p, sc_event = ApprovalDecided d, sc_outcome = out\<rparr>]
         \<or> (\<exists>m rid owner act res why. prompts = [m] \<and> im_payload m = ApprovalRequired rid owner act res why
              \<and> hd_request_id d = Some rid \<and> hd_request d = Some base
              \<and> rows = [\<lparr>sc_durable = True, sc_principal = p, sc_event = ApprovalRequested rid act res,
                           sc_outcome = OutcomeAllowed\<rparr>,
                          \<lparr>sc_durable = durable, sc_principal = p, sc_event = ApprovalDecided d, sc_outcome = out\<rparr>])))"

lemma recorded_plain:
  assumes "(sc \<noteq> None) = g" "(out = OutcomeAllowed) = g" "aa_principal a = p" "aa_request_id a = None" "aa_request a = None"
  shows "recorded p base g [] [decision_call a durable sc v out]"
  unfolding recorded_def decision_call_def
  by (rule exI [of _ "\<lparr>hd_request_id = None, hd_request = None, hd_action = aa_action a, hd_resource = aa_resource a,
        hd_scope = sc, hd_via = v\<rparr>"]) (use assms in simp)

lemma recorded_prompted:
  assumes "(sc \<noteq> None) = g" "(out = OutcomeAllowed) = g" "aa_principal a = p" "aa_request_id a = Some rid"
    "aa_request a = Some base" "im_payload m = ApprovalRequired rid owner act res why"
  shows "recorded p base g [m]
    [\<lparr>sc_durable = True, sc_principal = p, sc_event = ApprovalRequested rid act res, sc_outcome = OutcomeAllowed\<rparr>,
     decision_call a durable sc v out]"
  unfolding recorded_def decision_call_def
  by (rule exI [of _ "\<lparr>hd_request_id = Some rid, hd_request = Some base, hd_action = aa_action a, hd_resource = aa_resource a,
        hd_scope = sc, hd_via = v\<rparr>"]) (use assms in simp)

lemma audit_decide_open:
  "audit_sink st \<Longrightarrow> \<not> aa_decided a \<Longrightarrow>
     audit_log (snd (audit_decide sc v out b a st)) = audit_log st @ [decision_call a (b \<and> aa_request a \<noteq> None) sc v out]"
  "aa_decided (fst (audit_decide sc v out b a st))"
  by (simp_all add: audit_decide_def Let_def decision_call_def)

lemma drop_decided [simp]: "aa_decided a \<Longrightarrow> audit_drop a st = st"
  by (simp add: audit_drop_def audit_decide_def)

lemma persist_always_frame:
  "audit_log (snd (persist_always env st p act)) = audit_log st"
  "published (snd (persist_always env st p act)) = published st"
  "audit_sink (snd (persist_always env st p act)) = audit_sink st"
  "allowance_store (snd (persist_always env st p act)) = allowance_store st"
  by (auto simp: persist_always_def host_persist_def Let_def split: option.split prod.split sum.split CommandApprovalLocation.split)

definition decides :: "ApprovalAudit \<Rightarrow> bool \<Rightarrow> 'z HostState_scheme \<Rightarrow> ApprovalAudit \<Rightarrow> 'z HostState_scheme \<Rightarrow> bool" where
  "decides a granted st a' st' \<longleftrightarrow>
     aa_decided a' \<and> published st' = published st \<and> audit_sink st' = audit_sink st
     \<and> (\<exists>durable sc v out. audit_log st' = audit_log st @ [decision_call a durable sc v out]
          \<and> (sc \<noteq> None) = granted \<and> (out = OutcomeAllowed) = granted)"

lemma decides_granted: "audit_sink st \<Longrightarrow> \<not> aa_decided a \<Longrightarrow> audit_granted sc v a st = (a', st') \<Longrightarrow> decides a True st a' st'"
  unfolding decides_def using audit_decide_open(1) [of st a "Some sc" v OutcomeAllowed True] audit_decide_open(2) [of "Some sc" v OutcomeAllowed True a st] audit_decide_fields(5, 6) [of "Some sc" v OutcomeAllowed True a st]
  by (auto simp: audit_granted_def)

lemma decides_denied: "audit_sink st \<Longrightarrow> \<not> aa_decided a \<Longrightarrow> audit_denied v w a st = (a', st') \<Longrightarrow> decides a False st a' st'"
  unfolding decides_def using audit_decide_open(1) [of st a None v "OutcomeDenied w" True] audit_decide_open(2) [of None v "OutcomeDenied w" True a st] audit_decide_fields(5, 6) [of None v "OutcomeDenied w" True a st]
  by (auto simp: audit_denied_def)

lemma decides_drop:
  "audit_sink st \<Longrightarrow> \<not> aa_decided a \<Longrightarrow> aa_request_id a \<noteq> None \<Longrightarrow> \<exists>b. decides a False st b (audit_drop a st)"
  unfolding decides_def audit_drop_def
  using audit_decide_open(1) [of st a None "''error''" "OutcomeDenied ''no decision was applied''" False]
    audit_decide_open(2) [of None "''error''" "OutcomeDenied ''no decision was applied''" False a st]
  by (intro exI [of _ "fst (audit_decide None ''error'' (OutcomeDenied ''no decision was applied'') False a st)"]) auto

lemma decides_store [simp]: "decides a g st a' (st'\<lparr>allowance_store := x\<rparr>) = decides a g st a' st'"
  by (simp add: decides_def)

lemma apply_response_trail:
  assumes run: "apply_approval_response env request p e a st = (r, a', st')" and sink: "audit_sink st" "\<not> aa_decided a"
  shows "a' = a \<and> st' = st \<and> (\<exists>err. r = Inl err) \<or> decides a (\<exists>d. r = Inr d \<and> d \<noteq> Denied) st a' st'"
proof -
  consider (other) "a' = a" "st' = st" "\<exists>err. r = Inl err"
    | (resp) m i decision reason where "e = IpcEvent m" "im_payload m = ApprovalResponse i decision reason"
    using run by (cases e; cases "im_payload (case e of IpcEvent m \<Rightarrow> m)") (auto simp: apply_approval_response_def)
  then show ?thesis
  proof cases
    case resp
    obtain pr st1 where pr: "(if decision = ''approve_always'' then persist_always env st p (rq_action request) else (Inr (), st)) = (pr, st1)"
      by (meson surj_pair)
    then have f: "audit_log st1 = audit_log st" "published st1 = published st" "audit_sink st1 = audit_sink st"
      using persist_always_frame [of env st p "rq_action request"] by (auto split: if_splits)
    have lift: "decides a g st1 a2 st2 \<Longrightarrow> decides a g st a2 st2" for g a2 st2 by (simp add: decides_def f)
    show ?thesis
    proof (cases pr)
      case (Inl err)
      with run resp pr have "r = Inl err" "audit_denied ''user'' ''approve_always could not be persisted'' a st1 = (a', st')"
        by (simp_all add: apply_approval_response_def)
      then show ?thesis using decides_denied [of st1 a] f sink lift by auto
    next
      case (Inr u)
      define typed where "typed = decision_from_str decision"
      obtain a2 st2 where d: "(case typed of
                             Approved \<Rightarrow> audit_granted ScopeOnce ''user'' a st1
                           | ApprovedSession \<Rightarrow> audit_granted ScopeSession ''user'' a st1
                           | ApprovedAlways \<Rightarrow> audit_granted ScopeAlways ''user'' a st1
                           | _ \<Rightarrow> audit_denied ''user'' ''denied by user'' a st1) = (a2, st2)" by (meson surj_pair)
      have t: "typed \<noteq> DecisionAllowance" by (simp add: typed_def decision_from_str_def)
      with d decides_granted [of st1 a] decides_denied [of st1 a] f sink
      have g: "decides a (typed \<noteq> Denied) st1 a2 st2" by (cases typed) auto
      from run resp pr Inr d have "r = Inr typed" "a' = a2" "\<exists>x. st' = st2 \<or> st' = st2\<lparr>allowance_store := x\<rparr>"
        by (auto simp: apply_approval_response_def Let_def typed_def split: option.splits if_splits)
      with lift [OF g] show ?thesis by auto
    qed
  qed auto
qed

lemma prompt_user_trail:
  assumes run: "prompt_user env request p owner a st = (r, a', st')" and sink: "audit_sink st" "\<not> aa_decided a"
    and fresh: "aa_principal a = p" "aa_action a = rq_action request" "aa_resource a = rq_target_resource request"
  shows "\<exists>rows prompts. audit_log (audit_drop a' st') = audit_log st @ rows \<and> published (audit_drop a' st') = published st @ prompts
     \<and> recorded p (length (audit_log st)) (\<exists>d. r = Inr d \<and> d \<noteq> Denied) prompts rows"
proof -
  let ?rid = "ae_request_id env"
  define a1 where "a1 = a\<lparr>aa_request_id := Some ?rid, aa_request := Some (length (audit_log st))\<rparr>"
  define st1 where "st1 = snd (audit_requested ?rid a st)"
  have q: "audit_requested ?rid a st = (a1, st1)"
    using sink by (simp add: audit_requested_def Let_def a1_def st1_def)
  have log1: "audit_log st1 = audit_log st @ [\<lparr>sc_durable = True, sc_principal = p,
      sc_event = ApprovalRequested ?rid (rq_action request) (rq_target_resource request), sc_outcome = OutcomeAllowed\<rparr>]"
    using sink fresh by (simp add: st1_def audit_requested_def Let_def)
  define why where "why = ''Capsule '' @ [CHR 0x27] @ hs_capsule_id st @ [CHR 0x27] @ '' requests approval''"
  define st2 where "st2 = publish_request ?rid (rq_action request) (rq_target_resource request) why p owner st1"
  have a1: "\<not> aa_decided a1" "audit_sink st2" using sink by (simp_all add: a1_def st2_def st1_def)
  let ?m = "\<lparr>im_topic = approval_request_topic, im_payload = ApprovalRequired ?rid owner (rq_action request) (rq_target_resource request) why,
        im_principal = Some (pid_str p), im_request_owner = Some owner, im_origin = SystemOrigin\<rparr>"
  have fin: ?thesis if d: "decides a1 (\<exists>d. r = Inr d \<and> d \<noteq> Denied) st2 b (audit_drop a' st')" for b
  proof -
    have "published (audit_drop a' st') = published st @ [?m]"
      using d by (simp add: decides_def st2_def publish_request_def) (simp add: st1_def)
    moreover from d obtain durable sc v out where "audit_log (audit_drop a' st') = audit_log st1 @ [decision_call a1 durable sc v out]"
        and g: "(sc \<noteq> None) = (\<exists>d. r = Inr d \<and> d \<noteq> Denied)" "(out = OutcomeAllowed) = (\<exists>d. r = Inr d \<and> d \<noteq> Denied)"
      by (auto simp: decides_def st2_def)
    moreover have "recorded p (length (audit_log st)) (\<exists>d. r = Inr d \<and> d \<noteq> Denied) [?m]
       [\<lparr>sc_durable = True, sc_principal = p, sc_event = ApprovalRequested ?rid (rq_action request) (rq_target_resource request),
         sc_outcome = OutcomeAllowed\<rparr>, decision_call a1 durable sc v out]"
      by (rule recorded_prompted [OF g]) (simp_all add: a1_def fresh)
    ultimately show ?thesis unfolding log1 by auto
  qed
  show ?thesis
  proof (cases "await_user env p owner st2")
    case None
    then have "r = Inl AeTimeout" "audit_no_response env a1 st2 = (a', st')"
      using run q by (simp_all add: prompt_user_def Let_def why_def st2_def)
    moreover from this have "decides a1 False st2 a' st'"
      using a1 decides_denied by (auto simp: audit_no_response_def split: if_splits)
    ultimately show ?thesis using fin [of a'] by (auto simp: decides_def)
  next
    case (Some e)
    then have "apply_approval_response env request p e a1 st2 = (r, a', st')"
      using run q by (simp add: prompt_user_def Let_def why_def st2_def)
    from apply_response_trail [OF this a1(2, 1)] show ?thesis
    proof
      assume "decides a1 (\<exists>d. r = Inr d \<and> d \<noteq> Denied) st2 a' st'"
      then show ?thesis using fin [of a'] by (auto simp: decides_def)
    next
      assume u: "a' = a1 \<and> st' = st2 \<and> (\<exists>err. r = Inl err)"
      moreover obtain b where "decides a1 False st2 b (audit_drop a1 st2)"
        using decides_drop [of st2 a1] a1 by (auto simp: a1_def)
      ultimately show ?thesis using fin [of b] by auto
    qed
  qed
qed

lemma decides_plain:
  assumes "decides (fresh_trail request st) g st1 b st'" "audit_log st1 = audit_log st" "published st1 = published st"
  shows "\<exists>rows prompts. audit_log st' = audit_log st @ rows \<and> published st' = published st @ prompts
    \<and> (recorded (effective_principal st) (length (audit_log st)) g prompts rows \<or> rows = [] \<and> prompts = [] \<and> Q)"
proof -
  obtain durable sc v out where "audit_log st' = audit_log st @ [decision_call (fresh_trail request st) durable sc v out]"
      and g: "(sc \<noteq> None) = g" "(out = OutcomeAllowed) = g"
    using assms by (auto simp: decides_def)
  moreover have "recorded (effective_principal st) (length (audit_log st)) g [] [decision_call (fresh_trail request st) durable sc v out]"
    by (rule recorded_plain [OF g]) (simp_all add: fresh_trail_def approval_audit_new_def)
  ultimately show ?thesis using assms by (auto simp: decides_def)
qed

text \<open>
  C29.  On an instance with an audit sink the trail of a check is complete: every answer is recorded by exactly one decision, a grant exactly
  when the answer is one.  When the user was asked, exactly one prompt was published, its durable record
  comes first, and the decision names that prompt and that record, also when the wait timed out, was
  cancelled, or ended in an error.  A check that returns an error without asking leaves no trail.
\<close>

theorem approval_trail_complete:
  assumes run: "request_approval env request st = (r, st')" and sink: "audit_sink st"
  shows "\<exists>rows prompts. audit_log st' = audit_log st @ rows \<and> published st' = published st @ prompts
    \<and> (recorded (effective_principal st) (length (audit_log st)) (\<exists>d. r = Inr d \<and> d \<noteq> Denied) prompts rows
       \<or> rows = [] \<and> prompts = [] \<and> (\<exists>e. r = Inl e))"
  using run
proof (cases rule: request_approval_cases)
  case (refused e c)
  then show ?thesis by auto
next
  case (prompted c s owner trail' st2)
  then show ?thesis using sink prompt_user_trail [of env "clean_request request" "effective_principal st" owner
      "fresh_trail request st" "st\<lparr>profile_cache := c, allowance_store := s\<rparr>" r trail' st2]
    by (auto simp: fresh_trail_def approval_audit_new_def)
next
  case (remembered c)
  let ?st = "st\<lparr>profile_cache := c\<rparr>"
  obtain b where "audit_granted ScopeAlways ''remembered_consent'' (fresh_trail request st) ?st = (b, st')"
    using remembered(4) by (metis surjective_pairing)
  from decides_granted [OF _ _ this] sink remembered(3)
  have "decides (fresh_trail request st) (\<exists>d. r = Inr d \<and> d \<noteq> Denied) ?st b st'" by simp
  then show ?thesis by (rule decides_plain) simp_all
next
  case (session c st2)
  obtain b where b: "audit_granted ScopeSession ''session_allowance'' (fresh_trail request st) st2 = (b, st')"
    using session(4) by (metis surjective_pairing)
  from session_check_frame [OF session(2)] obtain s where st2: "st2 = st\<lparr>profile_cache := c, allowance_store := s\<rparr>" by blast
  with decides_granted [OF _ _ b] sink session(3)
  have "decides (fresh_trail request st) (\<exists>d. r = Inr d \<and> d \<noteq> Denied) st2 b st'" by simp
  then show ?thesis by (rule decides_plain) (simp_all add: st2)
next
  case (no_owner c s)
  let ?st = "st\<lparr>profile_cache := c, allowance_store := s\<rparr>"
  obtain b where "audit_denied ''no_request_owner'' ''no authenticated request owner'' (fresh_trail request st) ?st = (b, st')"
    using no_owner(3) by (metis surjective_pairing)
  from decides_denied [OF _ _ this] sink no_owner(2)
  have "decides (fresh_trail request st) (\<exists>d. r = Inr d \<and> d \<noteq> Denied) ?st b st'" by simp
  then show ?thesis by (rule decides_plain) simp_all
qed
section \<open>Where a local connection comes from\<close>

definition remembers_endpoint :: "'z HostState_scheme \<Rightarrow> PrincipalId \<Rightarrow> string \<Rightarrow> u16 \<Rightarrow> bool" where
  "remembers_endpoint st p host port \<longleftrightarrow>
     (\<exists>cache profile entries. profile_cache st = Some cache \<and> fst (pc_resolve p (profile_files st p) cache) = Inr profile
        \<and> hm_get (capsule_egress (network profile)) (hs_capsule_id st) = Some entries
        \<and> list_ex (\<lambda>entry. net_connect_pattern_matches entry host port) entries)"

definition consented :: "ApprovalEnv \<Rightarrow> 'z HostState_scheme \<Rightarrow> string \<Rightarrow> u16 \<Rightarrow> bool" where
  "consented env st host port \<longleftrightarrow>
     (let p = effective_principal st
      in session_allows env st p (NetworkRequest (hs_capsule_id st) host port) None
         \<or> remembers_endpoint st p host port
         \<or> (\<exists>owner decision. request_owner_of st = Some owner \<and> answered_by env p owner decision
              \<and> classify_decision decision \<noteq> Deny))"

lemma has_runtime_grant_hit:
  assumes "allowance_store st = Some store" "store_ok store" "has_runtime_grant env store p capsule host port = (True, store')"
  shows "session_allows env st p (NetworkRequest capsule host port) None"
proof -
  obtain a where "find_matching_and_consume (ae_glob env) (ae_now env) p (NetworkRequest capsule host port) None store = (Some a, store')"
    using assms(3) by (auto simp: has_runtime_grant_def egress_action_def Let_def split: prod.splits)
  from find_matching_and_consume_grant(1-3) [OF assms(2) this] show ?thesis
    using assms(1) unfolding session_allows_def by blast
qed

lemma has_persisted_grant_hit:
  assumes "has_persisted_grant cache p (hs_capsule_id st) host port st = (True, st')" "profile_cache st = Some cache"
  shows "remembers_endpoint st p host port"
  using assms by (auto simp: has_persisted_grant_def remembers_endpoint_def host_resolve_def Let_def
      split: prod.splits sum.splits option.splits)

lemma has_persisted_grant_frame:
  assumes "has_persisted_grant cache p c host port st = (hit, st')"
  shows "\<exists>ca. st' = st\<lparr>profile_cache := ca\<rparr>"
  using assms by (auto simp: has_persisted_grant_def host_resolve_def Let_def split: prod.splits sum.splits option.splits)

lemma elicit_answer:
  assumes "elicit_egress_consent env p endpoint audit st = (decision, audit', st')" "classify_decision decision \<noteq> Deny"
  shows "\<exists>owner. request_owner_of st = Some owner \<and> answered_by env p owner decision"
proof -
  have n: "decision \<noteq> []" using assms(2) by (auto simp: classify_decision_def)
  with assms(1) obtain owner where o: "request_owner_of st = Some owner"
    by (auto simp: elicit_egress_consent_def split: option.splits)
  define st2 where "st2 = publish_request (ae_request_id env) EGRESS_CONSENT_ACTION endpoint
    (''Capsule '' @ [CHR 0x27] @ hs_capsule_id st @ [CHR 0x27] @ '' wants to reach the local endpoint ''
     @ endpoint @ '' (running as '' @ [CHR 0x27] @ pid_str p @ [CHR 0x27] @ '')'') p owner (snd (audit_requested (ae_request_id env) audit st))"
  obtain e where e: "await_user env p owner st2 = Some e"
    using assms(1) n o by (cases "await_user env p owner st2") (auto simp: elicit_egress_consent_def Let_def st2_def split_beta)
  then obtain m where m: "e = IpcEvent m"
    using assms(1) n o by (cases e) (auto simp: elicit_egress_consent_def Let_def st2_def split_beta)
  then obtain i reason where "im_payload m = ApprovalResponse i decision reason"
    using assms(1) n o e by (cases "im_payload m") (auto simp: elicit_egress_consent_def Let_def st2_def split_beta)
  with e m o await_user_Some show ?thesis by blast
qed

lemma apply_egress_decision_fst: "fst (apply_egress_decision env decision p host port audit st) = (classify_decision decision \<noteq> Deny)"
  by (auto simp: apply_egress_decision_def Let_def split: Decision.split)

lemma consent_local_egress_True:
  assumes run: "consent_local_egress env host port st = (True, st')"
    and ok: "\<And>store. allowance_store st = Some store \<Longrightarrow> store_ok store"
  shows "effective_origin st = LocalSocket" "consented env st host port"
proof -
  let ?p = "effective_principal st"
  show "effective_origin st = LocalSocket" using run by (auto simp: consent_local_egress_def split: if_splits)
  then obtain store where store: "allowance_store st = Some store"
    using run by (auto simp: consent_local_egress_def split: option.splits)
  obtain hit store' where h: "has_runtime_grant env store ?p (hs_capsule_id st) host port = (hit, store')" by (meson surj_pair)
  let ?st1 = "st\<lparr>allowance_store := Some store'\<rparr>"
  obtain kept st2 where k: "(case profile_cache ?st1 of None \<Rightarrow> (False, ?st1)
      | Some cache \<Rightarrow> has_persisted_grant cache ?p (hs_capsule_id st) host port ?st1) = (kept, st2)" by (meson surj_pair)
  have remembered: "kept \<Longrightarrow> remembers_endpoint st ?p host port"
    using k has_persisted_grant_hit [of _ ?p ?st1 host port st2]
    by (auto simp: remembers_endpoint_def split: option.splits)
  have own: "request_owner_of st2 = request_owner_of st"
    using k by (auto simp: request_owner_of_def split: option.splits dest!: has_persisted_grant_frame)
  obtain decision a3 st3 where e: "elicit_egress_consent env ?p (endpoint_of host port)
      (approval_audit_new ?p EGRESS_CONSENT_ACTION (endpoint_of host port)) st2 = (decision, a3, st3)" by (metis surj_pair)
  have "hit \<or> kept \<or> fst (apply_egress_decision env decision ?p host port a3 st3)"
    using run store h k e by (auto simp: consent_local_egress_def Let_def split: if_splits bool.splits)
  then show "consented env st host port"
    using has_runtime_grant_hit [OF store ok [OF store]] h remembered elicit_answer [OF e] own
    unfolding consented_def Let_def by (auto simp: apply_egress_decision_fst)
qed

text \<open>
  The addresses a request connects to.  The HTTP client connects to an IP literal without asking the
  resolver, and to whatever the resolver returns for a name.
\<close>

definition reached ::
  "bool \<Rightarrow> string option \<Rightarrow> string \<Rightarrow> (bool, SocketAddr list) result \<Rightarrow> ResolverFlags \<Rightarrow> IpAddr set" where
  "reached bypass exempt host lookup flags =
     (case literal_ip host of
        Some ip \<Rightarrow> {ip}
      | None \<Rightarrow> (case fst (resolve_name bypass exempt host lookup flags) of None \<Rightarrow> {} | Some addrs \<Rightarrow> fst ` set addrs))"

lemma resolve_name_safe:
  assumes "fst (resolve_name False None name lookup flags) = Some addrs" "a \<in> set addrs"
  shows "\<not> ip_is_blocked (fst a)"
  using assms by (auto simp: resolve_name_def filter_safe_addrs_def is_safe_ip_def split: sum.splits if_splits)

lemma egress_decision_eq:
  assumes "url_parse url = Some u" "url_host u = Some host"
  shows "egress_decision url_parse False allowlist url =
    (if \<exists>port. url_port u = Some port \<and> egress_allowed allowlist host port then Inr (Some host)
     else if \<exists>ip. literal_ip host = Some ip \<and> ip_is_blocked ip then Inl AirlockRejected else Inr None)"
  using assms by (simp add: egress_decision_def is_safe_ip_def split: option.split)

text \<open>
  A capsule reaches a blocked address only where the operator allowed it: when the airlock lets a
  request for a URL proceed and the request connects to an address of the block set, directly or through
  any answer of the resolver, then the operator's list names that host and port, or the address was
  written as a literal, the request came in over the verified local socket, and the principal consented
  to this capsule reaching this endpoint: by a live allowance, by an entry of its own profile, or by an
  approving answer stamped with the principal and the owner of the request.
\<close>

lemma airlock_reach:
  assumes run: "egress_decision_with_consent url_parse False env url st = (Inr exempt, st')"
    and ok: "\<And>store. allowance_store st = Some store \<Longrightarrow> store_ok store"
    and url: "url_parse url = Some u" "url_host u = Some host"
    and ip: "ip \<in> reached False exempt host lookup flags" "ip_is_blocked ip"
  shows "\<exists>port. url_port u = Some port
    \<and> (egress_allowed (local_egress st) host port
       \<or> literal_ip host = Some ip \<and> effective_origin st = LocalSocket \<and> consented env st host port)"
proof -
  let ?d = "egress_decision url_parse False (local_egress st) url"
  note deq = egress_decision_eq [of url_parse url u host "local_egress st", OF url]
  consider (allowed) port where "url_port u = Some port" "egress_allowed (local_egress st) host port"
    | (rejected) "?d = Inl AirlockRejected" | (free) "?d = Inr None"
    unfolding deq
    by (cases "\<exists>port. url_port u = Some port \<and> egress_allowed (local_egress st) host port";
        cases "\<exists>ip. literal_ip host = Some ip \<and> ip_is_blocked ip") auto
  then show ?thesis
  proof cases
    case rejected
    then obtain port where port: "url_port u = Some port"
        and c: "consent_local_egress env host port st = (True, st')"
      using run url by (cases "url_port u")
        (auto simp: egress_decision_with_consent_def url_host_port_def split: option.splits prod.splits bool.splits)
    moreover have "literal_ip host \<noteq> None" using rejected by (auto simp: deq split: if_splits)
    then have "literal_ip host = Some ip" using ip(1) by (auto simp: reached_def)
    ultimately show ?thesis using consent_local_egress_True [OF c ok] by blast
  next
    case free
    then have "exempt = None" using run by (simp add: egress_decision_with_consent_def)
    with ip resolve_name_safe have "literal_ip host = Some ip" by (fastforce simp: reached_def split: option.splits)
    with free ip(2) url show ?thesis by (auto simp: deq split: if_splits)
  qed blast
qed

lemma airlock_reach_public:
  assumes run: "egress_decision_with_consent url_parse False env url st = (Inr exempt, st')"
    and url: "url_parse url = Some u" "url_host u = Some host"
    and public: "\<And>ip. literal_ip host = Some ip \<Longrightarrow> \<not> ip_is_blocked ip"
    and ip: "ip \<in> reached False exempt host lookup flags" "ip_is_blocked ip"
  shows "\<exists>port. url_port u = Some port \<and> egress_allowed (local_egress st) host port"
proof (rule ccontr)
  assume "\<not> ?thesis"
  with public have "egress_decision url_parse False (local_egress st) url = Inr None"
    by (auto simp: egress_decision_eq [of url_parse url u host "local_egress st", OF url])
  with run have "exempt = None" by (simp add: egress_decision_with_consent_def)
  with ip resolve_name_safe have "literal_ip host = Some ip" by (fastforce simp: reached_def split: option.splits)
  with public ip(2) show False by blast
qed

section \<open>Remembered across a restart\<close>

lemma resolve_from_empty: "fst (pc_resolve p f ProfileCacheState_default) = resolve_load p f"
  by (subst pc_resolve.simps)
    (simp add: resolve_pass_def begin_load_def publish_loaded_def is_current_def ProfileCacheState_default_def
      hm.get_insert Let_def split: sum.split option.split)

lemma persist_egress_saves:
  assumes "persist_egress w p capsule endpoint f cache = (r, f', cache')" "f' \<noteq> f"
  shows "\<exists>profile entries. resolve_load p f' = Inr profile
    \<and> hm_get (capsule_egress (network profile)) capsule = Some entries \<and> endpoint \<in> set entries"
proof -
  obtain profile profile' where "edit_profile (EgressEdit capsule endpoint) profile = Some profile'"
      and "save_to_path w profile' = Inr f'"
    using assms by (auto simp: persist_egress_def persist_edit_def split: sum.splits option.splits)
  with load_saved [of w profile' f'] show ?thesis
    by (auto simp: resolve_load_def load_from_path_def load_required_def Let_def hm.get_insert split: if_splits)
qed

lemma elicit_fields:
  assumes "elicit_egress_consent env p endpoint audit st = (decision, audit', st')"
  shows "profile_files st' = profile_files st" "hs_capsule_id st' = hs_capsule_id st"
proof -
  have *: "hs_capsule_id (snd (audit_decide sc v out b a st)) = hs_capsule_id st" for sc v out b a and st :: "'a HostState_scheme"
    by (simp add: audit_decide_def Let_def)
  let ?st' = "snd (snd (elicit_egress_consent env p endpoint audit st))"
  have "profile_files ?st' = profile_files st \<and> hs_capsule_id ?st' = hs_capsule_id st"
    by (simp add: elicit_egress_consent_def audit_no_response_def audit_denied_def Let_def split_beta *
        split: option.split AstridEvent.split IpcPayload.split)
  with assms show "profile_files st' = profile_files st" "hs_capsule_id st' = hs_capsule_id st" by simp_all
qed

lemma apply_egress_decision_files:
  assumes "apply_egress_decision env decision p host port audit st = (g, st')" "profile_files st' \<noteq> profile_files st"
  shows "g \<and> (\<exists>cache r f' cache'. persist_egress (ae_write_ok env) p (hs_capsule_id st) (endpoint_of host port) (profile_files st p) cache
            = (r, f', cache') \<and> profile_files st' = (profile_files st)(p := f'))"
proof (cases "classify_decision decision")
  case Always
  then show ?thesis using assms
    by (auto simp: apply_egress_decision_def returning_def audit_granted_def host_persist_def Let_def
        split: option.splits prod.splits) blast+
qed (use assms in \<open>auto simp: apply_egress_decision_def returning_def audit_granted_def audit_denied_def Let_def split: option.splits\<close>)

lemma consent_files:
  assumes run: "consent_local_egress env host port st = (g, st1)" and changed: "profile_files st1 \<noteq> profile_files st"
  defines "p \<equiv> effective_principal st"
  shows "g \<and> (\<exists>cache r f' cache'. persist_egress (ae_write_ok env) p (hs_capsule_id st) (endpoint_of host port) (profile_files st p) cache
            = (r, f', cache') \<and> profile_files st1 = (profile_files st)(p := f'))"
proof -
  obtain store where local: "effective_origin st = LocalSocket" and store: "allowance_store st = Some store"
    using assms by (auto simp: consent_local_egress_def split: if_splits option.splits)
  obtain hit store' where h: "has_runtime_grant env store p (hs_capsule_id st) host port = (hit, store')" by (meson surj_pair)
  let ?s = "st\<lparr>allowance_store := Some store'\<rparr>"
  obtain kept st2 where k: "(case profile_cache ?s of None \<Rightarrow> (False, ?s)
      | Some cache \<Rightarrow> has_persisted_grant cache p (hs_capsule_id st) host port ?s) = (kept, st2)" by (meson surj_pair)
  have st2: "profile_files st2 = profile_files st" "hs_capsule_id st2 = hs_capsule_id st"
    using k by (auto split: option.splits dest!: has_persisted_grant_frame)
  let ?a = "approval_audit_new p EGRESS_CONSENT_ACTION (endpoint_of host port)"
  obtain decision a3 st3 where e: "elicit_egress_consent env p (endpoint_of host port) ?a st2 = (decision, a3, st3)" by (metis surj_pair)
  note body = run [unfolded consent_local_egress_def Let_def, folded p_def]
  have hit: "\<not> hit" using body local store h changed by (auto simp: returning_def audit_granted_def)
  have "\<not> kept" using body local store h k hit changed st2(1) by (auto simp: returning_def audit_granted_def)
  with hit have "apply_egress_decision env decision p host port a3 st3 = (g, st1)"
    using body local store h hit k e by simp
  from apply_egress_decision_files [OF this] show ?thesis
    using changed st2 elicit_fields [OF e] by simp
qed

text \<open>
  C30.  An "always" answer for a local endpoint is remembered: when a consent changed a profile file, the
  request was let through, and after a restart, with an empty cache and an empty allowance store over the
  same files, the next local request of that principal for that capsule and endpoint is let through
  without asking again.
\<close>

theorem egress_always_survives_restart:
  assumes first: "consent_local_egress env host port st = (granted, st1)" "profile_files st1 \<noteq> profile_files st"
    and restart: "profile_files st2 = profile_files st1" "profile_cache st2 = Some ProfileCacheState_default"
      "allowance_store st2 = Some AllowanceStore_new"
    and same: "effective_origin st2 = LocalSocket" "effective_principal st2 = effective_principal st"
      "hs_capsule_id st2 = hs_capsule_id st"
  shows "granted \<and> (\<exists>st3. consent_local_egress env2 host port st2 = (True, st3) \<and> published st3 = published st2)"
proof -
  let ?p = "effective_principal st"
  from consent_files [OF first] obtain cache r f' cache' where granted
      and p: "persist_egress (ae_write_ok env) ?p (hs_capsule_id st) (endpoint_of host port) (profile_files st ?p) cache = (r, f', cache')"
      and f: "profile_files st1 = (profile_files st)(?p := f')" by blast
  have "f' \<noteq> profile_files st ?p" using first(2) f by auto
  from persist_egress_saves [OF p this] obtain profile entries where l: "resolve_load ?p f' = Inr profile"
      and e: "hm_get (capsule_egress (network profile)) (hs_capsule_id st) = Some entries" "endpoint_of host port \<in> set entries" by blast
  have m: "list_ex (\<lambda>entry. net_connect_pattern_matches entry host port) entries"
    using e(2) endpoint_matches [of host port host port] by (auto simp: list_ex_iff)
  have r0: "has_runtime_grant env2 AllowanceStore_new ?p (hs_capsule_id st) host port = (False, AllowanceStore_new)"
    by (simp add: has_runtime_grant_def find_matching_and_consume_def AllowanceStore_new_def)
  have "fst (pc_resolve ?p (profile_files st2 ?p) ProfileCacheState_default) = Inr profile"
    using l f restart(1) by (simp add: resolve_from_empty)
  then have "\<exists>st3. has_persisted_grant ProfileCacheState_default ?p (hs_capsule_id st) host port st2 = (True, st3) \<and> published st3 = published st2"
    using e(1) m by (auto simp: has_persisted_grant_def host_resolve_def Let_def split: prod.split)
  moreover have self: "st2\<lparr>allowance_store := Some AllowanceStore_new\<rparr> = st2" using restart(3) by (cases st2) simp
  ultimately show ?thesis using \<open>granted\<close> r0 restart same
    by (auto simp: self consent_local_egress_def Let_def returning_def audit_granted_def)
qed
section \<open>A concrete host\<close>

definition demo_caller :: IpcMessage where
  "demo_caller = \<lparr>im_topic = ''user.prompt'', im_payload = OtherPayload, im_principal = Some ''alice'',
     im_request_owner = Some 7, im_origin = LocalSocket\<rparr>"

definition demo_host :: HostState where
  "demo_host = \<lparr>hs_principal = default_principal, hs_capsule_id = ''chat'', caller_context = Some demo_caller,
     invocation_profile = None, invocation_profile_authorized = True, invocation_cancel_token = None,
     cancel_token = False, invocation_workspace = None, hs_workspace = None, hs_workspace_root = ''/w'',
     hosted_workspace_root = ''/w'', allowance_store = Some AllowanceStore_new,
     profile_cache = Some ProfileCacheState_default, profile_files = demo_files, local_egress = [],
     audit_sink = True, audit_log = [], published = []\<rparr>"

definition answer :: "string \<Rightarrow> AstridEvent" where
  "answer decision = IpcEvent \<lparr>im_topic = approval_response_topic ''r1'', im_payload = ApprovalResponse ''r1'' decision None,
     im_principal = Some ''alice'', im_request_owner = Some 7, im_origin = LocalSocket\<rparr>"

definition demo_env :: "string \<Rightarrow> ApprovalEnv" where
  "demo_env decision = \<lparr>ae_glob = (\<lambda>_ _. False), ae_now = 5, ae_request_id = ''r1'', ae_allowance_id = 1, ae_signature = [],
     ae_events = [OtherEvent, answer decision], ae_cancelled = False, ae_cancelled_after = False, ae_write_ok = True\<rparr>"

definition demo_request :: ApprovalRequest where
  "demo_request = \<lparr>rq_action = ''git push'', rq_target_resource = ''git push origin''\<rparr>"


lemma utf8_chars_ascii: "\<forall>c \<in> set s. char_code c < 0x80 \<Longrightarrow> utf8_chars s = map (\<lambda>c. [c]) s"
proof (induction s rule: utf8_chars.induct)
  case (2 c s)
  have "takeWhile (\<lambda>b. \<not> is_char_boundary_byte b) s = []" "dropWhile (\<lambda>b. \<not> is_char_boundary_byte b) s = s"
    using 2 by (cases s; force simp: is_char_boundary_byte_def)+
  with 2 show ?case by simp
qed simp

lemma sanitize_plain:
  assumes "s \<noteq> []" "is_ascii_graphic (hd s)" "is_ascii_graphic (last s)" "\<forall>c \<in> set s. 0x20 \<le> char_code c \<and> char_code c < 0x7F"
    "length s \<le> n"
  shows "sanitize_guest_field n s = s"
proof -
  have "filter (\<lambda>c. \<not> is_control c) (map (\<lambda>c. [c]) s) = map (\<lambda>c. [c]) s"
    using assms(4) by (induction s) auto
  moreover have "\<forall>c \<in> set s. char_code c < 0x80" using assms(4) by force
  then have "utf8_chars (trim s) = map (\<lambda>c. [c]) s"
    using assms(1-3) utf8_chars_ascii [of s] by (simp add: trim_ends)
  ultimately show ?thesis using assms(5) by (simp add: sanitize_guest_field_def)
qed

lemma sanitize_action_eq: "sanitize_action_for_pattern s = sanitize_guest_field MAX_ACTION_LEN s"
  by (simp add: sanitize_action_for_pattern_def sanitize_guest_field_def)

lemma demo_clean: "clean_request demo_request = demo_request"
proof -
  have "sanitize_guest_field 256 ''git push'' = ''git push''" "sanitize_guest_field 1024 ''git push origin'' = ''git push origin''"
    by (rule sanitize_plain; simp add: is_ascii_graphic_def char_code_def)+
  then show ?thesis by (simp add: clean_request_def demo_request_def sanitize_action_eq MAX_ACTION_LEN_def MAX_RESOURCE_LEN_def)
qed

lemma demo_pid: "PrincipalId_new ''alice'' = Inr alice"
  by (simp add: PrincipalId_new_def alice_def) code_simp

lemma demo_principal: "effective_principal demo_host = alice"
  by (simp add: effective_principal_def demo_host_def demo_caller_def demo_pid)

lemma demo_fields:
  "allowance_store demo_host = Some AllowanceStore_new" "profile_cache demo_host = Some ProfileCacheState_default"
  "effective_origin demo_host = LocalSocket" "hs_capsule_id demo_host = ''chat''" "profile_files demo_host = demo_files"
  "local_egress demo_host = []" "published demo_host = []"
  by (simp_all add: demo_host_def effective_origin_def demo_caller_def)

lemma effective_files [simp]:
  "effective_principal (st\<lparr>profile_files := f\<rparr>) = effective_principal st"
  "effective_origin (st\<lparr>profile_files := f\<rparr>) = effective_origin st"
  by (simp_all add: effective_principal_def effective_origin_def split: option.split sum.split)

text \<open>The host without a profile cache, so that the user has to be asked.\<close>

abbreviation bare_host :: HostState where
  "bare_host \<equiv> demo_host\<lparr>profile_cache := None\<rparr>"

lemma demo_await: "await_user (demo_env decision) alice 7 st = (if effective_cancelled st then None else Some (answer decision))"
  by (simp add: await_user_def bounded_block_on_cancellable_def demo_env_def answer_def response_identity_matches_def
      event_principal_def event_request_owner_def alice_def)

lemma demo_approved: "\<exists>st'. request_approval (demo_env ''approve'') demo_request bare_host = (Inr Approved, st')"
proof -
  have c: "sanitize_action_for_pattern (rq_action demo_request) = rq_action demo_request"
    "sanitize_guest_field MAX_RESOURCE_LEN (rq_target_resource demo_request) = rq_target_resource demo_request"
    using arg_cong [OF demo_clean, of rq_action] arg_cong [OF demo_clean, of rq_target_resource] by (simp_all add: clean_request_def)
  have l: "length (utf8_chars (rq_action demo_request)) \<le> MAX_ACTION_LEN"
    using utf8_chars_ascii [of "''git push''"] by (simp add: demo_request_def MAX_ACTION_LEN_def char_code_def)
  have p: "effective_principal bare_host = alice" by (simp add: effective_principal_def demo_host_def demo_caller_def demo_pid)
  have "fst (request_approval (demo_env ''approve'') demo_request bare_host) = Inr Approved"
    using l unfolding request_approval_def c p Let_def
    by (simp add: invocation_authority_active_def effective_cancelled_def demo_host_def check_persisted_allowance_def
        session_check_def check_allowance_def find_matching_and_consume_def AllowanceStore_new_def request_owner_of_def demo_caller_def
        prompt_user_def demo_await audit_requested_def Let_def sink_record_def publish_request_def apply_approval_response_def answer_def
        decision_from_str_def split_beta)
  then show ?thesis by (metis surjective_pairing)
qed

theorem approval_needs_consent_witness:
  "\<exists>owner decision. request_owner_of bare_host = Some owner
     \<and> answered_by (demo_env ''approve'') (effective_principal bare_host) owner decision \<and> Approved = decision_from_str decision"
proof -
  obtain st' where run: "request_approval (demo_env ''approve'') demo_request bare_host = (Inr Approved, st')"
    using demo_approved by blast
  have "\<And>store. allowance_store bare_host = Some store \<Longrightarrow> store_ok store"
    using store_ok_new by (simp add: demo_host_def)
  from approval_needs_consent [OF run _ this] show ?thesis by auto
qed

theorem approval_trail_complete_witness:
  "\<exists>st' rows prompts. request_approval (demo_env ''approve'') demo_request bare_host = (Inr Approved, st') \<and> audit_log st' = rows
     \<and> recorded (effective_principal bare_host) 0 True prompts rows"
proof -
  obtain st' where run: "request_approval (demo_env ''approve'') demo_request bare_host = (Inr Approved, st')"
    using demo_approved by blast
  have s: "audit_sink bare_host" "audit_log bare_host = []" by (simp_all add: demo_host_def)
  from approval_trail_complete [OF run s(1)] run s show ?thesis by auto
qed

lemma demo_endpoint: "endpoint_of ''127.0.0.1'' 1234 = ''127.0.0.1:1234''"
proof -
  have "dec 1234 = ''1234''" by code_simp
  then show ?thesis by (simp add: endpoint_of_def)
qed

lemma octet_value: "unat (octet a i) = unat a div 2 ^ (24 - 8 * i) mod 256"
  by (simp add: octet_def unsigned_ucast_eq unat_drop take_bit_eq_mod)

lemma demo_literal: "literal_ip ''127.0.0.1'' = Some (V4 (v4 127 0 0 1))"
proof -
  have "dec 127 = ''127''" "dec 0 = ''0''" "dec 1 = ''1''" by code_simp+
  then have "dotted (v4 127 0 0 1) = ''127.0.0.1''" by (simp add: dotted_def octet_value v4_def)
  then show ?thesis using literal_dotted [of "v4 127 0 0 1"] by simp
qed

lemma demo_blocked: "ip_is_blocked (V4 (v4 127 0 0 1))"
proof -
  have "in_cidr (v4 127 0 0 0) 8 (v4 127 0 0 1)" by (simp add: v4_cidr_unat) (simp add: v4_def)
  then show ?thesis using ipv4_ranges by (simp add: ip_is_blocked_def in_v4_ranges_def blocked_v4_def)
qed

abbreviation always_env :: ApprovalEnv where
  "always_env \<equiv> demo_env ''approve_always''"

lemma demo_persist:
  "persist_egress True alice ''chat'' ''127.0.0.1:1234'' (Content PrincipalProfile_default) cache
     = (Inr (), Content chat_profile, pc_invalidate alice cache)"
  by (simp add: persist_egress_def persist_edit_def load_from_path_def load_default chat_edit chat_saved del: edit_profile.simps)

lemma demo_not_remembered:
  "\<exists>c. has_persisted_grant ProfileCacheState_default alice ''chat'' host port (demo_host\<lparr>allowance_store := s\<rparr>)
     = (False, demo_host\<lparr>allowance_store := s, profile_cache := Some c\<rparr>)"
proof -
  have "alice \<noteq> default_principal" by (simp add: alice_def default_principal_def)
  then have "fst (pc_resolve alice (demo_files alice) ProfileCacheState_default) = Inr PrincipalProfile_default"
    by (simp add: resolve_from_empty resolve_load_def load_required_def demo_files_def load_default)
  then show ?thesis
    by (auto simp: has_persisted_grant_def host_resolve_def Let_def demo_host_def PrincipalProfile_default_def split: prod.split)
qed

lemma demo_consent:
  "\<exists>st1. consent_local_egress always_env ''127.0.0.1'' 1234 demo_host = (True, st1)
     \<and> profile_files st1 = demo_files(alice := Content chat_profile)"
proof -
  let ?s = "demo_host\<lparr>allowance_store := Some AllowanceStore_new\<rparr>"
  obtain c where k: "has_persisted_grant ProfileCacheState_default alice ''chat'' ''127.0.0.1'' 1234 ?s = (False, ?s\<lparr>profile_cache := Some c\<rparr>)"
    using demo_not_remembered by blast
  have h: "has_runtime_grant always_env AllowanceStore_new alice ''chat'' ''127.0.0.1'' 1234 = (False, AllowanceStore_new)"
    by (simp add: has_runtime_grant_def find_matching_and_consume_def AllowanceStore_new_def)
  obtain a3 st3 where e: "elicit_egress_consent always_env alice ''127.0.0.1:1234''
       (approval_audit_new alice EGRESS_CONSENT_ACTION ''127.0.0.1:1234'') (?s\<lparr>profile_cache := Some c\<rparr>) = (''approve_always'', a3, st3)"
     and f: "profile_cache st3 = Some c" "allowance_store st3 = Some AllowanceStore_new" "profile_files st3 = demo_files" "hs_capsule_id st3 = ''chat''"
    by (simp add: elicit_egress_consent_def request_owner_of_def demo_host_def demo_caller_def demo_await effective_cancelled_def
        answer_def audit_requested_def publish_request_def sink_record_def Let_def)
  have "consent_local_egress always_env ''127.0.0.1'' 1234 demo_host
      = apply_egress_decision always_env ''approve_always'' alice ''127.0.0.1'' 1234 a3 st3"
    using h k e unfolding consent_local_egress_def Let_def demo_principal demo_endpoint by (simp add: demo_fields)
  moreover have "fst (apply_egress_decision always_env ''approve_always'' alice ''127.0.0.1'' 1234 a3 st3)"
    by (simp add: apply_egress_decision_fst classify_decision_def)
  moreover have "profile_files (snd (apply_egress_decision always_env ''approve_always'' alice ''127.0.0.1'' 1234 a3 st3))
      = demo_files(alice := Content chat_profile)"
    using f by (simp add: apply_egress_decision_def classify_decision_def demo_endpoint host_persist_def
        returning_def audit_granted_def Let_def demo_env_def) (simp add: demo_files_def demo_persist)
  ultimately show ?thesis
    by (intro exI [of _ "snd (apply_egress_decision always_env ''approve_always'' alice ''127.0.0.1'' 1234 a3 st3)"])
      (simp add: prod_eq_iff)
qed

theorem egress_always_survives_restart_witness:
  "\<exists>st1 st3. consent_local_egress always_env ''127.0.0.1'' 1234 demo_host = (True, st1)
     \<and> consent_local_egress (demo_env []) ''127.0.0.1'' 1234 (demo_host\<lparr>profile_files := profile_files st1\<rparr>) = (True, st3)
     \<and> published st3 = []"
proof -
  obtain st1 where run: "consent_local_egress always_env ''127.0.0.1'' 1234 demo_host = (True, st1)"
      and f: "profile_files st1 = demo_files(alice := Content chat_profile)"
    using demo_consent by blast
  have "chat_profile \<noteq> PrincipalProfile_default" by (simp add: chat_profile_def PrincipalProfile_default_def)
  then have "profile_files st1 \<noteq> profile_files demo_host"
    unfolding f by (simp add: demo_host_def demo_files_def fun_eq_iff)
  from egress_always_survives_restart [OF run this, of "demo_host\<lparr>profile_files := profile_files st1\<rparr>" "demo_env []"]
  have "\<exists>st3. consent_local_egress (demo_env []) ''127.0.0.1'' 1234 (demo_host\<lparr>profile_files := profile_files st1\<rparr>) = (True, st3)
     \<and> published st3 = []"
    by (simp add: demo_fields)
  with run show ?thesis by blast
qed

section \<open>Against the documentation\<close>

text \<open>
  The documentation of \<open>consent_local_egress\<close> says that a plain "approve" caches a grant for the session;
  it leaves the store as it was, and the next request asks again.
\<close>

lemma approve_once_caches_nothing:
  "allowance_store (snd (apply_egress_decision env ''approve'' p host port audit st)) = allowance_store st"
  by (simp add: apply_egress_decision_def classify_decision_def returning_def audit_granted_def)

text \<open>
  The documentation of the trail says that each check records exactly one decision.  A check that ends
  because the profile cannot be read records none.
\<close>

lemma unreadable_profile_leaves_no_record:
  assumes "invocation_authority_active st" "length (utf8_chars (rq_action request)) \<le> MAX_ACTION_LEN"
    and "profile_cache st = Some cache"
    and "fst (pc_resolve (effective_principal st) (profile_files st (effective_principal st)) cache) = Inl e"
  shows "\<exists>st'. request_approval env request st = (Inl AeStoreUnavailable, st') \<and> audit_log st' = audit_log st"
proof -
  obtain c where "pc_resolve (effective_principal st) (profile_files st (effective_principal st)) cache = (Inl e, c)"
    using assms(4) by (metis fst_conv surj_pair)
  then show ?thesis using assms(1-3)
    by (simp add: request_approval_def check_persisted_allowance_def host_resolve_def Let_def returning_def approval_audit_new_def)
qed

end
