(* ===== verification/Http_Request.thy ===== *)
theory Http_Request
  imports Host_State Egress_Airlock "HOL-Library.Char_ord" "HOL-Library.List_Lexorder"
begin

text \<open>
  The parts of an outgoing HTTP request that the host resolves, substitutes and commits to, from
  \<open>crates/astrid-capsule/src/engine/wasm/host/http\<close>: \<open>options.rs\<close>, \<open>credentials.rs\<close> and the content of
  \<open>audit.rs\<close>, with the limits of \<open>crates/astrid-capsule-types/src/limits.rs\<close>.

  A header map is the list of its entries in iteration order, names in lower case.  The checks of the
  header types, base64, the digests and form decoding belong to other packages and are arguments.  Durations
  are milliseconds.
\<close>

section \<open>Requests and options\<close>

datatype HttpMethod =
    MGet | MHead | MPost | MPut | MDelete | MConnect | MOptions | MTrace | MPatch | MOther string

record HttpRequestData =
  rd_url :: string
  rd_method :: HttpMethod
  rd_headers :: "(string \<times> string) list"
  rd_body :: "string option"

datatype RedirectPolicy = FollowRedirects | ErrorOnRedirect | ManualRedirects

record TimeoutConfig =
  tc_connect_ms :: "u64 option"
  tc_first_byte_ms :: "u64 option"
  tc_between_bytes_ms :: "u64 option"
  tc_total_ms :: "u64 option"

record RequestOptions =
  op_timeouts :: "TimeoutConfig option"
  op_redirect :: "RedirectPolicy option"
  op_max_redirects :: "u32 option"
  op_max_response_bytes :: "u64 option"
  op_max_decompressed_bytes :: "u64 option"
  op_auto_decompress :: "bool option"
  op_https_only :: "bool option"
  op_integrity :: "string option"

record HttpLimits =
  hl_default_total_timeout :: nat
  hl_stream_connect_timeout :: nat
  hl_stream_read_timeout :: nat
  hl_header_deadline_floor :: nat
  hl_max_redirects :: nat
  hl_max_concurrent_streams :: nat
  hl_max_response_bytes :: u64

definition MAX_HTTP_REDIRECTS :: nat where "MAX_HTTP_REDIRECTS = 10"

definition HttpLimits_default :: HttpLimits where
  "HttpLimits_default =
     \<lparr>hl_default_total_timeout = 30000, hl_stream_connect_timeout = 30000, hl_stream_read_timeout = 120000,
      hl_header_deadline_floor = 120000, hl_max_redirects = MAX_HTTP_REDIRECTS, hl_max_concurrent_streams = 4,
      hl_max_response_bytes = 10 * 1024 * 1024\<rparr>"

definition MAX_GUEST_PAYLOAD_LEN :: u64 where "MAX_GUEST_PAYLOAD_LEN = 10 * 1024 * 1024"

record ResolvedOptions =
  ro_connect_timeout :: "nat option"
  ro_total_timeout :: "nat option"
  ro_between_bytes_timeout :: "nat option"
  ro_first_byte_timeout :: "nat option"
  ro_redirect :: RedirectPolicy
  ro_max_redirects :: nat
  ro_max_response_bytes :: u64
  ro_max_decompressed_bytes :: "u64 option"
  ro_auto_decompress :: bool
  ro_https_only :: bool
  ro_integrity :: "string option"
  ro_total_explicit :: bool

definition v10_defaults :: "HttpLimits \<Rightarrow> ResolvedOptions" where
  "v10_defaults limits =
     \<lparr>ro_connect_timeout = None, ro_total_timeout = Some (hl_default_total_timeout limits), ro_between_bytes_timeout = None,
      ro_first_byte_timeout = None, ro_redirect = FollowRedirects, ro_max_redirects = hl_max_redirects limits,
      ro_max_response_bytes = min (hl_max_response_bytes limits) MAX_GUEST_PAYLOAD_LEN, ro_max_decompressed_bytes = None,
      ro_auto_decompress = True, ro_https_only = False, ro_integrity = None, ro_total_explicit = False\<rparr>"

definition apply_timeouts :: "TimeoutConfig \<Rightarrow> ResolvedOptions \<Rightarrow> ResolvedOptions" where
  "apply_timeouts t r0 =
     (let r1 = (case tc_connect_ms t of Some ms \<Rightarrow> r0\<lparr>ro_connect_timeout := Some (unat ms)\<rparr> | None \<Rightarrow> r0);
          r2 = (case tc_first_byte_ms t of Some ms \<Rightarrow> r1\<lparr>ro_first_byte_timeout := Some (unat ms)\<rparr> | None \<Rightarrow> r1);
          r3 = (case tc_between_bytes_ms t of Some ms \<Rightarrow> r2\<lparr>ro_between_bytes_timeout := Some (unat ms)\<rparr> | None \<Rightarrow> r2)
      in case tc_total_ms t of
           Some ms \<Rightarrow> r3\<lparr>ro_total_timeout := Some (unat ms), ro_total_explicit := True\<rparr>
         | None \<Rightarrow> r3)"

definition from_options :: "RequestOptions \<Rightarrow> HttpLimits \<Rightarrow> ResolvedOptions" where
  "from_options opts limits =
     (let r0 = v10_defaults limits;
          r1 = (case op_timeouts opts of Some t \<Rightarrow> apply_timeouts t r0 | None \<Rightarrow> r0);
          r2 = (case op_redirect opts of Some r \<Rightarrow> r1\<lparr>ro_redirect := r\<rparr> | None \<Rightarrow> r1);
          r3 = (case op_max_redirects opts of
                  Some n \<Rightarrow> r2\<lparr>ro_max_redirects := min (unat n) (hl_max_redirects limits)\<rparr> | None \<Rightarrow> r2);
          r4 = (case op_max_response_bytes opts of
                  Some n \<Rightarrow> r3\<lparr>ro_max_response_bytes := min n (ro_max_response_bytes r3)\<rparr> | None \<Rightarrow> r3);
          r5 = r4\<lparr>ro_max_decompressed_bytes := op_max_decompressed_bytes opts\<rparr>;
          r6 = (case op_auto_decompress opts of Some b \<Rightarrow> r5\<lparr>ro_auto_decompress := b\<rparr> | None \<Rightarrow> r5);
          r7 = (case op_https_only opts of Some b \<Rightarrow> r6\<lparr>ro_https_only := b\<rparr> | None \<Rightarrow> r6)
      in r7\<lparr>ro_integrity := op_integrity opts\<rparr>)"

definition header_deadline :: "ResolvedOptions \<Rightarrow> nat \<Rightarrow> nat" where
  "header_deadline opts floor =
     (case ro_first_byte_timeout opts of
        Some t \<Rightarrow> t
      | None \<Rightarrow> (case ro_total_timeout opts of Some t \<Rightarrow> t | None \<Rightarrow> floor))"

definition check_scheme :: "(string \<Rightarrow> Url option) \<Rightarrow> string \<Rightarrow> bool \<Rightarrow> (ErrorCode, unit) result" where
  "check_scheme url_parse url https_only =
     (case url_parse url of
        None \<Rightarrow> Inl InvalidRequest
      | Some parsed \<Rightarrow>
          if url_scheme parsed = ''https'' then Inr ()
          else if url_scheme parsed = ''http'' \<and> \<not> https_only then Inr ()
          else Inl SchemeDenied)"

definition same_origin :: "Url \<Rightarrow> Url \<Rightarrow> bool" where
  "same_origin a b \<longleftrightarrow> url_scheme a = url_scheme b \<and> url_host a = url_host b \<and> url_port a = url_port b"

text \<open>The digests by algorithm name, and base64 with and without padding.\<close>

definition verify_integrity ::
  "(string \<Rightarrow> string option) \<Rightarrow> (string \<Rightarrow> string option) \<Rightarrow> (string \<Rightarrow> string \<Rightarrow> string)
     \<Rightarrow> string \<Rightarrow> string \<Rightarrow> (ErrorCode, unit) result" where
  "verify_integrity decode decode_no_pad sha integrity body =
     (case split_once CHR ''-'' integrity of
        None \<Rightarrow> Inl InvalidRequest
      | Some (algo, b64) \<Rightarrow>
          (case (case decode b64 of Some e \<Rightarrow> Some e | None \<Rightarrow> decode_no_pad b64) of
             None \<Rightarrow> Inl InvalidRequest
           | Some expected \<Rightarrow>
               if algo \<in> {''sha256'', ''sha384'', ''sha512''}
               then (if sha algo body = expected then Inr () else Inl IntegrityMismatch)
               else Inl InvalidRequest))"

section \<open>Headers\<close>

type_synonym HeaderMap = "(string \<times> string) list"

definition hdr_remove :: "string \<Rightarrow> HeaderMap \<Rightarrow> HeaderMap" where
  "hdr_remove name headers = filter (\<lambda>(n, _). n \<noteq> name) headers"

definition hdr_get :: "HeaderMap \<Rightarrow> string \<Rightarrow> string option" where
  "hdr_get headers name = map_option snd (find (\<lambda>(n, _). n = name) headers)"

definition strip_credentials :: "HeaderMap \<Rightarrow> HeaderMap" where
  "strip_credentials headers = hdr_remove ''cookie'' (hdr_remove ''authorization'' headers)"

section \<open>Secrets in header values\<close>

definition OPEN :: string where "OPEN = ''{{secret:''"
definition CLOSE :: string where "CLOSE = ''}}''"

datatype InjectError = Malformed | Undeclared string | InvalidValue

definition inject_code :: "InjectError \<Rightarrow> ErrorCode" where
  "inject_code e = (case e of Undeclared _ \<Rightarrow> CapabilityDenied | Malformed \<Rightarrow> InvalidRequest | InvalidValue \<Rightarrow> InvalidRequest)"

definition has_placeholder :: "string \<Rightarrow> bool" where
  "has_placeholder value = (split_at_str OPEN value \<noteq> None)"

definition strip_injected :: "HeaderMap \<Rightarrow> HeaderMap" where
  "strip_injected headers =
     fold hdr_remove (map fst (filter (\<lambda>(_, value). has_placeholder value) headers)) headers"

definition secret_name_ok :: "string \<Rightarrow> bool" where
  "secret_name_ok name \<longleftrightarrow>
     utf8_valid name \<and> name \<noteq> [] \<and> list_all (\<lambda>b. is_ascii_alphanumeric b \<or> b \<in> set ''_-.'') name"

function substitute_loop ::
  "(string \<Rightarrow> (InjectError, string) result) \<Rightarrow> string \<Rightarrow> string \<Rightarrow> string list \<Rightarrow> bool
     \<Rightarrow> (InjectError, string \<times> string list \<times> bool) result" where
  "substitute_loop resolve rest out used blank =
     (case split_at_str OPEN rest of
        None \<Rightarrow> Inr (out @ rest, used, blank)
      | Some (before, after_open) \<Rightarrow>
          (case split_at_str CLOSE after_open of
             None \<Rightarrow> Inl Malformed
           | Some (name, rest') \<Rightarrow>
               if \<not> secret_name_ok name then Inl Malformed
               else and_then (resolve name) (\<lambda>secret.
                 substitute_loop resolve rest' (out @ before @ trim secret)
                   (if name \<in> set used then used else used @ [name]) (blank \<or> trim secret = []))))"
  by pat_completeness auto
termination
  by (relation "measure (\<lambda>(_, rest, _, _, _). length rest)") (auto dest!: split_at_str_Some simp: OPEN_def)

definition substitute ::
  "(string \<Rightarrow> (InjectError, string) result) \<Rightarrow> string \<Rightarrow> string list \<Rightarrow> (InjectError, string option \<times> string list) result" where
  "substitute resolve value names =
     and_then (substitute_loop resolve value [] [] False) (\<lambda>(out, used, blank).
       if blank then Inr (None, names)
       else Inr (Some out, names @ filter (\<lambda>n. n \<notin> set names) used))"

fun substitute_headers ::
  "(string \<Rightarrow> bool) \<Rightarrow> (string \<Rightarrow> (InjectError, string) result) \<Rightarrow> HeaderMap \<Rightarrow> string list
     \<Rightarrow> (InjectError, HeaderMap \<times> string list) result" where
  "substitute_headers value_ok resolve [] names = Inr ([], names)"
| "substitute_headers value_ok resolve ((name, value) # template) names =
     (if \<not> has_placeholder value then
        and_then (substitute_headers value_ok resolve template names) (\<lambda>(hs, ns). Inr ((name, value) # hs, ns))
      else and_then (substitute resolve value names) (\<lambda>(bytes, names').
        case bytes of
          None \<Rightarrow> substitute_headers value_ok resolve template names'
        | Some bytes \<Rightarrow>
            if \<not> value_ok bytes then Inl InvalidValue
            else and_then (substitute_headers value_ok resolve template names') (\<lambda>(hs, ns). Inr ((name, bytes) # hs, ns))))"

section \<open>What a request commits to\<close>

definition REDACTED :: string where "REDACTED = ''[REDACTED]''"

definition CREDENTIAL_HEADERS :: "string list" where
  "CREDENTIAL_HEADERS =
     [''authorization'', ''proxy-authorization'', ''cookie'', ''x-api-key'', ''api-key'', ''x-goog-api-key'',
      ''x-auth-token'', ''x-amz-security-token'', ''ocp-apim-subscription-key'']"

definition CREDENTIAL_QUERY_KEYS :: "string list" where
  "CREDENTIAL_QUERY_KEYS =
     [''key'', ''api_key'', ''apikey'', ''api-key'', ''access_token'', ''token'', ''auth'', ''password'', ''secret'',
      ''client_secret'', ''signature'', ''sig'', ''x-amz-signature'', ''x-amz-credential'', ''x-amz-security-token'',
      ''x-goog-signature'', ''x-goog-credential'']"

definition PROVIDER_REQUEST_ID_HEADERS :: "string list" where
  "PROVIDER_REQUEST_ID_HEADERS =
     [''x-request-id'', ''request-id'', ''x-amzn-requestid'', ''x-amz-request-id'', ''apim-request-id'',
      ''x-ms-request-id'', ''cf-ray'']"

definition MAX_REQUEST_ID_LEN :: nat where "MAX_REQUEST_ID_LEN = 128"

definition note_secret :: "string \<Rightarrow> string list \<Rightarrow> string list" where
  "note_secret value known = (if value = [] \<or> value \<in> set known then known else known @ [value])"

record Redactor =
  rx_secrets :: "string list"
  rx_first_bytes :: "char \<Rightarrow> bool"

definition Redactor_new :: "string list \<Rightarrow> Redactor" where
  "Redactor_new known =
     (let secrets = remdups_adj (sort_key (\<lambda>s. - int (length s)) (filter (\<lambda>s. s \<noteq> []) known))
      in \<lparr>rx_secrets = secrets, rx_first_bytes = (\<lambda>b. list_ex (\<lambda>s. hd s = b) secrets)\<rparr>)"

function redact :: "Redactor \<Rightarrow> string \<Rightarrow> string" where
  "redact rx [] = []"
| "redact rx (b # rest) =
     (case (if rx_first_bytes rx b then find (\<lambda>s. starts_with s (b # rest)) (rx_secrets rx) else None) of
        None \<Rightarrow> b # redact rx rest
      | Some s \<Rightarrow> REDACTED @ redact rx (drop (length s - 1) rest))"
  by pat_completeness auto
termination by (relation "measure (\<lambda>(_, s). length s)") auto

text \<open>\<open>form_urlencoded::parse\<close> of a name: the decoded key, empty when there is none.\<close>

definition redact_pair :: "(string \<Rightarrow> string) \<Rightarrow> string \<Rightarrow> string" where
  "redact_pair form_decode pair =
     (let name = (case split_once CHR ''='' pair of Some (n, _) \<Rightarrow> n | None \<Rightarrow> pair);
          decoded = map to_ascii_lowercase (form_decode name)
      in if CHR ''='' \<in> set pair \<and> decoded \<in> set CREDENTIAL_QUERY_KEYS then name @ ''='' @ REDACTED else pair)"

definition redacted_path :: "(string \<Rightarrow> string) \<Rightarrow> Url \<Rightarrow> string" where
  "redacted_path form_decode url =
     (case url_query url of
        None \<Rightarrow> url_path url
      | Some query \<Rightarrow> url_path url @ ''?'' @ join_with ''&'' (map (redact_pair form_decode) (split_on CHR ''&'' query)))"

definition canonical_headers :: "HeaderMap \<Rightarrow> Redactor \<Rightarrow> string" where
  "canonical_headers headers rx =
     concat (map (\<lambda>(name, value). name @ '':'' @ value @ [CHR 0x0A])
       (sort_key fst (map (\<lambda>(name, value).
          (name, if name \<in> set CREDENTIAL_HEADERS then REDACTED else redact rx value)) headers)))"

fun floor_char_boundary :: "string \<Rightarrow> nat \<Rightarrow> nat" where
  "floor_char_boundary s 0 = 0"
| "floor_char_boundary s (Suc n) =
     (if length s \<le> Suc n \<or> \<not> cont_byte 0x80 0xBF (s ! Suc n) then Suc n else floor_char_boundary s n)"

definition provider_request_ids :: "(string \<Rightarrow> string option) \<Rightarrow> HeaderMap \<Rightarrow> (string \<times> string) list" where
  "provider_request_ids to_str headers =
     List.map_filter (\<lambda>name.
       map_option (\<lambda>value. (name, take (floor_char_boundary value (min (length value) MAX_REQUEST_ID_LEN)) value))
         (Option.bind (hdr_get headers name) to_str)) PROVIDER_REQUEST_ID_HEADERS"

record RequestCommitment =
  rc_path_hash :: string
  rc_headers_hash :: string
  rc_body_hash :: string
  rc_body_len :: nat

definition compute_commitment ::
  "(string \<Rightarrow> string) \<Rightarrow> (string \<Rightarrow> string) \<Rightarrow> Url \<Rightarrow> HeaderMap \<Rightarrow> string option \<Rightarrow> Redactor \<Rightarrow> RequestCommitment" where
  "compute_commitment hash form_decode url headers body0 rx =
     (let body = (case body0 of Some b \<Rightarrow> b | None \<Rightarrow> [])
      in \<lparr>rc_path_hash = hash (redact rx (redacted_path form_decode url)),
          rc_headers_hash = hash (canonical_headers headers rx),
          rc_body_hash = hash (redact rx body),
          rc_body_len = length body\<rparr>)"

end
