(* ===== verification/Http_Host.thy ===== *)
theory Http_Host
  imports Approval_Host Http_Request
begin

text \<open>
  Outgoing HTTP of a capsule, \<open>crates/astrid-capsule/src/engine/wasm/host/http\<close>: the redirect driver and
  the hop it sends (\<open>backend.rs\<close>), the audit exchange around each hop (\<open>audit.rs\<close>), the injection of
  secrets (\<open>credentials.rs\<close>), the stream resources, and the two versions of the interface (\<open>mod.rs\<close>).

  \<open>HttpState\<close> extends the host state with what this code reads.  \<open>wire_log\<close> is the list of the requests
  handed to the HTTP client, in order.  Everything the client, the URL parser and the operating system decide
  is a field of \<open>HttpEnv\<close>; a field that is asked once per hop takes the number of the hop.  A completion that
  is detached from the call is appended where it is detached.
\<close>

section \<open>State and environment\<close>

record ReqwestError =
  re_timeout :: bool
  re_connect :: bool
  re_request :: bool
  re_body :: bool
  re_decode :: bool
  re_text :: string

definition map_reqwest_err :: "ReqwestError \<Rightarrow> ErrorCode" where
  "map_reqwest_err e =
     (if re_timeout e then Timeout
      else if re_connect e then ConnectionError
      else if re_request e then InvalidRequest
      else if re_body e \<or> re_decode e then Protocol (re_text e)
      else Unknown (re_text e))"

record Response =
  rs_status :: u16
  rs_headers :: HeaderMap
  rs_content_length :: "u64 option"
  rs_chunks :: "(ReqwestError, string) result list"

record ClientConfig =
  cc_exempt_host :: "string option"
  cc_connect_timeout :: "nat option"
  cc_timeout :: "nat option"
  cc_read_timeout :: "nat option"
  cc_decompress :: bool

record WireRequest =
  wr_url :: string
  wr_method :: string
  wr_headers :: HeaderMap
  wr_body :: "string option"
  wr_client :: ClientConfig
  wr_deadline :: nat
  wr_after :: nat

datatype SendOutcome = Answered Response | SendFailed ReqwestError | Elapsed

datatype ReadOutcome = ReadCancelled | ReadElapsed | ReadReady

record HttpEnv =
  he_url_parse :: "string \<Rightarrow> Url option"
  he_join :: "Url \<Rightarrow> string \<Rightarrow> Url option"
  he_header_name :: "string \<Rightarrow> string option"
  he_header_value :: "string \<Rightarrow> bool"
  he_to_str :: "string \<Rightarrow> string option"
  he_method :: "string \<Rightarrow> string option"
  he_bypass :: bool
  he_hash :: "string \<Rightarrow> string"
  he_form_decode :: "string \<Rightarrow> string"
  he_base64 :: "string \<Rightarrow> string option"
  he_base64_no_pad :: "string \<Rightarrow> string option"
  he_sha :: "string \<Rightarrow> string \<Rightarrow> string"
  he_error_text :: "ErrorCode \<Rightarrow> string"
  he_approval :: "nat \<Rightarrow> ApprovalEnv"
  he_client_error :: "nat \<Rightarrow> string option"
  he_lookups :: "nat \<Rightarrow> WireRequest \<Rightarrow> (string \<times> (bool, SocketAddr list) result) list"
  he_send :: "nat \<Rightarrow> WireRequest \<Rightarrow> SocketAddr list option list \<Rightarrow> SendOutcome"
  he_elapsed :: nat
  he_runtime :: bool
  he_push :: "(string, nat) result"

record ExchangeInner =
  xi_principal :: PrincipalId
  xi_receipt :: HostAuditReceipt
  xi_status :: "u16 option"
  xi_request_ids :: "(string \<times> string) list"
  xi_body :: "string option"

type_synonym HttpExchange = "ExchangeInner option"

record ActiveHttpStream =
  as_chunks :: "(ReqwestError, string) result list"
  as_creator :: PrincipalId
  as_status :: u16
  as_headers :: "(string \<times> string) list"
  as_read_timeout :: nat
  as_audit :: HttpExchange

text \<open>
  The security gate and the secret stores are trait objects, here the functions their methods compute.
  \<open>stream_table\<close> is the part of the resource table that holds streams; \<open>active_http_streams\<close> mirrors its
  entries for counting, so its keys are enough.
\<close>

record HttpState = HostState +
  security :: "(string \<Rightarrow> string \<Rightarrow> string \<Rightarrow> bool) option"
  secret_env :: "string list"
  secret_store :: "string \<Rightarrow> (unit, string option) result"
  invocation_secret_store :: "(string \<Rightarrow> (unit, string option) result) option"
  system_secrets :: "(string \<Rightarrow> (unit, string option) result) option"
  revealed_secrets :: "string list"
  http_limits :: HttpLimits
  stream_table :: "(nat, ActiveHttpStream) hash_map"
  active_http_streams :: "nat list"
  wire_log :: "WireRequest list"

record WireResponse =
  w_response :: Response
  w_content_length :: "u64 option"
  w_exempt :: bool
  w_exchange :: HttpExchange

section \<open>Building a request\<close>

definition map_method :: "HttpEnv \<Rightarrow> HttpMethod \<Rightarrow> (ErrorCode, string) result" where
  "map_method env m =
     (case m of
        MGet \<Rightarrow> Inr ''GET'' | MHead \<Rightarrow> Inr ''HEAD'' | MPost \<Rightarrow> Inr ''POST'' | MPut \<Rightarrow> Inr ''PUT''
      | MDelete \<Rightarrow> Inr ''DELETE'' | MConnect \<Rightarrow> Inr ''CONNECT'' | MOptions \<Rightarrow> Inr ''OPTIONS''
      | MTrace \<Rightarrow> Inr ''TRACE'' | MPatch \<Rightarrow> Inr ''PATCH''
      | MOther s \<Rightarrow> (case he_method env s of Some t \<Rightarrow> Inr t | None \<Rightarrow> Inl InvalidRequest))"

definition build_headers :: "HttpEnv \<Rightarrow> (string \<times> string) list \<Rightarrow> (ErrorCode, HeaderMap) result" where
  "build_headers env raw =
     try_collect (\<lambda>(key, value).
       case he_header_name env key of
         None \<Rightarrow> Inl InvalidRequest
       | Some name \<Rightarrow> if he_header_value env value then Inr (name, value) else Inl InvalidRequest) raw"

definition check_http_security :: "HttpEnv \<Rightarrow> string \<Rightarrow> string \<Rightarrow> HttpState \<Rightarrow> (ErrorCode, unit) result" where
  "check_http_security env url method st =
     (case security st of
        None \<Rightarrow> Inr ()
      | Some gate \<Rightarrow>
          (case he_url_parse env url of
             None \<Rightarrow> Inl InvalidRequest
           | Some url_obj \<Rightarrow>
               if url_host url_obj = None then Inl InvalidRequest
               else if gate (hs_capsule_id st) method url then Inr () else Inl CapabilityDenied))"

text \<open>\<open>check_http_request\<close> of the manifest gate, for the hosts \<open>net\<close> that the manifest declares.\<close>

definition check_http_request :: "(string \<Rightarrow> Url option) \<Rightarrow> string list \<Rightarrow> string \<Rightarrow> string \<Rightarrow> string \<Rightarrow> bool" where
  "check_http_request url_parse net capsule_id method url =
     (case url_parse url of
        None \<Rightarrow> False
      | Some parsed \<Rightarrow>
          (let host_str = (case url_host parsed of Some h \<Rightarrow> h | None \<Rightarrow> [])
           in list_ex (\<lambda>d. d = ''*'' \<or> host_str = d \<or> strip_suffix (''.'' @ d) host_str \<noteq> None) net))"

definition effective_secret_store :: "HttpState \<Rightarrow> string \<Rightarrow> (unit, string option) result" where
  "effective_secret_store st =
     (case invocation_secret_store st of Some store \<Rightarrow> store | None \<Rightarrow> secret_store st)"

definition resolve_secret :: "HttpState \<Rightarrow> string \<Rightarrow> string" where
  "resolve_secret st key =
     (case effective_secret_store st key of
        Inr (Some value) \<Rightarrow> value
      | _ \<Rightarrow>
          (case system_secrets st of
             None \<Rightarrow> []
           | Some host_store \<Rightarrow> (case host_store key of Inr (Some value) \<Rightarrow> value | _ \<Rightarrow> [])))"

definition inject_credentials :: "HttpEnv \<Rightarrow> HeaderMap \<Rightarrow> HttpState \<Rightarrow> (InjectError, HeaderMap \<times> string list) result" where
  "inject_credentials env template st =
     substitute_headers (he_header_value env)
       (\<lambda>name. if name \<notin> set (secret_env st) then Inl (Undeclared name) else Inr (resolve_secret st name)) template []"

definition inject_debug :: "InjectError \<Rightarrow> string" where
  "inject_debug e =
     (case e of
        Malformed \<Rightarrow> ''Malformed''
      | Undeclared name \<Rightarrow> ''Undeclared('' @ [CHR 0x22] @ name @ [CHR 0x22] @ '')''
      | InvalidValue \<Rightarrow> ''InvalidValue'')"

section \<open>The audit exchange\<close>

record Precommit =
  pre_principal :: PrincipalId
  pre_event :: HostHttpRequest

definition http_precommit ::
  "HttpEnv \<Rightarrow> Url \<Rightarrow> string \<Rightarrow> HeaderMap \<Rightarrow> string option \<Rightarrow> nat \<Rightarrow> string list \<Rightarrow> HttpState \<Rightarrow> Precommit option" where
  "http_precommit env url method headers body redirect_hop injected_secrets st =
     (if \<not> audit_sink st then None
      else let c = compute_commitment (he_hash env) (he_form_decode env) url headers body (Redactor_new (revealed_secrets st))
        in Some \<lparr>pre_principal = effective_principal st,
             pre_event = \<lparr>hr_method = method, hr_host = (case url_host url of Some h \<Rightarrow> h | None \<Rightarrow> []),
               hr_port = (case url_port url of Some p \<Rightarrow> p | None \<Rightarrow> 0), hr_path_hash = rc_path_hash c,
               hr_headers_hash = rc_headers_hash c, hr_body_hash = rc_body_hash c, hr_body_len = rc_body_len c,
               hr_redirect_hop = redirect_hop, hr_injected_secrets = injected_secrets\<rparr>\<rparr>)"

definition precommit_commit :: "Precommit \<Rightarrow> HttpState \<Rightarrow> HttpExchange \<times> HttpState" where
  "precommit_commit pre st =
     (Some \<lparr>xi_principal = pre_principal pre, xi_receipt = length (audit_log st), xi_status = None,
        xi_request_ids = [], xi_body = None\<rparr>,
      sink_record True (pre_principal pre) (HttpRequestEvent (pre_event pre)) OutcomeAllowed st)"

definition precommit_deny :: "string \<Rightarrow> Precommit \<Rightarrow> HttpState \<Rightarrow> HttpState" where
  "precommit_deny reason pre st =
     sink_record False (pre_principal pre) (HttpRequestEvent (pre_event pre)) (OutcomeDenied reason) st"

definition observe_response :: "HttpEnv \<Rightarrow> Response \<Rightarrow> HttpExchange \<Rightarrow> HttpExchange" where
  "observe_response env response =
     map_option (\<lambda>xi. xi\<lparr>xi_status := Some (rs_status response),
       xi_request_ids := provider_request_ids (he_to_str env) (rs_headers response)\<rparr>)"

definition digest :: "string \<Rightarrow> HttpExchange \<Rightarrow> HttpExchange" where
  "digest chunk =
     map_option (\<lambda>xi. xi\<lparr>xi_body := Some ((case xi_body xi of Some b \<Rightarrow> b | None \<Rightarrow> []) @ chunk)\<rparr>)"

definition begin_body :: "HttpExchange \<Rightarrow> HttpExchange" where
  "begin_body = digest []"

definition completion_event :: "HttpEnv \<Rightarrow> bool \<Rightarrow> ExchangeInner \<Rightarrow> HostAuditEvent" where
  "completion_event env complete xi =
     HttpResponseEvent \<lparr>hp_request = xi_receipt xi, hp_status = xi_status xi,
       hp_body_hash = map_option (he_hash env) (xi_body xi),
       hp_body_len = (case xi_body xi of Some b \<Rightarrow> length b | None \<Rightarrow> 0),
       hp_complete = complete, hp_request_ids = xi_request_ids xi\<rparr>"

definition completion_outcome :: "HostAuditOutcome \<Rightarrow> HostAuditOutcome" where
  "completion_outcome out =
     (case out of OutcomeAllowed \<Rightarrow> OutcomeAllowed | OutcomeFailed e \<Rightarrow> OutcomeFailed e | OutcomeDenied e \<Rightarrow> OutcomeFailed e)"

definition exchange_finish ::
  "HttpEnv \<Rightarrow> bool \<Rightarrow> HostAuditOutcome \<Rightarrow> HttpExchange \<Rightarrow> HttpState \<Rightarrow> HttpState" where
  "exchange_finish env complete out exchange st =
     (case exchange of
        None \<Rightarrow> st
      | Some xi \<Rightarrow> sink_record True (xi_principal xi) (completion_event env complete xi) (completion_outcome out) st)"

definition finish_detached ::
  "HttpEnv \<Rightarrow> bool \<Rightarrow> HostAuditOutcome \<Rightarrow> HttpExchange \<Rightarrow> HttpState \<Rightarrow> HttpState" where
  "finish_detached env complete out exchange st =
     (case exchange of
        None \<Rightarrow> st
      | Some xi \<Rightarrow>
          sink_record (he_runtime env) (xi_principal xi) (completion_event env complete xi) (completion_outcome out) st)"

definition exchange_drop :: "HttpEnv \<Rightarrow> HttpExchange \<Rightarrow> HttpState \<Rightarrow> HttpState" where
  "exchange_drop env = finish_detached env False (OutcomeFailed ''exchange ended before completion'')"

section \<open>One hop\<close>

definition build_http_client ::
  "HttpEnv \<Rightarrow> ResolvedOptions \<Rightarrow> string option \<Rightarrow> nat \<Rightarrow> (ErrorCode, ClientConfig) result" where
  "build_http_client env opts exempt_host hop =
     (case he_client_error env hop of
        Some e \<Rightarrow> Inl (Unknown (''client: '' @ e))
      | None \<Rightarrow>
          Inr \<lparr>cc_exempt_host = exempt_host, cc_connect_timeout = ro_connect_timeout opts, cc_timeout = ro_total_timeout opts,
            cc_read_timeout = (case ro_between_bytes_timeout opts of Some t \<Rightarrow> Some t | None \<Rightarrow> ro_first_byte_timeout opts),
            cc_decompress = ro_auto_decompress opts\<rparr>)"

definition deny_request ::
  "HttpEnv \<Rightarrow> Url \<Rightarrow> string \<Rightarrow> HeaderMap \<Rightarrow> string option \<Rightarrow> nat \<Rightarrow> string \<Rightarrow> HttpState \<Rightarrow> HttpState" where
  "deny_request env url method headers body hop reason st =
     (case http_precommit env url method headers body hop [] st of
        None \<Rightarrow> st
      | Some pre \<Rightarrow> precommit_deny reason pre st)"

text \<open>The answers of the resolver to the names that the client looks up, and the flags it leaves.\<close>

fun resolve_all ::
  "bool \<Rightarrow> string option \<Rightarrow> (string \<times> (bool, SocketAddr list) result) list \<Rightarrow> ResolverFlags
     \<Rightarrow> SocketAddr list option list \<times> ResolverFlags" where
  "resolve_all bypass exempt_host [] flags = ([], flags)"
| "resolve_all bypass exempt_host ((name, lookup) # rest) flags =
     (let (addrs, flags1) = resolve_name bypass exempt_host name lookup flags;
          (answers, flags2) = resolve_all bypass exempt_host rest flags1
      in (addrs # answers, flags2))"

text \<open>The part of a hop after the checks: build the client, commit the entry, send.\<close>

definition transmit ::
  "HttpEnv \<Rightarrow> Url \<Rightarrow> string \<Rightarrow> string \<Rightarrow> HeaderMap \<Rightarrow> HeaderMap \<times> string list \<Rightarrow> string option \<Rightarrow> ResolvedOptions
     \<Rightarrow> string option \<Rightarrow> nat \<Rightarrow> HttpState \<Rightarrow> (ErrorCode, WireResponse) result \<times> HttpState" where
  "transmit env parsed url method headers injected body opts exempt_host hop st =
     (case build_http_client env opts exempt_host hop of
        Inl e \<Rightarrow> (Inl e, st)
      | Inr client \<Rightarrow>
          (let (exchange, st1) = (case http_precommit env parsed method headers body hop (snd injected) st of
                 Some pre \<Rightarrow> precommit_commit pre st
               | None \<Rightarrow> (None, st));
               wire = \<lparr>wr_url = url, wr_method = method, wr_headers = fst injected, wr_body = body, wr_client = client,
                 wr_deadline = header_deadline opts (hl_header_deadline_floor (http_limits st1)),
                 wr_after = length (audit_log st1)\<rparr>;
               st2 = st1\<lparr>wire_log := wire_log st1 @ [wire]\<rparr>;
               (answers, flags) = resolve_all (he_bypass env) exempt_host (he_lookups env hop wire)
                 \<lparr>rf_tripped = False, rf_dns_failed = False\<rparr>;
               fail = (\<lambda>error. (Inl error,
                 exchange_finish env False (OutcomeFailed (he_error_text env error)) exchange st2))
           in case he_send env hop wire answers of
                Answered response \<Rightarrow>
                  (Inr \<lparr>w_response = response, w_content_length = rs_content_length response,
                     w_exempt = (exempt_host \<noteq> None), w_exchange = observe_response env response exchange\<rparr>, st2)
              | SendFailed e \<Rightarrow> fail (airlock_or flags (map_reqwest_err e))
              | Elapsed \<Rightarrow> fail Timeout))"

definition send_one_hop ::
  "HttpEnv \<Rightarrow> string \<Rightarrow> string \<Rightarrow> HeaderMap \<Rightarrow> string option \<Rightarrow> ResolvedOptions \<Rightarrow> nat \<Rightarrow> HttpState
     \<Rightarrow> (ErrorCode, WireResponse) result \<times> HttpState" where
  "send_one_hop env url method headers body opts hop st =
     (case check_scheme (he_url_parse env) url (ro_https_only opts) of
        Inl error \<Rightarrow>
          (Inl error,
           case he_url_parse env url of
             None \<Rightarrow> st
           | Some parsed \<Rightarrow> deny_request env parsed method headers body hop ''scheme denied'' st)
      | Inr _ \<Rightarrow>
     (case he_url_parse env url of
        None \<Rightarrow> (Inl InvalidRequest, st)
      | Some parsed \<Rightarrow>
     (case url_host parsed of
        None \<Rightarrow> (Inl InvalidRequest, st)
      | Some host \<Rightarrow>
     (case url_port parsed of
        None \<Rightarrow> (Inl InvalidRequest, st)
      | Some port \<Rightarrow>
          let deny = deny_request env parsed method headers body hop
          in if \<not> principal_egress_allows st host (Some port)
             then (Inl CapabilityDenied, deny ''principal egress denied'' st)
             else
     (case check_http_security env url method st of
        Inl error \<Rightarrow> (Inl error, deny ''security gate denied'' st)
      | Inr _ \<Rightarrow>
     (case egress_decision_with_consent (he_url_parse env) (he_bypass env) (he_approval env hop) url st of
        (Inl error, st1) \<Rightarrow> (Inl error, deny (he_error_text env error) st1)
      | (Inr exempt_host, st1) \<Rightarrow>
     (case inject_credentials env headers st1 of
        Inl error \<Rightarrow>
          (Inl (inject_code error), deny (''credential injection refused: '' @ inject_debug error) st1)
      | Inr injected \<Rightarrow> transmit env parsed url method headers injected body opts exempt_host hop st1)))))))"

section \<open>Redirects\<close>

definition redirect_step ::
  "HttpEnv \<Rightarrow> ResolvedOptions \<Rightarrow> bool \<Rightarrow> nat \<Rightarrow> Url \<Rightarrow> string \<Rightarrow> (ErrorCode, Url option) result" where
  "redirect_step env opts exempt redirect_count current_url location =
     (case ro_redirect opts of
        ManualRedirects \<Rightarrow> Inr None
      | ErrorOnRedirect \<Rightarrow> Inl RedirectBlocked
      | FollowRedirects \<Rightarrow>
          if exempt then Inr None
          else if ro_max_redirects opts \<le> redirect_count then Inl TooManyRedirects
          else (case he_to_str env location of
              None \<Rightarrow> Inl (Protocol ''invalid Location header'')
            | Some loc_str \<Rightarrow>
                (case he_join env current_url loc_str of
                   None \<Rightarrow> Inl (Protocol ''invalid redirect target'')
                 | Some next_url \<Rightarrow>
                     if redirect_target_blocked (he_bypass env) (url_host next_url) then Inl RedirectBlocked
                     else Inr (Some next_url))))"

definition downgrades :: "u16 \<Rightarrow> string \<Rightarrow> bool" where
  "downgrades status method \<longleftrightarrow>
     status = 303 \<or> (status = 301 \<or> status = 302) \<and> method \<noteq> ''GET'' \<and> method \<noteq> ''HEAD''"

definition next_headers :: "Url \<Rightarrow> Url \<Rightarrow> bool \<Rightarrow> HeaderMap \<Rightarrow> HeaderMap" where
  "next_headers current_url next_url downgrade headers =
     (let kept = (if \<not> same_origin current_url next_url then strip_injected (strip_credentials headers) else headers)
      in if downgrade
         then hdr_remove ''transfer-encoding'' (hdr_remove ''content-length'' (hdr_remove ''content-type'' kept))
         else kept)"

lemma redirect_step_bound:
  "redirect_step env opts exempt n cur location = Inr (Some next_url) \<Longrightarrow> n < ro_max_redirects opts"
  by (auto simp: redirect_step_def split: RedirectPolicy.splits if_splits)

function follow_loop ::
  "HttpEnv \<Rightarrow> ResolvedOptions \<Rightarrow> string \<Rightarrow> HeaderMap \<Rightarrow> Url \<Rightarrow> string option \<Rightarrow> nat \<Rightarrow> HttpState
     \<Rightarrow> (ErrorCode, WireResponse \<times> nat \<times> Url) result \<times> HttpState" where
  "follow_loop env opts method headers current_url body redirect_count st =
     (case send_one_hop env (url_text current_url) method headers body opts redirect_count st of
        (Inl e, st1) \<Rightarrow> (Inl e, st1)
      | (Inr wire, st1) \<Rightarrow>
          let status = rs_status (w_response wire)
          in case (if 300 \<le> status \<and> status < 400 then hdr_get (rs_headers (w_response wire)) ''location'' else None) of
               None \<Rightarrow> (Inr (wire, redirect_count, current_url), st1)
             | Some location \<Rightarrow>
                 (case redirect_step env opts (w_exempt wire) redirect_count current_url location of
                    Inr None \<Rightarrow> (Inr (wire, redirect_count, current_url), st1)
                  | Inl error \<Rightarrow>
                      (Inl error, exchange_finish env False (OutcomeFailed (he_error_text env error)) (w_exchange wire) st1)
                  | Inr (Some next_url) \<Rightarrow>
                      let downgrade = downgrades status method
                      in follow_loop env opts (if downgrade then ''GET'' else method)
                           (next_headers current_url next_url downgrade headers) next_url
                           (if downgrade then None else body) (Suc redirect_count)
                           (exchange_finish env False OutcomeAllowed (w_exchange wire) st1)))"
  by pat_completeness auto

termination
  by (relation "measure (\<lambda>(env, opts, method, headers, cur, body, n, st). ro_max_redirects opts - n)")
     (auto dest!: redirect_step_bound)

declare follow_loop.simps [simp del]

definition follow_redirects ::
  "HttpEnv \<Rightarrow> HttpRequestData \<Rightarrow> ResolvedOptions \<Rightarrow> HttpState
     \<Rightarrow> (ErrorCode, WireResponse \<times> nat \<times> Url) result \<times> HttpState" where
  "follow_redirects env request opts st =
     (case map_method env (rd_method request) of
        Inl e \<Rightarrow> (Inl e, st)
      | Inr method \<Rightarrow>
          (case build_headers env (rd_headers request) of
             Inl e \<Rightarrow> (Inl e, st)
           | Inr headers \<Rightarrow>
               (case he_url_parse env (rd_url request) of
                  None \<Rightarrow> (Inl InvalidRequest, st)
                | Some current_url \<Rightarrow> follow_loop env opts method headers current_url (rd_body request) 0 st)))"

section \<open>Buffered responses\<close>

record ResponseMeta =
  me_final_url :: string
  me_redirect_count :: nat
  me_elapsed_ms :: u64
  me_wire_bytes :: u64

record HttpResponseData =
  resp_status :: u16
  resp_headers :: "(string \<times> string) list"
  resp_body :: string
  resp_meta :: ResponseMeta

definition response_headers :: "HttpEnv \<Rightarrow> Response \<Rightarrow> (string \<times> string) list" where
  "response_headers env response =
     List.map_filter (\<lambda>(k, v). map_option (\<lambda>v_str. (k, v_str)) (he_to_str env v)) (rs_headers response)"

fun read_body ::
  "u64 option \<Rightarrow> u64 \<Rightarrow> (ReqwestError, string) result list \<Rightarrow> string \<Rightarrow> string \<times> ErrorCode option" where
  "read_body max_decompressed max_response [] bytes = (bytes, None)"
| "read_body max_decompressed max_response (Inl e # rest) bytes = (bytes, Some (map_reqwest_err e))"
| "read_body max_decompressed max_response (Inr chunk # rest) bytes =
     (if (case max_decompressed of Some cap \<Rightarrow> unat cap < length bytes + length chunk | None \<Rightarrow> False)
      then (bytes, Some DecompressionBomb)
      else if unat max_response < length bytes + length chunk then (bytes, Some BodyTooLarge)
      else read_body max_decompressed max_response rest (bytes @ chunk))"

definition finalize_buffered ::
  "HttpEnv \<Rightarrow> WireResponse \<Rightarrow> ResolvedOptions \<Rightarrow> Url \<Rightarrow> nat \<Rightarrow> HttpState \<Rightarrow> (ErrorCode, HttpResponseData) result \<times> HttpState" where
  "finalize_buffered env wire opts final_url redirect_count st =
     (let response = w_response wire;
          (body, read_error) = read_body (if ro_auto_decompress opts then ro_max_decompressed_bytes opts else None)
            (ro_max_response_bytes opts) (rs_chunks response) [];
          exchange = digest body (begin_body (w_exchange wire))
      in case read_error of
           Some error \<Rightarrow>
             (Inl error, exchange_finish env False (OutcomeFailed (he_error_text env error)) exchange st)
         | None \<Rightarrow>
             (case (case ro_integrity opts of
                      None \<Rightarrow> Inr ()
                    | Some i \<Rightarrow> verify_integrity (he_base64 env) (he_base64_no_pad env) (he_sha env) i body) of
                Inl error \<Rightarrow>
                  (Inl error, exchange_finish env True (OutcomeFailed (he_error_text env error)) exchange st)
              | Inr _ \<Rightarrow>
                  (Inr \<lparr>resp_status = rs_status response, resp_headers = response_headers env response, resp_body = body,
                     resp_meta = \<lparr>me_final_url = url_text final_url, me_redirect_count = redirect_count,
                       me_elapsed_ms = (if he_elapsed env < 2 ^ 64 then word_of_nat (he_elapsed env) else -1),
                       me_wire_bytes = (case w_content_length wire of Some n \<Rightarrow> n | None \<Rightarrow> word_of_nat (length body))\<rparr>\<rparr>,
                   exchange_finish env True OutcomeAllowed exchange st)))"

definition http_request_backend ::
  "HttpEnv \<Rightarrow> HttpRequestData \<Rightarrow> ResolvedOptions \<Rightarrow> HttpState \<Rightarrow> (ErrorCode, HttpResponseData) result \<times> HttpState" where
  "http_request_backend env request opts st =
     (case follow_redirects env request opts st of
        (Inl e, st1) \<Rightarrow> (Inl e, st1)
      | (Inr (wire, redirect_count, final_url), st1) \<Rightarrow> finalize_buffered env wire opts final_url redirect_count st1)"

section \<open>Streams\<close>

definition stream_options :: "ResolvedOptions \<Rightarrow> HttpLimits \<Rightarrow> ResolvedOptions" where
  "stream_options opts limits =
     (let opts1 = (if ro_connect_timeout opts = None
                   then opts\<lparr>ro_connect_timeout := Some (hl_stream_connect_timeout limits)\<rparr> else opts)
      in if \<not> ro_total_explicit opts then opts1\<lparr>ro_total_timeout := None\<rparr> else opts1)"

definition http_stream_backend ::
  "HttpEnv \<Rightarrow> HttpRequestData \<Rightarrow> ResolvedOptions \<Rightarrow> HttpState \<Rightarrow> (ErrorCode, nat) result \<times> HttpState" where
  "http_stream_backend env request opts st =
     (let principal = effective_principal st
      in if hl_max_concurrent_streams (http_limits st) \<le> length (active_http_streams st) then (Inl Quota, st)
         else case follow_redirects env request (stream_options opts (http_limits st)) st of
             (Inl e, st1) \<Rightarrow> (Inl e, st1)
           | (Inr (wire, _, _), st1) \<Rightarrow>
               let exchange = begin_body (w_exchange wire);
                   active = \<lparr>as_chunks = rs_chunks (w_response wire), as_creator = principal,
                     as_status = rs_status (w_response wire), as_headers = response_headers env (w_response wire),
                     as_read_timeout = (case ro_between_bytes_timeout opts of Some t \<Rightarrow> t
                                        | None \<Rightarrow> hl_stream_read_timeout (http_limits st)),
                     as_audit = exchange\<rparr>
               in case he_push env of
                    Inl e \<Rightarrow> (Inl (Unknown (''resource table: '' @ e)), exchange_drop env exchange st1)
                  | Inr rep \<Rightarrow>
                      (Inr rep, st1\<lparr>stream_table := hm_insert rep active (stream_table st1),
                         active_http_streams := List.insert rep (active_http_streams st1)\<rparr>))"

definition stream_status :: "nat \<Rightarrow> HttpState \<Rightarrow> u16" where
  "stream_status rep st = (case hm_get (stream_table st) rep of Some s \<Rightarrow> as_status s | None \<Rightarrow> 0)"

definition stream_headers :: "nat \<Rightarrow> HttpState \<Rightarrow> (string \<times> string) list" where
  "stream_headers rep st = (case hm_get (stream_table st) rep of Some s \<Rightarrow> as_headers s | None \<Rightarrow> [])"

definition set_stream :: "nat \<Rightarrow> ActiveHttpStream \<Rightarrow> HttpState \<Rightarrow> HttpState" where
  "set_stream rep s st = st\<lparr>stream_table := hm_insert rep s (stream_table st)\<rparr>"

definition complete_stream ::
  "HttpEnv \<Rightarrow> nat \<Rightarrow> ActiveHttpStream \<Rightarrow> bool \<Rightarrow> HostAuditOutcome \<Rightarrow> HttpState \<Rightarrow> HttpState" where
  "complete_stream env rep s complete out st =
     exchange_finish env complete out (as_audit s) (set_stream rep (s\<lparr>as_audit := None\<rparr>) st)"

definition stream_read_chunk ::
  "HttpEnv \<Rightarrow> ReadOutcome \<Rightarrow> nat \<Rightarrow> HttpState \<Rightarrow> (ErrorCode, string) result \<times> HttpState" where
  "stream_read_chunk env outcome rep st =
     (case hm_get (stream_table st) rep of
        None \<Rightarrow> (Inl Closed, st)
      | Some s \<Rightarrow>
          (case (if effective_cancelled st then ReadCancelled else outcome) of
             ReadCancelled \<Rightarrow> (Inr [], complete_stream env rep s False (OutcomeFailed ''cancelled'') st)
           | ReadElapsed \<Rightarrow> (Inl Timeout, st)
           | ReadReady \<Rightarrow>
               (case as_chunks s of
                  [] \<Rightarrow> (Inr [], complete_stream env rep s True OutcomeAllowed st)
                | Inl e # rest \<Rightarrow>
                    let error = map_reqwest_err e
                    in (Inl error, complete_stream env rep (s\<lparr>as_chunks := rest\<rparr>) False
                          (OutcomeFailed (he_error_text env error)) st)
                | Inr bytes # rest \<Rightarrow>
                    (Inr bytes, set_stream rep (s\<lparr>as_chunks := rest, as_audit := digest bytes (as_audit s)\<rparr>) st))))"

definition stream_drop :: "HttpEnv \<Rightarrow> nat \<Rightarrow> HttpState \<Rightarrow> HttpState" where
  "stream_drop env rep st =
     (let st1 = (case hm_get (stream_table st) rep of
                   None \<Rightarrow> st
                 | Some s \<Rightarrow>
                     finish_detached env False OutcomeAllowed (as_audit s)
                       (st\<lparr>stream_table := hm_remove rep (stream_table st)\<rparr>))
      in st1\<lparr>active_http_streams := removeAll rep (active_http_streams st1)\<rparr>)"

definition stream_close :: "HttpEnv \<Rightarrow> nat \<Rightarrow> HttpState \<Rightarrow> (ErrorCode, unit) result \<times> HttpState" where
  "stream_close env rep st =
     (let st1 = (case hm_get (stream_table st) rep of
                   None \<Rightarrow> st
                 | Some s \<Rightarrow>
                     finish_detached env False OutcomeAllowed (as_audit s)
                       (st\<lparr>stream_table := hm_remove rep (stream_table st)\<rparr>))
      in (Inr (), st1\<lparr>active_http_streams := removeAll rep (active_http_streams st1)\<rparr>))"

section \<open>The two versions of the interface\<close>

datatype V10ErrorCode =
    V10CapabilityDenied | V10InvalidRequest | V10DnsError | V10AirlockRejected | V10TlsError | V10Timeout
  | V10ConnectionError | V10BodyTooLarge | V10Closed | V10Quota | V10Protocol string | V10Unknown string

definition v11_error_to_v10 :: "ErrorCode \<Rightarrow> V10ErrorCode" where
  "v11_error_to_v10 e =
     (case e of
        CapabilityDenied \<Rightarrow> V10CapabilityDenied
      | InvalidRequest \<Rightarrow> V10InvalidRequest
      | DnsError \<Rightarrow> V10DnsError
      | AirlockRejected \<Rightarrow> V10AirlockRejected
      | TlsError \<Rightarrow> V10TlsError
      | Timeout \<Rightarrow> V10Timeout
      | ConnectionError \<Rightarrow> V10ConnectionError
      | BodyTooLarge \<Rightarrow> V10BodyTooLarge
      | Closed \<Rightarrow> V10Closed
      | Quota \<Rightarrow> V10Quota
      | Protocol s \<Rightarrow> V10Protocol s
      | Unknown s \<Rightarrow> V10Unknown s
      | RedirectBlocked \<Rightarrow> V10AirlockRejected
      | TooManyRedirects \<Rightarrow> V10Protocol ''too many redirects''
      | SchemeDenied \<Rightarrow> V10InvalidRequest
      | IntegrityMismatch \<Rightarrow> V10Protocol ''integrity mismatch''
      | DecompressionBomb \<Rightarrow> V10BodyTooLarge)"

record V10ResponseData =
  v10_status :: u16
  v10_headers :: "(string \<times> string) list"
  v10_body :: string

text \<open>The request records of the two versions have the same fields; \<open>v10_request_to_v11\<close> copies them.\<close>

definition v10_http_request ::
  "HttpEnv \<Rightarrow> HttpRequestData \<Rightarrow> HttpState \<Rightarrow> (V10ErrorCode, V10ResponseData) result \<times> HttpState" where
  "v10_http_request env request st =
     (case http_request_backend env request (v10_defaults (http_limits st)) st of
        (Inl e, st1) \<Rightarrow> (Inl (v11_error_to_v10 e), st1)
      | (Inr resp, st1) \<Rightarrow>
          (Inr \<lparr>v10_status = resp_status resp, v10_headers = resp_headers resp, v10_body = resp_body resp\<rparr>, st1))"

definition v10_http_stream_start ::
  "HttpEnv \<Rightarrow> HttpRequestData \<Rightarrow> HttpState \<Rightarrow> (V10ErrorCode, nat) result \<times> HttpState" where
  "v10_http_stream_start env request st =
     (let (r, st1) = http_stream_backend env request (v10_defaults (http_limits st)) st
      in (map_err v11_error_to_v10 r, st1))"

definition http_request ::
  "HttpEnv \<Rightarrow> HttpRequestData \<Rightarrow> HttpState \<Rightarrow> (ErrorCode, HttpResponseData) result \<times> HttpState" where
  "http_request env request st = http_request_backend env request (v10_defaults (http_limits st)) st"

definition http_request_opts ::
  "HttpEnv \<Rightarrow> HttpRequestData \<Rightarrow> RequestOptions \<Rightarrow> HttpState \<Rightarrow> (ErrorCode, HttpResponseData) result \<times> HttpState" where
  "http_request_opts env request options st =
     http_request_backend env request (from_options options (http_limits st)) st"

definition http_stream_start ::
  "HttpEnv \<Rightarrow> HttpRequestData \<Rightarrow> HttpState \<Rightarrow> (ErrorCode, nat) result \<times> HttpState" where
  "http_stream_start env request st = http_stream_backend env request (v10_defaults (http_limits st)) st"

definition http_stream_start_opts ::
  "HttpEnv \<Rightarrow> HttpRequestData \<Rightarrow> RequestOptions \<Rightarrow> HttpState \<Rightarrow> (ErrorCode, nat) result \<times> HttpState" where
  "http_stream_start_opts env request options st =
     http_stream_backend env request (from_options options (http_limits st)) st"

definition http_upload_start :: "HttpRequestData \<Rightarrow> RequestOptions \<Rightarrow> (ErrorCode, nat) result" where
  "http_upload_start request options = Inl (Unknown ''streaming upload (http-upload) not yet implemented'')"

end
