(* ===== verification/Http_Safety.thy ===== *)
theory Http_Safety
  imports Http_Host
begin

text \<open>
  Properties of outgoing HTTP.  A frame lemma says what a consent may change, a case rule says what one hop
  does, and a loop rule carries an invariant of the hops through the redirect driver.  From them: every hop
  passes the airlock, credentials stay on the origin of the request, every request has its trail in the log
  in any sequence of host calls, streams stay within their quota, and a response stays within its limits.
\<close>

section \<open>What a consent changes\<close>

text \<open>A consent touches the grants, the profile, the messages and the approval entries of the log, nothing else.\<close>

definition approval_event :: "SinkCall \<Rightarrow> bool" where
  "approval_event c = (case sc_event c of HttpRequestEvent _ \<Rightarrow> False | HttpResponseEvent _ \<Rightarrow> False | _ \<Rightarrow> True)"

definition approval_frame :: "'z HostState_scheme \<Rightarrow> 'z HostState_scheme \<Rightarrow> bool" where
  "approval_frame st st' \<longleftrightarrow>
     (\<exists>a c f l p. (\<forall>e \<in> set l. approval_event e) \<and>
        st' = st\<lparr>allowance_store := a, profile_cache := c, profile_files := f, audit_log := audit_log st @ l, published := p\<rparr>)"

lemma approval_frameI:
  "st' = st\<lparr>allowance_store := a, profile_cache := c, profile_files := f, audit_log := audit_log st @ l, published := p\<rparr>
    \<Longrightarrow> (\<forall>e \<in> set l. approval_event e) \<Longrightarrow> approval_frame st st'"
  unfolding approval_frame_def by blast

lemma approval_frame_refl [simp]: "approval_frame st st"
  by (rule approval_frameI [where a = "allowance_store st" and c = "profile_cache st" and f = "profile_files st" and l = "[]" and p = "published st"]) simp_all

lemma approval_frame_trans:
  assumes "approval_frame st st1" "approval_frame st1 st2"
  shows "approval_frame st st2"
proof -
  obtain a c f l p where 1: "\<forall>e \<in> set l. approval_event e" "st1 = st\<lparr>allowance_store := a, profile_cache := c, profile_files := f,
    audit_log := audit_log st @ l, published := p\<rparr>" using assms(1) unfolding approval_frame_def by blast
  obtain a' c' f' l' p' where 2: "\<forall>e \<in> set l'. approval_event e" "st2 = st1\<lparr>allowance_store := a', profile_cache := c', profile_files := f',
    audit_log := audit_log st1 @ l', published := p'\<rparr>" using assms(2) unfolding approval_frame_def by blast
  show ?thesis
    by (rule approval_frameI [where a = a' and c = c' and f = f' and l = "l @ l'" and p = p']) (use 1 2 in auto)
qed

lemma approval_frame_updates [simp]:
  "approval_frame st (st\<lparr>allowance_store := a\<rparr>)"
  "approval_frame st (st\<lparr>profile_cache := c\<rparr>)"
  "approval_frame st (st\<lparr>profile_cache := c, profile_files := f\<rparr>)"
  "approval_frame st (st\<lparr>published := p\<rparr>)"
     apply (rule approval_frameI [where a = a and c = "profile_cache st" and f = "profile_files st" and l = "[]" and p = "published st"]; simp)
    apply (rule approval_frameI [where a = "allowance_store st" and c = c and f = "profile_files st" and l = "[]" and p = "published st"]; simp)
   apply (rule approval_frameI [where a = "allowance_store st" and c = c and f = f and l = "[]" and p = "published st"]; simp)
  apply (rule approval_frameI [where a = "allowance_store st" and c = "profile_cache st" and f = "profile_files st" and l = "[]" and p = p]; simp)
  done

lemma approval_frame_record:
  "approval_event \<lparr>sc_durable = d, sc_principal = p, sc_event = e, sc_outcome = out\<rparr>
    \<Longrightarrow> approval_frame st (sink_record d p e out st)"
  unfolding sink_record_def
  by (rule approval_frameI [where a = "allowance_store st" and c = "profile_cache st" and f = "profile_files st" and p = "published st"
      and l = "[\<lparr>sc_durable = d, sc_principal = p, sc_event = e, sc_outcome = out\<rparr>]"]) simp_all

lemma approval_frame_decide [simp]: "approval_frame st (snd (audit_decide sc v out b a st))"
  by (auto simp: audit_decide_def Let_def approval_event_def intro: approval_frame_record)

lemma approval_frame_requested [simp]: "approval_frame st (snd (audit_requested rid a st))"
  by (auto simp: audit_requested_def Let_def approval_event_def intro: approval_frame_record)

lemma approval_frame_returning:
  "approval_frame st (snd a) \<Longrightarrow> approval_frame st (snd (returning r a))"
  by (simp add: returning_def audit_drop_def approval_frame_trans [OF _ approval_frame_decide])

lemma approval_frame_trail [simp]:
  "approval_frame st (snd (audit_granted sc v a st))"
  "approval_frame st (snd (audit_denied v reason a st))"
  "approval_frame st (snd (audit_no_response env a st))"
  by (simp_all add: audit_granted_def audit_denied_def audit_no_response_def)

lemma approval_frame_persisted: "approval_frame st (snd (has_persisted_grant cache p c host port st))"
  by (auto simp: has_persisted_grant_def host_resolve_def Let_def split: prod.split sum.split option.split)

lemma approval_frame_elicit: "approval_frame st (snd (snd (elicit_egress_consent env p endpoint audit st)))"
proof (cases "request_owner_of st")
  case None
  then show ?thesis by (simp add: elicit_egress_consent_def)
next
  case (Some owner)
  obtain a1 st1 where r: "audit_requested (ae_request_id env) audit st = (a1, st1)" by (meson surj_pair)
  define st2 where "st2 = publish_request (ae_request_id env) EGRESS_CONSENT_ACTION endpoint
    (''Capsule '' @ [CHR 0x27] @ hs_capsule_id st @ [CHR 0x27] @ '' wants to reach the local endpoint ''
     @ endpoint @ '' (running as '' @ [CHR 0x27] @ pid_str p @ [CHR 0x27] @ '')'') p owner st1"
  have f: "approval_frame st st2"
    using approval_frame_requested [of st "ae_request_id env" audit] r
    unfolding st2_def publish_request_def by (simp add: approval_frame_trans [OF _ approval_frame_updates(4)])
  note t = approval_frame_trans [OF f]
  have d: "approval_frame st (snd (snd ([], audit_denied v reason a1 st2)))" for v reason by (simp add: t)
  have n: "approval_frame st (snd (snd ([], audit_no_response env a1 st2)))" by (simp add: t)
  show ?thesis
    unfolding elicit_egress_consent_def Some option.case r Let_def prod.case st2_def [symmetric]
    using f d n by (auto split: option.split AstridEvent.split IpcPayload.split)
qed

lemma approval_frame_apply: "approval_frame st (snd (apply_egress_decision env decision p host port audit st))"
proof -
  define grant where "grant b s = (case allowance_store s of None \<Rightarrow> s | Some store \<Rightarrow>
    s\<lparr>allowance_store := Some (add_runtime_grant env store p (hs_capsule_id s) host port b)\<rparr>)" for b and s :: "'a HostState_scheme"
  have g: "approval_frame s (grant b s)" for b s by (auto simp: grant_def split: option.split)
  define kept where "kept s = (case profile_cache s of None \<Rightarrow> s | Some cache \<Rightarrow>
    snd (host_persist (persist_egress (ae_write_ok env) p (hs_capsule_id st) (endpoint_of host port)) p cache s))"
    for s :: "'a HostState_scheme"
  have k: "approval_frame s (kept s)" for s
    by (auto simp: kept_def host_persist_def Let_def split: option.split prod.split)
  have t: "approval_frame st (snd (returning r (audit_granted sc v audit (grant b st))))" for r sc v b
    by (rule approval_frame_returning, rule approval_frame_trans [OF g [of st b]]) simp
  have t': "approval_frame st (snd (returning r (audit_granted sc v audit (kept (grant b st)))))" for r sc v b
    by (rule approval_frame_returning, rule approval_frame_trans [OF approval_frame_trans [OF g [of st b] k [of "grant b st"]]]) simp
  have o: "approval_frame st (snd (returning r (audit_granted sc v audit st)))"
    "approval_frame st (snd (returning r (audit_denied v reason audit st)))" for r sc v reason
    by (simp_all add: approval_frame_returning)
  have "apply_egress_decision env decision p host port audit st =
    (case classify_decision decision of
       Deny \<Rightarrow> returning False (audit_denied ''user'' ''not approved'' audit st)
     | Once \<Rightarrow> returning True (audit_granted ScopeOnce ''user'' audit st)
     | Session \<Rightarrow> returning True (audit_granted ScopeSession ''user'' audit (grant True st))
     | Always \<Rightarrow> returning True (audit_granted ScopeAlways ''user'' audit (kept (grant False st))))"
    unfolding apply_egress_decision_def Let_def grant_def kept_def by (rule refl)
  then show ?thesis using t t' o by (cases "classify_decision decision") simp_all
qed

lemma approval_frame_consent: "approval_frame st (snd (consent_local_egress env host port st))"
proof (cases "effective_origin st = LocalSocket \<and> allowance_store st \<noteq> None")
  case False
  then show ?thesis by (auto simp: consent_local_egress_def split: option.split)
next
  case True
  let ?p = "effective_principal st"
  obtain store where store: "allowance_store st = Some store" using True by blast
  obtain hit store' where h: "has_runtime_grant env store ?p (hs_capsule_id st) host port = (hit, store')" by (meson surj_pair)
  let ?st1 = "st\<lparr>allowance_store := Some store'\<rparr>"
  obtain kept st2 where k: "(case profile_cache ?st1 of None \<Rightarrow> (False, ?st1)
      | Some cache \<Rightarrow> has_persisted_grant cache ?p (hs_capsule_id st) host port ?st1) = (kept, st2)" by (meson surj_pair)
  have f2: "approval_frame st st2"
  proof -
    have "approval_frame ?st1 st2"
      using k approval_frame_persisted [of ?st1 _ ?p "hs_capsule_id st" host port] by (metis (no_types, lifting) approval_frame_refl option.case_eq_if snd_conv)
    then show ?thesis by (rule approval_frame_trans [rotated]) simp
  qed
  obtain decision a3 st3 where e: "elicit_egress_consent env ?p (endpoint_of host port)
      (approval_audit_new ?p EGRESS_CONSENT_ACTION (endpoint_of host port)) st2 = (decision, a3, st3)" by (metis surj_pair)
  have f3: "approval_frame st st3"
    using approval_frame_trans [OF f2 approval_frame_elicit] e by (metis snd_conv)
  have f4: "approval_frame st (snd (apply_egress_decision env decision ?p host port a3 st3))"
    by (rule approval_frame_trans [OF f3 approval_frame_apply])
  have f1: "approval_frame st (snd (returning True (audit_granted ScopeSession v a ?st1)))" for v a
    by (rule approval_frame_returning, rule approval_frame_trans [of st ?st1]) simp_all
  have f2': "approval_frame st (snd (returning True (audit_granted ScopeAlways v a st2)))" for v a
    by (rule approval_frame_returning, rule approval_frame_trans [OF f2]) simp
  show ?thesis
    using True f1 f2' f4 by (simp add: consent_local_egress_def store h Let_def k [simplified] e split: bool.split)
qed

lemma approval_frame_airlock: "approval_frame st (snd (egress_decision_with_consent url_parse bypass env url st))"
proof -
  have c: "approval_frame st (snd (case consent_local_egress env host port st of
      (True, st1) \<Rightarrow> (Inr (Some host), st1) | (False, st1) \<Rightarrow> (Inl AirlockRejected, st1)))" for host port
    using approval_frame_consent [of st env host port]
    by (cases "consent_local_egress env host port st") (simp split: bool.split)
  show ?thesis
    unfolding egress_decision_with_consent_def
    by (auto split: sum.split ErrorCode.split option.split simp: c)
qed

section \<open>One hop and the redirect loop\<close>

text \<open>What a call may change of the state.\<close>

definition http_frame :: "HttpState \<Rightarrow> HttpState \<Rightarrow> bool" where
  "http_frame st st' \<longleftrightarrow>
     (\<exists>a c f l p w. st' = st\<lparr>allowance_store := a, profile_cache := c, profile_files := f, audit_log := l, published := p,
        wire_log := w\<rparr>)"

lemma http_frameI:
  "st' = st\<lparr>allowance_store := a, profile_cache := c, profile_files := f, audit_log := l, published := p, wire_log := w\<rparr>
    \<Longrightarrow> http_frame st st'"
  unfolding http_frame_def by blast

lemma http_frame_refl [simp]: "http_frame st st"
  by (rule http_frameI [where a = "allowance_store st" and c = "profile_cache st" and f = "profile_files st"
      and l = "audit_log st" and p = "published st" and w = "wire_log st"]) simp

lemma http_frame_trans:
  assumes "http_frame st st1" "http_frame st1 st2"
  shows "http_frame st st2"
proof -
  obtain a c f l p w where 1: "st1 = st\<lparr>allowance_store := a, profile_cache := c, profile_files := f, audit_log := l,
    published := p, wire_log := w\<rparr>" using assms(1) unfolding http_frame_def by blast
  obtain a' c' f' l' p' w' where 2: "st2 = st1\<lparr>allowance_store := a', profile_cache := c', profile_files := f',
    audit_log := l', published := p', wire_log := w'\<rparr>" using assms(2) unfolding http_frame_def by blast
  show ?thesis
    by (rule http_frameI [where a = a' and c = c' and f = f' and l = l' and p = p' and w = w']) (simp add: 1 2)
qed

lemma http_frame_approval:
  assumes "approval_frame st st'"
  shows "http_frame st st'" "wire_log st' = wire_log st"
proof -
  obtain a c f l p where 1: "st' = st\<lparr>allowance_store := a, profile_cache := c, profile_files := f,
    audit_log := audit_log st @ l, published := p\<rparr>" using assms unfolding approval_frame_def by blast
  show "http_frame st st'"
    by (rule http_frameI [where a = a and c = c and f = f and l = "audit_log st @ l" and p = p and w = "wire_log st"])
       (simp add: 1)
  show "wire_log st' = wire_log st" by (simp add: 1)
qed

lemma http_frame_updates [simp]:
  "http_frame st (st\<lparr>audit_log := l\<rparr>)" "http_frame st (st\<lparr>wire_log := w\<rparr>)"
   apply (rule http_frameI [where a = "allowance_store st" and c = "profile_cache st" and f = "profile_files st"
      and l = l and p = "published st" and w = "wire_log st"]; simp)
  apply (rule http_frameI [where a = "allowance_store st" and c = "profile_cache st" and f = "profile_files st"
      and l = "audit_log st" and p = "published st" and w = w]; simp)
  done

lemma http_frame_record [simp]: "http_frame st (sink_record d p e out st)"
  by (simp add: sink_record_def)

lemma http_frame_fields:
  assumes "http_frame st st'"
  shows "security st' = security st" "hs_capsule_id st' = hs_capsule_id st" "local_egress st' = local_egress st"
    "caller_context st' = caller_context st" "hs_principal st' = hs_principal st" "audit_sink st' = audit_sink st"
    "http_limits st' = http_limits st" "stream_table st' = stream_table st"
    "active_http_streams st' = active_http_streams st" "secret_env st' = secret_env st"
    "secret_store st' = secret_store st" "invocation_secret_store st' = invocation_secret_store st"
    "system_secrets st' = system_secrets st" "invocation_profile st' = invocation_profile st"
    "invocation_profile_authorized st' = invocation_profile_authorized st"
    "invocation_cancel_token st' = invocation_cancel_token st" "cancel_token st' = cancel_token st"
  using assms by (auto simp: http_frame_def)

lemma http_frame_views:
  assumes "http_frame st st'"
  shows "principal_egress_allows st' host port = principal_egress_allows st host port"
    "check_http_security env url meth st' = check_http_security env url meth st"
    "resolve_secret st' = resolve_secret st"
  unfolding principal_egress_allows_def invocation_authority_active_def effective_profile_def effective_cancelled_def
    check_http_security_def resolve_secret_def effective_secret_store_def http_frame_fields [OF assms]
  by (rule refl)+

lemma deny_request_effect:
  "http_frame st (deny_request env url meth headers body hop reason st)"
  "wire_log (deny_request env url meth headers body hop reason st) = wire_log st"
  by (auto simp: deny_request_def precommit_deny_def sink_record_def split: option.split)

lemma exchange_finish_effect [simp]:
  "http_frame st (exchange_finish env complete out ex st)"
  "wire_log (exchange_finish env complete out ex st) = wire_log st"
  by (auto simp: exchange_finish_def sink_record_def split: option.split)

text \<open>A hop is refused without a request on the wire, or it passed every check and is handed to \<open>transmit\<close>.\<close>

lemma send_one_hop_cases:
  assumes "send_one_hop env url meth headers body opts hop st = (r, st')"
  obtains
    (refused) e st1 where "r = Inl e" "approval_frame st st1"
      "st' = st1 \<or> (\<exists>u reason. st' = deny_request env u meth headers body hop reason st1)"
  | (sent) u host port exempt st1 injected where
      "check_scheme (he_url_parse env) url (ro_https_only opts) = Inr ()"
      "he_url_parse env url = Some u" "url_host u = Some host" "url_port u = Some port"
      "principal_egress_allows st host (Some port)" "check_http_security env url meth st = Inr ()"
      "egress_decision_with_consent (he_url_parse env) (he_bypass env) (he_approval env hop) url st = (Inr exempt, st1)"
      "approval_frame st st1" "inject_credentials env headers st1 = Inr injected"
      "transmit env u url meth headers injected body opts exempt hop st1 = (r, st')"
proof -
  let ?run = "send_one_hop env url meth headers body opts hop st"
  note d = send_one_hop_def [of env url meth headers body opts hop st]
  consider (scheme) e where "check_scheme (he_url_parse env) url (ro_https_only opts) = Inl e"
    | (form) "he_url_parse env url = None \<or> (\<exists>u. he_url_parse env url = Some u \<and> (url_host u = None \<or> url_port u = None))"
      "check_scheme (he_url_parse env) url (ro_https_only opts) = Inr ()"
    | (ok) u host port where "check_scheme (he_url_parse env) url (ro_https_only opts) = Inr ()"
      "he_url_parse env url = Some u" "url_host u = Some host" "url_port u = Some port"
    by (cases "check_scheme (he_url_parse env) url (ro_https_only opts)"; cases "he_url_parse env url") fastforce+
  then show thesis
  proof cases
    case scheme
    then show ?thesis
      using assms refused [of e st] by (auto simp: d split: option.splits)
  next
    case form
    then show ?thesis
      using assms refused [of InvalidRequest st] by (auto simp: d split: option.splits)
  next
    case ok
    note k = d [unfolded ok option.case sum.case Let_def]
    let ?deny = "deny_request env u meth headers body hop"
    obtain x st1 where g: "egress_decision_with_consent (he_url_parse env) (he_bypass env) (he_approval env hop) url st = (x, st1)"
      by (meson surj_pair)
    have f: "approval_frame st st1"
      using approval_frame_airlock [of st "he_url_parse env" "he_bypass env" "he_approval env hop" url] g by simp
    show ?thesis
    proof (cases "principal_egress_allows st host (Some port)")
      case False
      then show ?thesis using assms refused [of CapabilityDenied st] by (auto simp: k)
    next
      case p: True
      show ?thesis
      proof (cases "check_http_security env url meth st")
        case (Inl e)
        then show ?thesis using assms p refused [of e st] by (auto simp: k)
      next
        case s: (Inr b)
        show ?thesis
        proof (cases x)
          case (Inl e)
          then show ?thesis using assms p s g refused [of e st1] f by (auto simp: k)
        next
          case x: (Inr exempt)
          show ?thesis
          proof (cases "inject_credentials env headers st1")
            case (Inl e)
            then show ?thesis using assms p s g x refused [of "inject_code e" st1] f by (auto simp: k)
          next
            case (Inr injected)
            show ?thesis
              by (rule sent [of u host port exempt st1 injected]) (use assms p s g x f Inr ok in \<open>simp_all add: k\<close>)
          qed
        qed
      qed
    qed
  qed
qed

text \<open>The rule of the redirect loop: an invariant of the hops gives a property of the result.\<close>

lemma follow_loop_rule:
  assumes inv: "I n meth headers cur st"
    and failed: "\<And>n meth headers cur body st e st1. I n meth headers cur st
      \<Longrightarrow> send_one_hop env (url_text cur) meth headers body opts n st = (Inl e, st1) \<Longrightarrow> Q (Inl e) st1"
    and refused: "\<And>n meth headers cur body st wire st1 e. I n meth headers cur st
      \<Longrightarrow> send_one_hop env (url_text cur) meth headers body opts n st = (Inr wire, st1)
      \<Longrightarrow> Q (Inl e) (exchange_finish env False (OutcomeFailed (he_error_text env e)) (w_exchange wire) st1)"
    and terminal: "\<And>n meth headers cur body st wire st1. I n meth headers cur st
      \<Longrightarrow> send_one_hop env (url_text cur) meth headers body opts n st = (Inr wire, st1)
      \<Longrightarrow> Q (Inr (wire, n, cur)) st1"
    and followed: "\<And>n meth headers cur body st wire st1 location next_url d meth'. I n meth headers cur st
      \<Longrightarrow> send_one_hop env (url_text cur) meth headers body opts n st = (Inr wire, st1)
      \<Longrightarrow> redirect_step env opts (w_exempt wire) n cur location = Inr (Some next_url)
      \<Longrightarrow> I (Suc n) meth' (next_headers cur next_url d headers) next_url
            (exchange_finish env False OutcomeAllowed (w_exchange wire) st1)"
  shows "case follow_loop env opts meth headers cur body n st of (r, st') \<Rightarrow> Q r st'"
  using inv
proof (induction "ro_max_redirects opts - n" arbitrary: n meth headers cur body st rule: less_induct)
  case less
  note run = follow_loop.simps [of env opts meth headers cur body n st]
  obtain x st1 where h: "send_one_hop env (url_text cur) meth headers body opts n st = (x, st1)" by (meson surj_pair)
  show ?case
  proof (cases x)
    case (Inl e)
    then show ?thesis using failed [OF less.prems] h by (simp add: run)
  next
    case (Inr wire)
    note h = h [unfolded Inr]
    let ?status = "rs_status (w_response wire)"
    let ?location = "if 300 \<le> ?status \<and> ?status < 400 then hdr_get (rs_headers (w_response wire)) ''location'' else None"
    show ?thesis
    proof (cases ?location)
      case None
      then show ?thesis using terminal [OF less.prems h] by (simp add: run h Let_def)
    next
      case l: (Some location)
      consider (stop) "redirect_step env opts (w_exempt wire) n cur location = Inr None"
        | (error) e where "redirect_step env opts (w_exempt wire) n cur location = Inl e"
        | (go) next_url where "redirect_step env opts (w_exempt wire) n cur location = Inr (Some next_url)"
        by (metis option.exhaust sumE)
      then show ?thesis
      proof cases
        case stop
        then show ?thesis using terminal [OF less.prems h] by (simp add: run h Let_def l)
      next
        case error
        then show ?thesis using refused [OF less.prems h, of e] by (simp add: run h Let_def l)
      next
        case go
        have "ro_max_redirects opts - Suc n < ro_max_redirects opts - n" using redirect_step_bound [OF go] by simp
        from less.hyps [OF this followed [OF less.prems h go]] show ?thesis
          unfolding run h prod.case sum.case Let_def l option.case go .
      qed
    qed
  qed
qed

lemma transmit_cases:
  assumes "transmit env u url meth headers injected body opts exempt hop st = (r, st')"
  obtains
    (client) e where "r = Inl e" "st' = st"
  | (wire) w exchange st1 where
      "(exchange, st1) = (case http_precommit env u meth headers body hop (snd injected) st of
         Some pre \<Rightarrow> precommit_commit pre st | None \<Rightarrow> (None, st))"
      "wr_url w = url" "wr_method w = meth" "wr_headers w = fst injected" "wr_body w = body"
      "cc_exempt_host (wr_client w) = exempt" "wr_after w = length (audit_log st1)"
      "(\<exists>e. r = Inl e \<and> st' = exchange_finish env False (OutcomeFailed (he_error_text env e)) exchange
           (st1\<lparr>wire_log := wire_log st1 @ [w]\<rparr>))
       \<or> (\<exists>response. r = Inr \<lparr>w_response = response, w_content_length = rs_content_length response,
             w_exempt = (exempt \<noteq> None), w_exchange = observe_response env response exchange\<rparr>
           \<and> st' = st1\<lparr>wire_log := wire_log st1 @ [w]\<rparr>)"
proof (cases "build_http_client env opts exempt hop")
  case (Inl e)
  then show thesis using assms client by (auto simp: transmit_def)
next
  case (Inr c)
  then have exempt: "cc_exempt_host c = exempt" by (auto simp: build_http_client_def split: option.splits)
  obtain exchange st1 where p: "(case http_precommit env u meth headers body hop (snd injected) st of
      Some pre \<Rightarrow> precommit_commit pre st | None \<Rightarrow> (None, st)) = (exchange, st1)" by (meson surj_pair)
  define w where "w = \<lparr>wr_url = url, wr_method = meth, wr_headers = fst injected, wr_body = body, wr_client = c,
    wr_deadline = header_deadline opts (hl_header_deadline_floor (http_limits st1)), wr_after = length (audit_log st1)\<rparr>"
  obtain answers flags where a: "resolve_all (he_bypass env) exempt (he_lookups env hop w)
      \<lparr>rf_tripped = False, rf_dns_failed = False\<rparr> = (answers, flags)" by (meson surj_pair)
  note run = assms [unfolded transmit_def Inr sum.case p Let_def prod.case w_def [symmetric] a]
  show thesis
    by (rule wire [of exchange st1 w], rule p [symmetric])
       (use run exempt in \<open>auto simp: w_def split: SendOutcome.splits\<close>)
qed

lemma precommit_frame:
  assumes "(exchange, st1) = (case http_precommit env u meth headers body hop names st of
      Some pre \<Rightarrow> precommit_commit pre st | None \<Rightarrow> (None, st))"
  shows "http_frame st st1" "wire_log st1 = wire_log st"
  using assms by (auto simp: precommit_commit_def sink_record_def split: option.splits)

lemma transmit_wire:
  assumes "transmit env u url meth headers injected body opts exempt hop st = (r, st')"
  obtains (client) e where "r = Inl e" "st' = st"
  | (wire) w where "wire_log st' = wire_log st @ [w]" "http_frame st st'" "wr_url w = url" "wr_method w = meth"
      "wr_headers w = fst injected" "cc_exempt_host (wr_client w) = exempt"
  using assms
proof (cases rule: transmit_cases)
  case (client e)
  then show ?thesis by (rule that(1))
next
  case (wire w exchange st1)
  let ?s = "st1\<lparr>wire_log := wire_log st1 @ [w]\<rparr>"
  have f: "http_frame st ?s" by (rule http_frame_trans [OF precommit_frame(1) [OF wire(1)]]) simp
  have "wire_log st' = wire_log st @ [w] \<and> http_frame st st'"
    using wire(8) precommit_frame(2) [OF wire(1)] f http_frame_trans [OF f] by auto
  with wire show ?thesis by (intro that(2) [of w]) simp_all
qed

lemma send_one_hop_wire:
  assumes "send_one_hop env url meth headers body opts hop st = (r, st')"
  obtains (refused) e where "r = Inl e" "wire_log st' = wire_log st"
  | (sent) w u host port exempt st1 names where
      "wire_log st' = wire_log st @ [w]" "http_frame st st'" "wr_url w = url" "wr_method w = meth"
      "cc_exempt_host (wr_client w) = exempt"
      "check_scheme (he_url_parse env) url (ro_https_only opts) = Inr ()"
      "he_url_parse env url = Some u" "url_host u = Some host" "url_port u = Some port"
      "principal_egress_allows st host (Some port)" "check_http_security env url meth st = Inr ()"
      "egress_decision_with_consent (he_url_parse env) (he_bypass env) (he_approval env hop) url st = (Inr exempt, st1)"
      "http_frame st st1" "inject_credentials env headers st1 = Inr (wr_headers w, names)"
  using assms
proof (cases rule: send_one_hop_cases)
  case (refused e st1)
  then show ?thesis
    using http_frame_approval(2) [of st st1] by (intro that(1) [of e]) (auto simp: deny_request_effect)
next
  case (sent u host port exempt st1 injected)
  note f = http_frame_approval [OF sent(8)]
  from sent(10) show ?thesis
  proof (cases rule: transmit_wire)
    case (client e)
    then show ?thesis using f by (intro that(1)) auto
  next
    case (wire w)
    show ?thesis
      by (rule that(2) [of w exempt u host port st1 "snd injected"])
         (use wire sent f http_frame_trans [OF f(1) wire(2)] in \<open>simp_all add: prod_eq_iff\<close>)
  qed
qed

section \<open>Every hop passes the airlock\<close>

text \<open>
  What the checks establish for a request on the wire, number \<open>n\<close> of a call made in the state \<open>st\<close>: the
  scheme, the egress of the principal and the gate allow it, and, unless the operator has switched the airlock
  off for the process (\<open>ASTRID_ALLOW_LOCAL_IPS\<close>, the field \<open>he_bypass\<close>), an address of the block set is
  reached only as the operator's list or a consent allows.
\<close>

definition hop_guarded :: "HttpEnv \<Rightarrow> ResolvedOptions \<Rightarrow> HttpState \<Rightarrow> nat \<Rightarrow> WireRequest \<Rightarrow> bool" where
  "hop_guarded env opts st n w \<longleftrightarrow>
     (\<exists>u host port. he_url_parse env (wr_url w) = Some u \<and> url_host u = Some host \<and> url_port u = Some port
        \<and> (url_scheme u = ''https'' \<or> url_scheme u = ''http'' \<and> \<not> ro_https_only opts)
        \<and> principal_egress_allows st host (Some port)
        \<and> (\<forall>gate. security st = Some gate \<longrightarrow> gate (hs_capsule_id st) (wr_method w) (wr_url w))
        \<and> (\<forall>ip lookup flags. \<not> he_bypass env \<longrightarrow>
             ip \<in> reached False (cc_exempt_host (wr_client w)) host lookup flags \<longrightarrow> ip_is_blocked ip \<longrightarrow>
             egress_allowed (local_egress st) host port \<and> (n = 0 \<or> literal_ip host = None)
             \<or> n = 0 \<and> literal_ip host = Some ip \<and> effective_origin st = LocalSocket
                \<and> consented (he_approval env 0) st host port))"

lemma check_scheme_Inr:
  "check_scheme parse url h = Inr () \<Longrightarrow> parse url = Some u \<Longrightarrow>
    url_scheme u = ''https'' \<or> url_scheme u = ''http'' \<and> \<not> h"
  by (auto simp: check_scheme_def split: if_splits)

lemma check_http_security_Inr:
  "check_http_security env url meth st = Inr () \<Longrightarrow> security st = Some gate \<Longrightarrow> gate (hs_capsule_id st) meth url"
  by (auto simp: check_http_security_def split: option.splits if_splits)

lemma hop_guardedI:
  assumes hop: "send_one_hop env (url_text cur) meth headers body opts n s = (r, s')"
    and new: "wire_log s' = wire_log s @ [w]"
    and frame: "http_frame st s" and start: "n = 0 \<Longrightarrow> s = st"
    and cur: "he_url_parse env (url_text cur) = Some cur"
    and target: "0 < n \<Longrightarrow> \<not> redirect_target_blocked (he_bypass env) (url_host cur)"
    and ok: "\<And>store. allowance_store st = Some store \<Longrightarrow> store_ok store"
  shows "hop_guarded env opts st n w"
  using hop
proof (cases rule: send_one_hop_wire)
  case (sent w' u host port exempt s1 names)
  have [simp]: "w' = w" "u = cur" using new sent cur by simp_all
  note view = http_frame_fields [OF frame] http_frame_views [OF frame]
  have run: "egress_decision_with_consent (he_url_parse env) False (he_approval env n) (url_text cur) s = (Inr exempt, s1)"
    if "\<not> he_bypass env" using sent(12) that by simp
  have port: "url_port cur = Some port" "url_host cur = Some host" using sent by simp_all
  have blocked: "egress_allowed (local_egress st) host port \<and> (n = 0 \<or> literal_ip host = None)
      \<or> n = 0 \<and> literal_ip host = Some ip \<and> effective_origin st = LocalSocket \<and> consented (he_approval env 0) st host port"
    if bypass: "\<not> he_bypass env" and ip: "ip \<in> reached False exempt host lookup flags" "ip_is_blocked ip" for ip lookup flags
  proof (cases "n = 0")
    case True
    then have "s = st" by (rule start)
    with airlock_reach [OF run [OF bypass, unfolded True] _ cur port(2) ip] ok port(1) True show ?thesis by auto
  next
    case False
    then have lit: "\<not> ip_is_blocked i" if "literal_ip host = Some i" for i
      using target that port bypass by (simp add: redirect_target_blocked_def is_safe_ip_def)
    then have "literal_ip host = None" using ip by (auto simp: reached_def split: option.splits)
    with airlock_reach_public [OF run [OF bypass] cur port(2) lit ip] port(1) view show ?thesis by auto
  qed
  have w: "he_url_parse env (wr_url w) = Some cur" "cc_exempt_host (wr_client w) = exempt" using sent cur by simp_all
  have scheme: "url_scheme cur = ''https'' \<or> url_scheme cur = ''http'' \<and> \<not> ro_https_only opts"
    using check_scheme_Inr [OF sent(6) cur] .
  have gate: "\<forall>gate. security st = Some gate \<longrightarrow> gate (hs_capsule_id st) (wr_method w) (wr_url w)"
    using check_http_security_Inr [OF sent(11)] sent(3,4) by (simp add: view) blast
  have "principal_egress_allows st host (Some port)" using sent(10) by (simp add: view)
  moreover have "\<forall>ip lookup flags. \<not> he_bypass env \<longrightarrow>
      ip \<in> reached False (cc_exempt_host (wr_client w)) host lookup flags \<longrightarrow> ip_is_blocked ip \<longrightarrow>
      egress_allowed (local_egress st) host port \<and> (n = 0 \<or> literal_ip host = None)
      \<or> n = 0 \<and> literal_ip host = Some ip \<and> effective_origin st = LocalSocket \<and> consented (he_approval env 0) st host port"
    unfolding w(2) by (intro allI impI) (rule blocked)
  ultimately show ?thesis
    unfolding hop_guarded_def using w(1) port scheme gate
    by (intro exI [of _ cur] exI [of _ host] exI [of _ port] conjI)
qed (use new in simp)

lemma redirect_step_target:
  "redirect_step env opts exempt n cur location = Inr (Some next_url) \<Longrightarrow>
    \<not> redirect_target_blocked (he_bypass env) (url_host next_url) \<and> (\<exists>loc. he_join env cur loc = Some next_url)"
  by (auto simp: redirect_step_def split: RedirectPolicy.splits option.splits if_splits)

text \<open>The requests of one call, numbered from the first.\<close>

definition hops :: "(nat \<Rightarrow> WireRequest \<Rightarrow> bool) \<Rightarrow> HttpState \<Rightarrow> HttpState \<Rightarrow> WireRequest list \<Rightarrow> bool" where
  "hops P st st' ws \<longleftrightarrow> wire_log st' = wire_log st @ ws \<and> (\<forall>i < length ws. P i (ws ! i))"

lemma hops_append:
  "hops P st s ws \<Longrightarrow> wire_log s' = wire_log s @ [w] \<Longrightarrow> P (length ws) w \<Longrightarrow> hops P st s' (ws @ [w])"
  by (auto simp: hops_def nth_append less_Suc_eq)

lemma hops_same: "hops P st s ws \<Longrightarrow> wire_log s' = wire_log s \<Longrightarrow> hops P st s' ws"
  by (simp add: hops_def)

text \<open>
  The loop rule for a property of each request: an invariant \<open>J\<close> of number, headers, target and state that
  every followed hop carries on, and that gives \<open>P\<close> for the request it sends.
\<close>

lemma follow_loop_hops:
  assumes start: "J 0 headers cur st"
    and sends: "\<And>n meth headers cur body s r s' w. J n headers cur s
      \<Longrightarrow> send_one_hop env (url_text cur) meth headers body opts n s = (r, s') \<Longrightarrow> wire_log s' = wire_log s @ [w] \<Longrightarrow> P n w"
    and follows: "\<And>n meth headers cur body s wire s' location next_url d. J n headers cur s
      \<Longrightarrow> send_one_hop env (url_text cur) meth headers body opts n s = (Inr wire, s')
      \<Longrightarrow> redirect_step env opts (w_exempt wire) n cur location = Inr (Some next_url)
      \<Longrightarrow> J (Suc n) (next_headers cur next_url d headers) next_url
            (exchange_finish env False OutcomeAllowed (w_exchange wire) s')"
  shows "\<exists>ws. hops P st (snd (follow_loop env opts meth headers cur body 0 st)) ws \<and> length ws \<le> Suc (ro_max_redirects opts)"
proof -
  define I where "I n (meth :: string) headers cur s \<longleftrightarrow>
    J n headers cur s \<and> n \<le> ro_max_redirects opts \<and> (\<exists>ws. hops P st s ws \<and> length ws = n)" for n meth headers cur s
  define Q where "Q (r :: (ErrorCode, WireResponse \<times> nat \<times> Url) result) s \<longleftrightarrow>
    (\<exists>ws. hops P st s ws \<and> length ws \<le> Suc (ro_max_redirects opts))" for r s
  have hop: "\<exists>ws. hops P st s' ws \<and> length ws \<le> Suc n \<and> (\<forall>wire. r = Inr wire \<longrightarrow> length ws = Suc n)"
    if i: "I n meth headers cur s" and h: "send_one_hop env (url_text cur) meth headers body opts n s = (r, s')"
    for n meth headers cur body s r s'
  proof -
    obtain ws where j: "J n headers cur s" and ws: "hops P st s ws" "length ws = n" using i unfolding I_def by blast
    from h show ?thesis
    proof (cases rule: send_one_hop_wire)
      case refused
      then show ?thesis using hops_same [OF ws(1)] ws(2) by (intro exI [of _ ws]) auto
    next
      case (sent w)
      with hops_append [OF ws(1) sent(1)] sends [OF j h sent(1)] ws(2) show ?thesis by (intro exI [of _ "ws @ [w]"]) simp
    qed
  qed
  have "I 0 meth headers cur st" using start by (auto simp: I_def hops_def)
  then have "case follow_loop env opts meth headers cur body 0 st of (r, s) \<Rightarrow> Q r s"
  proof (rule follow_loop_rule)
    fix n meth headers cur body s e s'
    assume "I n meth headers cur s" "send_one_hop env (url_text cur) meth headers body opts n s = (Inl e, s')"
    from hop [OF this] this(1) show "Q (Inl e) s'" unfolding Q_def I_def by (meson Suc_le_mono le_trans)
  next
    fix n meth headers cur body s wire s' e
    assume "I n meth headers cur s" "send_one_hop env (url_text cur) meth headers body opts n s = (Inr wire, s')"
    from hop [OF this] this(1) show "Q (Inl e) (exchange_finish env False (OutcomeFailed (he_error_text env e)) (w_exchange wire) s')"
      unfolding Q_def I_def by (meson Suc_le_mono exchange_finish_effect(2) hops_same le_trans)
  next
    fix n meth headers cur body s wire s'
    assume "I n meth headers cur s" "send_one_hop env (url_text cur) meth headers body opts n s = (Inr wire, s')"
    from hop [OF this] this(1) show "Q (Inr (wire, n, cur)) s'" unfolding Q_def I_def by (meson Suc_le_mono le_trans)
  next
    fix n meth headers cur body s wire s' location next_url d meth'
    assume a: "I n meth headers cur s" "send_one_hop env (url_text cur) meth headers body opts n s = (Inr wire, s')"
      "redirect_step env opts (w_exempt wire) n cur location = Inr (Some next_url)"
    then obtain ws where ws: "hops P st s' ws" "length ws = Suc n" using hop [OF a(1,2)] by blast
    have "J n headers cur s" using a(1) by (simp add: I_def)
    from follows [OF this a(2,3), of d] hops_same [OF ws(1) exchange_finish_effect(2)] ws(2) redirect_step_bound [OF a(3)]
    show "I (Suc n) meth' (next_headers cur next_url d headers) next_url
        (exchange_finish env False OutcomeAllowed (w_exchange wire) s')"
      unfolding I_def by (meson Suc_leI)
  qed
  then show ?thesis by (simp add: Q_def split_beta)
qed

lemma finalize_buffered_effect:
  "wire_log (snd (finalize_buffered env wire opts final_url n st)) = wire_log st"
  by (auto simp: finalize_buffered_def Let_def split: prod.split option.split sum.split)

lemma request_hops:
  assumes loop: "\<And>meth headers cur. map_method env (rd_method request) = Inr meth
      \<Longrightarrow> build_headers env (rd_headers request) = Inr headers \<Longrightarrow> he_url_parse env (rd_url request) = Some cur
      \<Longrightarrow> \<exists>ws. hops P st (snd (follow_loop env opts meth headers cur (rd_body request) 0 st)) ws
             \<and> length ws \<le> Suc (ro_max_redirects opts)"
  shows "\<exists>ws. hops P st (snd (follow_redirects env request opts st)) ws \<and> length ws \<le> Suc (ro_max_redirects opts)"
proof -
  have none: "\<exists>ws. hops P st st ws \<and> length ws \<le> Suc (ro_max_redirects opts)"
    by (rule exI [of _ "[]"]) (simp add: hops_def)
  show ?thesis
    unfolding follow_redirects_def using none loop by (simp split: sum.split option.split)
qed

lemma backend_wire:
  assumes "http_request_backend env request opts st = (r, st')"
  shows "wire_log st' = wire_log (snd (follow_redirects env request opts st))"
  using assms finalize_buffered_effect
  by (auto simp: http_request_backend_def split: prod.splits sum.splits) (metis snd_conv)+

text \<open>The serialisation of a parsed URL parses to that URL again.\<close>

definition url_law :: "HttpEnv \<Rightarrow> bool" where
  "url_law env \<longleftrightarrow>
     (\<forall>s u. he_url_parse env s = Some u \<longrightarrow> he_url_parse env (url_text u) = Some u)
     \<and> (\<forall>b s u. he_join env b s = Some u \<longrightarrow> he_url_parse env (url_text u) = Some u)"

text \<open>
  C17.  Every request of a buffered call, the first and each redirect, passed the airlock: its scheme is
  HTTPS, or HTTP where the options permit it; the egress of the principal admits its host and port; the
  security gate of the capsule admitted its method and URL; and when the client can reach an address of
  the block set with it, literally or through any answer of the resolver, then the operator's list names
  the host and port (and a redirect did not write the address as a literal), or it is the first request of
  the call, came in over the local socket and the principal consented.  The part on blocked addresses is for
  a process in which the operator has not switched the airlock off with \<open>ASTRID_ALLOW_LOCAL_IPS\<close>; the other
  checks hold with or without the switch.  A call sends at most one request more than its redirect limit.
\<close>

theorem http_hops_guarded:
  assumes run: "http_request_backend env request opts st = (r, st')"
    and law: "url_law env"
    and ok: "\<And>store. allowance_store st = Some store \<Longrightarrow> store_ok store"
  shows "\<exists>ws. wire_log st' = wire_log st @ ws \<and> length ws \<le> Suc (ro_max_redirects opts)
    \<and> (\<forall>i < length ws. hop_guarded env opts st i (ws ! i))"
proof -
  define J where "J (n :: nat) (headers :: HeaderMap) cur s \<longleftrightarrow> http_frame st s \<and> (n = 0 \<longrightarrow> s = st)
    \<and> he_url_parse env (url_text cur) = Some cur \<and> (0 < n \<longrightarrow> \<not> redirect_target_blocked (he_bypass env) (url_host cur))" for n headers cur s
  have "\<exists>ws. hops (hop_guarded env opts st) st (snd (follow_redirects env request opts st)) ws
      \<and> length ws \<le> Suc (ro_max_redirects opts)"
  proof (rule request_hops, rule follow_loop_hops [where J = J])
    fix cur :: Url and headers
    assume "he_url_parse env (rd_url request) = Some cur"
    then show "J 0 headers cur st" using law by (auto simp: J_def url_law_def)
  next
    fix n meth headers cur body s r s' w
    assume "J n headers cur s" "send_one_hop env (url_text cur) meth headers body opts n s = (r, s')"
      "wire_log s' = wire_log s @ [w]"
    then show "hop_guarded env opts st n w" using hop_guardedI ok unfolding J_def by blast
  next
    fix n meth headers cur body s wire s' location next_url d
    assume j: "J n headers cur s" and h: "send_one_hop env (url_text cur) meth headers body opts n s = (Inr wire, s')"
      and go: "redirect_step env opts (w_exempt wire) n cur location = Inr (Some next_url)"
    from h have "http_frame s s'" by (cases rule: send_one_hop_wire) simp_all
    with j have "http_frame st (exchange_finish env False OutcomeAllowed (w_exchange wire) s')"
      unfolding J_def by (meson exchange_finish_effect(1) http_frame_trans)
    with redirect_step_target [OF go] law
    show "J (Suc n) (next_headers cur next_url d headers) next_url (exchange_finish env False OutcomeAllowed (w_exchange wire) s')"
      by (auto simp: J_def url_law_def)
  qed
  then show ?thesis unfolding hops_def backend_wire [OF run] by blast
qed

section \<open>Secrets stay on the origin of the request\<close>

lemma fold_hdr_remove: "fold hdr_remove names headers = filter (\<lambda>(n, _). n \<notin> set names) headers"
  by (induction names arbitrary: headers) (auto simp: hdr_remove_def intro!: filter_cong)

lemma strip_injected_mem: "(n, v) \<in> set (strip_injected headers) \<Longrightarrow> (n, v) \<in> set headers \<and> \<not> has_placeholder v"
  by (force simp: strip_injected_def fold_hdr_remove)

lemma strip_credentials_mem:
  "(n, v) \<in> set (strip_credentials headers) \<longleftrightarrow> (n, v) \<in> set headers \<and> n \<noteq> ''authorization'' \<and> n \<noteq> ''cookie''"
  by (auto simp: strip_credentials_def hdr_remove_def)

lemma substitute_headers_plain:
  "(\<And>n v. (n, v) \<in> set headers \<Longrightarrow> \<not> has_placeholder v) \<Longrightarrow> substitute_headers ok resolve headers names = Inr (headers, names)"
proof (induction headers)
  case (Cons h headers)
  obtain n v where h: "h = (n, v)" by (cases h)
  have "\<not> has_placeholder v" using Cons.prems [of n v] h by simp
  moreover have "substitute_headers ok resolve headers names = Inr (headers, names)"
    by (rule Cons.IH) (use Cons.prems in auto)
  ultimately show ?case by (simp add: h and_then_def)
qed simp

text \<open>A header map that carries nothing but what the capsule wrote, and no credential.\<close>

definition plain_headers :: "HeaderMap \<Rightarrow> HeaderMap \<Rightarrow> bool" where
  "plain_headers template headers \<longleftrightarrow>
     (\<forall>(n, v) \<in> set headers. (n, v) \<in> set template \<and> \<not> has_placeholder v \<and> n \<noteq> ''authorization'' \<and> n \<noteq> ''cookie'')"

lemma hdr_remove_subset: "set (hdr_remove n headers) \<subseteq> set headers"
  by (auto simp: hdr_remove_def)

lemma strip_subset: "set (strip_injected (strip_credentials headers)) \<subseteq> set headers"
  by (auto simp: strip_injected_def fold_hdr_remove strip_credentials_def hdr_remove_def)

lemma next_headers_subset: "set (next_headers cur next_url d headers) \<subseteq> set headers"
proof -
  let ?kept = "if \<not> same_origin cur next_url then strip_injected (strip_credentials headers) else headers"
  have "set ?kept \<subseteq> set headers" using strip_subset [of headers] by simp
  moreover have "set (hdr_remove a (hdr_remove b (hdr_remove c ?kept))) \<subseteq> set ?kept" for a b c
    using hdr_remove_subset by (meson order_trans)
  ultimately show ?thesis unfolding next_headers_def Let_def by (cases d) (simp_all only: if_True if_False, blast)
qed

lemma next_headers_plain: "plain_headers template headers \<Longrightarrow> plain_headers template (next_headers cur next_url d headers)"
  using next_headers_subset [of cur next_url d headers] unfolding plain_headers_def by blast

lemma next_headers_crossed:
  assumes "\<not> same_origin cur next_url" "set headers \<subseteq> set template"
  shows "plain_headers template (next_headers cur next_url d headers)"
proof -
  have "set (next_headers cur next_url d headers) \<subseteq> set (strip_injected (strip_credentials headers))"
    using assms(1) by (auto simp: next_headers_def hdr_remove_def Let_def)
  then show ?thesis
    using assms(2) strip_injected_mem strip_credentials_mem unfolding plain_headers_def by blast
qed

lemma same_origin_trans: "same_origin a b \<Longrightarrow> same_origin b c \<Longrightarrow> same_origin a c"
  by (simp add: same_origin_def)

text \<open>
  C18.  A credential never leaves the origin of the request: when a redirect takes a call to another scheme,
  host or port, then every header of that request is one the capsule wrote literally, with no secret
  substituted into it, and none of them is \<open>Authorization\<close> or \<open>Cookie\<close>.
\<close>

theorem secrets_stay_on_origin:
  assumes run: "http_request_backend env request opts st = (r, st')" and law: "url_law env"
    and start: "he_url_parse env (rd_url request) = Some origin" "build_headers env (rd_headers request) = Inr template"
  shows "\<exists>ws. wire_log st' = wire_log st @ ws
    \<and> (\<forall>i < length ws. \<forall>u. he_url_parse env (wr_url (ws ! i)) = Some u \<longrightarrow> \<not> same_origin origin u
        \<longrightarrow> plain_headers template (wr_headers (ws ! i)))"
proof -
  define J where "J (n :: nat) headers cur (s :: HttpState) \<longleftrightarrow> he_url_parse env (url_text cur) = Some cur
    \<and> (plain_headers template headers \<or> same_origin origin cur \<and> set headers \<subseteq> set template)" for n headers cur s
  define P where "P (n :: nat) (w :: WireRequest) \<longleftrightarrow> (\<forall>u. he_url_parse env (wr_url w) = Some u \<longrightarrow> \<not> same_origin origin u
    \<longrightarrow> plain_headers template (wr_headers w))" for n w
  have "\<exists>ws. hops P st (snd (follow_redirects env request opts st)) ws \<and> length ws \<le> Suc (ro_max_redirects opts)"
  proof (rule request_hops, rule follow_loop_hops [where J = J])
    fix cur headers
    assume "he_url_parse env (rd_url request) = Some cur" "build_headers env (rd_headers request) = Inr headers"
    then show "J 0 headers cur st" using law start by (auto simp: J_def url_law_def same_origin_def)
  next
    fix n meth headers cur body s r s' w
    assume j: "J n headers cur s" and h: "send_one_hop env (url_text cur) meth headers body opts n s = (r, s')"
      and w: "wire_log s' = wire_log s @ [w]"
    from h show "P n w"
    proof (cases rule: send_one_hop_wire)
      case (sent w' u host port exempt st1 names)
      have [simp]: "w' = w" "u = cur" using sent w j by (simp_all add: J_def)
      have "wr_headers w = headers" if "plain_headers template headers"
      proof -
        have "inject_credentials env headers st1 = Inr (headers, [])"
          unfolding inject_credentials_def by (rule substitute_headers_plain) (use that in \<open>auto simp: plain_headers_def\<close>)
        then show ?thesis using sent(14) by simp
      qed
      then show ?thesis using j sent(3,7) by (auto simp: P_def J_def)
    qed (use w in simp)
  next
    fix n meth headers cur body s wire s' location next_url d
    assume j: "J n headers cur s" and go: "redirect_step env opts (w_exempt wire) n cur location = Inr (Some next_url)"
    have "plain_headers template (next_headers cur next_url d headers)
        \<or> same_origin origin next_url \<and> set (next_headers cur next_url d headers) \<subseteq> set template"
      using j next_headers_plain next_headers_crossed next_headers_subset same_origin_trans unfolding J_def by (metis subset_trans)
    then show "J (Suc n) (next_headers cur next_url d headers) next_url (exchange_finish env False OutcomeAllowed (w_exchange wire) s')"
      using redirect_step_target [OF go] law by (auto simp: J_def url_law_def)
  qed
  then show ?thesis unfolding hops_def P_def backend_wire [OF run] by blast
qed

section \<open>The trail of every request\<close>

definition completions :: "SinkCall list \<Rightarrow> nat \<Rightarrow> nat" where
  "completions log k =
     length (filter (\<lambda>c. case sc_event c of HttpResponseEvent p \<Rightarrow> hp_request p = k | _ \<Rightarrow> False) log)"

definition committed :: "WireRequest \<Rightarrow> SinkCall list \<Rightarrow> bool" where
  "committed w log \<longleftrightarrow>
     (\<exists>k p e. wr_after w = Suc k \<and> k < length log
        \<and> log ! k = \<lparr>sc_durable = True, sc_principal = p, sc_event = HttpRequestEvent e, sc_outcome = OutcomeAllowed\<rparr>
        \<and> hr_method e = wr_method w \<and> hr_body_len e = (case wr_body w of Some b \<Rightarrow> length b | None \<Rightarrow> 0))"

text \<open>The requests whose exchange is in \<open>open\<close> have no completion yet, every other one has exactly one.\<close>

definition trail :: "nat set \<Rightarrow> HttpState \<Rightarrow> bool" where
  "trail opn st \<longleftrightarrow> audit_sink st
     \<and> (\<forall>c \<in> set (audit_log st). \<forall>p. sc_event c = HttpResponseEvent p \<longrightarrow> hp_request p < length (audit_log st))
     \<and> (\<forall>k \<in> opn. k < length (audit_log st) \<and> completions (audit_log st) k = 0)
     \<and> (\<forall>w \<in> set (wire_log st). committed w (audit_log st)
          \<and> completions (audit_log st) (wr_after w - 1) = (if wr_after w - 1 \<in> opn then 0 else 1))"

lemma completions_append [simp]: "completions (l @ l') k = completions l k + completions l' k"
  by (simp add: completions_def)

lemma completions_none: "(\<And>c p. c \<in> set l \<Longrightarrow> sc_event c = HttpResponseEvent p \<Longrightarrow> hp_request p \<noteq> k) \<Longrightarrow> completions l k = 0"
  by (auto simp: completions_def filter_empty_conv split: HostAuditEvent.split)

lemma committed_append: "committed w l \<Longrightarrow> committed w (l @ l')"
  by (force simp: committed_def nth_append)

lemma trail_extend:
  assumes "trail opn s" "audit_sink s' = audit_sink s" "wire_log s' = wire_log s" "audit_log s' = audit_log s @ l"
    and l: "\<And>c p. c \<in> set l \<Longrightarrow> sc_event c \<noteq> HttpResponseEvent p"
  shows "trail opn s'"
proof -
  have "completions l k = 0" for k using l by (intro completions_none) blast
  then show ?thesis using assms committed_append unfolding trail_def by (auto 0 3 dest: l)
qed

lemma trail_same:
  "trail opn s \<Longrightarrow> audit_sink s' = audit_sink s \<Longrightarrow> wire_log s' = wire_log s \<Longrightarrow> audit_log s' = audit_log s \<Longrightarrow> trail opn s'"
  by (simp add: trail_def)

lemma trail_approval: "trail opn s \<Longrightarrow> approval_frame s s' \<Longrightarrow> trail opn s'"
  by (auto simp: approval_frame_def approval_event_def intro!: trail_extend [of opn s])

lemma trail_deny: "trail opn s \<Longrightarrow> trail opn (deny_request env u meth headers body hop reason s)"
  by (auto simp: deny_request_def precommit_deny_def sink_record_def intro!: trail_extend [of opn s] split: option.split)

lemma trail_close:
  assumes t: "trail opn s" and k: "xi_receipt xi \<in> opn"
  shows "trail (opn - {xi_receipt xi}) (sink_record d p (completion_event env complete xi) out s)"
proof -
  let ?c = "\<lparr>sc_durable = d, sc_principal = p, sc_event = completion_event env complete xi, sc_outcome = out\<rparr>"
  have c: "completions [?c] k = (if k = xi_receipt xi then 1 else 0)" for k
    by (simp add: completions_def completion_event_def)
  have b: "hp_request q < Suc (length (audit_log s))" if "sc_event ?c = HttpResponseEvent q" for q
    using that t k by (auto simp: completion_event_def trail_def)
  show ?thesis
    using t k b committed_append unfolding trail_def sink_record_def by (auto simp: c less_Suc_eq split: if_splits)
qed

lemma trail_finish:
  assumes "trail opn s" "xi_receipt xi \<in> opn"
  shows "trail (opn - {xi_receipt xi}) (exchange_finish env complete out (Some xi) s)"
    "trail (opn - {xi_receipt xi}) (finish_detached env complete out (Some xi) s)"
  using trail_close [OF assms] by (simp_all add: exchange_finish_def finish_detached_def)

lemma trail_open:
  assumes t: "trail opn s"
    and log: "audit_log s' = audit_log s @
      [\<lparr>sc_durable = True, sc_principal = p, sc_event = HttpRequestEvent e, sc_outcome = OutcomeAllowed\<rparr>]"
    and wire: "wire_log s' = wire_log s @ [w]" "audit_sink s' = audit_sink s"
    and w: "wr_after w = Suc (length (audit_log s))" "hr_method e = wr_method w"
      "hr_body_len e = (case wr_body w of Some b \<Rightarrow> length b | None \<Rightarrow> 0)"
  shows "trail (insert (length (audit_log s)) opn) s'" "length (audit_log s) \<notin> opn"
proof -
  let ?k = "length (audit_log s)"
  let ?c = "\<lparr>sc_durable = True, sc_principal = p, sc_event = HttpRequestEvent e, sc_outcome = OutcomeAllowed\<rparr>"
  show "?k \<notin> opn" using t by (auto simp: trail_def)
  have z: "completions [?c] k = 0" for k by (simp add: completions_def)
  have "completions (audit_log s) ?k = 0" using t by (intro completions_none) (auto simp: trail_def)
  moreover have "committed w (audit_log s')" unfolding committed_def log using w by simp
  moreover have "wr_after v - 1 \<noteq> ?k" if "v \<in> set (wire_log s)" for v
    using t that by (auto simp: trail_def committed_def)
  ultimately show "trail (insert ?k opn) s'"
    using t committed_append unfolding trail_def log wire by (auto simp: z w less_Suc_eq)
qed

lemma precommit_event:
  assumes "http_precommit env u meth headers body hop names st = Some pre"
  shows "hr_method (pre_event pre) = meth" "hr_body_len (pre_event pre) = (case body of Some b \<Rightarrow> length b | None \<Rightarrow> 0)"
  using assms by (auto simp: http_precommit_def compute_commitment_def Let_def split: if_splits option.split)

text \<open>The trail after a hop or a call: closed when it failed, open in the exchange of the response otherwise.\<close>

definition trail_after :: "nat set \<Rightarrow> WireResponse option \<Rightarrow> HttpState \<Rightarrow> bool" where
  "trail_after opn x s \<longleftrightarrow>
     (case x of
        None \<Rightarrow> trail opn s
      | Some wire \<Rightarrow> \<exists>xi. w_exchange wire = Some xi \<and> xi_receipt xi \<notin> opn \<and> trail (insert (xi_receipt xi) opn) s)"

definition answered :: "(ErrorCode, WireResponse) result \<Rightarrow> WireResponse option" where
  "answered r = (case r of Inl _ \<Rightarrow> None | Inr wire \<Rightarrow> Some wire)"

definition followed :: "(ErrorCode, WireResponse \<times> nat \<times> Url) result \<Rightarrow> WireResponse option" where
  "followed r = (case r of Inl _ \<Rightarrow> None | Inr (wire, _, _) \<Rightarrow> Some wire)"

lemmas trail_after_simps = trail_after_def answered_def followed_def

lemma trail_after_finish:
  assumes "trail_after opn (Some wire) s"
  shows "trail opn (exchange_finish env complete out (w_exchange wire) s)"
proof -
  obtain xi where "w_exchange wire = Some xi" "xi_receipt xi \<notin> opn" "trail (insert (xi_receipt xi) opn) s"
    using assms by (auto simp: trail_after_def)
  with trail_finish(1) [OF this(3), of xi env complete out] show ?thesis by simp
qed

lemma trail_transmit:
  assumes t: "trail opn s" and run: "transmit env u url meth headers injected body opts exempt hop s = (r, s')"
  shows "trail_after opn (answered r) s'"
  using run
proof (cases rule: transmit_cases)
  case (client e)
  with t show ?thesis by (simp add: trail_after_simps)
next
  case (wire w exchange s1)
  have "audit_sink s" using t by (simp add: trail_def)
  then obtain pre where pre: "http_precommit env u meth headers body hop (snd injected) s = Some pre"
    by (auto simp: http_precommit_def Let_def)
  let ?k = "length (audit_log s)"
  let ?s = "s1\<lparr>wire_log := wire_log s1 @ [w]\<rparr>"
  have s1: "s1 = sink_record True (pre_principal pre) (HttpRequestEvent (pre_event pre)) OutcomeAllowed s"
    and x: "exchange = Some \<lparr>xi_principal = pre_principal pre, xi_receipt = ?k, xi_status = None, xi_request_ids = [], xi_body = None\<rparr>"
    using wire(1) by (simp_all add: pre precommit_commit_def)
  have log: "audit_log ?s = audit_log s @ [\<lparr>sc_durable = True, sc_principal = pre_principal pre,
      sc_event = HttpRequestEvent (pre_event pre), sc_outcome = OutcomeAllowed\<rparr>]"
    and rest: "wire_log ?s = wire_log s @ [w]" "audit_sink ?s = audit_sink s"
    by (simp_all add: s1 sink_record_def)
  have w: "wr_after w = Suc ?k" "hr_method (pre_event pre) = wr_method w"
      "hr_body_len (pre_event pre) = (case wr_body w of Some b \<Rightarrow> length b | None \<Rightarrow> 0)"
    using wire(3,5,7) precommit_event [OF pre] by (simp_all add: s1)
  note o = trail_open [OF t log rest w]
  from wire(8) show ?thesis
  proof (elim disjE exE conjE)
    fix e assume "r = Inl e" "s' = exchange_finish env False (OutcomeFailed (he_error_text env e)) exchange ?s"
    with trail_finish(1) [OF o(1), of "the exchange" env False "OutcomeFailed (he_error_text env e)"] o(2) x
    show ?thesis by (simp add: trail_after_simps)
  next
    fix response
    assume "r = Inr \<lparr>w_response = response, w_content_length = rs_content_length response, w_exempt = (exempt \<noteq> None),
        w_exchange = observe_response env response exchange\<rparr>" "s' = ?s"
    with o x show ?thesis by (simp add: observe_response_def trail_after_simps)
  qed
qed

lemma trail_hop:
  assumes t: "trail opn s" and run: "send_one_hop env url meth headers body opts hop s = (r, s')"
  shows "trail_after opn (answered r) s'"
  using run
proof (cases rule: send_one_hop_cases)
  case (refused e st1)
  with trail_approval [OF t refused(2)] trail_deny show ?thesis by (auto simp: trail_after_simps)
next
  case (sent u host port exempt st1 injected)
  from trail_transmit [OF trail_approval [OF t sent(8)] sent(10)] show ?thesis .
qed

lemma trail_loop:
  assumes "trail opn s"
  shows "case follow_loop env opts meth headers cur body n s of (r, s') \<Rightarrow> trail_after opn (followed r) s'"
proof (rule follow_loop_rule [where I = "\<lambda>_ _ _ _. trail opn" and Q = "\<lambda>r. trail_after opn (followed r)"])
  show "trail opn s" by fact
next
  fix n meth headers cur body s e s'
  assume "trail opn s" "send_one_hop env (url_text cur) meth headers body opts n s = (Inl e, s')"
  from trail_hop [OF this] show "trail_after opn (followed (Inl e)) s'" by (simp add: answered_def followed_def)
next
  fix n meth headers cur body s wire s' e
  assume "trail opn s" "send_one_hop env (url_text cur) meth headers body opts n s = (Inr wire, s')"
  from trail_hop [OF this] trail_after_finish
  show "trail_after opn (followed (Inl e)) (exchange_finish env False (OutcomeFailed (he_error_text env e)) (w_exchange wire) s')"
    by (simp add: answered_def followed_def trail_after_def [of _ None])
next
  fix n meth headers and cur :: Url and body s wire s'
  assume "trail opn s" "send_one_hop env (url_text cur) meth headers body opts n s = (Inr wire, s')"
  from trail_hop [OF this] show "trail_after opn (followed (Inr (wire, n, cur))) s'" by (simp add: answered_def followed_def)
next
  fix n meth headers cur body s wire s'
  assume "trail opn s" "send_one_hop env (url_text cur) meth headers body opts n s = (Inr wire, s')"
  from trail_hop [OF this] trail_after_finish
  show "trail opn (exchange_finish env False OutcomeAllowed (w_exchange wire) s')" by (simp add: answered_def)
qed

lemma trail_redirects:
  assumes t: "trail opn s" and run: "follow_redirects env request opts s = (r, s')"
  shows "trail_after opn (followed r) s'"
proof -
  have "trail_after opn (followed (Inl e)) s" for e using t by (simp add: trail_after_simps)
  then have "case follow_redirects env request opts s of (r, s') \<Rightarrow> trail_after opn (followed r) s'"
    using trail_loop [OF t] unfolding follow_redirects_def by (simp split: sum.split option.split)
  with run show ?thesis by simp
qed

lemma trail_backend:
  assumes t: "trail opn s" and run: "http_request_backend env request opts s = (r, s')"
  shows "trail opn s'"
proof -
  obtain x s1 where f: "follow_redirects env request opts s = (x, s1)" by (meson surj_pair)
  note after = trail_redirects [OF t f]
  show ?thesis
  proof (cases x)
    case (Inl e)
    then show ?thesis using after run f by (simp add: http_request_backend_def trail_after_simps)
  next
    case (Inr y)
    obtain wire n u where y: "y = (wire, n, u)" by (metis surj_pair)
    obtain xi where xi: "w_exchange wire = Some xi" "xi_receipt xi \<notin> opn" "trail (insert (xi_receipt xi) opn) s1"
      using after Inr y by (auto simp: trail_after_simps)
    have "trail opn (exchange_finish env c out (Some (xi\<lparr>xi_body := b\<rparr>)) s1)" for c out b
      using trail_finish(1) [OF xi(3), of "xi\<lparr>xi_body := b\<rparr>" env c out] xi(2) by simp
    then have "trail opn (exchange_finish env c out (digest b (begin_body (w_exchange wire))) s1)" for c out b
      by (simp add: xi(1) digest_def begin_body_def)
    then have "trail opn (snd (finalize_buffered env wire opts u n s1))"
      unfolding finalize_buffered_def Let_def by (simp split: prod.split option.split sum.split)
    with run f Inr y show ?thesis by (simp add: http_request_backend_def)
  qed
qed

section \<open>Streams and any sequence of calls\<close>

lemma hop_frame:
  assumes "send_one_hop env url meth headers body opts hop st = (r, st')"
  shows "http_frame st st'"
  using assms
proof (cases rule: send_one_hop_cases)
  case (refused e st1)
  with http_frame_approval(1) [OF refused(2)] deny_request_effect(1) http_frame_trans show ?thesis by blast
next
  case (sent u host port exempt st1 injected)
  note f = http_frame_approval(1) [OF sent(8)]
  from sent(10) show ?thesis by (cases rule: transmit_wire) (use f http_frame_trans in blast)+
qed

lemma redirects_frame:
  assumes "follow_redirects env request opts st = (r, st')"
  shows "http_frame st st'"
proof -
  have "case follow_loop env opts meth headers cur body 0 st of (r, s') \<Rightarrow> http_frame st s'" for meth headers cur body
    by (rule follow_loop_rule [where I = "\<lambda>_ _ _ _. http_frame st"])
       (auto intro: http_frame_trans hop_frame dest: hop_frame http_frame_trans [OF _ exchange_finish_effect(1)])
  then have "case follow_redirects env request opts st of (r, s') \<Rightarrow> http_frame st s'"
    unfolding follow_redirects_def by (simp split: sum.split option.split)
  with assms show ?thesis by simp
qed

text \<open>The receipt that the exchange of a stream still awaits a completion for.\<close>

definition receipt_of :: "HttpState \<Rightarrow> nat \<Rightarrow> nat option" where
  "receipt_of st rep = Option.bind (hm_get (stream_table st) rep) (\<lambda>s. map_option xi_receipt (as_audit s))"

definition open_exchanges :: "HttpState \<Rightarrow> nat set" where
  "open_exchanges st = ran (receipt_of st)"

definition streams_ok :: "HttpState \<Rightarrow> bool" where
  "streams_ok st \<longleftrightarrow> hm_wf (stream_table st) \<and> distinct (active_http_streams st)
     \<and> set (active_http_streams st) = set (hm_keys (stream_table st))
     \<and> length (active_http_streams st) \<le> hl_max_concurrent_streams (http_limits st)"

definition http_inv :: "HttpState \<Rightarrow> bool" where
  "http_inv st \<longleftrightarrow> streams_ok st \<and> (\<forall>r r' k. receipt_of st r = Some k \<longrightarrow> receipt_of st r' = Some k \<longrightarrow> r = r')
     \<and> trail (open_exchanges st) st"

lemma http_invI:
  assumes "http_inv st" and t: "trail opn st'" and table: "stream_table st' = stream_table st"
    and opn: "opn = open_exchanges st"
    and "active_http_streams st' = active_http_streams st" "http_limits st' = http_limits st"
  shows "http_inv st'"
proof -
  have "receipt_of st' = receipt_of st" unfolding receipt_of_def table by simp
  then show ?thesis using assms unfolding http_inv_def streams_ok_def open_exchanges_def by simp
qed

lemma ran_clear:
  assumes "\<And>r r' k. f r = Some k \<Longrightarrow> f r' = Some k \<Longrightarrow> r = r'"
  shows "ran (f(rep := None)) = ran f - (case f rep of Some k \<Rightarrow> {k} | None \<Rightarrow> {})"
proof (intro set_eqI iffI)
  fix k assume "k \<in> ran (f(rep := None))"
  then obtain r where "r \<noteq> rep" "f r = Some k" by (auto simp: ran_def split: if_splits)
  with assms [of r k rep] show "k \<in> ran f - (case f rep of Some k \<Rightarrow> {k} | None \<Rightarrow> {})"
    by (auto simp: ran_def split: option.splits)
next
  fix k assume "k \<in> ran f - (case f rep of Some k \<Rightarrow> {k} | None \<Rightarrow> {})"
  then obtain r where "f r = Some k" "f rep \<noteq> Some k" by (auto simp: ran_def split: option.splits)
  then have "(f(rep := None)) r = Some k" by auto
  then show "k \<in> ran (f(rep := None))" by (rule ranI)
qed

text \<open>Closing the exchange of a stream, or removing the stream with its exchange.\<close>

lemma http_inv_close:
  assumes inv: "http_inv st" and s: "hm_get (stream_table st) rep = Some s"
    and receipts: "receipt_of st' = (receipt_of st)(rep := None)"
    and st': "st' = (case as_audit s of None \<Rightarrow> st1
      | Some xi \<Rightarrow> sink_record d (xi_principal xi) (completion_event env complete xi) out st1)"
    and st1: "audit_sink st1 = audit_sink st" "wire_log st1 = wire_log st" "audit_log st1 = audit_log st"
    and ok: "streams_ok st'"
  shows "http_inv st'"
proof -
  have inj: "receipt_of st r = Some k \<Longrightarrow> receipt_of st r' = Some k \<Longrightarrow> r = r'" for r r' k
    using inv by (simp add: http_inv_def)
  have t: "trail (open_exchanges st) st1"
    using trail_same [of "open_exchanges st" st st1] inv st1 by (simp add: http_inv_def)
  have o: "open_exchanges st' = open_exchanges st - (case receipt_of st rep of Some k \<Rightarrow> {k} | None \<Rightarrow> {})"
    unfolding open_exchanges_def receipts by (rule ran_clear) (rule inj)
  have "trail (open_exchanges st') st'"
  proof (cases "as_audit s")
    case None
    then show ?thesis using t st' o s by (simp add: receipt_of_def)
  next
    case (Some xi)
    then have r: "receipt_of st rep = Some (xi_receipt xi)" using s by (simp add: receipt_of_def)
    then have "xi_receipt xi \<in> open_exchanges st" by (auto simp: open_exchanges_def ran_def)
    from trail_close [OF t this] Some st' o r show ?thesis by simp
  qed
  then show ?thesis using ok inj by (auto simp: http_inv_def receipts split: if_splits)
qed

lemma receipt_of_set_stream:
  "receipt_of (set_stream rep s st) = (receipt_of st)(rep := map_option xi_receipt (as_audit s))"
  by (auto simp: receipt_of_def set_stream_def hm.get_insert fun_eq_iff)

lemma receipt_of_sink [simp]: "receipt_of (sink_record d p e out st) = receipt_of st"
  by (simp add: receipt_of_def sink_record_def fun_eq_iff)

lemma streams_ok_sink [simp]: "streams_ok (sink_record d p e out st) = streams_ok st"
  by (simp add: streams_ok_def sink_record_def)

lemma hm_keys_set_insert: "set (hm_keys (hm_insert k v m)) = insert k (set (hm_keys m))"
  by (rule set_eqI) (simp add: hm_keys_iff hm.get_insert)

lemma hm_keys_set_remove: "set (hm_keys (hm_remove k m)) = set (hm_keys m) - {k}"
  by (rule set_eqI) (simp add: hm_keys_iff hm.get_remove)

lemma streams_ok_set_stream:
  "streams_ok st \<Longrightarrow> hm_get (stream_table st) rep = Some s \<Longrightarrow> streams_ok (set_stream rep s' st)"
  using hm_keys_iff [of rep "stream_table st"]
  by (simp add: streams_ok_def set_stream_def hm.wf_insert hm_keys_set_insert insert_absorb)

lemma complete_stream_inv:
  assumes inv: "http_inv st" and s: "hm_get (stream_table st) rep = Some s"
  shows "http_inv (complete_stream env rep (s\<lparr>as_chunks := c\<rparr>) complete out st)"
proof (rule http_inv_close [OF inv s])
  show "audit_sink (set_stream rep (s\<lparr>as_chunks := c, as_audit := None\<rparr>) st) = audit_sink st"
    "wire_log (set_stream rep (s\<lparr>as_chunks := c, as_audit := None\<rparr>) st) = wire_log st"
    "audit_log (set_stream rep (s\<lparr>as_chunks := c, as_audit := None\<rparr>) st) = audit_log st" by (simp_all add: set_stream_def)
  show "complete_stream env rep (s\<lparr>as_chunks := c\<rparr>) complete out st = (case as_audit s of
      None \<Rightarrow> set_stream rep (s\<lparr>as_chunks := c, as_audit := None\<rparr>) st
    | Some xi \<Rightarrow> sink_record True (xi_principal xi) (completion_event env complete xi) (completion_outcome out)
        (set_stream rep (s\<lparr>as_chunks := c, as_audit := None\<rparr>) st))"
    by (simp add: complete_stream_def exchange_finish_def)
  have ok: "streams_ok (set_stream rep (s\<lparr>as_chunks := c, as_audit := None\<rparr>) st)"
    using inv s by (intro streams_ok_set_stream) (simp_all add: http_inv_def)
  then show "streams_ok (complete_stream env rep (s\<lparr>as_chunks := c\<rparr>) complete out st)"
    by (simp add: complete_stream_def exchange_finish_def split: option.split)
  show "receipt_of (complete_stream env rep (s\<lparr>as_chunks := c\<rparr>) complete out st) = (receipt_of st)(rep := None)"
    by (simp add: complete_stream_def exchange_finish_def receipt_of_set_stream split: option.split)
qed

lemma stream_read_inv:
  assumes inv: "http_inv st" and run: "stream_read_chunk env outcome rep st = (r, st')"
  shows "http_inv st'"
proof (cases "hm_get (stream_table st) rep")
  case None
  then show ?thesis using assms by (simp add: stream_read_chunk_def)
next
  case (Some s)
  note fin = complete_stream_inv [OF inv Some, of env "as_chunks s", simplified]
  note error = complete_stream_inv [OF inv Some, of env]
  have deliver: "http_inv (set_stream rep (s\<lparr>as_chunks := c, as_audit := digest b (as_audit s)\<rparr>) st)" for b c
  proof -
    let ?st = "set_stream rep (s\<lparr>as_chunks := c, as_audit := digest b (as_audit s)\<rparr>) st"
    have r: "receipt_of ?st = receipt_of st"
      using Some by (auto simp: receipt_of_set_stream fun_eq_iff receipt_of_def digest_def option.map_comp comp_def)
    have "trail (open_exchanges st) ?st"
      using trail_same [of "open_exchanges st" st ?st] inv by (simp add: http_inv_def set_stream_def)
    then show ?thesis
      using inv streams_ok_set_stream [OF _ Some] by (simp add: http_inv_def open_exchanges_def r)
  qed
  show ?thesis
    using run inv fin error deliver unfolding stream_read_chunk_def Some option.case Let_def
    by (auto split: ReadOutcome.splits list.splits sum.splits if_splits)
qed

lemma stream_drop_inv:
  assumes inv: "http_inv st"
  shows "http_inv (stream_drop env rep st)"
proof (cases "hm_get (stream_table st) rep")
  case None
  then have "rep \<notin> set (active_http_streams st)" using inv by (auto simp: http_inv_def streams_ok_def hm_keys_iff)
  then show ?thesis using inv None by (simp add: stream_drop_def removeAll_id)
next
  case (Some s)
  let ?st1 = "st\<lparr>stream_table := hm_remove rep (stream_table st), active_http_streams := removeAll rep (active_http_streams st)\<rparr>"
  have eq: "stream_drop env rep st = (case as_audit s of None \<Rightarrow> ?st1
      | Some xi \<Rightarrow> sink_record (he_runtime env) (xi_principal xi) (completion_event env False xi) OutcomeAllowed ?st1)"
    by (simp add: stream_drop_def Some finish_detached_def sink_record_def completion_outcome_def split: option.split)
  have ok: "streams_ok ?st1"
    using inv le_trans [OF length_filter_le, of "active_http_streams st"]
    by (simp add: http_inv_def streams_ok_def hm.wf_remove hm_keys_set_remove distinct_removeAll) (simp add: removeAll_filter_not_eq)
  have r: "receipt_of ?st1 = (receipt_of st)(rep := None)" by (auto simp: receipt_of_def hm.get_remove fun_eq_iff)
  show ?thesis
    by (rule http_inv_close [OF inv Some _ eq]) (use ok r in \<open>simp_all add: eq split: option.split\<close>)
qed

lemma stream_start_inv:
  assumes inv: "http_inv st" and run: "http_stream_backend env request opts st = (r, st')"
    and fresh: "\<And>rep. he_push env = Inr rep \<Longrightarrow> hm_get (stream_table st) rep = None"
  shows "http_inv st'"
proof (cases "hl_max_concurrent_streams (http_limits st) \<le> length (active_http_streams st)")
  case True
  then show ?thesis using run inv by (simp add: http_stream_backend_def Let_def)
next
  case room: False
  let ?opts = "stream_options opts (http_limits st)"
  obtain x s1 where f: "follow_redirects env request ?opts st = (x, s1)" by (meson surj_pair)
  have "trail (open_exchanges st) st" using inv by (simp add: http_inv_def)
  note after = trail_redirects [OF this f]
  note same = http_frame_fields [OF redirects_frame [OF f]]
  show ?thesis
  proof (cases x)
    case (Inl e)
    then have "st' = s1" "trail (open_exchanges st) s1" using run room f after
      by (simp_all add: http_stream_backend_def Let_def trail_after_simps)
    then show ?thesis using http_invI [OF inv] same by simp
  next
    case (Inr y)
    obtain wire n u where y: "y = (wire, n, u)" by (metis surj_pair)
    obtain xi where xi: "w_exchange wire = Some xi" "xi_receipt xi \<notin> open_exchanges st"
        "trail (insert (xi_receipt xi) (open_exchanges st)) s1"
      using after Inr y by (auto simp: trail_after_simps)
    let ?xi = "xi\<lparr>xi_body := Some (case xi_body xi of Some b \<Rightarrow> b | None \<Rightarrow> [])\<rparr>"
    have b: "begin_body (w_exchange wire) = Some ?xi" by (simp add: begin_body_def digest_def xi(1) split: option.split)
    show ?thesis
    proof (cases "he_push env")
      case (Inl e)
      then have "st' = exchange_drop env (Some ?xi) s1"
        using run room f Inr y b by (simp add: http_stream_backend_def Let_def)
      moreover have "trail (open_exchanges st) (exchange_drop env (Some ?xi) s1)"
        using trail_finish(2) [OF xi(3), of ?xi] xi(2) by (simp add: exchange_drop_def)
      ultimately show ?thesis
        using http_invI [OF inv] same by (simp add: exchange_drop_def finish_detached_def sink_record_def)
    next
      case (Inr rep)
      obtain active where st': "st' = s1\<lparr>stream_table := hm_insert rep active (stream_table s1),
            active_http_streams := List.insert rep (active_http_streams s1)\<rparr>" and a: "as_audit active = Some ?xi"
        using run room f \<open>x = Inr y\<close> y b Inr by (simp add: http_stream_backend_def Let_def) (metis ActiveHttpStream.select_convs(6))
      have r: "receipt_of st' = (receipt_of st)(rep \<mapsto> xi_receipt xi)"
        by (auto simp: st' receipt_of_def hm.get_insert fun_eq_iff a same)
      have none: "receipt_of st rep = None" using fresh [OF Inr] by (simp add: receipt_of_def)
      have "open_exchanges st' = insert (xi_receipt xi) (open_exchanges st)"
        using none by (simp add: open_exchanges_def r)
      then have "trail (open_exchanges st') st'"
        using trail_same [OF xi(3), of st'] by (simp add: st')
      moreover have "streams_ok st'"
        using inv room by (auto simp: http_inv_def streams_ok_def st' same hm.wf_insert hm_keys_set_insert List.insert_def)
      moreover have "\<forall>q q' k. receipt_of st' q = Some k \<longrightarrow> receipt_of st' q' = Some k \<longrightarrow> q = q'"
        using inv xi(2) by (auto simp: r http_inv_def open_exchanges_def ran_def)
      ultimately show ?thesis by (simp add: http_inv_def)
    qed
  qed
qed

text \<open>
  Any sequence of host calls on one instance: buffered requests, the life of streams, approvals in between,
  and the change of the invocation that the instance serves.  The resource table gives out an index that is
  not in use.
\<close>

inductive http_step :: "HttpState \<Rightarrow> HttpState \<Rightarrow> bool" where
  request: "http_request_backend env req opts st = (r, st') \<Longrightarrow> http_step st st'"
| start: "http_stream_backend env req opts st = (r, st')
    \<Longrightarrow> (\<And>rep. he_push env = Inr rep \<Longrightarrow> hm_get (stream_table st) rep = None) \<Longrightarrow> http_step st st'"
| read: "stream_read_chunk env outcome rep st = (r, st') \<Longrightarrow> http_step st st'"
| close: "stream_close env rep st = (r, st') \<Longrightarrow> http_step st st'"
| drop: "http_step st (stream_drop env rep st)"
| approval: "approval_frame st st' \<Longrightarrow> http_step st st'"
| invocation: "http_step st (st\<lparr>caller_context := c, invocation_profile := p, invocation_profile_authorized := a,
    invocation_cancel_token := t, invocation_secret_store := s, revealed_secrets := x\<rparr>)"

lemma backend_frame:
  assumes "http_request_backend env request opts st = (r, st')"
  shows "http_frame st st'"
proof -
  obtain x s1 where f: "follow_redirects env request opts st = (x, s1)" by (meson surj_pair)
  have "http_frame s1 (snd (finalize_buffered env wire opts u n s1))" for wire u n
    unfolding finalize_buffered_def Let_def by (simp split: prod.split option.split sum.split)
  then have "http_frame s1 st'"
    using assms f by (auto simp: http_request_backend_def split: sum.splits prod.splits) (metis snd_conv)
  with redirects_frame [OF f] show ?thesis by (rule http_frame_trans)
qed

lemma http_step_inv: "http_step st st' \<Longrightarrow> http_inv st \<Longrightarrow> http_inv st'"
proof (induction rule: http_step.induct)
  case (request env req opts st r st')
  note same = http_frame_fields [OF backend_frame [OF request(1)]]
  have "trail (open_exchanges st) st'" using trail_backend [OF _ request(1)] request(2) by (simp add: http_inv_def)
  then show ?case using http_invI [OF request(2)] same by simp
next
  case (approval st st')
  note same = http_frame_fields [OF http_frame_approval(1) [OF approval(1)]]
  have "trail (open_exchanges st) st'" using approval unfolding http_inv_def by (blast intro: trail_approval)
  then show ?case using http_invI [OF approval(2)] same by simp
next
  case (close env rep st r st')
  then have "st' = stream_drop env rep st" by (simp add: stream_close_def stream_drop_def Let_def)
  then show ?case using stream_drop_inv close by simp
next
  case (invocation st c p a t s x)
  then show ?case by (rule http_invI [where opn = "open_exchanges st"]) (use invocation in \<open>simp_all add: http_inv_def trail_def\<close>)
qed (use stream_start_inv stream_read_inv stream_drop_inv in blast)+

definition fresh_instance :: "HttpState \<Rightarrow> bool" where
  "fresh_instance st \<longleftrightarrow> audit_sink st \<and> audit_log st = [] \<and> wire_log st = [] \<and> stream_table st = [] \<and> active_http_streams st = []"

lemma http_reachable_inv: "http_step\<^sup>*\<^sup>* st st' \<Longrightarrow> fresh_instance st \<Longrightarrow> http_inv st'"
proof (induction rule: rtranclp_induct)
  case base
  then show ?case
    by (simp add: fresh_instance_def http_inv_def streams_ok_def trail_def open_exchanges_def receipt_of_def hm_keys_def ran_def)
next
  case (step y z)
  then show ?case using http_step_inv by blast
qed

text \<open>
  C19.  No request leaves the host without a trail, whatever sequence of calls an instance with an audit
  sink makes: for every request on the wire the last entry before it was sent is a durable, allowed entry
  with its method and body length; and the log holds exactly one completion of that entry, unless the response is a stream that
  is still open, and then it holds none yet.
\<close>

theorem request_trail_complete:
  assumes "http_step\<^sup>*\<^sup>* st st'" "fresh_instance st" "w \<in> set (wire_log st')"
  shows "committed w (audit_log st')
    \<and> completions (audit_log st') (wr_after w - 1) = (if wr_after w - 1 \<in> open_exchanges st' then 0 else 1)"
  using http_reachable_inv [OF assms(1,2)] assms(3) by (auto simp: http_inv_def trail_def)

text \<open>
  C32.  The concurrency limit on streams holds in every sequence of calls: the number of live stream
  resources of an instance is the number the quota counts, and never exceeds the configured limit.
\<close>

theorem streams_within_quota:
  assumes "http_step\<^sup>*\<^sup>* st st'" "fresh_instance st"
  shows "length (stream_table st') = length (active_http_streams st')
    \<and> length (stream_table st') \<le> hl_max_concurrent_streams (http_limits st')"
proof -
  have s: "streams_ok st'" using http_reachable_inv [OF assms] by (simp add: http_inv_def)
  then have "distinct (hm_keys (stream_table st'))" "length (hm_keys (stream_table st')) = length (stream_table st')"
    by (simp_all add: streams_ok_def hm_wf_def hm_keys_def)
  with s show ?thesis unfolding streams_ok_def by (metis distinct_card)
qed

section \<open>What a response may hold\<close>

lemma read_body_bound:
  assumes "read_body cap limit chunks bytes = (body, None)" "length bytes \<le> unat limit"
    and "\<forall>c. cap = Some c \<longrightarrow> length bytes \<le> unat c"
  shows "length body \<le> unat limit \<and> (\<forall>c. cap = Some c \<longrightarrow> length body \<le> unat c)"
  using assms by (induction cap limit chunks bytes rule: read_body.induct) (auto split: if_splits option.splits)

lemma read_body_content:
  "read_body cap limit chunks bytes = (body, None) \<Longrightarrow> \<exists>parts. chunks = map Inr parts \<and> body = bytes @ concat parts"
proof (induction cap limit chunks bytes rule: read_body.induct)
  case (3 cap limit chunk rest bytes)
  then obtain parts where "rest = map Inr parts" "body = bytes @ chunk @ concat parts" by (auto split: if_splits option.splits)
  then show ?case by (intro exI [of _ "chunk # parts"]) simp
qed simp_all

lemma apply_timeouts_keeps [simp]:
  "ro_max_response_bytes (apply_timeouts t r) = ro_max_response_bytes r" "ro_max_redirects (apply_timeouts t r) = ro_max_redirects r"
  "ro_auto_decompress (apply_timeouts t r) = ro_auto_decompress r"
  by (simp_all add: apply_timeouts_def Let_def split: option.split)

lemma from_options_response:
  "ro_max_response_bytes (from_options opts limits) =
     (let d = min (hl_max_response_bytes limits) MAX_GUEST_PAYLOAD_LEN
      in case op_max_response_bytes opts of Some n \<Rightarrow> min n d | None \<Rightarrow> d)"
  by (simp add: from_options_def v10_defaults_def Let_def split: option.split)

lemma from_options_redirects:
  "ro_max_redirects (from_options opts limits) =
     (case op_max_redirects opts of Some n \<Rightarrow> min (unat n) (hl_max_redirects limits) | None \<Rightarrow> hl_max_redirects limits)"
  by (simp add: from_options_def v10_defaults_def Let_def split: option.split)

lemma from_options_content:
  "ro_integrity (from_options opts limits) = op_integrity opts"
  "ro_max_decompressed_bytes (from_options opts limits) = op_max_decompressed_bytes opts"
  "ro_auto_decompress (from_options opts limits) = (op_auto_decompress opts \<noteq> Some False)"
  by (simp_all add: from_options_def v10_defaults_def Let_def split: option.split)

lemma redirects_count:
  assumes "follow_redirects env request opts st = (Inr (wire, n, u), st')"
  shows "n \<le> ro_max_redirects opts"
proof -
  let ?Q = "\<lambda>r (_ :: HttpState). case r of Inl _ \<Rightarrow> True | Inr (_ :: WireResponse, n, _ :: Url) \<Rightarrow> n \<le> ro_max_redirects opts"
  have "case follow_loop env opts meth headers cur body 0 st of (r, s') \<Rightarrow> ?Q r s'" for meth headers cur body
    by (rule follow_loop_rule [where I = "\<lambda>n _ _ _ _. n \<le> ro_max_redirects opts" and Q = ?Q])
       (auto dest: redirect_step_bound)
  then have "case follow_redirects env request opts st of (r, s') \<Rightarrow> ?Q r s'"
    unfolding follow_redirects_def by (simp split: sum.split option.split)
  with assms show ?thesis by simp
qed

lemma finalize_buffered_Inr:
  assumes "finalize_buffered env wire opts u n st = (Inr resp, st')"
  shows "read_body (if ro_auto_decompress opts then ro_max_decompressed_bytes opts else None) (ro_max_response_bytes opts)
      (rs_chunks (w_response wire)) [] = (resp_body resp, None)"
    "me_redirect_count (resp_meta resp) = n" "resp_status resp = rs_status (w_response wire)"
    "\<forall>i. ro_integrity opts = Some i \<longrightarrow>
       verify_integrity (he_base64 env) (he_base64_no_pad env) (he_sha env) i (resp_body resp) = Inr ()"
  using assms by (auto simp: finalize_buffered_def Let_def split: prod.splits option.splits sum.splits)

text \<open>
  C31.  A response stays within its limits: the body that a call with options returns has at most the bytes
  that the host payload limit, the operator and the caller allow, and at most the decompressed bytes the
  caller allows unless decompression is off; the call followed at most the redirects that the operator and
  the caller allow; and a body with a requested digest matches it.
\<close>

theorem response_within_limits:
  assumes "http_request_opts env request options st = (Inr resp, st')"
  shows "length (resp_body resp) \<le> unat MAX_GUEST_PAYLOAD_LEN
    \<and> length (resp_body resp) \<le> unat (hl_max_response_bytes (http_limits st))
    \<and> (\<forall>n. op_max_response_bytes options = Some n \<longrightarrow> length (resp_body resp) \<le> unat n)
    \<and> (\<forall>n. op_max_decompressed_bytes options = Some n \<longrightarrow> op_auto_decompress options \<noteq> Some False
         \<longrightarrow> length (resp_body resp) \<le> unat n)
    \<and> me_redirect_count (resp_meta resp) \<le> hl_max_redirects (http_limits st)
    \<and> (\<forall>n. op_max_redirects options = Some n \<longrightarrow> me_redirect_count (resp_meta resp) \<le> unat n)
    \<and> (\<forall>i. op_integrity options = Some i
         \<longrightarrow> verify_integrity (he_base64 env) (he_base64_no_pad env) (he_sha env) i (resp_body resp) = Inr ())"
proof -
  let ?opts = "from_options options (http_limits st)"
  obtain wire n u s1 where f: "follow_redirects env request ?opts st = (Inr (wire, n, u), s1)"
      and b: "finalize_buffered env wire ?opts u n s1 = (Inr resp, st')"
    using assms by (auto simp: http_request_opts_def http_request_backend_def split: prod.splits sum.splits)
  note r = finalize_buffered_Inr [OF b]
  have body: "length (resp_body resp) \<le> unat (ro_max_response_bytes ?opts)"
    and d: "\<forall>c. (if ro_auto_decompress ?opts then ro_max_decompressed_bytes ?opts else None) = Some c
      \<longrightarrow> length (resp_body resp) \<le> unat c"
    using read_body_bound [OF r(1)] by auto
  have m: "length (resp_body resp) \<le> unat k" if "ro_max_response_bytes ?opts \<le> k" for k
    using that body by (simp add: word_le_nat_alt)
  have caps: "ro_max_response_bytes ?opts \<le> MAX_GUEST_PAYLOAD_LEN"
      "ro_max_response_bytes ?opts \<le> hl_max_response_bytes (http_limits st)"
      "\<forall>n. op_max_response_bytes options = Some n \<longrightarrow> ro_max_response_bytes ?opts \<le> n"
    by (auto simp: from_options_response Let_def min_le_iff_disj split: option.split)
  have hops: "n \<le> hl_max_redirects (http_limits st)" "\<forall>k. op_max_redirects options = Some k \<longrightarrow> n \<le> unat k"
    using redirects_count [OF f] by (auto simp: from_options_redirects split: option.splits)
  show ?thesis
    using m [OF caps(1)] m [OF caps(2)] m caps(3) hops r(2,4) d by (simp add: from_options_content)
qed

section \<open>A concrete instance\<close>

text \<open>
  An API on \<open>x.test\<close> redirects a call with an injected secret to another host, which answers.  The digests
  and decoders of the environment are stand-ins.
\<close>

definition web_url :: "string \<Rightarrow> string \<Rightarrow> Url" where
  "web_url host path =
     \<lparr>url_text = ''https://'' @ host @ path, url_scheme = ''https'', url_host = Some host, url_port = Some 443,
      url_path = path, url_query = None\<rparr>"

definition web_parse :: "string \<Rightarrow> Url option" where
  "web_parse s =
     (if s = ''https://x.test/v1'' then Some (web_url ''x.test'' ''/v1'')
      else if s = ''https://y.test/f'' then Some (web_url ''y.test'' ''/f'') else None)"

definition web_env :: HttpEnv where
  "web_env =
     \<lparr>he_url_parse = web_parse, he_join = (\<lambda>_. web_parse), he_header_name = Some, he_header_value = (\<lambda>_. True),
      he_to_str = Some, he_method = Some, he_bypass = False, he_hash = (\<lambda>_. ''h''), he_form_decode = (\<lambda>s. s),
      he_base64 = Some, he_base64_no_pad = Some, he_sha = (\<lambda>_ _. []), he_error_text = (\<lambda>_. ''e''),
      he_approval = (\<lambda>_. demo_env []), he_client_error = (\<lambda>_. None), he_lookups = (\<lambda>_ _. []),
      he_send = (\<lambda>n w _. Answered
        (if n = 0 then \<lparr>rs_status = 302, rs_headers = [(''location'', ''https://y.test/f'')], rs_content_length = None, rs_chunks = []\<rparr>
         else \<lparr>rs_status = 200, rs_headers = [], rs_content_length = None, rs_chunks = [Inr ''ok'']\<rparr>)),
      he_elapsed = 7, he_runtime = True, he_push = Inr 0\<rparr>"

definition web_state :: HttpState where
  "web_state = HostState.extend demo_host
     \<lparr>security = Some (check_http_request web_parse [''*'']), secret_env = [''key''], secret_store = (\<lambda>_. Inr (Some ''s3cret'')),
      invocation_secret_store = None, system_secrets = None, revealed_secrets = [], http_limits = HttpLimits_default,
      stream_table = [], active_http_streams = [], wire_log = []\<rparr>"

definition web_request :: HttpRequestData where
  "web_request = \<lparr>rd_url = ''https://x.test/v1'', rd_method = MGet,
     rd_headers = [(''authorization'', ''Bearer {{secret:key}}''), (''accept'', ''text'')], rd_body = None\<rparr>"

abbreviation web_run :: "(ErrorCode, HttpResponseData) result \<times> HttpState" where
  "web_run \<equiv> http_request_backend web_env web_request (v10_defaults HttpLimits_default) web_state"

lemma web_parse_simps [simp]:
  "web_parse ''https://x.test/v1'' = Some (web_url ''x.test'' ''/v1'')"
  "web_parse ''https://y.test/f'' = Some (web_url ''y.test'' ''/f'')"
  by (simp_all add: web_parse_def)

lemma web_env_fields [simp]:
  "he_url_parse web_env = web_parse" "he_join web_env b = web_parse" "he_header_name web_env = Some"
  "he_header_value web_env v" "he_to_str web_env = Some" "\<not> he_bypass web_env" "he_client_error web_env n = None"
  "he_lookups web_env n w = []"
  "he_send web_env n w a = Answered
     (if n = 0 then \<lparr>rs_status = 302, rs_headers = [(''location'', ''https://y.test/f'')], rs_content_length = None, rs_chunks = []\<rparr>
      else \<lparr>rs_status = 200, rs_headers = [], rs_content_length = None, rs_chunks = [Inr ''ok'']\<rparr>)"
  by (simp_all add: web_env_def)

lemma to_digit_hex: "to_digit 16 c = None \<Longrightarrow> to_digit 10 c = None"
  by (auto simp: to_digit_def Let_def split: if_splits)

lemma literal_ip_name:
  assumes "to_digit 16 c = None" "c \<noteq> CHR '':''" "c \<noteq> CHR ''[''"
  shows "literal_ip (c # s) = None"
proof -
  have n: "read_number 16 m z l (c # s) = None" "read_number 10 m z l (c # s) = None" for m z l
    using assms(1) to_digit_hex [OF assms(1)] by (simp_all add: read_number_def)
  have v4: "read_ipv4_addr (c # s) = None" by (simp add: read_ipv4_addr_def read_octet_def read_separator_def n)
  have "read_groups (Suc k) 0 (c # s) = ([], False, c # s)" for k by (simp add: read_separator_def n v4)
  from this [of 7] have "read_groups 8 0 (c # s) = ([], False, c # s)" by simp
  then have "read_ipv6_addr (c # s) = None" using assms(2) by (simp add: read_ipv6_addr_def Let_def)
  then show ?thesis using assms(3) v4 by (simp add: literal_ip_def Let_def parse_ip_addr_def)
qed

lemma web_literal [simp]: "literal_ip ''x.test'' = None" "literal_ip ''y.test'' = None"
  by (rule literal_ip_name; code_simp)+

lemma web_principal: "principal_egress_allows web_state host port"
  by (simp add: principal_egress_allows_def invocation_authority_active_def effective_cancelled_def effective_profile_def
      web_state_def HostState.extend_def demo_host_def PrincipalProfile_default_def)

lemma web_gate: "url = ''https://x.test/v1'' \<or> url = ''https://y.test/f'' \<Longrightarrow> check_http_security web_env url meth web_state = Inr ()"
  by (auto simp: check_http_security_def web_state_def HostState.extend_def check_http_request_def web_url_def)

lemma web_state_fields [simp]:
  "local_egress web_state = []" "secret_env web_state = [''key'']" "resolve_secret web_state n = ''s3cret''" "wire_log web_state = []"
  by (simp_all add: web_state_def HostState.extend_def demo_host_def resolve_secret_def effective_secret_store_def)

text \<open>A hop of the instance to one of the two URLs is sent and answered.\<close>

lemma web_hop:
  assumes f: "http_frame web_state s" and u: "u = web_url ''x.test'' ''/v1'' \<or> u = web_url ''y.test'' ''/f''"
    and i: "inject_credentials web_env headers web_state = Inr injected"
  shows "\<exists>ex w s'. send_one_hop web_env (url_text u) meth headers body opts n s =
      (Inr \<lparr>w_response = (case he_send web_env n w [] of Answered r \<Rightarrow> r), w_content_length = None, w_exempt = False, w_exchange = ex\<rparr>, s')
    \<and> wire_log s' = wire_log s @ [w] \<and> http_frame web_state s' \<and> wr_url w = url_text u \<and> wr_headers w = fst injected"
proof -
  have p: "web_parse (url_text u) = Some u" using u by (auto simp: web_url_def web_parse_def)
  obtain host where h: "url_host u = Some host" "url_port u = Some 443" "url_scheme u = ''https''" "literal_ip host = None"
    using u by (auto simp: web_url_def)
  note view = http_frame_fields [OF f] http_frame_views [OF f]
  have g: "check_http_security web_env (url_text u) meth s = Inr ()"
    using web_gate [of "url_text u" meth] u by (auto simp: view web_url_def)
  have e: "egress_decision_with_consent web_parse False a (url_text u) s = (Inr None, s)" for a
    by (simp add: egress_decision_with_consent_def egress_decision_def p h view egress_allowed_def)
  have j: "inject_credentials web_env headers s = Inr injected"
    using i unfolding inject_credentials_def view .
  have run: "send_one_hop web_env (url_text u) meth headers body opts n s = transmit web_env u (url_text u) meth headers injected body opts None n s"
    unfolding send_one_hop_def using web_principal [of host "Some 443"]
    by (simp add: check_scheme_def p h http_frame_views(1) [OF f] g e j Let_def)
  obtain r s' where t: "transmit web_env u (url_text u) meth headers injected body opts None n s = (r, s')" by (meson surj_pair)
  have "\<exists>ex w. r = Inr \<lparr>w_response = (case he_send web_env n w [] of Answered r \<Rightarrow> r), w_content_length = None, w_exempt = False, w_exchange = ex\<rparr>"
    using t by (auto simp: transmit_def build_http_client_def Let_def split: prod.splits)
  moreover have "\<exists>w. wire_log s' = wire_log s @ [w] \<and> http_frame web_state s' \<and> wr_url w = url_text u \<and> wr_headers w = fst injected"
    using t by (cases rule: transmit_wire) (use calculation http_frame_trans [OF f] in auto)
  ultimately show ?thesis using run t by auto
qed

lemma web_trim [simp]: "trim ''s3cret'' = ''s3cret''"
  by (rule trim_ends) (simp_all add: is_ascii_graphic_def char_code_def)

lemma web_inject:
  "inject_credentials web_env [(''authorization'', ''Bearer {{secret:key}}''), (''accept'', ''text'')] web_state =
     Inr ([(''authorization'', ''Bearer s3cret''), (''accept'', ''text'')], [''key''])"
  "inject_credentials web_env [(''accept'', ''text'')] web_state = Inr ([(''accept'', ''text'')], [])"
  by (simp_all add: inject_credentials_def has_placeholder_def substitute_def and_then_def OPEN_def CLOSE_def
      secret_name_ok_def char_code_def ascii_defs substitute_loop.simps)

lemma web_follow:
  assumes "ro_redirect opts = FollowRedirects" "0 < ro_max_redirects opts"
  shows "\<exists>ex w0 w1 s. follow_redirects web_env web_request opts web_state =
      (Inr (\<lparr>w_response = \<lparr>rs_status = 200, rs_headers = [], rs_content_length = None, rs_chunks = [Inr ''ok'']\<rparr>,
         w_content_length = None, w_exempt = False, w_exchange = ex\<rparr>, 1, web_url ''y.test'' ''/f''), s)
    \<and> wire_log s = [w0, w1] \<and> wr_url w0 = ''https://x.test/v1'' \<and> wr_url w1 = ''https://y.test/f''
    \<and> wr_headers w0 = [(''authorization'', ''Bearer s3cret''), (''accept'', ''text'')] \<and> wr_headers w1 = [(''accept'', ''text'')]"
proof -
  let ?h0 = "[(''authorization'', ''Bearer {{secret:key}}''), (''accept'', ''text'')]"
  let ?a = "web_url ''x.test'' ''/v1''" and ?b = "web_url ''y.test'' ''/f''"
  let ?r0 = "\<lparr>rs_status = 302, rs_headers = [(''location'', ''https://y.test/f'')], rs_content_length = None, rs_chunks = []\<rparr>"
  let ?r1 = "\<lparr>rs_status = 200, rs_headers = [], rs_content_length = None, rs_chunks = [Inr ''ok'']\<rparr>"
  obtain ex0 w0 s0 where h0: "send_one_hop web_env (url_text ?a) ''GET'' ?h0 None opts 0 web_state =
        (Inr \<lparr>w_response = ?r0, w_content_length = None, w_exempt = False, w_exchange = ex0\<rparr>, s0)"
      and w0: "wire_log s0 = [w0]" "http_frame web_state s0" "wr_url w0 = url_text ?a"
        "wr_headers w0 = [(''authorization'', ''Bearer s3cret''), (''accept'', ''text'')]"
    using web_hop [OF http_frame_refl, of ?a ?h0 _ "''GET''" None opts 0] web_inject(1) by auto
  define s1 where "s1 = exchange_finish web_env False OutcomeAllowed ex0 s0"
  have s1: "http_frame web_state s1" "wire_log s1 = [w0]"
    using http_frame_trans [OF w0(2)] w0(1) by (simp_all add: s1_def)
  obtain ex1 w1 s2 where h1: "send_one_hop web_env (url_text ?b) ''GET'' [(''accept'', ''text'')] None opts 1 s1 =
        (Inr \<lparr>w_response = ?r1, w_content_length = None, w_exempt = False, w_exchange = ex1\<rparr>, s2)"
      and w1: "wire_log s2 = [w0, w1]" "wr_url w1 = url_text ?b" "wr_headers w1 = [(''accept'', ''text'')]"
    using web_hop [OF s1(1), of ?b "[(''accept'', ''text'')]" _ "''GET''" None opts 1] web_inject(2) s1(2) by auto
  have step: "redirect_step web_env opts False 0 ?a ''https://y.test/f'' = Inr (Some ?b)"
    using assms by (simp add: redirect_step_def redirect_target_blocked_def) (simp add: web_url_def)
  have next_h: "next_headers ?a ?b d ?h0 = [(''accept'', ''text'')]" for d
    by (simp add: next_headers_def same_origin_def web_url_def strip_credentials_def hdr_remove_def strip_injected_def has_placeholder_def OPEN_def Let_def)
  have l1: "follow_loop web_env opts ''GET'' [(''accept'', ''text'')] ?b None 1 s1 =
      (Inr (\<lparr>w_response = ?r1, w_content_length = None, w_exempt = False, w_exchange = ex1\<rparr>, 1, ?b), s2)"
    by (subst follow_loop.simps) (simp add: h1 [simplified] Let_def)
  have "follow_loop web_env opts ''GET'' ?h0 ?a None 0 web_state =
      (Inr (\<lparr>w_response = ?r1, w_content_length = None, w_exempt = False, w_exchange = ex1\<rparr>, 1, ?b), s2)"
    by (subst follow_loop.simps) (simp add: h0 Let_def hdr_get_def step downgrades_def next_h s1_def [symmetric] l1 [simplified])
  then have f: "follow_redirects web_env web_request opts web_state =
      (Inr (\<lparr>w_response = ?r1, w_content_length = None, w_exempt = False, w_exchange = ex1\<rparr>, 1, ?b), s2)"
    by (simp add: follow_redirects_def web_request_def map_method_def build_headers_def)
  show ?thesis
    by (rule exI [of _ ex1], rule exI [of _ w0], rule exI [of _ w1], rule exI [of _ s2]) (use f w0 w1 in \<open>simp add: web_url_def\<close>)
qed

lemma web_backend:
  "\<exists>resp st' w0 w1. web_run = (Inr resp, st') \<and> resp_body resp = ''ok'' \<and> wire_log st' = [w0, w1]
    \<and> wr_url w1 = ''https://y.test/f'' \<and> wr_headers w1 = [(''accept'', ''text'')]"
proof -
  let ?o = "v10_defaults HttpLimits_default"
  have o: "ro_redirect ?o = FollowRedirects" "0 < ro_max_redirects ?o"
    by (simp_all add: v10_defaults_def HttpLimits_default_def MAX_HTTP_REDIRECTS_def)
  have b: "\<not> unat (ro_max_response_bytes ?o) < Suc (Suc 0)"
    by (simp add: v10_defaults_def HttpLimits_default_def MAX_GUEST_PAYLOAD_LEN_def)
  have i: "ro_integrity ?o = None" "(if ro_auto_decompress ?o then ro_max_decompressed_bytes ?o else None) = None"
    by (simp_all add: v10_defaults_def)
  from web_follow [OF o] show ?thesis
    by (elim exE conjE) (simp add: http_request_backend_def finalize_buffered_def i b Let_def)
qed

lemma web_law: "url_law web_env"
  by (auto simp: url_law_def web_parse_def web_url_def split: if_splits)

lemma web_store: "allowance_store web_state = Some store \<Longrightarrow> store_ok store"
  using store_ok_new by (simp add: web_state_def HostState.extend_def demo_host_def)

theorem http_hops_guarded_witness:
  "\<exists>r st' w0 w1. web_run = (r, st') \<and> wire_log st' = [w0, w1]
    \<and> hop_guarded web_env (v10_defaults HttpLimits_default) web_state 0 w0
    \<and> hop_guarded web_env (v10_defaults HttpLimits_default) web_state 1 w1"
proof -
  obtain resp st' w0 w1 where run: "web_run = (Inr resp, st')" and w: "wire_log st' = [w0, w1]" using web_backend by blast
  obtain ws where "[w0, w1] = ws" "\<forall>i < length ws. hop_guarded web_env (v10_defaults HttpLimits_default) web_state i (ws ! i)"
    using http_hops_guarded [OF run web_law web_store] w by auto
  then have "hop_guarded web_env (v10_defaults HttpLimits_default) web_state 0 w0"
      "hop_guarded web_env (v10_defaults HttpLimits_default) web_state 1 w1"
    by (metis length_Cons nth_Cons_0 zero_less_Suc) (use \<open>[w0, w1] = ws\<close> \<open>\<forall>i < length ws. _ i\<close> in force)
  with run w show ?thesis by blast
qed

theorem secrets_stay_on_origin_witness:
  "\<exists>r st' w0 w1. web_run = (r, st') \<and> wire_log st' = [w0, w1] \<and> wr_url w1 = ''https://y.test/f''
    \<and> plain_headers (rd_headers web_request) (wr_headers w1)"
proof -
  obtain resp st' w0 w1 where run: "web_run = (Inr resp, st')" and w: "wire_log st' = [w0, w1]" "wr_url w1 = ''https://y.test/f''"
    using web_backend by blast
  have o: "he_url_parse web_env (rd_url web_request) = Some (web_url ''x.test'' ''/v1'')"
      "build_headers web_env (rd_headers web_request) = Inr (rd_headers web_request)"
    by (simp_all add: web_request_def build_headers_def)
  obtain ws where ws: "ws = [w0, w1]" and h: "\<forall>i < length ws. \<forall>u. he_url_parse web_env (wr_url (ws ! i)) = Some u
      \<longrightarrow> \<not> same_origin (web_url ''x.test'' ''/v1'') u \<longrightarrow> plain_headers (rd_headers web_request) (wr_headers (ws ! i))"
    using secrets_stay_on_origin [OF run web_law o] w by auto
  from h [rule_format, of 1 "web_url ''y.test'' ''/f''"] w ws have "plain_headers (rd_headers web_request) (wr_headers w1)"
    by (simp add: same_origin_def web_url_def)
  with run w show ?thesis by blast
qed

lemma web_fresh: "fresh_instance web_state"
  by (simp add: fresh_instance_def web_state_def HostState.extend_def demo_host_def)

theorem request_trail_complete_witness:
  "\<exists>r st' w0 w1. web_run = (r, st') \<and> wire_log st' = [w0, w1] \<and> committed w0 (audit_log st') \<and> committed w1 (audit_log st')
    \<and> completions (audit_log st') (wr_after w0 - 1) = 1 \<and> completions (audit_log st') (wr_after w1 - 1) = 1"
proof -
  obtain resp st' w0 w1 where run: "web_run = (Inr resp, st')" and w: "wire_log st' = [w0, w1]" using web_backend by blast
  have s: "http_step\<^sup>*\<^sup>* web_state st'" using http_step.request [OF run] by blast
  have "stream_table st' = []"
    using http_frame_fields(8) [OF backend_frame [OF run]] web_fresh by (simp add: fresh_instance_def)
  then have "open_exchanges st' = {}" by (simp add: open_exchanges_def receipt_of_def ran_def)
  with request_trail_complete [OF s web_fresh, of w0] request_trail_complete [OF s web_fresh, of w1] w run show ?thesis by simp
qed

theorem streams_within_quota_witness:
  "\<exists>st'. http_stream_backend web_env web_request (v10_defaults HttpLimits_default) web_state = (Inr 0, st')
    \<and> length (stream_table st') = 1 \<and> length (stream_table st') \<le> hl_max_concurrent_streams (http_limits st')"
proof -
  let ?o = "v10_defaults HttpLimits_default"
  let ?so = "stream_options ?o (http_limits web_state)"
  have o: "ro_redirect ?so = FollowRedirects" "0 < ro_max_redirects ?so"
    by (simp_all add: stream_options_def Let_def v10_defaults_def HttpLimits_default_def MAX_HTTP_REDIRECTS_def)
  obtain wire u s where f: "follow_redirects web_env web_request ?so web_state = (Inr (wire, 1, u), s)"
    using web_follow [OF o] by blast
  note same = http_frame_fields [OF redirects_frame [OF f]]
  have z: "active_http_streams web_state = []" "stream_table web_state = []" "http_limits web_state = HttpLimits_default"
    "he_push web_env = Inr 0"
    by (simp_all add: web_state_def HostState.extend_def web_env_def)
  obtain st' where run: "http_stream_backend web_env web_request ?o web_state = (Inr 0, st')"
      and len: "length (stream_table st') = 1"
    using f z same by (auto simp: http_stream_backend_def Let_def HttpLimits_default_def hm_insert_def)
  have "http_step\<^sup>*\<^sup>* web_state st'" using http_step.start [OF run] z by auto
  from streams_within_quota [OF this web_fresh] run len show ?thesis by blast
qed

theorem response_within_limits_witness:
  "\<exists>resp st'. http_request_opts web_env web_request
       \<lparr>op_timeouts = None, op_redirect = None, op_max_redirects = None, op_max_response_bytes = None,
        op_max_decompressed_bytes = None, op_auto_decompress = None, op_https_only = None, op_integrity = None\<rparr> web_state
       = (Inr resp, st')
     \<and> resp_body resp = ''ok'' \<and> length (resp_body resp) \<le> unat MAX_GUEST_PAYLOAD_LEN"
proof -
  let ?opts = "\<lparr>op_timeouts = None, op_redirect = None, op_max_redirects = None, op_max_response_bytes = None,
        op_max_decompressed_bytes = None, op_auto_decompress = None, op_https_only = None, op_integrity = None\<rparr>"
  obtain resp st' where r: "web_run = (Inr resp, st')" "resp_body resp = ''ok''" using web_backend by blast
  have "from_options ?opts (http_limits web_state) = v10_defaults HttpLimits_default"
    by (simp add: from_options_def v10_defaults_def Let_def web_state_def HostState.extend_def)
  with r have run: "http_request_opts web_env web_request ?opts web_state = (Inr resp, st')" by (simp add: http_request_opts_def)
  from response_within_limits [OF this] run r show ?thesis by blast
qed

end
