(* ===== verification/Capability_Token.thy ===== *)
theory Capability_Token
  imports Allowance Text_Format Kv_Store
begin

text \<open>
  Signed capability tokens: \<open>crates/astrid-capabilities/src/{token.rs, pattern.rs, error.rs}\<close>.

  Code outside the repository is the record \<open>TokenEnv\<close>: glob compilation (\<open>globset\<close>), signature
  verification and the content hash, the text form of a UUID, the JSON form of a token's fields, and the
  range of \<open>chrono\<close>.  A glob matcher is the predicate it decides, a key pair is its public key with its
  signing function, a UUID is its sixteen bytes, and an instant is a number of nanoseconds since the epoch.
  The addition of the clock skew to an expiry is exact: the last half minute of the range of \<open>chrono\<close> is
  not modelled.
\<close>

section \<open>Environment and errors\<close>

type_synonym Uuid = string
type_synonym TokenId = Uuid
type_synonym Timestamp = int
type_synonym GlobMatcher = "string \<Rightarrow> bool"

datatype TokenScope = SessionScope | PersistentScope

text \<open>The fields of a token as \<open>serde\<close> sees them: the resource pattern and the principal are strings.\<close>

record TokenWire =
  tw_id :: TokenId
  tw_resource :: string
  tw_permissions :: "Permission list"
  tw_issued_at :: Timestamp
  tw_expires_at :: "Timestamp option"
  tw_scope :: TokenScope
  tw_issuer :: string
  tw_user_id :: string
  tw_approval_audit_id :: Uuid
  tw_single_use :: bool
  tw_principal :: string
  tw_signature :: string

record TokenEnv =
  te_glob :: "string \<Rightarrow> GlobMatcher option"
  te_verify :: "string \<Rightarrow> string \<Rightarrow> string \<Rightarrow> bool"
  te_hash :: "string \<Rightarrow> string"
  te_uuid_string :: "Uuid \<Rightarrow> string"
  te_uuid_parse :: "string \<Rightarrow> Uuid option"
  te_json_write :: "TokenWire \<Rightarrow> string option"
  te_json_read :: "string \<Rightarrow> TokenWire option"
  te_try_seconds :: "int \<Rightarrow> int option"
  te_datetime_max :: Timestamp

record KeyPair =
  kp_public :: string
  kp_sign :: "string \<Rightarrow> string"

definition key_id :: "KeyPair \<Rightarrow> string" where
  "key_id self = take 8 (kp_public self)"

datatype PatternFault = PathTraversal | GlobRejected

text \<open>The texts of storage errors, as values.\<close>

datatype StorageFault =
    KvFault StorageError
  | PrincipalRetiring PrincipalId
  | CorruptTokenIndex TokenId
  | InvalidIndexPrincipal string TokenId
  | PurgeFailures "(string \<times> string \<times> StorageError) list"

datatype CapabilityError =
    TokenExpired TokenId
  | TokenRevoked TokenId
  | TokenNotFound TokenId
  | TokenAlreadyUsed TokenId
  | InsufficientPermission Permission string
  | InvalidSignature
  | InvalidPattern string PatternFault
  | StorageFailed StorageFault
  | CryptoFailed
  | SerializationFailed

section \<open>Resource patterns\<close>

record ResourcePattern =
  rp_pattern :: string
  rp_matcher :: "GlobMatcher option"

definition contains_path_traversal :: "string \<Rightarrow> bool" where
  "contains_path_traversal s =
     (let path = (case split_at_str ''://'' s of Some (_, rest) \<Rightarrow> rest | None \<Rightarrow> s)
      in list_ex (\<lambda>segment. segment = ''..'') (split_on CHR ''/'' path))"

definition ResourcePattern_new :: "TokenEnv \<Rightarrow> string \<Rightarrow> (CapabilityError, ResourcePattern) result" where
  "ResourcePattern_new te pattern =
     (if contains_path_traversal pattern then Inl (InvalidPattern pattern PathTraversal)
      else if CHR ''*'' \<in> set pattern \<or> CHR ''?'' \<in> set pattern \<or> CHR ''['' \<in> set pattern
      then (case te_glob te pattern of
              None \<Rightarrow> Inl (InvalidPattern pattern GlobRejected)
            | Some glob \<Rightarrow> Inr \<lparr>rp_pattern = pattern, rp_matcher = Some glob\<rparr>)
      else Inr \<lparr>rp_pattern = pattern, rp_matcher = None\<rparr>)"

definition ResourcePattern_exact :: "string \<Rightarrow> (CapabilityError, ResourcePattern) result" where
  "ResourcePattern_exact pattern =
     (if contains_path_traversal pattern then Inl (InvalidPattern pattern PathTraversal)
      else Inr \<lparr>rp_pattern = pattern, rp_matcher = None\<rparr>)"

definition file_dir :: "TokenEnv \<Rightarrow> string \<Rightarrow> (CapabilityError, ResourcePattern) result" where
  "file_dir te path = ResourcePattern_new te (''file://'' @ path @ ''/**'')"

definition file_exact :: "string \<Rightarrow> (CapabilityError, ResourcePattern) result" where
  "file_exact path = ResourcePattern_exact (''file://'' @ path)"

definition mcp_tool :: "string \<Rightarrow> string \<Rightarrow> (CapabilityError, ResourcePattern) result" where
  "mcp_tool server tool = ResourcePattern_exact (''mcp://'' @ server @ '':'' @ tool)"

definition mcp_server :: "TokenEnv \<Rightarrow> string \<Rightarrow> (CapabilityError, ResourcePattern) result" where
  "mcp_server te server = ResourcePattern_new te (''mcp://'' @ server @ '':*'')"

definition resource_matches :: "ResourcePattern \<Rightarrow> string \<Rightarrow> bool" where
  "resource_matches self resource =
     (if contains_path_traversal resource then False
      else case rp_matcher self of
             Some matcher \<Rightarrow> matcher resource
           | None \<Rightarrow> rp_pattern self = resource)"

section \<open>Tokens\<close>

record CapabilityToken =
  tok_id :: TokenId
  tok_resource :: ResourcePattern
  tok_permissions :: "Permission list"
  tok_issued_at :: Timestamp
  tok_expires_at :: "Timestamp option"
  tok_scope :: TokenScope
  tok_issuer :: string
  tok_user_id :: string
  tok_approval_audit_id :: Uuid
  tok_single_use :: bool
  tok_principal :: PrincipalId
  tok_signature :: string

definition SIGNING_DATA_VERSION :: char where
  "SIGNING_DATA_VERSION = CHR 0x02"

definition DEFAULT_CLOCK_SKEW_SECS :: int where
  "DEFAULT_CLOCK_SKEW_SECS = 30"

text \<open>\<open>to_le_bytes\<close> of an integer of \<open>k\<close> bytes; a larger number wraps, as the cast \<open>as u32\<close> does.\<close>

fun le_bytes :: "nat \<Rightarrow> nat \<Rightarrow> string" where
  "le_bytes 0 n = []"
| "le_bytes (Suc k) n = char_of (n mod 256) # le_bytes k (n div 256)"

definition i64_le_bytes :: "int \<Rightarrow> string" where
  "i64_le_bytes i = le_bytes 8 (nat (i mod 2 ^ 64))"

definition write_length_prefixed :: "string \<Rightarrow> string" where
  "write_length_prefixed bytes = le_bytes 4 (length bytes) @ bytes"

fun scope_string :: "TokenScope \<Rightarrow> string" where
  "scope_string SessionScope = ''session''"
| "scope_string PersistentScope = ''persistent''"

fun permission_string :: "Permission \<Rightarrow> string" where
  "permission_string PermRead = ''read''"
| "permission_string PermWrite = ''write''"
| "permission_string PermExecute = ''execute''"
| "permission_string PermDelete = ''delete''"
| "permission_string PermInvoke = ''invoke''"
| "permission_string PermList = ''list''"
| "permission_string PermCreate = ''create''"

text \<open>\<open>DateTime::timestamp\<close>: whole seconds, rounded down.\<close>

definition timestamp_secs :: "Timestamp \<Rightarrow> int" where
  "timestamp_secs t = t div 1000000000"

definition signing_data :: "CapabilityToken \<Rightarrow> string" where
  "signing_data self =
     [SIGNING_DATA_VERSION]
     @ write_length_prefixed (tok_id self)
     @ write_length_prefixed (rp_pattern (tok_resource self))
     @ le_bytes 4 (length (tok_permissions self))
     @ concat (map (\<lambda>perm. write_length_prefixed (permission_string perm)) (tok_permissions self))
     @ i64_le_bytes (timestamp_secs (tok_issued_at self))
     @ (case tok_expires_at self of
          Some expires \<Rightarrow> CHR 0x01 # i64_le_bytes (timestamp_secs expires)
        | None \<Rightarrow> [CHR 0x00])
     @ write_length_prefixed (scope_string (tok_scope self))
     @ tok_issuer self
     @ tok_user_id self
     @ write_length_prefixed (tok_approval_audit_id self)
     @ [if tok_single_use self then CHR 0x01 else CHR 0x00]
     @ write_length_prefixed (pid_str (tok_principal self))"

text \<open>
  Creation reads the clock twice, for the issue and for the expiry.  \<open>None\<close> is the panic of \<open>chrono\<close>'s
  addition when the expiry lies beyond its range.
\<close>

definition token_expiry :: "TokenEnv \<Rightarrow> Timestamp \<Rightarrow> int option \<Rightarrow> Timestamp option option" where
  "token_expiry te now ttl =
     (case ttl of
        None \<Rightarrow> Some None
      | Some d \<Rightarrow> if te_datetime_max te < now + d then None else Some (Some (now + d)))"

definition create_with_options ::
  "TokenEnv \<Rightarrow> TokenId \<Rightarrow> Timestamp \<Rightarrow> Timestamp \<Rightarrow> ResourcePattern \<Rightarrow> Permission list \<Rightarrow> TokenScope \<Rightarrow> string
     \<Rightarrow> Uuid \<Rightarrow> KeyPair \<Rightarrow> int option \<Rightarrow> bool \<Rightarrow> PrincipalId \<Rightarrow> CapabilityToken option" where
  "create_with_options te fresh_id issued_at now resource permissions sc user_id approval_audit_id runtime_key
     ttl single_use p =
     map_option (\<lambda>expires_at.
       let token = \<lparr>tok_id = fresh_id, tok_resource = resource, tok_permissions = permissions,
             tok_issued_at = issued_at, tok_expires_at = expires_at, tok_scope = sc,
             tok_issuer = kp_public runtime_key, tok_user_id = user_id,
             tok_approval_audit_id = approval_audit_id, tok_single_use = single_use,
             tok_principal = p, tok_signature = replicate 64 (CHR 0x00)\<rparr>
       in token\<lparr>tok_signature := kp_sign runtime_key (signing_data token)\<rparr>)
     (token_expiry te now ttl)"

definition create_token ::
  "TokenEnv \<Rightarrow> TokenId \<Rightarrow> Timestamp \<Rightarrow> Timestamp \<Rightarrow> ResourcePattern \<Rightarrow> Permission list \<Rightarrow> TokenScope \<Rightarrow> string
     \<Rightarrow> Uuid \<Rightarrow> KeyPair \<Rightarrow> int option \<Rightarrow> PrincipalId \<Rightarrow> CapabilityToken option" where
  "create_token te fresh_id issued_at now resource permissions sc user_id approval_audit_id runtime_key ttl p =
     create_with_options te fresh_id issued_at now resource permissions sc user_id approval_audit_id runtime_key
       ttl False p"

definition verify_signature :: "TokenEnv \<Rightarrow> CapabilityToken \<Rightarrow> (CapabilityError, unit) result" where
  "verify_signature te self =
     (if te_verify te (tok_issuer self) (signing_data self) (tok_signature self) then Inr () else Inl InvalidSignature)"

definition is_expired_with_skew :: "Timestamp \<Rightarrow> int \<Rightarrow> CapabilityToken \<Rightarrow> bool" where
  "is_expired_with_skew now skew_secs self =
     (case tok_expires_at self of
        None \<Rightarrow> False
      | Some expiry \<Rightarrow> expiry + skew_secs * 1000000000 < now)"

definition token_is_expired :: "Timestamp \<Rightarrow> CapabilityToken \<Rightarrow> bool" where
  "token_is_expired now self = is_expired_with_skew now 0 self"

definition validate_with_skew ::
  "TokenEnv \<Rightarrow> Timestamp \<Rightarrow> int \<Rightarrow> CapabilityToken \<Rightarrow> (CapabilityError, unit) result" where
  "validate_with_skew te now skew_secs self =
     (if is_expired_with_skew now skew_secs self then Inl (TokenExpired (tok_id self))
      else verify_signature te self)"

definition token_validate :: "TokenEnv \<Rightarrow> Timestamp \<Rightarrow> CapabilityToken \<Rightarrow> (CapabilityError, unit) result" where
  "token_validate te now self = validate_with_skew te now DEFAULT_CLOCK_SKEW_SECS self"

definition grants :: "CapabilityToken \<Rightarrow> string \<Rightarrow> Permission \<Rightarrow> bool" where
  "grants self resource permission \<longleftrightarrow>
     resource_matches (tok_resource self) resource \<and> permission \<in> set (tok_permissions self)"

definition content_hash :: "TokenEnv \<Rightarrow> CapabilityToken \<Rightarrow> string" where
  "content_hash te self = te_hash te (signing_data self)"

section \<open>The stored form\<close>

text \<open>A pattern is stored as its string and compiled again when it is read; a principal is validated again.\<close>

definition token_to_vec :: "TokenEnv \<Rightarrow> CapabilityToken \<Rightarrow> string option" where
  "token_to_vec te t = te_json_write te
     \<lparr>tw_id = tok_id t, tw_resource = rp_pattern (tok_resource t), tw_permissions = tok_permissions t,
      tw_issued_at = tok_issued_at t, tw_expires_at = tok_expires_at t, tw_scope = tok_scope t,
      tw_issuer = tok_issuer t, tw_user_id = tok_user_id t, tw_approval_audit_id = tok_approval_audit_id t,
      tw_single_use = tok_single_use t, tw_principal = pid_str (tok_principal t), tw_signature = tok_signature t\<rparr>"

definition token_from_slice :: "TokenEnv \<Rightarrow> string \<Rightarrow> CapabilityToken option" where
  "token_from_slice te bytes =
     (case te_json_read te bytes of
        None \<Rightarrow> None
      | Some w \<Rightarrow>
          (case (ResourcePattern_new te (tw_resource w), PrincipalId_new (tw_principal w)) of
             (Inr resource, Inr p) \<Rightarrow> Some
               \<lparr>tok_id = tw_id w, tok_resource = resource, tok_permissions = tw_permissions w,
                tok_issued_at = tw_issued_at w, tok_expires_at = tw_expires_at w, tok_scope = tw_scope w,
                tok_issuer = tw_issuer w, tok_user_id = tw_user_id w,
                tok_approval_audit_id = tw_approval_audit_id w, tok_single_use = tw_single_use w,
                tok_principal = p, tok_signature = tw_signature w\<rparr>
           | _ \<Rightarrow> None))"

section \<open>The signed payload\<close>

lemma length_le_bytes [simp]: "length (le_bytes k n) = k"
  by (induction k n rule: le_bytes.induct) auto

lemma le_bytes_inject: "m < 256 ^ k \<Longrightarrow> n < 256 ^ k \<Longrightarrow> le_bytes k m = le_bytes k n \<longleftrightarrow> m = n"
proof (induction k arbitrary: m n)
  case (Suc k)
  have "char_of (m mod 256) = (char_of (n mod 256) :: char) \<longleftrightarrow> m mod 256 = n mod 256"
    by (metis mod_mod_trivial of_char_of)
  moreover have "le_bytes k (m div 256) = le_bytes k (n div 256) \<longleftrightarrow> m div 256 = n div 256"
    using Suc.prems by (intro Suc.IH) (simp_all add: less_mult_imp_div_less mult.commute)
  ultimately show ?case by simp (metis div_mult_mod_eq)
qed simp

lemma i64_le_bytes_inject:
  assumes "a \<in> {- (2 ^ 63) ..< 2 ^ 63}" and "b \<in> {- (2 ^ 63) ..< 2 ^ 63}"
  shows "i64_le_bytes a = i64_le_bytes b \<longleftrightarrow> a = b"
proof
  assume "i64_le_bytes a = i64_le_bytes b"
  moreover have "nat (i mod 2 ^ 64) < 256 ^ 8" for i :: int by simp
  ultimately have "nat (a mod 2 ^ 64) = nat (b mod 2 ^ 64)" unfolding i64_le_bytes_def by (simp only: le_bytes_inject)
  then have "a mod 2 ^ 64 = b mod 2 ^ 64" by simp
  then obtain k where "a - b = 2 ^ 64 * k" by (metis mod_eq_dvd_iff dvdE)
  moreover have "\<bar>a - b\<bar> < 2 ^ 64" using assms by auto
  ultimately show "a = b" by (cases "k = 0") (auto simp: abs_mult)
qed simp

lemma length_i64_le_bytes [simp]: "length (i64_le_bytes i) = 8"
  by (simp add: i64_le_bytes_def)

lemma length_prefixed_append:
  assumes "length x < 2 ^ 32" and "length y < 2 ^ 32"
  shows "write_length_prefixed x @ r = write_length_prefixed y @ s \<longleftrightarrow> x = y \<and> r = s"
proof
  assume e: "write_length_prefixed x @ r = write_length_prefixed y @ s"
  then have "le_bytes 4 (length x) = le_bytes 4 (length y)" by (simp add: write_length_prefixed_def)
  then have "length x = length y" using assms by (simp add: le_bytes_inject)
  then show "x = y \<and> r = s" using e by (simp add: write_length_prefixed_def)
qed simp

lemma permission_string_inject [simp]: "permission_string p = permission_string q \<longleftrightarrow> p = q"
  by (cases p; cases q) auto

lemma permission_string_length: "length (permission_string p) < 2 ^ 32"
  by (cases p) auto

lemma scope_string_inject [simp]: "scope_string a = scope_string b \<longleftrightarrow> a = b"
  by (cases a; cases b) auto

lemma scope_string_length: "length (scope_string a) < 2 ^ 32"
  by (cases a) auto

lemma permissions_append:
  "length ps = length qs \<Longrightarrow>
     concat (map (\<lambda>p. write_length_prefixed (permission_string p)) ps) @ r
       = concat (map (\<lambda>p. write_length_prefixed (permission_string p)) qs) @ s
     \<longleftrightarrow> ps = qs \<and> r = s"
  by (induction ps qs rule: list_induct2)
     (simp_all add: length_prefixed_append [OF permission_string_length permission_string_length])

text \<open>
  The fields that a signature covers, instants to the second, and the bounds within which the byte format
  is unambiguous: the fixed widths of the Rust types, \<open>i64\<close> seconds and lengths that fit 32 bits.
\<close>

definition signed_fields where
  "signed_fields t =
     (tok_id t, rp_pattern (tok_resource t), tok_permissions t, timestamp_secs (tok_issued_at t),
      map_option timestamp_secs (tok_expires_at t), tok_scope t, tok_issuer t, tok_user_id t,
      tok_approval_audit_id t, tok_single_use t, tok_principal t)"

definition token_encodable :: "CapabilityToken \<Rightarrow> bool" where
  "token_encodable t \<longleftrightarrow> length (tok_id t) = 16 \<and> length (rp_pattern (tok_resource t)) < 2 ^ 32
     \<and> length (tok_permissions t) < 2 ^ 32 \<and> timestamp_secs (tok_issued_at t) \<in> {- (2 ^ 63) ..< 2 ^ 63}
     \<and> (case tok_expires_at t of None \<Rightarrow> True | Some x \<Rightarrow> timestamp_secs x \<in> {- (2 ^ 63) ..< 2 ^ 63})
     \<and> length (tok_issuer t) = 32 \<and> length (tok_user_id t) = 8 \<and> length (tok_approval_audit_id t) = 16
     \<and> length (pid_str (tok_principal t)) < 2 ^ 32"

definition expiry_bytes :: "Timestamp option \<Rightarrow> string" where
  "expiry_bytes x = (case x of Some e \<Rightarrow> CHR 0x01 # i64_le_bytes (timestamp_secs e) | None \<Rightarrow> [CHR 0x00])"

lemma expiry_bytes_append:
  assumes "case x of None \<Rightarrow> True | Some e \<Rightarrow> timestamp_secs e \<in> {- (2 ^ 63) ..< 2 ^ 63}"
    and "case y of None \<Rightarrow> True | Some e \<Rightarrow> timestamp_secs e \<in> {- (2 ^ 63) ..< 2 ^ 63}"
  shows "expiry_bytes x @ r = expiry_bytes y @ s
    \<longleftrightarrow> map_option timestamp_secs x = map_option timestamp_secs y \<and> r = s"
proof (cases x; cases y)
  fix a b assume "x = Some a" "y = Some b"
  then show ?thesis using assms by (simp add: expiry_bytes_def i64_le_bytes_inject)
qed (simp_all add: expiry_bytes_def)

lemma fixed_append: "length a = length b \<Longrightarrow> a @ r = b @ s \<longleftrightarrow> a = b \<and> r = s"
  by simp

text \<open>
  C23.  A signature covers exactly the signed fields: two tokens have the same signed bytes if and only if
  they agree in identifier, resource pattern, permissions, instants to the second, scope, issuer, approving
  user, approval entry, single-use flag and principal.  No two different grants share a payload, whatever
  the resource string or the list of permissions holds, so a signature for one is never one for another.
\<close>

theorem signing_data_injective:
  assumes "token_encodable t" and "token_encodable u"
  shows "signing_data t = signing_data u \<longleftrightarrow> signed_fields t = signed_fields u"
proof
  assume e: "signing_data t = signing_data u"
  note t = assms(1) [unfolded token_encodable_def] and u = assms(2) [unfolded token_encodable_def]
  have small: "length (x :: string) < 2 ^ 32" if "length x = 16" for x using that by simp
  note lp = length_prefixed_append length_prefixed_append [where r = "[]" and s = "[]", simplified]
  from e have "tok_id t = tok_id u \<and> rp_pattern (tok_resource t) = rp_pattern (tok_resource u)
      \<and> le_bytes 4 (length (tok_permissions t)) = le_bytes 4 (length (tok_permissions u))"
    using t u by (simp add: signing_data_def lp small)
  then have n: "length (tok_permissions t) = length (tok_permissions u)"
    using t u by (simp add: le_bytes_inject)
  show "signed_fields t = signed_fields u"
    using e t u n
    by (simp add: signing_data_def expiry_bytes_def [symmetric] lp small permissions_append fixed_append
        expiry_bytes_append i64_le_bytes_inject scope_string_length [simplified] signed_fields_def PrincipalId.expand
        split: if_splits)
next
  assume "signed_fields t = signed_fields u"
  then show "signing_data t = signing_data u"
    by (cases "tok_expires_at t"; cases "tok_expires_at u") (auto simp: signed_fields_def signing_data_def)
qed

text \<open>An example environment: a key signs by prefixing itself, one token has a JSON form, a glob is a prefix.\<close>

definition demo_keys :: KeyPair where
  "demo_keys = \<lparr>kp_public = replicate 32 (CHR ''K''), kp_sign = (\<lambda>m. CHR ''K'' # m)\<rparr>"

definition demo_wire :: TokenWire where
  "demo_wire = \<lparr>tw_id = replicate 16 (CHR ''1''), tw_resource = ''mcp://fs:*'', tw_permissions = [PermInvoke],
     tw_issued_at = 5, tw_expires_at = Some 1000000007, tw_scope = PersistentScope, tw_issuer = replicate 32 (CHR ''K''),
     tw_user_id = replicate 8 (CHR ''K''), tw_approval_audit_id = replicate 16 (CHR ''2''), tw_single_use = False,
     tw_principal = ''default'', tw_signature = []\<rparr>"

definition demo_te :: TokenEnv where
  "demo_te = \<lparr>te_glob = (\<lambda>p. Some (starts_with (takeWhile (\<lambda>c. c \<noteq> CHR ''*'') p))),
     te_verify = (\<lambda>k m sig. k = kp_public demo_keys \<and> sig = kp_sign demo_keys m), te_hash = (\<lambda>m. m),
     te_uuid_string = (\<lambda>u. u), te_uuid_parse = Some,
     te_json_write = (\<lambda>w. if w\<lparr>tw_signature := []\<rparr> = demo_wire then Some (tw_signature w) else None),
     te_json_read = (\<lambda>b. Some (demo_wire\<lparr>tw_signature := b\<rparr>)),
     te_try_seconds = (\<lambda>n. if n < 2 ^ 53 then Some (n * 1000000000) else None), te_datetime_max = 2 ^ 72\<rparr>"

definition demo_capability :: CapabilityToken where
  "demo_capability = \<lparr>tok_id = replicate 16 (CHR ''1''),
     tok_resource = \<lparr>rp_pattern = ''mcp://fs:*'', rp_matcher = Some (starts_with ''mcp://fs:'')\<rparr>,
     tok_permissions = [PermInvoke], tok_issued_at = 5, tok_expires_at = Some 1000000007, tok_scope = PersistentScope,
     tok_issuer = kp_public demo_keys, tok_user_id = key_id demo_keys, tok_approval_audit_id = replicate 16 (CHR ''2''),
     tok_single_use = False, tok_principal = default_principal, tok_signature = []\<rparr>"

theorem signing_data_injective_witness:
  "signing_data demo_capability \<noteq> signing_data (demo_capability\<lparr>tok_principal := PrincipalId ''bob''\<rparr>)
   \<and> signing_data demo_capability \<noteq> signing_data (demo_capability\<lparr>tok_permissions := [PermInvoke, PermRead]\<rparr>)"
proof -
  have enc: "token_encodable demo_capability" "token_encodable (demo_capability\<lparr>tok_principal := PrincipalId ''bob''\<rparr>)"
      "token_encodable (demo_capability\<lparr>tok_permissions := [PermInvoke, PermRead]\<rparr>)"
    by (simp_all add: token_encodable_def demo_capability_def demo_keys_def key_id_def timestamp_secs_def default_principal_def)
  show ?thesis
    using signing_data_injective [OF enc(1,2)] signing_data_injective [OF enc(1,3)]
    by (simp add: signed_fields_def) (simp add: demo_capability_def default_principal_def)
qed

section \<open>Matching and reloading\<close>

lemma matches_no_traversal: "resource_matches rp resource \<Longrightarrow> \<not> contains_path_traversal resource"
  by (auto simp: resource_matches_def split: if_splits)

text \<open>Documented laws: the text of a UUID parses back, and JSON that was written reads back.\<close>

definition token_env_ok :: "TokenEnv \<Rightarrow> bool" where
  "token_env_ok te \<longleftrightarrow> (\<forall>u. te_uuid_parse te (te_uuid_string te u) = Some u)
     \<and> (\<forall>w b. te_json_write te w = Some b \<longrightarrow> te_json_read te b = Some w)"

text \<open>A key verifies what it signs.\<close>

definition key_ok :: "TokenEnv \<Rightarrow> KeyPair \<Rightarrow> bool" where
  "key_ok te kp \<longleftrightarrow> (\<forall>m. te_verify te (kp_public kp) m (kp_sign kp m))"

lemma demo_te_ok: "token_env_ok demo_te" "key_ok demo_te demo_keys"
proof -
  have "demo_wire\<lparr>tw_signature := tw_signature w\<rparr> = w" if "w\<lparr>tw_signature := []\<rparr> = demo_wire" for w
    unfolding that [symmetric] by simp
  then show "token_env_ok demo_te" by (auto simp: token_env_ok_def demo_te_def split: if_splits)
  show "key_ok demo_te demo_keys" by (simp add: key_ok_def demo_te_def)
qed

lemma token_reload:
  assumes "token_env_ok te" and "token_to_vec te t = Some bytes"
  shows "token_from_slice te bytes =
    (case (ResourcePattern_new te (rp_pattern (tok_resource t)), PrincipalId_new (pid_str (tok_principal t))) of
       (Inr resource, Inr p) \<Rightarrow> Some (t\<lparr>tok_resource := resource, tok_principal := p\<rparr>) | _ \<Rightarrow> None)"
  using assms by (auto simp: token_env_ok_def token_to_vec_def token_from_slice_def split: sum.splits)

lemma PrincipalId_new_iff:
  "PrincipalId_new s = Inr p \<longleftrightarrow> p = PrincipalId s \<and> s \<noteq> [] \<and> length s \<le> 64 \<and> (\<forall>c \<in> set s. is_name_char c)"
proof (cases "find (\<lambda>c. \<not> is_name_char c) s")
  case None
  then have "\<forall>c \<in> set s. is_name_char c" by (auto simp: find_None_iff)
  then show ?thesis using None by (auto simp: PrincipalId_new_def)
next
  case (Some c)
  then have "\<not> (\<forall>c \<in> set s. is_name_char c)" by (metis find_None_iff option.distinct(1))
  then show ?thesis using Some by (simp add: PrincipalId_new_def)
qed

text \<open>What was built by \<open>ResourcePattern::new\<close> for a valid principal comes back as it was stored.\<close>

lemma token_roundtrip:
  assumes "token_env_ok te" and "token_to_vec te t = Some bytes"
    and "ResourcePattern_new te (rp_pattern (tok_resource t)) = Inr (tok_resource t)"
    and "PrincipalId_new (pid_str (tok_principal t)) = Inr (tok_principal t)"
  shows "token_from_slice te bytes = Some t"
  using token_reload [OF assms(1,2)] assms(3,4) by simp

text \<open>
  An exact pattern is not kept exact by the stored form: with a glob character in it, it comes back as a
  glob, on a payload that still verifies.  A token for one file named with a star grants every file that
  the glob matches after a restart.
\<close>

lemma exact_pattern_reloads_as_glob:
  assumes "token_env_ok te" and "token_to_vec te t = Some bytes"
    and "ResourcePattern_exact pattern = Inr (tok_resource t)" and "CHR ''*'' \<in> set pattern"
    and "te_glob te pattern = Some matcher" and "PrincipalId_new (pid_str (tok_principal t)) = Inr (tok_principal t)"
  shows "\<exists>t'. token_from_slice te bytes = Some t' \<and> signing_data t' = signing_data t
    \<and> rp_matcher (tok_resource t) = None \<and> rp_matcher (tok_resource t') = Some matcher"
proof -
  have t: "tok_resource t = \<lparr>rp_pattern = pattern, rp_matcher = None\<rparr>" "\<not> contains_path_traversal pattern"
    using assms(3) by (auto simp: ResourcePattern_exact_def split: if_splits)
  have "ResourcePattern_new te pattern = Inr \<lparr>rp_pattern = pattern, rp_matcher = Some matcher\<rparr>"
    using t(2) assms(4,5) by (simp add: ResourcePattern_new_def)
  then show ?thesis
    using token_reload [OF assms(1,2)] assms(6) by (simp add: t signing_data_def)
qed

end
