(* ===== verification/Capability_Store.thy ===== *)
theory Capability_Store
  imports Capability_Token
begin

text \<open>
  The store of capability tokens, \<open>crates/astrid-capabilities/src/store.rs\<close>, over any key-value backend.
  An operation returns its result with the new state.  The clock is read once in an operation, and its
  value is the argument \<open>now\<close>.  Sets of identifiers are sets; lock poisoning, which needs a panic inside
  the store, and log messages are not modelled.

  The backend is used through the laws of \<open>plain_kv\<close>: a failed write may have happened.  The lemmas show
  what every operation keeps of the two tombstone sets, and the step relation \<open>cap_step\<close> interleaves the
  two halves of concurrent \<open>use_token\<close> calls with every other operation and with restarts.
\<close>

section \<open>State\<close>

definition NS_TOKENS :: string where
  "NS_TOKENS = ''caps:tokens''"

definition NS_TOKEN_INDEX :: string where
  "NS_TOKEN_INDEX = ''caps:token_index''"

definition NS_REVOKED :: string where
  "NS_REVOKED = ''caps:revoked''"

definition NS_USED :: string where
  "NS_USED = ''caps:used''"

lemmas namespace_defs = NS_TOKENS_def NS_TOKEN_INDEX_def NS_REVOKED_def NS_USED_def

definition token_key :: "TokenEnv \<Rightarrow> PrincipalId \<Rightarrow> TokenId \<Rightarrow> string" where
  "token_key te p token_id = pid_str p @ ''/'' @ te_uuid_string te token_id"

definition token_key_prefix :: "PrincipalId \<Rightarrow> string" where
  "token_key_prefix p = pid_str p @ ''/''"

definition PRESENCE_MARKER :: string where
  "PRESENCE_MARKER = [CHR 0x01]"

record 's CapabilityStore =
  cs_retiring :: "PrincipalId set"
  cs_session :: "(PrincipalId, (TokenId, CapabilityToken) hash_map) hash_map"
  cs_store :: "'s option"
  cs_revoked :: "TokenId set"
  cs_used :: "TokenId set"

definition in_memory :: "'s CapabilityStore" where
  "in_memory = \<lparr>cs_retiring = {}, cs_session = [], cs_store = None, cs_revoked = {}, cs_used = {}\<rparr>"

abbreviation kv_failed :: "StorageError \<Rightarrow> (CapabilityError, 'a) result" where
  "kv_failed e \<equiv> Inl (StorageFailed (KvFault e))"

definition parsed_ids :: "TokenEnv \<Rightarrow> string list \<Rightarrow> TokenId set" where
  "parsed_ids te keys = set (List.map_filter (te_uuid_parse te) keys)"

definition load_revoked ::
  "'s KvStore \<Rightarrow> TokenEnv \<Rightarrow> 's CapabilityStore \<Rightarrow> (CapabilityError, 's CapabilityStore) result" where
  "load_revoked ops te self =
     (case cs_store self of
        None \<Rightarrow> Inr self
      | Some s \<Rightarrow>
          (case kv_list_keys ops s NS_REVOKED of
             Inl e \<Rightarrow> kv_failed e
           | Inr keys \<Rightarrow> Inr (self\<lparr>cs_revoked := cs_revoked self \<union> parsed_ids te keys\<rparr>)))"

definition load_used_tokens ::
  "'s KvStore \<Rightarrow> TokenEnv \<Rightarrow> 's CapabilityStore \<Rightarrow> (CapabilityError, 's CapabilityStore) result" where
  "load_used_tokens ops te self =
     (case cs_store self of
        None \<Rightarrow> Inr self
      | Some s \<Rightarrow>
          (case kv_list_keys ops s NS_USED of
             Inl e \<Rightarrow> kv_failed e
           | Inr keys \<Rightarrow> Inr (self\<lparr>cs_used := cs_used self \<union> parsed_ids te keys\<rparr>)))"

definition with_kv_store ::
  "'s KvStore \<Rightarrow> TokenEnv \<Rightarrow> 's \<Rightarrow> (CapabilityError, 's CapabilityStore) result" where
  "with_kv_store ops te s =
     and_then (load_revoked ops te (in_memory\<lparr>cs_store := Some s\<rparr>)) (load_used_tokens ops te)"

section \<open>Adding and reading\<close>

definition session_insert :: "CapabilityToken \<Rightarrow> 's CapabilityStore \<Rightarrow> 's CapabilityStore" where
  "session_insert token self =
     (let inner = (case hm_get (cs_session self) (tok_principal token) of Some m \<Rightarrow> m | None \<Rightarrow> [])
      in self\<lparr>cs_session := hm_insert (tok_principal token) (hm_insert (tok_id token) token inner) (cs_session self)\<rparr>)"

definition cap_add ::
  "'s KvStore \<Rightarrow> TokenEnv \<Rightarrow> Timestamp \<Rightarrow> CapabilityToken \<Rightarrow> 's CapabilityStore
     \<Rightarrow> (CapabilityError, unit) result \<times> 's CapabilityStore" where
  "cap_add ops te now token self =
     (if tok_principal token \<in> cs_retiring self
      then (Inl (StorageFailed (PrincipalRetiring (tok_principal token))), self)
      else case token_validate te now token of
        Inl e \<Rightarrow> (Inl e, self)
      | Inr _ \<Rightarrow>
     (case (tok_scope token, cs_store self) of
        (PersistentScope, Some s) \<Rightarrow>
          (case token_to_vec te token of
             None \<Rightarrow> (Inl SerializationFailed, self)
           | Some serialized \<Rightarrow>
               (case kv_set ops s NS_TOKENS (token_key te (tok_principal token) (tok_id token)) serialized of
                  (Inl e, s1) \<Rightarrow> (kv_failed e, self\<lparr>cs_store := Some s1\<rparr>)
                | (Inr _, s1) \<Rightarrow>
                    (case kv_set ops s1 NS_TOKEN_INDEX (te_uuid_string te (tok_id token))
                            (pid_str (tok_principal token)) of
                       (Inl e, s2) \<Rightarrow> (kv_failed e, self\<lparr>cs_store := Some s2\<rparr>)
                     | (Inr _, s2) \<Rightarrow> (Inr (), self\<lparr>cs_store := Some s2\<rparr>))))
      | _ \<Rightarrow> (Inr (), session_insert token self)))"

definition read_token :: "TokenEnv \<Rightarrow> Timestamp \<Rightarrow> string \<Rightarrow> (CapabilityError, CapabilityToken option) result" where
  "read_token te now bytes =
     (case token_from_slice te bytes of
        None \<Rightarrow> Inl SerializationFailed
      | Some token \<Rightarrow> and_then (token_validate te now token) (\<lambda>_. Inr (Some token)))"

definition read_legacy ::
  "'s KvStore \<Rightarrow> TokenEnv \<Rightarrow> Timestamp \<Rightarrow> 's \<Rightarrow> string \<Rightarrow> (CapabilityError, CapabilityToken option) result" where
  "read_legacy ops te now s token_id_str =
     (case kv_get ops s NS_TOKENS token_id_str of
        Inl e \<Rightarrow> kv_failed e
      | Inr None \<Rightarrow> Inr None
      | Inr (Some bytes) \<Rightarrow> read_token te now bytes)"

definition read_persistent_token_any_principal ::
  "'s KvStore \<Rightarrow> TokenEnv \<Rightarrow> Timestamp \<Rightarrow> 's \<Rightarrow> TokenId
     \<Rightarrow> (CapabilityError, CapabilityToken option) result \<times> 's" where
  "read_persistent_token_any_principal ops te now s token_id =
     (let token_id_str = te_uuid_string te token_id
      in case kv_get ops s NS_TOKEN_INDEX token_id_str of
           Inl e \<Rightarrow> (kv_failed e, s)
         | Inr None \<Rightarrow> (read_legacy ops te now s token_id_str, s)
         | Inr (Some principal_bytes) \<Rightarrow>
             if \<not> utf8_valid principal_bytes then (Inl (StorageFailed (CorruptTokenIndex token_id)), s)
             else (case PrincipalId_new principal_bytes of
                     Inl _ \<Rightarrow> (Inl (StorageFailed (InvalidIndexPrincipal principal_bytes token_id)), s)
                   | Inr p \<Rightarrow>
                       (case kv_get ops s NS_TOKENS (token_key te p token_id) of
                          Inl e \<Rightarrow> (kv_failed e, s)
                        | Inr (Some bytes) \<Rightarrow> (read_token te now bytes, s)
                        | Inr None \<Rightarrow>
                            let s1 = snd (kv_delete ops s NS_TOKEN_INDEX token_id_str)
                            in (read_legacy ops te now s1 token_id_str, s1))))"

definition session_lookup :: "'s CapabilityStore \<Rightarrow> TokenId \<Rightarrow> CapabilityToken option" where
  "session_lookup self token_id =
     (case List.map_filter (\<lambda>inner. hm_get inner token_id) (hm_values (cs_session self)) of
        [] \<Rightarrow> None
      | token # _ \<Rightarrow> Some token)"

definition unless_retiring :: "'s CapabilityStore \<Rightarrow> CapabilityToken \<Rightarrow> CapabilityToken option" where
  "unless_retiring self token = (if tok_principal token \<in> cs_retiring self then None else Some token)"

definition cap_get ::
  "'s KvStore \<Rightarrow> TokenEnv \<Rightarrow> Timestamp \<Rightarrow> TokenId \<Rightarrow> 's CapabilityStore
     \<Rightarrow> (CapabilityError, CapabilityToken option) result \<times> 's CapabilityStore" where
  "cap_get ops te now token_id self =
     (if token_id \<in> cs_revoked self then (Inl (TokenRevoked token_id), self)
      else case session_lookup self token_id of
        Some token \<Rightarrow> (Inr (unless_retiring self token), self)
      | None \<Rightarrow>
          (case cs_store self of
             None \<Rightarrow> (Inr None, self)
           | Some s \<Rightarrow>
               (case read_persistent_token_any_principal ops te now s token_id of
                  (Inl e, s1) \<Rightarrow> (Inl e, self\<lparr>cs_store := Some s1\<rparr>)
                | (Inr None, s1) \<Rightarrow> (Inr None, self\<lparr>cs_store := Some s1\<rparr>)
                | (Inr (Some token), s1) \<Rightarrow> (Inr (unless_retiring self token), self\<lparr>cs_store := Some s1\<rparr>))))"

definition is_consumed_single_use :: "'s CapabilityStore \<Rightarrow> CapabilityToken \<Rightarrow> bool" where
  "is_consumed_single_use self token \<longleftrightarrow> tok_single_use token \<and> tok_id token \<in> cs_used self"

section \<open>Authorization\<close>

definition session_candidates ::
  "Timestamp \<Rightarrow> PrincipalId \<Rightarrow> string \<Rightarrow> Permission \<Rightarrow> 's CapabilityStore \<Rightarrow> CapabilityToken list" where
  "session_candidates now p resource permission self =
     (case hm_get (cs_session self) p of
        None \<Rightarrow> []
      | Some inner \<Rightarrow>
          filter (\<lambda>token. tok_principal token = p \<and> \<not> token_is_expired now token \<and> grants token resource permission)
            (hm_values inner))"

definition persistent_candidate ::
  "'s KvStore \<Rightarrow> TokenEnv \<Rightarrow> Timestamp \<Rightarrow> PrincipalId \<Rightarrow> string \<Rightarrow> Permission \<Rightarrow> 's CapabilityStore \<Rightarrow> 's \<Rightarrow> string
     \<Rightarrow> CapabilityToken option" where
  "persistent_candidate ops te now p resource permission self s key =
     (case kv_get ops s NS_TOKENS key of
        Inr (Some data) \<Rightarrow>
          (case token_from_slice te data of
             None \<Rightarrow> None
           | Some token \<Rightarrow>
               if \<not> is_ok (token_validate te now token) then None
               else if tok_principal token \<noteq> p then None
               else if tok_id token \<in> cs_revoked self then None
               else if grants token resource permission \<and> \<not> is_consumed_single_use self token then Some token
               else None)
      | _ \<Rightarrow> None)"

fun first_some :: "('a \<Rightarrow> 'b option) \<Rightarrow> 'a list \<Rightarrow> 'b option" where
  "first_some f [] = None"
| "first_some f (x # xs) = (case f x of Some y \<Rightarrow> Some y | None \<Rightarrow> first_some f xs)"

definition find_capability ::
  "'s KvStore \<Rightarrow> TokenEnv \<Rightarrow> Timestamp \<Rightarrow> PrincipalId \<Rightarrow> string \<Rightarrow> Permission \<Rightarrow> 's CapabilityStore
     \<Rightarrow> CapabilityToken option" where
  "find_capability ops te now p resource permission self =
     (if p \<in> cs_retiring self then None
      else case find (\<lambda>token. \<not> is_consumed_single_use self token) (session_candidates now p resource permission self) of
        Some token \<Rightarrow> Some token
      | None \<Rightarrow>
          (case cs_store self of
             None \<Rightarrow> None
           | Some s \<Rightarrow>
               (case kv_list_keys_with_prefix ops s NS_TOKENS (token_key_prefix p) of
                  Inl _ \<Rightarrow> None
                | Inr keys \<Rightarrow> first_some (persistent_candidate ops te now p resource permission self s) keys)))"

definition has_capability ::
  "'s KvStore \<Rightarrow> TokenEnv \<Rightarrow> Timestamp \<Rightarrow> PrincipalId \<Rightarrow> string \<Rightarrow> Permission \<Rightarrow> 's CapabilityStore \<Rightarrow> bool" where
  "has_capability ops te now p resource permission self \<longleftrightarrow>
     find_capability ops te now p resource permission self \<noteq> None"

section \<open>Retirement, revocation and clean-up\<close>

definition cap_begin_retirement :: "PrincipalId \<Rightarrow> 's CapabilityStore \<Rightarrow> 's CapabilityStore" where
  "cap_begin_retirement p self = self\<lparr>cs_retiring := insert p (cs_retiring self)\<rparr>"

definition cap_is_retiring :: "PrincipalId \<Rightarrow> 's CapabilityStore \<Rightarrow> bool" where
  "cap_is_retiring p self \<longleftrightarrow> p \<in> cs_retiring self"

definition cap_finish_retirement :: "PrincipalId \<Rightarrow> 's CapabilityStore \<Rightarrow> 's CapabilityStore" where
  "cap_finish_retirement p self = self\<lparr>cs_retiring := cs_retiring self - {p}\<rparr>"

definition revoke_in_memory :: "TokenId \<Rightarrow> 's CapabilityStore \<Rightarrow> 's CapabilityStore" where
  "revoke_in_memory token_id self =
     self\<lparr>cs_revoked := insert token_id (cs_revoked self),
          cs_session := hm_retain (\<lambda>_ m. m \<noteq> []) (map (\<lambda>(p, m). (p, hm_remove token_id m)) (cs_session self))\<rparr>"

definition revoke_rows :: "'s KvStore \<Rightarrow> TokenEnv \<Rightarrow> TokenId \<Rightarrow> 's \<Rightarrow> 's" where
  "revoke_rows ops te token_id s =
     (let token_id_str = te_uuid_string te token_id;
          s1 = (case kv_get ops s NS_TOKEN_INDEX token_id_str of
                  Inr (Some principal_bytes) \<Rightarrow>
                    (case (utf8_valid principal_bytes, PrincipalId_new principal_bytes) of
                       (True, Inr p) \<Rightarrow> snd (kv_delete ops s NS_TOKENS (token_key te p token_id))
                     | _ \<Rightarrow> s)
                | _ \<Rightarrow> s);
          s2 = snd (kv_delete ops s1 NS_TOKEN_INDEX token_id_str)
      in snd (kv_delete ops s2 NS_TOKENS token_id_str))"

definition cap_revoke ::
  "'s KvStore \<Rightarrow> TokenEnv \<Rightarrow> TokenId \<Rightarrow> 's CapabilityStore \<Rightarrow> (CapabilityError, unit) result \<times> 's CapabilityStore" where
  "cap_revoke ops te token_id self =
     (case cs_store self of
        None \<Rightarrow> (Inr (), revoke_in_memory token_id self)
      | Some s \<Rightarrow>
          (case kv_set ops s NS_REVOKED (te_uuid_string te token_id) PRESENCE_MARKER of
             (Inl e, s1) \<Rightarrow> (kv_failed e, self\<lparr>cs_store := Some s1\<rparr>)
           | (Inr _, s1) \<Rightarrow>
               (Inr (), revoke_in_memory token_id (self\<lparr>cs_store := Some (revoke_rows ops te token_id s1)\<rparr>))))"

definition clear_session :: "'s CapabilityStore \<Rightarrow> 's CapabilityStore" where
  "clear_session self = self\<lparr>cs_session := []\<rparr>"

definition clear_session_for :: "PrincipalId \<Rightarrow> 's CapabilityStore \<Rightarrow> 's CapabilityStore" where
  "clear_session_for p self = self\<lparr>cs_session := hm_remove p (cs_session self)\<rparr>"

fun delete_rows ::
  "'s KvStore \<Rightarrow> string \<Rightarrow> string list \<Rightarrow> 's \<Rightarrow> (string \<times> string \<times> StorageError) list \<times> 's" where
  "delete_rows ops ns [] s = ([], s)"
| "delete_rows ops ns (key # keys) s =
     (let (r, s1) = kv_delete ops s ns key; (failures, s2) = delete_rows ops ns keys s1
      in (case r of Inl e \<Rightarrow> ((ns, key, e) # failures, s2) | Inr _ \<Rightarrow> (failures, s2)))"

fun owned_index_ids ::
  "'s KvStore \<Rightarrow> TokenEnv \<Rightarrow> PrincipalId \<Rightarrow> 's \<Rightarrow> string list \<Rightarrow> (StorageError, TokenId list) result" where
  "owned_index_ids ops te p s [] = Inr []"
| "owned_index_ids ops te p s (raw_id # keys) =
     (case kv_get ops s NS_TOKEN_INDEX raw_id of
        Inl e \<Rightarrow> Inl e
      | Inr owner \<Rightarrow>
          and_then (owned_index_ids ops te p s keys) (\<lambda>ids.
            Inr (case (owner = Some (pid_str p), te_uuid_parse te raw_id) of
                   (True, Some i) \<Rightarrow> i # ids
                 | _ \<Rightarrow> ids)))"

definition primary_ids :: "TokenEnv \<Rightarrow> PrincipalId \<Rightarrow> string list \<Rightarrow> TokenId list" where
  "primary_ids te p keys =
     List.map_filter (\<lambda>key. case strip_prefix (token_key_prefix p) key of
                         None \<Rightarrow> None
                       | Some raw_id \<Rightarrow> te_uuid_parse te raw_id) keys"

definition purge_principal ::
  "'s KvStore \<Rightarrow> TokenEnv \<Rightarrow> PrincipalId \<Rightarrow> 's CapabilityStore \<Rightarrow> (CapabilityError, unit) result \<times> 's CapabilityStore" where
  "purge_principal ops te p self0 =
     (let self = clear_session_for p self0
      in case cs_store self of
           None \<Rightarrow> (Inr (), self)
         | Some s \<Rightarrow>
             (case kv_list_keys_with_prefix ops s NS_TOKENS (token_key_prefix p) of
                Inl e \<Rightarrow> (kv_failed e, self)
              | Inr primary_keys \<Rightarrow>
                  (case kv_list_keys ops s NS_TOKEN_INDEX of
                     Inl e \<Rightarrow> (kv_failed e, self)
                   | Inr index_keys \<Rightarrow>
                       (case owned_index_ids ops te p s index_keys of
                          Inl e \<Rightarrow> (kv_failed e, self)
                        | Inr index_ids \<Rightarrow>
                            let token_ids = remdups (primary_ids te p primary_keys @ index_ids);
                                (f1, s1) = delete_rows ops NS_TOKENS primary_keys s;
                                (f2, s2) = delete_rows ops NS_TOKEN_INDEX (map (te_uuid_string te) token_ids) s1
                            in (if f1 @ f2 = [] then Inr () else Inl (StorageFailed (PurgeFailures (f1 @ f2))),
                                self\<lparr>cs_store := Some s2\<rparr>)))))"

section \<open>Single use\<close>

definition mark_used ::
  "'s KvStore \<Rightarrow> TokenEnv \<Rightarrow> TokenId \<Rightarrow> 's CapabilityStore \<Rightarrow> (CapabilityError, unit) result \<times> 's CapabilityStore" where
  "mark_used ops te token_id self =
     (if token_id \<in> cs_used self then (Inl (TokenAlreadyUsed token_id), self)
      else case cs_store self of
        None \<Rightarrow> (Inr (), self\<lparr>cs_used := insert token_id (cs_used self)\<rparr>)
      | Some s \<Rightarrow>
          (case kv_set ops s NS_USED (te_uuid_string te token_id) PRESENCE_MARKER of
             (Inl e, s1) \<Rightarrow> (kv_failed e, self\<lparr>cs_store := Some s1\<rparr>)
           | (Inr _, s1) \<Rightarrow> (Inr (), self\<lparr>cs_store := Some s1, cs_used := insert token_id (cs_used self)\<rparr>)))"

definition is_used :: "TokenId \<Rightarrow> 's CapabilityStore \<Rightarrow> bool" where
  "is_used token_id self \<longleftrightarrow> token_id \<in> cs_used self"

definition use_token ::
  "'s KvStore \<Rightarrow> TokenEnv \<Rightarrow> Timestamp \<Rightarrow> TokenId \<Rightarrow> 's CapabilityStore
     \<Rightarrow> (CapabilityError, CapabilityToken) result \<times> 's CapabilityStore" where
  "use_token ops te now token_id self =
     (case cap_get ops te now token_id self of
        (Inl e, self1) \<Rightarrow> (Inl e, self1)
      | (Inr None, self1) \<Rightarrow> (Inl (TokenNotFound token_id), self1)
      | (Inr (Some token), self1) \<Rightarrow>
          (case token_validate te now token of
             Inl e \<Rightarrow> (Inl e, self1)
           | Inr _ \<Rightarrow>
               if tok_single_use token
               then (case mark_used ops te token_id self1 of
                       (Inl e, self2) \<Rightarrow> (Inl e, self2)
                     | (Inr _, self2) \<Rightarrow> (Inr token, self2))
               else (Inr token, self1)))"

section \<open>Listing and expiry\<close>

definition listed_row ::
  "'s KvStore \<Rightarrow> TokenEnv \<Rightarrow> Timestamp \<Rightarrow> 's CapabilityStore \<Rightarrow> 's \<Rightarrow> string \<Rightarrow> CapabilityToken option" where
  "listed_row ops te now self s key =
     (case kv_get ops s NS_TOKENS key of
        Inr (Some bytes) \<Rightarrow>
          (case token_from_slice te bytes of
             Some token \<Rightarrow>
               if tok_id token \<notin> cs_revoked self \<and> \<not> token_is_expired now token then Some token else None
           | None \<Rightarrow> None)
      | _ \<Rightarrow> None)"

definition list_tokens ::
  "'s KvStore \<Rightarrow> TokenEnv \<Rightarrow> Timestamp \<Rightarrow> 's CapabilityStore \<Rightarrow> (CapabilityError, CapabilityToken list) result" where
  "list_tokens ops te now self =
     (let session = filter (\<lambda>token. \<not> token_is_expired now token) (concat (map hm_values (hm_values (cs_session self))))
      in case cs_store self of
           None \<Rightarrow> Inr session
         | Some s \<Rightarrow>
             (case kv_list_keys ops s NS_TOKENS of
                Inl e \<Rightarrow> kv_failed e
              | Inr keys \<Rightarrow> Inr (session @ List.map_filter (listed_row ops te now self s) keys)))"

fun cleanup_rows :: "'s KvStore \<Rightarrow> TokenEnv \<Rightarrow> Timestamp \<Rightarrow> string list \<Rightarrow> 's \<Rightarrow> nat \<times> 's" where
  "cleanup_rows ops te now [] s = (0, s)"
| "cleanup_rows ops te now (key # keys) s =
     (case kv_get ops s NS_TOKENS key of
        Inr (Some bytes) \<Rightarrow>
          (case token_from_slice te bytes of
             Some token \<Rightarrow>
               if token_is_expired now token
               then let s1 = snd (kv_delete ops s NS_TOKENS key);
                        s2 = snd (kv_delete ops s1 NS_TOKEN_INDEX (te_uuid_string te (tok_id token)));
                        (removed, s3) = cleanup_rows ops te now keys s2
                    in (Suc removed, s3)
               else cleanup_rows ops te now keys s
           | None \<Rightarrow> cleanup_rows ops te now keys s)
      | _ \<Rightarrow> cleanup_rows ops te now keys s)"

definition cap_cleanup_expired ::
  "'s KvStore \<Rightarrow> TokenEnv \<Rightarrow> Timestamp \<Rightarrow> 's CapabilityStore \<Rightarrow> (CapabilityError, nat) result \<times> 's CapabilityStore" where
  "cap_cleanup_expired ops te now self =
     (case cs_store self of
        None \<Rightarrow> (Inr 0, self)
      | Some s \<Rightarrow>
          (case kv_list_keys ops s NS_TOKENS of
             Inl e \<Rightarrow> (kv_failed e, self)
           | Inr keys \<Rightarrow>
               let (removed, s1) = cleanup_rows ops te now keys s
               in (Inr removed, self\<lparr>cs_store := Some s1\<rparr>)))"

section \<open>Tombstones outlive every operation\<close>

lemma namespaces_distinct:
  "NS_TOKENS \<noteq> NS_USED" "NS_TOKENS \<noteq> NS_REVOKED" "NS_TOKEN_INDEX \<noteq> NS_USED" "NS_TOKEN_INDEX \<noteq> NS_REVOKED"
  "NS_TOKENS \<noteq> NS_TOKEN_INDEX" "NS_USED \<noteq> NS_REVOKED"
  by (simp_all add: namespace_defs)

context plain_kv
begin

text \<open>A change of the backend that keeps the rows of the two tombstone namespaces.\<close>

definition evolves :: "'s \<Rightarrow> 's \<Rightarrow> bool" where
  "evolves s s' \<longleftrightarrow> (inv s \<longrightarrow> inv s' \<and> (\<forall>n k. n \<in> {NS_USED, NS_REVOKED} \<longrightarrow>
     view s \<lparr>ke_namespace = n, ke_key = k\<rparr> \<noteq> None \<longrightarrow> view s' \<lparr>ke_namespace = n, ke_key = k\<rparr> \<noteq> None))"

lemma evolves_refl [simp]: "evolves s s"
  by (simp add: evolves_def)

lemma evolves_trans: "evolves s t \<Longrightarrow> evolves t u \<Longrightarrow> evolves s u"
  by (simp add: evolves_def)

lemma evolves_set:
  assumes "kv_set ops s n k v = (r, s')"
  shows "evolves s s'"
  unfolding evolves_def
proof (intro impI conjI allI)
  assume i: "inv s"
  note law = set_law [OF i assms]
  show "inv s'" using law by simp
  fix m j assume "view s \<lparr>ke_namespace = m, ke_key = j\<rparr> \<noteq> None"
  then show "view s' \<lparr>ke_namespace = m, ke_key = j\<rparr> \<noteq> None"
    using law by (cases "m = n \<and> j = k") (auto simp: Let_def)
qed

lemma evolves_delete:
  assumes "n \<in> {NS_TOKENS, NS_TOKEN_INDEX}"
  shows "evolves s (snd (kv_delete ops s n k))"
  unfolding evolves_def
proof (intro impI conjI allI)
  assume i: "inv s"
  obtain d s' where run: "kv_delete ops s n k = (d, s')" by fastforce
  note law = delete_law [OF i run]
  show "inv (snd (kv_delete ops s n k))" using law run by simp
  fix m j assume m: "m \<in> {NS_USED, NS_REVOKED}" and v: "view s \<lparr>ke_namespace = m, ke_key = j\<rparr> \<noteq> None"
  have "m \<noteq> n" using m assms namespaces_distinct by auto
  then show "view (snd (kv_delete ops s n k)) \<lparr>ke_namespace = m, ke_key = j\<rparr> \<noteq> None" using law run v by simp
qed

lemma evolves_delete_rows:
  "n \<in> {NS_TOKENS, NS_TOKEN_INDEX} \<Longrightarrow> delete_rows ops n ks s = (fs, s') \<Longrightarrow> evolves s s'"
proof (induction ks arbitrary: s fs)
  case (Cons k ks)
  obtain r s1 where d: "kv_delete ops s n k = (r, s1)" by fastforce
  obtain fs1 where "delete_rows ops n ks s1 = (fs1, s')"
    using Cons.prems(2) d by (auto simp: Let_def split: prod.splits sum.splits)
  then have "evolves s1 s'" using Cons.IH Cons.prems(1) by blast
  moreover have "evolves s s1" using evolves_delete [OF Cons.prems(1), of s k] d by simp
  ultimately show ?case by (rule evolves_trans [rotated])
qed simp

lemma evolves_cleanup_rows: "cleanup_rows ops te now ks s = (m, s') \<Longrightarrow> evolves s s'"
proof (induction ks arbitrary: s m)
  case (Cons k ks)
  show ?case
  proof (cases "\<exists>bytes token. kv_get ops s NS_TOKENS k = Inr (Some bytes) \<and> token_from_slice te bytes = Some token
      \<and> token_is_expired now token")
    case True
    then obtain bytes token where t: "kv_get ops s NS_TOKENS k = Inr (Some bytes)"
        "token_from_slice te bytes = Some token" "token_is_expired now token" by blast
    then obtain j where "cleanup_rows ops te now ks (snd (kv_delete ops (snd (kv_delete ops s NS_TOKENS k))
        NS_TOKEN_INDEX (te_uuid_string te (tok_id token)))) = (j, s')"
      using Cons.prems by (auto simp: Let_def split: prod.splits)
    from Cons.IH [OF this] show ?thesis
      by (rule evolves_trans [rotated]) (rule evolves_trans [OF evolves_delete evolves_delete]; simp)
  next
    case False
    then have "cleanup_rows ops te now (k # ks) s = cleanup_rows ops te now ks s"
      by (auto split: sum.splits option.splits)
    then show ?thesis using Cons by simp
  qed
qed simp

lemma evolves_revoke_rows: "evolves s (revoke_rows ops te i s)"
proof -
  define s1 where "s1 = (case kv_get ops s NS_TOKEN_INDEX (te_uuid_string te i) of
      Inr (Some pb) \<Rightarrow> (case (utf8_valid pb, PrincipalId_new pb) of
          (True, Inr p) \<Rightarrow> snd (kv_delete ops s NS_TOKENS (token_key te p i)) | _ \<Rightarrow> s)
    | _ \<Rightarrow> s)"
  have "evolves s s1"
    by (auto simp: s1_def intro!: evolves_delete split: sum.splits option.splits bool.splits)
  then show ?thesis
    unfolding revoke_rows_def Let_def s1_def [symmetric]
    by (rule evolves_trans [OF evolves_trans [OF _ evolves_delete] evolves_delete]) simp_all
qed

lemma evolves_read: "read_persistent_token_any_principal ops te now s i = (r, s') \<Longrightarrow> evolves s s'"
  unfolding read_persistent_token_any_principal_def Let_def
  by (auto intro!: evolves_delete split: sum.splits option.splits if_splits)

end

context plain_kv
begin

text \<open>A tombstone row that parses to an identifier; every marked identifier has one.\<close>

definition marked :: "TokenEnv \<Rightarrow> 's \<Rightarrow> string \<Rightarrow> TokenId \<Rightarrow> bool" where
  "marked te s n i \<longleftrightarrow> (\<exists>k. te_uuid_parse te k = Some i \<and> view s \<lparr>ke_namespace = n, ke_key = k\<rparr> \<noteq> None)"

lemma marked_evolves:
  "evolves s s' \<Longrightarrow> inv s \<Longrightarrow> n \<in> {NS_USED, NS_REVOKED} \<Longrightarrow> marked te s n i \<Longrightarrow> marked te s' n i"
  unfolding marked_def evolves_def by blast

definition durable :: "TokenEnv \<Rightarrow> 's CapabilityStore \<Rightarrow> bool" where
  "durable te cs \<longleftrightarrow> (\<forall>s. cs_store cs = Some s \<longrightarrow> inv s
     \<and> (\<forall>i \<in> cs_used cs. marked te s NS_USED i) \<and> (\<forall>i \<in> cs_revoked cs. marked te s NS_REVOKED i))"

text \<open>What every operation keeps: the marks, their rows, and whether there is a backend.\<close>

definition kept :: "TokenEnv \<Rightarrow> 's CapabilityStore \<Rightarrow> 's CapabilityStore \<Rightarrow> bool" where
  "kept te cs cs' \<longleftrightarrow> cs_revoked cs \<subseteq> cs_revoked cs' \<and> cs_used cs \<subseteq> cs_used cs' \<and> (durable te cs \<longrightarrow> durable te cs')
     \<and> (cs_store cs' = None \<longleftrightarrow> cs_store cs = None)"

lemma kept_refl [simp]: "kept te cs cs"
  by (simp add: kept_def)

lemma kept_trans: "kept te cs ds \<Longrightarrow> kept te ds es \<Longrightarrow> kept te cs es"
  by (auto simp: kept_def)

lemma kept_same:
  "cs_store cs' = cs_store cs \<Longrightarrow> cs_revoked cs' = cs_revoked cs \<Longrightarrow> cs_used cs' = cs_used cs \<Longrightarrow> kept te cs cs'"
  by (simp add: kept_def durable_def)

lemma kept_evolves:
  assumes "cs_store cs = Some s" and "evolves s s'"
  shows "kept te cs (cs\<lparr>cs_store := Some s'\<rparr>)"
  using assms marked_evolves [OF assms(2)] by (auto simp: kept_def durable_def evolves_def)

lemma kept_cap_add: "cap_add ops te now t cs = (r, cs') \<Longrightarrow> kept te cs cs'"
  unfolding cap_add_def
  by (auto intro!: kept_evolves kept_same dest!: evolves_set intro: evolves_trans simp: session_insert_def Let_def
      split: if_splits sum.splits option.splits prod.splits TokenScope.splits)

lemma kept_cap_get: "cap_get ops te now i cs = (r, cs') \<Longrightarrow> kept te cs cs'"
  unfolding cap_get_def
  by (auto intro!: kept_evolves dest!: evolves_read split: if_splits sum.splits option.splits prod.splits)

lemma marked_row:
  assumes "token_env_ok te" and "durable te cs" and "cs_store cs = Some s"
    and "kv_set ops s n (te_uuid_string te i) v = (Inr u, s')"
  shows "marked te s' n i"
proof -
  have "inv s" using assms by (simp add: durable_def)
  from set_law [OF this assms(4)] show ?thesis
    using assms(1) unfolding marked_def
    by (intro exI [of _ "te_uuid_string te i"]) (simp add: Let_def token_env_ok_def)
qed

lemma kept_mark_used:
  assumes te: "token_env_ok te" and run: "mark_used ops te i cs = (r, cs')"
  shows "kept te cs cs' \<and> (is_ok r \<longrightarrow> i \<notin> cs_used cs \<and> i \<in> cs_used cs')"
proof (cases "i \<in> cs_used cs \<or> cs_store cs = None")
  case False
  from False obtain s where s: "cs_store cs = Some s" and fresh: "i \<notin> cs_used cs" by auto
  obtain x s1 where w: "kv_set ops s NS_USED (te_uuid_string te i) PRESENCE_MARKER = (x, s1)" by fastforce
  have k: "kept te cs (cs\<lparr>cs_store := Some s1\<rparr>)" by (rule kept_evolves [OF s evolves_set [OF w]])
  show ?thesis
  proof (cases x)
    case (Inl e)
    then show ?thesis using run s fresh w k by (auto simp: mark_used_def)
  next
    case (Inr u)
    have "kept te cs (cs\<lparr>cs_store := Some s1, cs_used := insert i (cs_used cs)\<rparr>)"
      using k marked_row [OF te _ s w [unfolded Inr]] by (auto simp: kept_def durable_def)
    then show ?thesis using run s fresh w Inr by (auto simp: mark_used_def)
  qed
qed (use run in \<open>auto simp: mark_used_def kept_def durable_def split: if_splits\<close>)

lemma kept_cap_revoke:
  assumes te: "token_env_ok te" and run: "cap_revoke ops te i cs = (r, cs')"
  shows "kept te cs cs' \<and> (is_ok r \<longrightarrow> i \<in> cs_revoked cs')"
proof (cases "cs_store cs")
  case (Some s)
  obtain x s1 where w: "kv_set ops s NS_REVOKED (te_uuid_string te i) PRESENCE_MARKER = (x, s1)" by fastforce
  have k: "kept te cs (cs\<lparr>cs_store := Some s1\<rparr>)" by (rule kept_evolves [OF Some evolves_set [OF w]])
  show ?thesis
  proof (cases x)
    case (Inl e)
    then show ?thesis using run Some w k by (auto simp: cap_revoke_def)
  next
    case (Inr u)
    let ?t = "revoke_rows ops te i s1"
    let ?m = "cs\<lparr>cs_store := Some s1, cs_revoked := insert i (cs_revoked cs)\<rparr>"
    have "kept te cs ?m"
      using k marked_row [OF te _ Some w [unfolded Inr]] by (auto simp: kept_def durable_def)
    moreover have "kept te ?m (?m\<lparr>cs_store := Some ?t\<rparr>)"
      by (rule kept_evolves [OF _ evolves_revoke_rows]) simp
    ultimately have "kept te cs (?m\<lparr>cs_store := Some ?t\<rparr>)" by (rule kept_trans)
    then have "kept te cs (revoke_in_memory i (cs\<lparr>cs_store := Some ?t\<rparr>))"
      by (rule kept_trans) (auto intro!: kept_same simp: revoke_in_memory_def)
    then show ?thesis using run Some w Inr by (auto simp: cap_revoke_def revoke_in_memory_def)
  qed
qed (use run in \<open>auto simp: cap_revoke_def kept_def durable_def revoke_in_memory_def\<close>)

lemma kept_purge: "purge_principal ops te p cs = (r, cs') \<Longrightarrow> kept te cs cs'"
proof -
  assume run: "purge_principal ops te p cs = (r, cs')"
  let ?c = "clear_session_for p cs"
  have c: "kept te cs ?c" by (rule kept_same) (simp_all add: clear_session_for_def)
  consider "cs' = ?c" | s ks fs s1 js fs2 s2 where "cs_store ?c = Some s" "delete_rows ops NS_TOKENS ks s = (fs, s1)"
      "delete_rows ops NS_TOKEN_INDEX js s1 = (fs2, s2)" "cs' = ?c\<lparr>cs_store := Some s2\<rparr>"
    using run unfolding purge_principal_def Let_def by (auto split: option.splits sum.splits prod.splits)
  then show ?thesis
  proof cases
    case 2
    have "evolves s s2"
      by (rule evolves_trans [OF evolves_delete_rows [OF _ 2(2)] evolves_delete_rows [OF _ 2(3)]]) simp_all
    then show ?thesis using kept_trans [OF c kept_evolves [OF 2(1)]] 2(4) by simp
  qed (use c in simp)
qed

lemma kept_cleanup: "cap_cleanup_expired ops te now cs = (r, cs') \<Longrightarrow> kept te cs cs'"
  unfolding cap_cleanup_expired_def
  by (auto intro!: kept_evolves dest!: evolves_cleanup_rows simp: Let_def split: option.splits sum.splits prod.splits)

text \<open>A restart reads every mark back.\<close>

lemma loaded_ids:
  assumes "inv s" and "kv_list_keys ops s n = Inr keys"
  shows "i \<in> parsed_ids te keys \<longleftrightarrow> marked te s n i"
proof -
  have "i \<in> parsed_ids te keys \<longleftrightarrow> (\<exists>k \<in> set keys. te_uuid_parse te k = Some i)"
    by (force simp: parsed_ids_def List.map_filter_def)
  then show ?thesis using list_keys_law [OF assms] by (auto simp: marked_def)
qed

lemma with_kv_store_marks:
  assumes s: "inv s" and load: "with_kv_store ops te s = Inr cs"
  shows "durable te cs \<and> cs_store cs = Some s"
    and "\<And>ds. cs_store ds = Some s \<Longrightarrow> durable te ds \<Longrightarrow> cs_revoked ds \<subseteq> cs_revoked cs \<and> cs_used ds \<subseteq> cs_used cs"
proof -
  obtain rk uk where k: "kv_list_keys ops s NS_REVOKED = Inr rk" "kv_list_keys ops s NS_USED = Inr uk"
      "cs = in_memory\<lparr>cs_store := Some s, cs_revoked := parsed_ids te rk, cs_used := parsed_ids te uk\<rparr>"
    using load by (auto simp: with_kv_store_def load_revoked_def load_used_tokens_def in_memory_def result_simps
        split: sum.splits)
  show "durable te cs \<and> cs_store cs = Some s"
    using s by (auto simp: k(3) durable_def loaded_ids [OF s k(1)] loaded_ids [OF s k(2)])
  show "cs_revoked ds \<subseteq> cs_revoked cs \<and> cs_used ds \<subseteq> cs_used cs" if "cs_store ds = Some s" "durable te ds" for ds
    using that by (auto simp: k(3) durable_def loaded_ids [OF s k(1)] loaded_ids [OF s k(2)])
qed

end

section \<open>Concurrent use and restarts\<close>

text \<open>
  The operations other than \<open>use_token\<close> that other callers may run.  Each one is a single step.  For
  \<open>mark_used\<close> the lock that it holds across its write makes it one; \<open>add\<close>, \<open>revoke\<close> and \<open>purge_principal\<close> hold
  no lock over all of their writes, and that nothing runs between their writes is an assumption of the relation.
\<close>

datatype CapOp =
    OpAdd Timestamp CapabilityToken
  | OpGet Timestamp TokenId
  | OpMarkUsed TokenId
  | OpRevoke TokenId
  | OpClearSession
  | OpClearSessionFor PrincipalId
  | OpPurge PrincipalId
  | OpBeginRetirement PrincipalId
  | OpFinishRetirement PrincipalId
  | OpCleanup Timestamp

fun apply_op :: "'s KvStore \<Rightarrow> TokenEnv \<Rightarrow> CapOp \<Rightarrow> 's CapabilityStore \<Rightarrow> 's CapabilityStore" where
  "apply_op ops te (OpAdd now t) cs = snd (cap_add ops te now t cs)"
| "apply_op ops te (OpGet now i) cs = snd (cap_get ops te now i cs)"
| "apply_op ops te (OpMarkUsed i) cs = snd (mark_used ops te i cs)"
| "apply_op ops te (OpRevoke i) cs = snd (cap_revoke ops te i cs)"
| "apply_op ops te OpClearSession cs = clear_session cs"
| "apply_op ops te (OpClearSessionFor p) cs = clear_session_for p cs"
| "apply_op ops te (OpPurge p) cs = snd (purge_principal ops te p cs)"
| "apply_op ops te (OpBeginRetirement p) cs = cap_begin_retirement p cs"
| "apply_op ops te (OpFinishRetirement p) cs = cap_finish_retirement p cs"
| "apply_op ops te (OpCleanup now) cs = snd (cap_cleanup_expired ops te now cs)"

text \<open>
  A system is the store, the \<open>use_token\<close> calls on single-use tokens that have looked their token up and
  not yet marked it, and the uses that returned the token to their caller.
\<close>

record 's CapSystem =
  sy_store :: "'s CapabilityStore"
  sy_pending :: "(TokenId \<times> CapabilityToken) list"
  sy_uses :: "TokenId list"

inductive cap_step :: "'s KvStore \<Rightarrow> TokenEnv \<Rightarrow> 's CapSystem \<Rightarrow> 's CapSystem \<Rightarrow> bool" for ops te where
  operate: "cap_step ops te y (y\<lparr>sy_store := apply_op ops te op (sy_store y)\<rparr>)"
| lookup: "cap_get ops te now i (sy_store y) = (Inr (Some t), cs) \<Longrightarrow> token_validate te now t = Inr () \<Longrightarrow>
    tok_single_use t \<Longrightarrow> cap_step ops te y (y\<lparr>sy_store := cs, sy_pending := sy_pending y @ [(i, t)]\<rparr>)"
| consume: "sy_pending y = a @ (i, t) # b \<Longrightarrow> mark_used ops te i (sy_store y) = (Inr (), cs) \<Longrightarrow>
    cap_step ops te y (y\<lparr>sy_store := cs, sy_pending := a @ b, sy_uses := sy_uses y @ [i]\<rparr>)"
| refuse: "sy_pending y = a @ (i, t) # b \<Longrightarrow> mark_used ops te i (sy_store y) = (Inl e, cs) \<Longrightarrow>
    cap_step ops te y (y\<lparr>sy_store := cs, sy_pending := a @ b\<rparr>)"
| restart: "cs_store (sy_store y) = Some s \<Longrightarrow> with_kv_store ops te s = Inr cs \<Longrightarrow>
    cap_step ops te y (y\<lparr>sy_store := cs, sy_pending := []\<rparr>)"

definition fresh_system :: "'s CapabilityStore \<Rightarrow> 's CapSystem" where
  "fresh_system cs = \<lparr>sy_store = cs, sy_pending = [], sy_uses = []\<rparr>"

text \<open>A call of \<open>use_token\<close> that no other call interrupts is a look-up followed by a mark.\<close>

lemma use_token_steps:
  assumes "use_token ops te now i (sy_store y) = (Inr t, cs)" and "tok_single_use t" and "sy_pending y = []"
  shows "(cap_step ops te)\<^sup>*\<^sup>* y (y\<lparr>sy_store := cs, sy_uses := sy_uses y @ [i]\<rparr>)"
proof -
  obtain c1 where g: "cap_get ops te now i (sy_store y) = (Inr (Some t), c1)" and v: "token_validate te now t = Inr ()"
      and m: "mark_used ops te i c1 = (Inr (), cs)"
    using assms(1,2) by (auto simp: use_token_def split: prod.splits sum.splits option.splits if_splits)
  let ?y = "y\<lparr>sy_store := c1, sy_pending := sy_pending y @ [(i, t)]\<rparr>"
  have 1: "cap_step ops te y ?y" by (rule cap_step.lookup [OF g v assms(2)])
  have "cap_step ops te ?y (?y\<lparr>sy_store := cs, sy_pending := [] @ [], sy_uses := sy_uses ?y @ [i]\<rparr>)"
    by (rule cap_step.consume [where i = i and t = t and b = "[]" and a = "[]"]) (simp_all add: assms(3) m)
  moreover have "?y\<lparr>sy_store := cs, sy_pending := [] @ [], sy_uses := sy_uses ?y @ [i]\<rparr>
      = y\<lparr>sy_store := cs, sy_uses := sy_uses y @ [i]\<rparr>" by (simp add: assms(3))
  ultimately show ?thesis using 1 by (metis converse_rtranclp_into_rtranclp r_into_rtranclp)
qed

context plain_kv
begin

lemma kept_apply_op: "token_env_ok te \<Longrightarrow> kept te cs (apply_op ops te op cs)"
  by (cases op)
     (auto simp: cap_begin_retirement_def cap_finish_retirement_def clear_session_def clear_session_for_def
       intro: kept_same kept_cap_add kept_cap_get kept_purge kept_cleanup kept_mark_used [THEN conjunct1]
         kept_cap_revoke [THEN conjunct1] surjective_pairing)

text \<open>Marks only grow along a run, and a use marks an identifier that was not marked.\<close>

lemma cap_step_marks:
  assumes "token_env_ok te" and "cap_step ops te y y'" and "durable te (sy_store y)"
  shows "durable te (sy_store y') \<and> cs_revoked (sy_store y) \<subseteq> cs_revoked (sy_store y')
    \<and> cs_used (sy_store y) \<subseteq> cs_used (sy_store y')
    \<and> (sy_uses y' = sy_uses y \<or> (\<exists>i. sy_uses y' = sy_uses y @ [i] \<and> i \<notin> cs_used (sy_store y) \<and> i \<in> cs_used (sy_store y')))"
  using assms(2,3)
proof (cases rule: cap_step.cases)
  case (operate op)
  then show ?thesis using kept_apply_op [OF assms(1), of "sy_store y" op] assms(3) by (simp add: kept_def)
next
  case (lookup now i t cs)
  then show ?thesis using kept_cap_get [OF lookup(2)] assms(3) by (simp add: kept_def)
next
  case (consume a i t b cs)
  then show ?thesis using kept_mark_used [OF assms(1) consume(3)] assms(3) by (auto simp: kept_def)
next
  case (refuse a i t b e cs)
  then show ?thesis using kept_mark_used [OF assms(1) refuse(3)] assms(3) by (auto simp: kept_def)
next
  case (restart s cs)
  have "inv s" using assms(3) restart(2) by (simp add: durable_def)
  from with_kv_store_marks [OF this restart(3)] restart(1,2) assms(3) show ?thesis by simp
qed

lemma cap_run_marks:
  assumes "token_env_ok te" and "(cap_step ops te)\<^sup>*\<^sup>* y y'" and "durable te (sy_store y)"
  shows "durable te (sy_store y') \<and> cs_revoked (sy_store y) \<subseteq> cs_revoked (sy_store y')
    \<and> cs_used (sy_store y) \<subseteq> cs_used (sy_store y')
    \<and> (\<exists>us. sy_uses y' = sy_uses y @ us \<and> distinct us \<and> set us \<inter> cs_used (sy_store y) = {}
         \<and> set us \<subseteq> cs_used (sy_store y'))"
  using assms(2)
proof (induction rule: rtranclp_induct)
  case base
  then show ?case using assms(3) by simp
next
  case (step z z')
  then obtain us where us: "sy_uses z = sy_uses y @ us" "distinct us" "set us \<inter> cs_used (sy_store y) = {}"
      "set us \<subseteq> cs_used (sy_store z)" and d: "durable te (sy_store z)" by blast
  note s = cap_step_marks [OF assms(1) step.hyps(2) d]
  then consider "sy_uses z' = sy_uses z"
    | i where "sy_uses z' = sy_uses z @ [i]" "i \<notin> cs_used (sy_store z)" "i \<in> cs_used (sy_store z')" by blast
  then have "\<exists>us. sy_uses z' = sy_uses y @ us \<and> distinct us \<and> set us \<inter> cs_used (sy_store y) = {}
         \<and> set us \<subseteq> cs_used (sy_store z')"
  proof cases
    case 1
    then show ?thesis using us s by (intro exI [of _ us]) auto
  next
    case (2 i)
    then show ?thesis using us s step.IH by (intro exI [of _ "us @ [i]"]) auto
  qed
  then show ?case using s step.IH by blast
qed

end

section \<open>Whom a token authorizes\<close>

lemma first_some_Some: "first_some f xs = Some y \<Longrightarrow> \<exists>x \<in> set xs. f x = Some y"
  by (induction xs) (auto split: option.splits)

lemma first_some_None: "first_some f xs = None \<longleftrightarrow> (\<forall>x \<in> set xs. f x = None)"
  by (induction xs) (auto split: option.splits)

text \<open>What holds of every token that \<open>find_capability\<close> returns, and what more of one from each half of the store.\<close>

lemma find_capability_sound:
  assumes "find_capability ops te now p resource permission cs = Some t"
  shows "p \<notin> cs_retiring cs \<and> tok_principal t = p \<and> grants t resource permission \<and> \<not> is_consumed_single_use cs t
    \<and> (\<not> token_is_expired now t
         \<and> (\<exists>m. hm_get (cs_session cs) p = Some m \<and> t \<in> set (hm_values m))
       \<or> token_validate te now t = Inr () \<and> tok_id t \<notin> cs_revoked cs)"
proof -
  consider "t \<in> set (session_candidates now p resource permission cs)" "\<not> is_consumed_single_use cs t"
    | s k where "persistent_candidate ops te now p resource permission cs s k = Some t"
    using assms unfolding find_capability_def
    by (auto split: if_splits option.splits sum.splits dest!: first_some_Some find_Some_iff)
  then show ?thesis
  proof cases
    case 1
    then show ?thesis using assms
      by (auto simp: session_candidates_def find_capability_def split: option.splits if_splits)
  next
    case (2 s k)
    then show ?thesis using assms
      by (auto simp: persistent_candidate_def find_capability_def is_ok_iff split: sum.splits option.splits if_splits)
  qed
qed

text \<open>
  The rows that belong to a principal: the token rows under its prefix, and the index rows of the identifiers
  that the index gives it or under which it has a token row.
\<close>

definition owns_id :: "TokenEnv \<Rightarrow> PrincipalId \<Rightarrow> kv_view \<Rightarrow> TokenId \<Rightarrow> bool" where
  "owns_id te p v i \<longleftrightarrow> (\<exists>raw. te_uuid_parse te raw = Some i
     \<and> (v \<lparr>ke_namespace = NS_TOKEN_INDEX, ke_key = raw\<rparr> = Some (pid_str p)
        \<or> v \<lparr>ke_namespace = NS_TOKENS, ke_key = token_key_prefix p @ raw\<rparr> \<noteq> None))"

definition purged :: "TokenEnv \<Rightarrow> PrincipalId \<Rightarrow> kv_view \<Rightarrow> KvEntryKey \<Rightarrow> bool" where
  "purged te p v e \<longleftrightarrow>
     ke_namespace e = NS_TOKENS \<and> starts_with (token_key_prefix p) (ke_key e)
     \<or> ke_namespace e = NS_TOKEN_INDEX \<and> (\<exists>i. ke_key e = te_uuid_string te i \<and> owns_id te p v i)"

lemma primary_ids_set:
  "set (primary_ids te p keys) = {i. \<exists>raw. token_key_prefix p @ raw \<in> set keys \<and> te_uuid_parse te raw = Some i}"
proof (induction keys)
  case (Cons key keys)
  then show ?case
    by (cases "strip_prefix (token_key_prefix p) key")
       (auto simp: primary_ids_def List.map_filter_simps strip_prefix_Some_iff split: option.splits)
qed (simp add: primary_ids_def List.map_filter_simps)

context plain_kv
begin

lemma delete_rows_view:
  "inv s \<Longrightarrow> delete_rows ops n ks s = ([], s') \<Longrightarrow> inv s' \<and> view s' e =
     (if ke_namespace e = n \<and> ke_key e \<in> set ks then None else view s e)"
proof (induction ks arbitrary: s)
  case (Cons k ks)
  obtain r s1 where d: "kv_delete ops s n k = (r, s1)" by fastforce
  have rest: "delete_rows ops n ks s1 = ([], s')" and ok: "is_ok r"
    using Cons.prems(2) d by (auto simp: Let_def split: prod.splits sum.splits)
  note law = delete_law [OF Cons.prems(1) d]
  have "view s1 e = (if e = \<lparr>ke_namespace = n, ke_key = k\<rparr> then None else view s e)"
    using law ok by (auto simp: Let_def)
  moreover have "e = \<lparr>ke_namespace = n, ke_key = k\<rparr> \<longleftrightarrow> ke_namespace e = n \<and> ke_key e = k" by (cases e) auto
  ultimately show ?case using Cons.IH [OF _ rest] law by auto
qed simp

lemma owned_index_ids_set:
  assumes "inv s"
  shows "owned_index_ids ops te p s keys = Inr ids \<Longrightarrow>
    set ids = {i. \<exists>raw \<in> set keys. view s \<lparr>ke_namespace = NS_TOKEN_INDEX, ke_key = raw\<rparr> = Some (pid_str p)
      \<and> te_uuid_parse te raw = Some i}"
proof (induction keys arbitrary: ids)
  case (Cons raw keys)
  from Cons.prems obtain owner rest where get: "kv_get ops s NS_TOKEN_INDEX raw = Inr owner"
      and rest: "owned_index_ids ops te p s keys = Inr rest"
      and ids: "ids = (case (owner = Some (pid_str p), te_uuid_parse te raw) of (True, Some i) \<Rightarrow> i # rest | _ \<Rightarrow> rest)"
    by (auto simp: and_then_Inr_iff split: sum.splits)
  have "owner = view s \<lparr>ke_namespace = NS_TOKEN_INDEX, ke_key = raw\<rparr>" by (rule get_law [OF assms get])
  then show ?case using Cons.IH [OF rest] ids by (auto split: bool.splits option.splits)
qed simp

lemma purge_rows:
  assumes inv: "\<And>s. cs_store cs = Some s \<Longrightarrow> inv s" and run: "purge_principal ops te p cs = (Inr (), cs')"
  shows "cs_session cs' = hm_remove p (cs_session cs)"
    and "cs_store cs = None \<Longrightarrow> cs_store cs' = None"
    and "cs_store cs = Some s \<Longrightarrow> \<exists>s'. cs_store cs' = Some s' \<and> inv s' \<and>
      (\<forall>e. view s' e = (if purged te p (view s) e then None else view s e))"
proof -
  show "cs_session cs' = hm_remove p (cs_session cs)" "cs_store cs = None \<Longrightarrow> cs_store cs' = None"
    using run unfolding purge_principal_def Let_def
    by (auto simp: clear_session_for_def split: option.splits sum.splits prod.splits if_splits)
  assume s: "cs_store cs = Some s"
  then have i: "inv s" by (rule inv)
  obtain keys idx ids s1 s2 where k: "kv_list_keys_with_prefix ops s NS_TOKENS (token_key_prefix p) = Inr keys"
      "kv_list_keys ops s NS_TOKEN_INDEX = Inr idx" "owned_index_ids ops te p s idx = Inr ids"
      "delete_rows ops NS_TOKENS keys s = ([], s1)"
      "delete_rows ops NS_TOKEN_INDEX (map (te_uuid_string te) (remdups (primary_ids te p keys @ ids))) s1 = ([], s2)"
      "cs_store cs' = Some s2"
    using run s unfolding purge_principal_def Let_def
    by (auto simp: clear_session_for_def split: option.splits sum.splits prod.splits if_splits)
  have v1: "inv s1 \<and> view s1 e = (if ke_namespace e = NS_TOKENS \<and> ke_key e \<in> set keys then None else view s e)" for e
    by (rule delete_rows_view [OF i k(4)])
  then have v2: "inv s2 \<and> view s2 e = (if ke_namespace e = NS_TOKEN_INDEX
      \<and> ke_key e \<in> te_uuid_string te ` set (primary_ids te p keys @ ids) then None else view s1 e)" for e
    using delete_rows_view [OF _ k(5), of e] by simp
  have keys: "k \<in> set keys \<longleftrightarrow> view s \<lparr>ke_namespace = NS_TOKENS, ke_key = k\<rparr> \<noteq> None \<and> starts_with (token_key_prefix p) k" for k
    using list_prefix_law [OF i k(1)] by simp
  have "i \<in> set (primary_ids te p keys @ ids) \<longleftrightarrow> owns_id te p (view s) i" for i
    using owned_index_ids_set [OF i k(3)] list_keys_law [OF i k(2)] keys
    by (auto simp: primary_ids_set owns_id_def starts_with_def)
  then have own: "set (primary_ids te p keys @ ids) = {i. owns_id te p (view s) i}" by blast
  have "view s2 e = (if purged te p (view s) e then None else view s e)" for e
    using v1 [of e] v2 [of e] keys [of "ke_key e"] namespaces_distinct
    unfolding own purged_def by (cases e) auto
  then show "\<exists>s'. cs_store cs' = Some s' \<and> inv s' \<and> (\<forall>e. view s' e = (if purged te p (view s) e then None else view s e))"
    using k(6) v2 by blast
qed

lemma no_rows_no_capability:
  assumes inv: "\<And>s. cs_store cs = Some s \<Longrightarrow> inv s" and session: "hm_get (cs_session cs) p = None"
    and rows: "\<And>s k. cs_store cs = Some s \<Longrightarrow> starts_with (token_key_prefix p) k
      \<Longrightarrow> view s \<lparr>ke_namespace = NS_TOKENS, ke_key = k\<rparr> = None"
  shows "find_capability ops te now p resource permission cs = None"
proof (cases "cs_store cs")
  case (Some s)
  have "ks = []" if "kv_list_keys_with_prefix ops s NS_TOKENS (token_key_prefix p) = Inr ks" for ks
  proof -
    have "set ks = {}" using list_prefix_law [OF inv [OF Some] that] rows [OF Some] by auto
    then show "ks = []" by simp
  qed
  then show ?thesis
    using session Some by (auto simp: find_capability_def session_candidates_def split: sum.splits)
qed (use session in \<open>simp add: find_capability_def session_candidates_def\<close>)

end

lemma token_key_prefix_owner:
  assumes "CHR ''/'' \<notin> set (pid_str p)" and "CHR ''/'' \<notin> set (pid_str q)"
  shows "starts_with (token_key_prefix p) (token_key te q i) \<longleftrightarrow> p = q"
proof -
  have "starts_with (token_key_prefix p) (token_key te q i)
      \<longleftrightarrow> (\<exists>r. pid_str q @ CHR ''/'' # te_uuid_string te i = pid_str p @ CHR ''/'' # r)"
    by (simp add: starts_with_append token_key_prefix_def token_key_def)
  then show ?thesis using assms by (auto simp: split_at_separator PrincipalId.expand)
qed

lemma principal_no_slash: "PrincipalId_new (pid_str p) = Inr p \<Longrightarrow> CHR ''/'' \<notin> set (pid_str p)"
  by (auto simp: PrincipalId_new_iff is_name_char_def ascii_defs)

section \<open>Properties\<close>

text \<open>
  C21.  A single-use token is used at most once, whatever else happens: on any backend that meets the
  contract of single reads and writes, in any interleaving of concurrent uses with additions, revocations,
  purges, retirements, clean-ups, failed writes and restarts of the runtime, no identifier is returned twice
  to a caller, none that was used before the run is returned at all, and a later attempt is refused.
\<close>

theorem single_use_token_once:
  assumes kv: "plain_kv ops view good" and te: "token_env_ok te" and s: "good s"
    and boot: "with_kv_store ops te s = Inr cs" and run: "(cap_step ops te)\<^sup>*\<^sup>* (fresh_system cs) y"
  shows "distinct (sy_uses y) \<and> set (sy_uses y) \<inter> cs_used cs = {}
    \<and> (\<forall>i \<in> set (sy_uses y). fst (mark_used ops te i (sy_store y)) = Inl (TokenAlreadyUsed i))"
proof -
  have "plain_kv.durable view good te (sy_store (fresh_system cs))"
    using plain_kv.with_kv_store_marks(1) [OF kv s boot] by (simp add: fresh_system_def)
  from plain_kv.cap_run_marks [OF kv te run this] show ?thesis
    by (auto simp: fresh_system_def mark_used_def)
qed

lemma signing_data_signature [simp]: "signing_data (t\<lparr>tok_signature := x\<rparr>) = signing_data t"
  by (simp add: signing_data_def)

definition sign_token :: "KeyPair \<Rightarrow> CapabilityToken \<Rightarrow> CapabilityToken" where
  "sign_token kp t = t\<lparr>tok_signature := kp_sign kp (signing_data t)\<rparr>"

lemma sign_token_validate:
  "key_ok te kp \<Longrightarrow> tok_issuer t = kp_public kp \<Longrightarrow> \<not> is_expired_with_skew now DEFAULT_CLOCK_SKEW_SECS t
     \<Longrightarrow> token_validate te now (sign_token kp t) = Inr ()"
  by (simp add: token_validate_def validate_with_skew_def verify_signature_def sign_token_def key_ok_def
      is_expired_with_skew_def)

definition demo_once :: CapabilityToken where
  "demo_once = sign_token demo_keys (demo_capability\<lparr>tok_scope := SessionScope, tok_single_use := True\<rparr>)"

lemma demo_once_simps:
  "tok_id demo_once = tok_id demo_capability" "tok_principal demo_once = default_principal" "tok_scope demo_once = SessionScope"
  "tok_single_use demo_once" "token_validate demo_te 7 demo_once = Inr ()"
proof -
  show "token_validate demo_te 7 demo_once = Inr ()" unfolding demo_once_def
    by (rule sign_token_validate [OF demo_te_ok(2)])
       (simp_all add: demo_capability_def is_expired_with_skew_def DEFAULT_CLOCK_SKEW_SECS_def)
qed (simp_all add: demo_once_def sign_token_def demo_capability_def)

definition demo_caps :: "MemoryKvStore CapabilityStore" where
  "demo_caps = in_memory\<lparr>cs_store := Some MemoryKvStore_new\<rparr>"

lemma demo_caps_simps [simp]: "cs_store demo_caps = Some MemoryKvStore_new" "cs_retiring demo_caps = {}"
  by (simp_all add: demo_caps_def in_memory_def)

lemma demo_boot: "with_kv_store memory_kv demo_te MemoryKvStore_new = Inr demo_caps"
proof -
  have "kv_list_keys memory_kv MemoryKvStore_new n = Inr []" if "n \<in> {NS_REVOKED, NS_USED}" for n
    using that by (auto simp: memory_kv_def mem_list_keys_def validate_namespace_def namespace_defs NUL_def
        MemoryKvStore_new_def hm_keys_def List.map_filter_def)
  then show ?thesis
    by (simp add: with_kv_store_def load_revoked_def load_used_tokens_def in_memory_def demo_caps_def parsed_ids_def
        List.map_filter_def)
qed

theorem single_use_token_once_witness:
  "\<exists>y. (cap_step memory_kv demo_te)\<^sup>*\<^sup>* (fresh_system demo_caps) y \<and> sy_uses y = [tok_id demo_once]
     \<and> fst (mark_used memory_kv demo_te (tok_id demo_once) (sy_store y)) = Inl (TokenAlreadyUsed (tok_id demo_once))"
proof -
  let ?i = "tok_id demo_once" and ?c = "session_insert demo_once demo_caps"
  let ?y = "(fresh_system demo_caps)\<lparr>sy_store := apply_op memory_kv demo_te (OpAdd 7 demo_once) (sy_store (fresh_system demo_caps))\<rparr>"
  have a: "sy_store ?y = ?c" "sy_pending ?y = []" "sy_uses ?y = []"
    by (simp_all add: fresh_system_def cap_add_def demo_once_simps demo_caps_def in_memory_def)
  have "cap_get memory_kv demo_te 7 ?i ?c = (Inr (Some demo_once), ?c)"
    by (simp add: cap_get_def session_lookup_def session_insert_def demo_caps_def in_memory_def hm_values_def
        hm_insert_def List.map_filter_def unless_retiring_def)
  moreover obtain r c where m: "mark_used memory_kv demo_te ?i ?c = (r, c)" by fastforce
  moreover have "r = Inr ()"
    using m by (auto simp: mark_used_def session_insert_def demo_caps_def in_memory_def memory_kv_def mem_set_def
        validate_namespace_def validate_key_def namespace_defs NUL_def demo_te_def demo_once_def sign_token_def
        demo_capability_def)
  ultimately have u: "use_token memory_kv demo_te 7 ?i (sy_store ?y) = (Inr demo_once, c)"
    unfolding a by (simp add: use_token_def demo_once_simps)
  have "(cap_step memory_kv demo_te)\<^sup>*\<^sup>* (fresh_system demo_caps) (?y\<lparr>sy_store := c, sy_uses := sy_uses ?y @ [?i]\<rparr>)"
    by (rule converse_rtranclp_into_rtranclp [OF cap_step.operate use_token_steps [OF u demo_once_simps(4) a(2)]])
  moreover from single_use_token_once [OF memk.plain_kv_axioms demo_te_ok(1) mem_inv_new demo_boot this]
  have "fst (mark_used memory_kv demo_te ?i c) = Inl (TokenAlreadyUsed ?i)" using a by simp
  ultimately show ?thesis using a by (intro exI conjI) auto
qed

text \<open>
  C24.  Deleting a principal takes exactly its tokens.  After a purge that reports success, on any backend
  that meets the contract, no resource and no permission of the principal is authorized by a token.  The
  session tokens of every other principal are as before.  The store has lost the token rows under the
  principal's prefix and the index rows of the identifiers it owns, and every other row of every namespace,
  the tombstones included, is as before; in particular the token rows of every other principal, and its
  index rows for identifiers of which the purged principal held nothing.
\<close>

theorem purge_removes_all_tokens:
  assumes kv: "plain_kv ops view good" and s: "cs_store cs = Some s" "good s"
    and run: "purge_principal ops te p cs = (Inr (), cs')"
    and names: "PrincipalId_new (pid_str p) = Inr p" "PrincipalId_new (pid_str q) = Inr q" and other: "q \<noteq> p"
  shows "find_capability ops te now p resource permission cs' = None
    \<and> hm_get (cs_session cs') q = hm_get (cs_session cs) q
    \<and> (\<exists>s'. cs_store cs' = Some s' \<and> (\<forall>e. view s' e = (if purged te p (view s) e then None else view s e))
        \<and> (\<forall>i. view s' \<lparr>ke_namespace = NS_TOKENS, ke_key = token_key te q i\<rparr>
              = view s \<lparr>ke_namespace = NS_TOKENS, ke_key = token_key te q i\<rparr>)
        \<and> (\<forall>i. inj (te_uuid_string te) \<longrightarrow> \<not> owns_id te p (view s) i \<longrightarrow>
              view s' \<lparr>ke_namespace = NS_TOKEN_INDEX, ke_key = te_uuid_string te i\<rparr>
              = view s \<lparr>ke_namespace = NS_TOKEN_INDEX, ke_key = te_uuid_string te i\<rparr>))"
proof -
  note rows = plain_kv.purge_rows [OF kv _ run]
  from s obtain s' where s': "cs_store cs' = Some s'" "good s'"
    and v: "\<And>e. view s' e = (if purged te p (view s) e then None else view s e)"
    using rows(3) by force
  have sess: "cs_session cs' = hm_remove p (cs_session cs)" using rows(1) s by simp
  have "find_capability ops te now p resource permission cs' = None"
    by (rule plain_kv.no_rows_no_capability [OF kv]) (use s' v in \<open>auto simp: sess hm.get_remove purged_def\<close>)
  moreover have "\<not> purged te p (view s) \<lparr>ke_namespace = NS_TOKENS, ke_key = token_key te q i\<rparr>" for i
    using token_key_prefix_owner [of p q te i] names [THEN principal_no_slash] other namespaces_distinct
    by (auto simp: purged_def)
  moreover have "\<not> purged te p (view s) \<lparr>ke_namespace = NS_TOKEN_INDEX, ke_key = te_uuid_string te i\<rparr>"
    if "inj (te_uuid_string te)" "\<not> owns_id te p (view s) i" for i
    using that namespaces_distinct by (auto simp: purged_def inj_eq)
  ultimately show ?thesis using s' other by (simp add: v sess hm.get_remove)
qed

definition demo_rows :: MemoryKvStore where
  "demo_rows = \<lparr>mem_data =
     [(full_key NS_TOKENS (token_key demo_te default_principal ''1''), ''{}''), (full_key NS_TOKEN_INDEX ''1'', ''default''),
      (full_key NS_TOKENS (token_key demo_te (PrincipalId ''bob'') ''2''), ''{}''), (full_key NS_TOKEN_INDEX ''2'', ''bob'')]\<rparr>"

lemma demo_rows_inv: "mem_inv demo_rows"
proof -
  have "hm_wf (mem_data demo_rows)" by code_simp
  moreover have "\<forall>(n, k) \<in> {(NS_TOKENS, ''default/1''), (NS_TOKEN_INDEX, ''1''), (NS_TOKENS, ''bob/2''), (NS_TOKEN_INDEX, ''2'')}.
      entry_ok \<lparr>ke_namespace = n, ke_key = k\<rparr>" by code_simp
  ultimately show ?thesis
    by (auto simp: mem_inv_def demo_rows_def hm_keys_def token_key_def demo_te_def default_principal_def
        intro: exI [of _ "\<lparr>ke_namespace = _, ke_key = _\<rparr>"])
qed

theorem purge_removes_all_tokens_witness:
  "let cs = demo_caps\<lparr>cs_store := Some demo_rows\<rparr>; cs' = snd (purge_principal memory_kv demo_te default_principal cs)
   in fst (purge_principal memory_kv demo_te default_principal cs) = Inr ()
     \<and> find_capability memory_kv demo_te 7 default_principal ''mcp://fs:read'' PermInvoke cs' = None
     \<and> (\<exists>s'. cs_store cs' = Some s'
          \<and> mem_view s' \<lparr>ke_namespace = NS_TOKENS, ke_key = token_key demo_te (PrincipalId ''bob'') ''2''\<rparr> = Some ''{}''
          \<and> mem_view s' \<lparr>ke_namespace = NS_TOKEN_INDEX, ke_key = ''2''\<rparr> = Some ''bob''
          \<and> mem_view s' \<lparr>ke_namespace = NS_TOKEN_INDEX, ke_key = ''1''\<rparr> = None)"
proof -
  let ?cs = "demo_caps\<lparr>cs_store := Some demo_rows\<rparr>" and ?v = "mem_view demo_rows"
  obtain r cs' where run: "purge_principal memory_kv demo_te default_principal ?cs = (r, cs')" by fastforce
  moreover have "fst (purge_principal memory_kv demo_te default_principal ?cs) = Inr ()" by code_simp
  ultimately have ok: "purge_principal memory_kv demo_te default_principal ?cs = (Inr (), cs')" by simp
  have names: "PrincipalId_new (pid_str default_principal) = Inr default_principal"
      "PrincipalId_new (pid_str (PrincipalId ''bob'')) = Inr (PrincipalId ''bob'')" by code_simp+
  have bob: "?v \<lparr>ke_namespace = NS_TOKENS, ke_key = token_key demo_te (PrincipalId ''bob'') ''2''\<rparr> = Some ''{}''"
      "?v \<lparr>ke_namespace = NS_TOKEN_INDEX, ke_key = ''2''\<rparr> = Some ''bob''"
      "?v \<lparr>ke_namespace = NS_TOKEN_INDEX, ke_key = ''1''\<rparr> = Some (pid_str default_principal)"
      "?v \<lparr>ke_namespace = NS_TOKENS, ke_key = token_key_prefix default_principal @ ''2''\<rparr> = None"
    by code_simp+
  have te: "te_uuid_string demo_te = (\<lambda>i. i)" "te_uuid_parse demo_te = Some" by (simp_all add: demo_te_def fun_eq_iff)
  have "\<not> owns_id demo_te default_principal ?v ''2''" "owns_id demo_te default_principal ?v ''1''"
    using bob by (simp_all add: owns_id_def te default_principal_def)
  then have p: "purged demo_te default_principal ?v \<lparr>ke_namespace = NS_TOKEN_INDEX, ke_key = ''1''\<rparr>"
      "\<not> owns_id demo_te default_principal ?v ''2''" by (simp_all add: purged_def te)
  from purge_removes_all_tokens [OF memk.plain_kv_axioms _ demo_rows_inv ok names, of 7 "''mcp://fs:read''" PermInvoke]
  show ?thesis using bob ok p by (auto simp: default_principal_def te)
qed

end
