(* ===== verification/Token_Service.thy ===== *)
theory Token_Service
  imports Capability_Store
begin

text \<open>
  The services on capability tokens: the validator (\<open>crates/astrid-capabilities/src/validator.rs\<close>), the
  admin handlers that mint, revoke and list tokens
  (\<open>crates/astrid-kernel/src/kernel_router/admin/caps_tokens.rs\<close> with the entries of \<open>grant_audit.rs\<close>), and
  the client that authorizes and audits tool calls (\<open>crates/astrid-mcp/src/secure.rs\<close>).

  A tool call that was authorized rests on a token of the caller that the runtime signed; a revoked token
  never authorizes again; a minted token is found.  The MCP client behind the check is a parameter, an
  append to the audit log is recorded whether or not the log kept it, and a panic is a result.
\<close>

section \<open>Validator\<close>

datatype AuthorizationResult =
    Authorized CapabilityToken
  | RequiresApproval string Permission

definition validate_token ::
  "TokenEnv \<Rightarrow> string list \<Rightarrow> Timestamp \<Rightarrow> CapabilityToken \<Rightarrow> (CapabilityError, unit) result" where
  "validate_token te trusted_issuers now token =
     (if token_is_expired now token then Inl (TokenExpired (tok_id token))
      else and_then (verify_signature te token) (\<lambda>_.
        if trusted_issuers \<noteq> [] \<and> tok_issuer token \<notin> set trusted_issuers then Inl InvalidSignature else Inr ()))"

definition validator_check ::
  "'s KvStore \<Rightarrow> TokenEnv \<Rightarrow> string list \<Rightarrow> Timestamp \<Rightarrow> PrincipalId \<Rightarrow> string \<Rightarrow> Permission \<Rightarrow> 's CapabilityStore
     \<Rightarrow> AuthorizationResult" where
  "validator_check ops te trusted_issuers now p resource permission cs =
     (case find_capability ops te now p resource permission cs of
        Some token \<Rightarrow> if is_ok (validate_token te trusted_issuers now token) then Authorized token
                      else RequiresApproval resource permission
      | None \<Rightarrow> RequiresApproval resource permission)"

definition validate_by_id ::
  "'s KvStore \<Rightarrow> TokenEnv \<Rightarrow> string list \<Rightarrow> Timestamp \<Rightarrow> PrincipalId \<Rightarrow> TokenId \<Rightarrow> 's CapabilityStore
     \<Rightarrow> (CapabilityError, unit) result \<times> 's CapabilityStore" where
  "validate_by_id ops te trusted_issuers now p token_id cs =
     (case cap_get ops te now token_id cs of
        (Inl e, cs1) \<Rightarrow> (Inl e, cs1)
      | (Inr None, cs1) \<Rightarrow> (Inl (TokenNotFound token_id), cs1)
      | (Inr (Some token), cs1) \<Rightarrow>
          (if tok_principal token \<noteq> p then Inl InvalidSignature else validate_token te trusted_issuers now token, cs1))"

section \<open>Minting, revoking and listing\<close>

datatype TokenAuditAction =
    CapabilityCreated TokenId string "Permission list" TokenScope
  | CapabilityRevoked TokenId string

text \<open>An entry of the audit log with the principal under which it is chained.\<close>

record TokenAuditEntry =
  ta_principal :: "PrincipalId option"
  ta_action :: TokenAuditAction
  ta_reason :: string

record 's TokenKernel =
  tk_capabilities :: "'s CapabilityStore"
  tk_runtime_key :: KeyPair
  tk_profiles :: "PrincipalId set"
  tk_audit :: "TokenAuditEntry list"

datatype TokenBadInput =
    UnknownPermission string
  | BadPattern CapabilityError
  | NoSuchPrincipal PrincipalId
  | TtlOutOfRange u64
  | BadTokenId string

record TokenRow =
  tr_id :: string
  tr_resource :: string
  tr_permissions :: "string list"
  tr_scope :: string
  tr_issued_at :: Timestamp
  tr_expires_at :: "Timestamp option"

datatype TokenResponse =
    TokenMinted string string string "Timestamp option" PrincipalId
  | TokenWasRevoked string
  | TokensListed PrincipalId "TokenRow list"
  | TokenBadRequest TokenBadInput
  | TokenInternal CapabilityError

definition parse_permission :: "string option \<Rightarrow> (TokenBadInput, Permission) result" where
  "parse_permission permission =
     (case permission of
        None \<Rightarrow> Inr PermInvoke
      | Some raw \<Rightarrow>
          let name = map to_ascii_lowercase (trim raw)
          in if name = ''read'' then Inr PermRead
             else if name = ''write'' then Inr PermWrite
             else if name = ''execute'' then Inr PermExecute
             else if name = ''delete'' then Inr PermDelete
             else if name = ''invoke'' then Inr PermInvoke
             else if name = ''list'' then Inr PermList
             else if name = ''create'' then Inr PermCreate
             else Inl (UnknownPermission name))"

definition parse_ttl :: "TokenEnv \<Rightarrow> u64 option \<Rightarrow> (TokenBadInput, int option) result" where
  "parse_ttl te ttl_secs =
     (case ttl_secs of
        None \<Rightarrow> Inr None
      | Some secs \<Rightarrow>
          (case if uint secs < 2 ^ 63 then te_try_seconds te (uint secs) else None of
             None \<Rightarrow> Inl (TtlOutOfRange secs)
           | Some d \<Rightarrow> Inr (Some d)))"

definition ADMIN_REQUEST_REASON :: string where
  "ADMIN_REQUEST_REASON = ''admin request''"

definition record_token_created :: "CapabilityToken \<Rightarrow> 's TokenKernel \<Rightarrow> 's TokenKernel" where
  "record_token_created token k = k\<lparr>tk_audit := tk_audit k @
     [\<lparr>ta_principal = Some (tok_principal token),
       ta_action = CapabilityCreated (tok_id token) (rp_pattern (tok_resource token)) (tok_permissions token) (tok_scope token),
       ta_reason = ADMIN_REQUEST_REASON\<rparr>]\<rparr>"

definition record_token_revoked :: "PrincipalId option \<Rightarrow> TokenId \<Rightarrow> string \<Rightarrow> 's TokenKernel \<Rightarrow> 's TokenKernel" where
  "record_token_revoked subject token_id reason k = k\<lparr>tk_audit := tk_audit k @
     [\<lparr>ta_principal = subject, ta_action = CapabilityRevoked token_id reason, ta_reason = ADMIN_REQUEST_REASON\<rparr>]\<rparr>"

text \<open>
  The fresh identifiers and the readings of the clock are arguments.  \<open>None\<close> is a panic of the handler,
  which leaves the kernel as it was.
\<close>

definition caps_token_mint ::
  "'s KvStore \<Rightarrow> TokenEnv \<Rightarrow> TokenId \<Rightarrow> Uuid \<Rightarrow> Timestamp \<Rightarrow> Timestamp \<Rightarrow> PrincipalId \<Rightarrow> string \<Rightarrow> string option
     \<Rightarrow> u64 option \<Rightarrow> 's TokenKernel \<Rightarrow> TokenResponse option \<times> 's TokenKernel" where
  "caps_token_mint ops te fresh_id audit_id issued_at now p resource permission ttl_secs k =
     (case parse_permission permission of
        Inl fault \<Rightarrow> (Some (TokenBadRequest fault), k)
      | Inr perm \<Rightarrow>
     (case ResourcePattern_new te resource of
        Inl e \<Rightarrow> (Some (TokenBadRequest (BadPattern e)), k)
      | Inr resource_pattern \<Rightarrow>
          if p \<notin> tk_profiles k then (Some (TokenBadRequest (NoSuchPrincipal p)), k)
          else (case parse_ttl te ttl_secs of
             Inl fault \<Rightarrow> (Some (TokenBadRequest fault), k)
           | Inr ttl \<Rightarrow>
               (case create_token te fresh_id issued_at now resource_pattern [perm] PersistentScope
                       (key_id (tk_runtime_key k)) audit_id (tk_runtime_key k) ttl p of
                  None \<Rightarrow> (None, k)
                | Some token \<Rightarrow>
                    (case cap_add ops te now token (tk_capabilities k) of
                       (Inl e, cs) \<Rightarrow> (Some (TokenInternal e), k\<lparr>tk_capabilities := cs\<rparr>)
                     | (Inr _, cs) \<Rightarrow>
                         (Some (TokenMinted (te_uuid_string te (tok_id token)) resource (permission_string perm)
                            (tok_expires_at token) p),
                          record_token_created token (k\<lparr>tk_capabilities := cs\<rparr>)))))))"

definition caps_token_revoke ::
  "'s KvStore \<Rightarrow> TokenEnv \<Rightarrow> Timestamp \<Rightarrow> string \<Rightarrow> 's TokenKernel \<Rightarrow> TokenResponse \<times> 's TokenKernel" where
  "caps_token_revoke ops te now token_id k =
     (case te_uuid_parse te (trim token_id) of
        None \<Rightarrow> (TokenBadRequest (BadTokenId token_id), k)
      | Some parsed \<Rightarrow>
          let (found, cs) = cap_get ops te now parsed (tk_capabilities k);
              subject = (case found of Inr (Some token) \<Rightarrow> Some (tok_principal token) | _ \<Rightarrow> None)
          in (case cap_revoke ops te parsed cs of
                (Inl e, cs1) \<Rightarrow> (TokenInternal e, k\<lparr>tk_capabilities := cs1\<rparr>)
              | (Inr _, cs1) \<Rightarrow>
                  (TokenWasRevoked token_id,
                   record_token_revoked subject parsed ''admin.caps.token.revoke'' (k\<lparr>tk_capabilities := cs1\<rparr>))))"

definition token_row :: "TokenEnv \<Rightarrow> CapabilityToken \<Rightarrow> TokenRow" where
  "token_row te t =
     \<lparr>tr_id = te_uuid_string te (tok_id t), tr_resource = rp_pattern (tok_resource t),
      tr_permissions = map permission_string (tok_permissions t), tr_scope = scope_string (tok_scope t),
      tr_issued_at = tok_issued_at t, tr_expires_at = tok_expires_at t\<rparr>"

definition caps_token_list ::
  "'s KvStore \<Rightarrow> TokenEnv \<Rightarrow> Timestamp \<Rightarrow> PrincipalId \<Rightarrow> 's TokenKernel \<Rightarrow> TokenResponse" where
  "caps_token_list ops te now p k =
     (case list_tokens ops te now (tk_capabilities k) of
        Inl e \<Rightarrow> TokenInternal e
      | Inr all \<Rightarrow> TokensListed p (map (token_row te) (filter (\<lambda>t. tok_principal t = p) all)))"

section \<open>Tool calls\<close>

datatype AuthorizationProof =
    ProofUser string string
  | ProofCapability TokenId string
  | ProofUserApproval string "Uuid option"
  | ProofNotRequired string
  | ProofSystem string
  | ProofDenied string

datatype ToolAuthorization =
    ToolAuthorized AuthorizationProof
  | ToolRequiresApproval string string string

datatype 'e McpError =
    AuthorizationFailed string
  | TransportError CapabilityError
  | SerializationError
  | ClientError 'e

definition check_authorization ::
  "'s KvStore \<Rightarrow> TokenEnv \<Rightarrow> string \<Rightarrow> Timestamp \<Rightarrow> Timestamp \<Rightarrow> PrincipalId \<Rightarrow> string \<Rightarrow> string \<Rightarrow> 's CapabilityStore
     \<Rightarrow> ('e McpError, ToolAuthorization) result \<times> 's CapabilityStore" where
  "check_authorization ops te trusted_key now later p server tool cs =
     (let resource = ''mcp://'' @ server @ '':'' @ tool;
          approval = Inr (ToolRequiresApproval server tool resource)
      in case validator_check ops te [trusted_key] now p resource PermInvoke cs of
           RequiresApproval _ _ \<Rightarrow> (approval, cs)
         | Authorized found_token \<Rightarrow>
             (case use_token ops te later (tok_id found_token) cs of
                (Inr token, cs1) \<Rightarrow>
                  (if tok_issuer token \<noteq> trusted_key
                   then Inl (AuthorizationFailed ''token issuer is not the trusted runtime key'')
                   else Inr (ToolAuthorized (ProofCapability (tok_id token) (content_hash te token))), cs1)
              | (Inl (TokenAlreadyUsed _), cs1) \<Rightarrow> (approval, cs1)
              | (Inl (TokenExpired _), cs1) \<Rightarrow> (approval, cs1)
              | (Inl (TokenRevoked _), cs1) \<Rightarrow> (approval, cs1)
              | (Inl e, cs1) \<Rightarrow> (Inl (TransportError e), cs1)))"

datatype ToolContent =
    ToolText string
  | ToolImage string string
  | ToolResource string "string option" "string option"

record ToolResult =
  tres_success :: bool
  tres_content :: "ToolContent list"
  tres_error :: "string option"
  tres_is_error :: bool

definition text_content :: "ToolResult \<Rightarrow> string" where
  "text_content r = join_with [CHR 0x0A]
     (List.map_filter (\<lambda>c. case c of ToolText t \<Rightarrow> Some t | _ \<Rightarrow> None) (tres_content r))"

datatype ToolOutcome = ToolSuccess string | ToolFailure string

record ToolEntry =
  tn_server :: string
  tn_tool :: string
  tn_args_hash :: string
  tn_proof :: AuthorizationProof
  tn_outcome :: ToolOutcome

text \<open>The client with its store, the audit entries it appended, and the calls it passed on.\<close>

record 's SecureMcpClient =
  sm_capabilities :: "'s CapabilityStore"
  sm_audit :: "ToolEntry list"
  sm_calls :: "(string \<times> string \<times> string) list"

definition call_tool ::
  "TokenEnv \<Rightarrow> (string \<Rightarrow> string \<Rightarrow> string \<Rightarrow> ('e, ToolResult) result) \<Rightarrow> ('e \<Rightarrow> string) \<Rightarrow> string \<Rightarrow> string
     \<Rightarrow> string option \<Rightarrow> AuthorizationProof \<Rightarrow> 's SecureMcpClient
     \<Rightarrow> ('e McpError, ToolResult) result \<times> 's SecureMcpClient" where
  "call_tool te client error_text server tool args_json authorization self =
     (case args_json of
        None \<Rightarrow> (Inl SerializationError, self)
      | Some args \<Rightarrow>
          let entry = (\<lambda>proof outcome. \<lparr>tn_server = server, tn_tool = tool, tn_args_hash = te_hash te args,
                tn_proof = proof, tn_outcome = outcome\<rparr>);
              result = client server tool args;
              outcome = (case result of
                  Inr r \<Rightarrow> if tres_success r then ToolSuccess (text_content r)
                           else ToolFailure (case tres_error r of Some e \<Rightarrow> e | None \<Rightarrow> ''unknown error'')
                | Inl e \<Rightarrow> ToolFailure (error_text e))
          in (map_err ClientError result,
              self\<lparr>sm_audit := sm_audit self @ [entry authorization (ToolSuccess ''tool call started''),
                     entry (ProofSystem ''result logging'') outcome],
                   sm_calls := sm_calls self @ [(server, tool, args)]\<rparr>))"

definition call_tool_if_authorized ::
  "'s KvStore \<Rightarrow> TokenEnv \<Rightarrow> string \<Rightarrow> (string \<Rightarrow> string \<Rightarrow> string \<Rightarrow> ('e, ToolResult) result) \<Rightarrow> ('e \<Rightarrow> string)
     \<Rightarrow> Timestamp \<Rightarrow> Timestamp \<Rightarrow> PrincipalId \<Rightarrow> string \<Rightarrow> string \<Rightarrow> string option \<Rightarrow> 's SecureMcpClient
     \<Rightarrow> ('e McpError, (ToolAuthorization, ToolResult) result) result \<times> 's SecureMcpClient" where
  "call_tool_if_authorized ops te trusted_key client error_text now later p server tool args_json self =
     (case check_authorization ops te trusted_key now later p server tool (sm_capabilities self) of
        (Inl e, cs) \<Rightarrow> (Inl e, self\<lparr>sm_capabilities := cs\<rparr>)
      | (Inr (ToolAuthorized proof), cs) \<Rightarrow>
          (case call_tool te client error_text server tool args_json proof (self\<lparr>sm_capabilities := cs\<rparr>) of
             (Inl e, self1) \<Rightarrow> (Inl e, self1)
           | (Inr r, self1) \<Rightarrow> (Inr (Inr r), self1))
      | (Inr a, cs) \<Rightarrow> (Inr (Inl a), self\<lparr>sm_capabilities := cs\<rparr>))"

section \<open>What an authorized call rests on\<close>

definition mcp_resource :: "string \<Rightarrow> string \<Rightarrow> string" where
  "mcp_resource server tool = ''mcp://'' @ server @ '':'' @ tool"

lemma use_token_Inr:
  assumes "use_token ops te now i cs = (Inr t, cs')"
  shows "i \<notin> cs_revoked cs \<and> token_validate te now t = Inr ()
    \<and> (tok_single_use t \<longrightarrow> (\<exists>c. cap_get ops te now i cs = (Inr (Some t), c) \<and> mark_used ops te i c = (Inr (), cs')))"
  using assms
  by (auto simp: use_token_def cap_get_def split: prod.splits sum.splits option.splits if_splits)

lemma cap_get_marks: "cap_get ops te now i cs = (r, cs') \<Longrightarrow> cs_used cs' = cs_used cs \<and> cs_revoked cs' = cs_revoked cs"
  by (auto simp: cap_get_def split: prod.splits sum.splits option.splits if_splits)

lemma mark_used_Inr: "mark_used ops te i cs = (Inr u, cs') \<Longrightarrow> i \<notin> cs_used cs \<and> i \<in> cs_used cs'"
  by (auto simp: mark_used_def split: prod.splits sum.splits option.splits if_splits)

lemma validator_check_Authorized:
  assumes "validator_check ops te [trusted] now p resource permission cs = Authorized t"
  shows "find_capability ops te now p resource permission cs = Some t \<and> \<not> token_is_expired now t
    \<and> tok_issuer t = trusted \<and> te_verify te trusted (signing_data t) (tok_signature t)"
  using assms
  by (auto simp: validator_check_def validate_token_def verify_signature_def split: option.splits if_splits)

lemma check_authorization_Authorized:
  assumes "check_authorization ops te trusted now later p server tool cs = (Inr (ToolAuthorized pf), cs')"
  obtains t token where "validator_check ops te [trusted] now p (mcp_resource server tool) PermInvoke cs = Authorized t"
    and "use_token ops te later (tok_id t) cs = (Inr token, cs')" and "tok_issuer token = trusted"
    and "pf = ProofCapability (tok_id token) (content_hash te token)"
  using assms unfolding check_authorization_def Let_def mcp_resource_def [symmetric]
  by (auto split: AuthorizationResult.splits prod.splits sum.splits CapabilityError.splits if_splits)

lemma call_tool_if_authorized_calls:
  fixes client :: "string \<Rightarrow> string \<Rightarrow> string \<Rightarrow> ('e, ToolResult) result"
  assumes "call_tool_if_authorized ops te trusted client error_text now later p server tool args_json self = (r, self')"
    and "sm_calls self' \<noteq> sm_calls self"
  obtains pf cs args where
    "check_authorization ops te trusted now later p server tool (sm_capabilities self)
       = ((Inr (ToolAuthorized pf) :: ('e McpError, ToolAuthorization) result), cs)"
    and "args_json = Some args" and "sm_capabilities self' = cs" and "sm_calls self' = sm_calls self @ [(server, tool, args)]"
    and "\<exists>outcome result. sm_audit self' = sm_audit self
      @ [\<lparr>tn_server = server, tn_tool = tool, tn_args_hash = te_hash te args, tn_proof = pf, tn_outcome = ToolSuccess outcome\<rparr>,
         result]"
  using assms unfolding call_tool_if_authorized_def call_tool_def Let_def
  by (auto split: prod.splits sum.splits ToolAuthorization.splits option.splits)

text \<open>
  C20.  A tool call needs a token of the caller.  When the secure client passes a call on to a server, it is
  the one call asked for, and there is a token minted for the calling principal, who is not being retired,
  whose pattern and permissions grant the tool, which the runtime key issued and signed, and which is
  neither expired nor revoked nor, when it is for a single use, used.  The call is logged before its result
  under a proof that names a token with a valid signature of the runtime key, and a single-use token is
  marked as used.
\<close>

theorem tool_call_needs_token:
  fixes client :: "string \<Rightarrow> string \<Rightarrow> string \<Rightarrow> ('e, ToolResult) result"
  assumes run: "call_tool_if_authorized ops te trusted client error_text now later p server tool args_json self = (r, self')"
    and called: "sm_calls self' \<noteq> sm_calls self"
  shows "\<exists>t token args. let cs = sm_capabilities self in
      args_json = Some args \<and> sm_calls self' = sm_calls self @ [(server, tool, args)]
    \<and> tok_principal t = p \<and> p \<notin> cs_retiring cs \<and> grants t (mcp_resource server tool) PermInvoke
    \<and> tok_issuer t = trusted \<and> te_verify te trusted (signing_data t) (tok_signature t)
    \<and> \<not> token_is_expired now t \<and> tok_id t \<notin> cs_revoked cs \<and> \<not> is_consumed_single_use cs t
    \<and> tok_issuer token = trusted \<and> te_verify te trusted (signing_data token) (tok_signature token)
    \<and> (tok_single_use token \<longrightarrow> tok_id t \<notin> cs_used cs \<and> tok_id t \<in> cs_used (sm_capabilities self'))
    \<and> (\<exists>outcome result. sm_audit self' = sm_audit self @
        [\<lparr>tn_server = server, tn_tool = tool, tn_args_hash = te_hash te args,
          tn_proof = ProofCapability (tok_id token) (content_hash te token), tn_outcome = ToolSuccess outcome\<rparr>, result])"
proof -
  from run called obtain pf cs args where
    c: "check_authorization ops te trusted now later p server tool (sm_capabilities self)
        = ((Inr (ToolAuthorized pf) :: ('e McpError, ToolAuthorization) result), cs)"
      and out: "args_json = Some args" "sm_capabilities self' = cs" "sm_calls self' = sm_calls self @ [(server, tool, args)]"
      "\<exists>outcome result. sm_audit self' = sm_audit self
        @ [\<lparr>tn_server = server, tn_tool = tool, tn_args_hash = te_hash te args, tn_proof = pf, tn_outcome = ToolSuccess outcome\<rparr>,
           result]"
    by (rule call_tool_if_authorized_calls)
  from c obtain t token where v: "validator_check ops te [trusted] now p (mcp_resource server tool) PermInvoke
        (sm_capabilities self) = Authorized t"
      and u: "use_token ops te later (tok_id t) (sm_capabilities self) = (Inr token, cs)" "tok_issuer token = trusted"
      and pr: "pf = ProofCapability (tok_id token) (content_hash te token)"
    by (rule check_authorization_Authorized)
  note v = validator_check_Authorized [OF v]
  note f = find_capability_sound [OF v [THEN conjunct1]]
  have "te_verify te trusted (signing_data token) (tok_signature token)"
    using use_token_Inr [OF u(1)] u(2)
    by (auto simp: token_validate_def validate_with_skew_def verify_signature_def split: if_splits)
  moreover have "tok_single_use token \<longrightarrow> tok_id t \<notin> cs_used (sm_capabilities self) \<and> tok_id t \<in> cs_used cs"
    using use_token_Inr [OF u(1)] cap_get_marks mark_used_Inr by metis
  ultimately show ?thesis
    by - (rule exI [of _ t], rule exI [of _ token], rule exI [of _ args],
      use v f use_token_Inr [OF u(1)] u(2) out in \<open>simp add: Let_def pr\<close>)
qed

section \<open>Revocation\<close>

lemma use_token_revoked: "i \<in> cs_revoked cs \<Longrightarrow> use_token ops te now i cs = (Inl (TokenRevoked i), cs)"
  by (simp add: use_token_def cap_get_def)

lemma check_authorization_revoked:
  assumes "find_capability ops te now p (mcp_resource server tool) PermInvoke cs = Some t" and "tok_id t \<in> cs_revoked cs"
  shows "check_authorization ops te trusted now later p server tool cs
    = (Inr (ToolRequiresApproval server tool (mcp_resource server tool)), cs)"
  using assms unfolding check_authorization_def Let_def mcp_resource_def [symmetric]
  by (simp add: validator_check_def use_token_revoked)

text \<open>
  C22.  Revocation is final.  Once a revocation has succeeded, then after any further operations, additions
  of the same token among them, after concurrent uses and after restarts of the runtime, on any backend
  that meets the contract of single reads and writes, a use of the token is refused as revoked, and a tool
  call for which the store would find it still needs an approval.
\<close>

theorem revoked_token_never_authorizes:
  assumes kv: "plain_kv ops view good" and te: "token_env_ok te" and s: "good s"
    and boot: "with_kv_store ops te s = Inr cs" and before: "(cap_step ops te)\<^sup>*\<^sup>* (fresh_system cs) y"
    and revoke: "cap_revoke ops te i (sy_store y) = (Inr (), cs1)"
    and after: "(cap_step ops te)\<^sup>*\<^sup>* (y\<lparr>sy_store := cs1\<rparr>) y'"
  shows "fst (use_token ops te now i (sy_store y')) = Inl (TokenRevoked i)
    \<and> (\<forall>t. find_capability ops te now p (mcp_resource server tool) PermInvoke (sy_store y') = Some t \<and> tok_id t = i
         \<longrightarrow> fst (check_authorization ops te trusted now later p server tool (sy_store y'))
             = Inr (ToolRequiresApproval server tool (mcp_resource server tool)))"
proof -
  have "plain_kv.durable view good te (sy_store (fresh_system cs))"
    using plain_kv.with_kv_store_marks(1) [OF kv s boot] by (simp add: fresh_system_def)
  then have "plain_kv.durable view good te (sy_store y)" using plain_kv.cap_run_marks [OF kv te before] by blast
  then have "plain_kv.durable view good te (sy_store (y\<lparr>sy_store := cs1\<rparr>))" and i: "i \<in> cs_revoked cs1"
    using plain_kv.kept_cap_revoke [OF kv te revoke] by (simp_all add: plain_kv.kept_def [OF kv])
  then have "i \<in> cs_revoked (sy_store y')" using plain_kv.cap_run_marks [OF kv te after] by auto
  then show ?thesis by (simp add: use_token_revoked) (metis check_authorization_revoked fst_conv)
qed

text \<open>
  The look-up itself is weaker than the use.  A session token is not compared with the revoked set when it
  is added or found, so a revoked session token that is added again is found again, and a caller that stops
  at the validator is told it is authorized.
\<close>

lemma readded_session_token_is_found:
  assumes "cap_add ops te now t cs = (Inr (), cs')" and "tok_scope t = SessionScope"
    and "grants t resource permission" and "\<not> token_is_expired now t" and "\<not> is_consumed_single_use cs t"
  shows "has_capability ops te now (tok_principal t) resource permission cs'"
proof -
  have cs': "cs' = session_insert t cs" and r: "tok_principal t \<notin> cs_retiring cs"
    using assms(1,2) by (auto simp: cap_add_def split: if_splits sum.splits)
  let ?m = "hm_insert (tok_id t) t (case hm_get (cs_session cs) (tok_principal t) of Some m \<Rightarrow> m | None \<Rightarrow> [])"
  have "hm_get ?m (tok_id t) = Some t" by (simp add: hm.get_insert)
  then have "t \<in> set (hm_values ?m)" using hm_get_mem by (force simp: hm_values_def)
  then have t: "t \<in> set (session_candidates now (tok_principal t) resource permission cs')"
    using assms(3,4) by (simp add: session_candidates_def cs' session_insert_def hm.get_insert Let_def)
  have "\<not> is_consumed_single_use cs' t" using assms(5) by (simp add: cs' is_consumed_single_use_def session_insert_def)
  with t have "find (\<lambda>token. \<not> is_consumed_single_use cs' token)
      (session_candidates now (tok_principal t) resource permission cs') \<noteq> None"
    by (auto simp: find_None_iff)
  then show ?thesis
    using r by (auto simp: has_capability_def find_capability_def cs' session_insert_def Let_def)
qed

section \<open>Minting\<close>

lemma created_token:
  assumes "create_token te i issued now rp perms PersistentScope user a kp ttl p = Some t"
  obtains u where "t = sign_token kp u" "tok_issuer u = kp_public kp" "tok_id u = i" "tok_resource u = rp"
    "tok_permissions u = perms" "tok_principal u = p" "\<not> tok_single_use u" "tok_scope u = PersistentScope"
proof -
  obtain e where "t = sign_token kp \<lparr>tok_id = i, tok_resource = rp, tok_permissions = perms, tok_issued_at = issued,
      tok_expires_at = e, tok_scope = PersistentScope, tok_issuer = kp_public kp, tok_user_id = user,
      tok_approval_audit_id = a, tok_single_use = False, tok_principal = p, tok_signature = replicate 64 (CHR 0x00)\<rparr>"
    using assms unfolding create_token_def create_with_options_def Let_def sign_token_def [symmetric] by blast
  then show ?thesis by (rule that) simp_all
qed

lemma created_token_valid:
  assumes "create_token te i issued now rp perms PersistentScope user a kp ttl p = Some t" and "key_ok te kp"
    and "case tok_expires_at t of None \<Rightarrow> True | Some x \<Rightarrow> later \<le> x"
  shows "token_validate te later t = Inr ()"
proof -
  obtain u where u: "t = sign_token kp u" "tok_issuer u = kp_public kp" using assms(1) by (rule created_token)
  show ?thesis unfolding u(1)
    by (rule sign_token_validate [OF assms(2) u(2)])
       (use assms(3) in \<open>auto simp: u(1) sign_token_def is_expired_with_skew_def DEFAULT_CLOCK_SKEW_SECS_def split: option.splits\<close>)
qed

lemma created_token_fields:
  assumes "create_token te i issued now rp perms PersistentScope user a kp ttl p = Some t"
  shows "tok_id t = i \<and> tok_resource t = rp \<and> tok_permissions t = perms \<and> tok_principal t = p \<and> \<not> tok_single_use t
    \<and> tok_scope t = PersistentScope"
proof -
  obtain u where "t = sign_token kp u" "tok_id u = i" "tok_resource u = rp" "tok_permissions u = perms" "tok_principal u = p"
      "\<not> tok_single_use u" "tok_scope u = PersistentScope"
    using assms by (rule created_token)
  then show ?thesis by (simp add: sign_token_def)
qed

lemma mint_added:
  assumes "caps_token_mint ops te i a issued now p resource permission ttl k = (Some (TokenMinted name r perm_name expires q), k')"
    and "parse_permission permission = Inr perm" and "ResourcePattern_new te resource = Inr rp"
  obtains t d where "create_token te i issued now rp [perm] PersistentScope (key_id (tk_runtime_key k)) a (tk_runtime_key k) d p = Some t"
    and "cap_add ops te now t (tk_capabilities k) = (Inr (), tk_capabilities k')" and "tok_expires_at t = expires"
  using assms unfolding caps_token_mint_def
  by (auto simp: record_token_created_def split: sum.splits if_splits option.splits prod.splits)

text \<open>A persistent token that was added to the in-memory backend is a row of its principal.\<close>

lemma added_row:
  assumes s: "cs_store cs = Some s" "mem_inv s" and add: "cap_add memory_kv te now t cs = (Inr (), cs')"
    and t: "tok_scope t = PersistentScope"
  shows "\<exists>s' bytes. cs' = cs\<lparr>cs_store := Some s'\<rparr> \<and> mem_inv s' \<and> token_to_vec te t = Some bytes
    \<and> tok_principal t \<notin> cs_retiring cs
    \<and> mem_view s' \<lparr>ke_namespace = NS_TOKENS, ke_key = token_key te (tok_principal t) (tok_id t)\<rparr> = Some bytes"
proof -
  let ?k = "token_key te (tok_principal t) (tok_id t)"
  obtain bytes s1 s2 u v where b: "token_to_vec te t = Some bytes"
      and k: "kv_set memory_kv s NS_TOKENS ?k bytes = (Inr u, s1)"
        "kv_set memory_kv s1 NS_TOKEN_INDEX (te_uuid_string te (tok_id t)) (pid_str (tok_principal t)) = (Inr v, s2)"
      and c: "cs' = cs\<lparr>cs_store := Some s2\<rparr>" "tok_principal t \<notin> cs_retiring cs"
    using add s(1) t unfolding cap_add_def by (auto split: if_splits sum.splits option.splits prod.splits)
  note l1 = memk.set_law [OF s(2) k(1)]
  note l2 = memk.set_law [OF l1 [THEN conjunct1] k(2)]
  have "mem_view s1 \<lparr>ke_namespace = NS_TOKENS, ke_key = ?k\<rparr> = Some bytes" using l1 by (simp add: Let_def)
  then have "mem_view s2 \<lparr>ke_namespace = NS_TOKENS, ke_key = ?k\<rparr> = Some bytes"
    using l2 namespaces_distinct(5) by simp
  then show ?thesis using b c l2 by blast
qed

lemma row_is_found:
  assumes s: "cs_store cs = Some s" "mem_inv s" and te: "token_env_ok te"
    and row: "mem_view s \<lparr>ke_namespace = NS_TOKENS, ke_key = token_key te (tok_principal t) (tok_id t)\<rparr> = Some bytes"
      "token_to_vec te t = Some bytes"
    and t: "ResourcePattern_new te (rp_pattern (tok_resource t)) = Inr (tok_resource t)"
      "PrincipalId_new (pid_str (tok_principal t)) = Inr (tok_principal t)"
      "token_validate te now t = Inr ()" "tok_id t \<notin> cs_revoked cs" "grants t resource permission" "\<not> tok_single_use t"
      "tok_principal t \<notin> cs_retiring cs"
  shows "has_capability memory_kv te now (tok_principal t) resource permission cs"
proof -
  let ?p = "tok_principal t" and ?k = "token_key te (tok_principal t) (tok_id t)"
  have "entry_ok \<lparr>ke_namespace = NS_TOKENS, ke_key = ?k\<rparr>" using row(1) by (auto simp: mem_view_def split: if_splits)
  then have get: "kv_get memory_kv s NS_TOKENS ?k = Inr (Some bytes)" using mem.get_view row(1) by fastforce
  have cand: "persistent_candidate memory_kv te now ?p resource permission cs s ?k = Some t"
    using get token_roundtrip [OF te row(2) t(1,2)] t(3-6)
    by (simp add: persistent_candidate_def is_consumed_single_use_def)
  have "is_ok (validate_namespace NS_TOKENS)" by (simp add: is_ok_validate_namespace namespace_defs NUL_def)
  moreover have "is_ok (validate_prefix (token_key_prefix ?p))"
    using t(2) by (auto simp: is_ok_validate_prefix token_key_prefix_def PrincipalId_new_iff NUL_def is_name_char_def ascii_defs)
  ultimately obtain ks where ks: "kv_list_keys_with_prefix memory_kv s NS_TOKENS (token_key_prefix ?p) = Inr ks"
      "set ks = {k. mem_view s \<lparr>ke_namespace = NS_TOKENS, ke_key = k\<rparr> \<noteq> None \<and> starts_with (token_key_prefix ?p) k}"
    using mem.list_view [OF s(2)] by blast
  have "?k \<in> set ks" using row(1) by (simp add: ks(2) starts_with_append token_key_prefix_def token_key_def)
  then have "first_some (persistent_candidate memory_kv te now ?p resource permission cs s) ks \<noteq> None"
    using cand by (auto simp: first_some_None)
  then show ?thesis
    using t(7) s(1) ks(1) by (auto simp: has_capability_def find_capability_def split: option.splits)
qed

text \<open>
  C25.  A minted token works.  After a mint that reports success, on the in-memory backend, the principal
  holds a capability for every resource that the pattern matches and the permission asked for, until the
  token expires, unless its identifier had been revoked before.
\<close>

theorem minted_token_found:
  assumes te: "token_env_ok te" and key: "key_ok te (tk_runtime_key k)"
    and s: "cs_store (tk_capabilities k) = Some s" "mem_inv s" and pid: "PrincipalId_new (pid_str p) = Inr p"
    and fresh: "i \<notin> cs_revoked (tk_capabilities k)"
    and mint: "caps_token_mint memory_kv te i a issued now p resource permission ttl k
      = (Some (TokenMinted name r perm_name expires q), k')"
    and perm: "parse_permission permission = Inr perm"
    and pattern: "ResourcePattern_new te resource = Inr rp" "resource_matches rp target"
    and live: "case expires of None \<Rightarrow> True | Some x \<Rightarrow> later \<le> x"
  shows "has_capability memory_kv te later p target perm (tk_capabilities k')"
proof -
  obtain t d where t: "create_token te i issued now rp [perm] PersistentScope (key_id (tk_runtime_key k)) a
        (tk_runtime_key k) d p = Some t"
      and add: "cap_add memory_kv te now t (tk_capabilities k) = (Inr (), tk_capabilities k')"
      and x: "tok_expires_at t = expires"
    using mint perm pattern(1) by (rule mint_added)
  note f = created_token_fields [OF t]
  obtain s' bytes where row: "tk_capabilities k' = (tk_capabilities k)\<lparr>cs_store := Some s'\<rparr>" "mem_inv s'"
      "token_to_vec te t = Some bytes" "p \<notin> cs_retiring (tk_capabilities k)"
      "mem_view s' \<lparr>ke_namespace = NS_TOKENS, ke_key = token_key te p i\<rparr> = Some bytes"
    using added_row [OF s add] f by auto
  have rp: "rp_pattern rp = resource"
    using pattern(1) by (auto simp: ResourcePattern_new_def split: if_splits option.splits)
  have "has_capability memory_kv te later (tok_principal t) target perm (tk_capabilities k')"
    by (rule row_is_found [where s = s' and bytes = bytes])
       (use row f te pid pattern fresh rp created_token_valid [OF t key] live x in \<open>simp_all add: grants_def\<close>)
  then show ?thesis using f by simp
qed

text \<open>
  The handler checks a lifetime against the range of a duration only.  One that is a duration but leads
  beyond the last instant that \<open>chrono\<close> can represent makes the addition in \<open>create_with_options\<close> panic.
\<close>

lemma mint_panics_on_distant_expiry:
  assumes "parse_permission permission = Inr perm" and "ResourcePattern_new te resource = Inr rp" and "p \<in> tk_profiles k"
    and "uint secs < 2 ^ 63" and "te_try_seconds te (uint secs) = Some d" and "te_datetime_max te < now + d"
  shows "caps_token_mint ops te i a issued now p resource permission (Some secs) k = (None, k)"
  using assms
  by (simp add: caps_token_mint_def parse_ttl_def create_token_def create_with_options_def token_expiry_def)

section \<open>Examples\<close>

definition demo_tokens_kernel :: "MemoryKvStore TokenKernel" where
  "demo_tokens_kernel = \<lparr>tk_capabilities = demo_caps, tk_runtime_key = demo_keys, tk_profiles = {default_principal}, tk_audit = []\<rparr>"

lemma demo_pattern:
  "ResourcePattern_new demo_te ''mcp://fs:*'' = Inr \<lparr>rp_pattern = ''mcp://fs:*'', rp_matcher = Some (starts_with ''mcp://fs:'')\<rparr>"
proof -
  have "\<not> contains_path_traversal ''mcp://fs:*''" by code_simp
  then show ?thesis by (simp add: ResourcePattern_new_def demo_te_def)
qed

lemma demo_tool: "\<not> contains_path_traversal ''mcp://fs:read''"
  by code_simp

lemma demo_te_simps: "te_uuid_string demo_te u = u" "te_try_seconds demo_te 1 = Some 1000000000"
  by (simp_all add: demo_te_def)

lemma demo_mint:
  "\<exists>k'. caps_token_mint memory_kv demo_te (replicate 16 (CHR ''1'')) (replicate 16 (CHR ''2'')) 5 7 default_principal
      ''mcp://fs:*'' None (Some 1) demo_tokens_kernel
    = (Some (TokenMinted (replicate 16 (CHR ''1'')) ''mcp://fs:*'' ''invoke'' (Some 1000000007) default_principal), k')"
proof -
  let ?t = "sign_token demo_keys (demo_capability\<lparr>tok_signature := replicate 64 (CHR 0x00)\<rparr>)"
  have c: "create_token demo_te (replicate 16 (CHR ''1'')) 5 7 \<lparr>rp_pattern = ''mcp://fs:*'', rp_matcher = Some (starts_with ''mcp://fs:'')\<rparr>
      [PermInvoke] PersistentScope (key_id demo_keys) (replicate 16 (CHR ''2'')) demo_keys (Some 1000000000) default_principal = Some ?t"
    unfolding create_token_def create_with_options_def Let_def sign_token_def [symmetric]
    by (simp add: token_expiry_def demo_te_def demo_capability_def)
  have v: "token_validate demo_te 7 ?t = Inr ()"
    by (rule sign_token_validate [OF demo_te_ok(2)])
       (simp_all add: demo_capability_def is_expired_with_skew_def DEFAULT_CLOCK_SKEW_SECS_def)
  have j: "token_to_vec demo_te ?t = Some (tok_signature ?t)"
    by (simp add: token_to_vec_def demo_te_def demo_wire_def sign_token_def demo_capability_def demo_keys_def key_id_def
        default_principal_def)
  have f: "tok_scope ?t = PersistentScope" "tok_principal ?t = default_principal" "tok_id ?t = replicate 16 (CHR ''1'')"
      "tok_expires_at ?t = Some 1000000007"
    by (simp_all add: sign_token_def demo_capability_def)
  have ok: "\<exists>s'. kv_set memory_kv s n key x = (Inr (), s')" if "n \<in> {NS_TOKENS, NS_TOKEN_INDEX}" "key \<noteq> []" "NUL \<notin> set key"
    for s n key x
    using that by (auto simp: memory_kv_def mem_set_def validate_namespace_def validate_key_def namespace_defs NUL_def)
  let ?key = "token_key demo_te default_principal (replicate 16 (CHR ''1''))"
  have no_nul: "NUL \<notin> set ?key" "NUL \<notin> set (replicate 16 (CHR ''1''))"
    by (simp_all add: token_key_def demo_te_simps default_principal_def NUL_def)
  obtain s1 where s1: "kv_set memory_kv MemoryKvStore_new NS_TOKENS ?key (tok_signature ?t) = (Inr (), s1)"
    using ok [of NS_TOKENS ?key] no_nul(1) by (auto simp: token_key_def)
  obtain s2 where s2: "kv_set memory_kv s1 NS_TOKEN_INDEX (replicate 16 (CHR ''1'')) (pid_str default_principal) = (Inr (), s2)"
    using ok [of NS_TOKEN_INDEX "replicate 16 (CHR ''1'')"] no_nul(2) by auto
  have "cap_add memory_kv demo_te 7 ?t demo_caps = (Inr (), demo_caps\<lparr>cs_store := Some s2\<rparr>)"
    by (simp add: cap_add_def v f j s1 s2 demo_te_simps demo_caps_simps)
  then show ?thesis
    by (simp add: caps_token_mint_def demo_pattern parse_permission_def demo_tokens_kernel_def parse_ttl_def demo_te_simps c f)
qed

theorem minted_token_found_witness:
  "\<exists>k'. snd (caps_token_mint memory_kv demo_te (replicate 16 (CHR ''1'')) (replicate 16 (CHR ''2'')) 5 7 default_principal
      ''mcp://fs:*'' None (Some 1) demo_tokens_kernel) = k'
    \<and> has_capability memory_kv demo_te 1000000000 default_principal ''mcp://fs:read'' PermInvoke (tk_capabilities k')"
proof -
  obtain k' where m: "caps_token_mint memory_kv demo_te (replicate 16 (CHR ''1'')) (replicate 16 (CHR ''2'')) 5 7 default_principal
      ''mcp://fs:*'' None (Some 1) demo_tokens_kernel
    = (Some (TokenMinted (replicate 16 (CHR ''1'')) ''mcp://fs:*'' ''invoke'' (Some 1000000007) default_principal), k')"
    using demo_mint by blast
  have pid: "PrincipalId_new (pid_str default_principal) = Inr default_principal" by code_simp
  have "has_capability memory_kv demo_te 1000000000 default_principal ''mcp://fs:read'' PermInvoke (tk_capabilities k')"
    by (rule minted_token_found [OF demo_te_ok(1) _ _ mem_inv_new pid _ m _ demo_pattern])
       (simp_all add: demo_tokens_kernel_def demo_te_ok(2) demo_caps_def in_memory_def parse_permission_def resource_matches_def
         demo_tool starts_with_def)
  then show ?thesis using m by auto
qed

text \<open>A store that holds one single-use session token, and a client over it.\<close>

definition demo_session :: "MemoryKvStore CapabilityStore" where
  "demo_session = session_insert demo_once demo_caps"

lemma demo_once_grants: "grants demo_once ''mcp://fs:read'' PermInvoke"
  by (simp add: grants_def resource_matches_def demo_tool demo_once_def sign_token_def demo_capability_def starts_with_def)

lemma demo_once_valid:
  "\<not> token_is_expired 7 demo_once" "tok_issuer demo_once = kp_public demo_keys"
  "te_verify demo_te (kp_public demo_keys) (signing_data demo_once) (tok_signature demo_once)"
proof -
  show "te_verify demo_te (kp_public demo_keys) (signing_data demo_once) (tok_signature demo_once)"
    using demo_te_ok(2) by (simp add: demo_once_def sign_token_def key_ok_def)
qed (simp_all add: token_is_expired_def is_expired_with_skew_def demo_once_def sign_token_def demo_capability_def)

lemma demo_find:
  assumes "cs_used cs = {}"
  shows "find_capability memory_kv demo_te 7 default_principal ''mcp://fs:read'' PermInvoke
     (demo_session\<lparr>cs_used := cs_used cs, cs_revoked := cs_revoked cs\<rparr>) = Some demo_once"
  using demo_once_grants demo_once_valid(1) assms
  by (simp add: find_capability_def session_candidates_def demo_session_def session_insert_def demo_caps_def in_memory_def
      demo_once_simps hm_values_def hm_insert_def is_consumed_single_use_def Let_def)

definition demo_client :: "MemoryKvStore SecureMcpClient" where
  "demo_client = \<lparr>sm_capabilities = demo_session, sm_audit = [], sm_calls = []\<rparr>"

definition demo_server :: "string \<Rightarrow> string \<Rightarrow> string \<Rightarrow> (string, ToolResult) result" where
  "demo_server server tool args =
     Inr \<lparr>tres_success = True, tres_content = [ToolText ''ok''], tres_error = None, tres_is_error = False\<rparr>"

lemma demo_use: "\<exists>cs. use_token memory_kv demo_te 7 (tok_id demo_once) demo_session = (Inr demo_once, cs)"
proof -
  have "cap_get memory_kv demo_te 7 (tok_id demo_once) demo_session = (Inr (Some demo_once), demo_session)"
    by (simp add: cap_get_def session_lookup_def demo_session_def session_insert_def demo_caps_def in_memory_def hm_values_def
        hm_insert_def List.map_filter_def unless_retiring_def)
  moreover have "\<exists>cs. mark_used memory_kv demo_te (tok_id demo_once) demo_session = (Inr (), cs)"
    by (simp add: mark_used_def demo_session_def session_insert_def demo_caps_def in_memory_def memory_kv_def mem_set_def
        validate_namespace_def validate_key_def namespace_defs NUL_def demo_te_def demo_once_def sign_token_def
        demo_capability_def)
  ultimately show ?thesis using demo_once_simps(4,5) by (auto simp: use_token_def)
qed

theorem tool_call_needs_token_witness:
  "\<exists>r c t. call_tool_if_authorized memory_kv demo_te (kp_public demo_keys) demo_server (\<lambda>e. e) 7 7 default_principal
       ''fs'' ''read'' (Some ''{}'') demo_client = (r, c)
     \<and> sm_calls c = [(''fs'', ''read'', ''{}'')] \<and> tok_principal t = default_principal
     \<and> grants t (mcp_resource ''fs'' ''read'') PermInvoke \<and> tok_id t \<notin> cs_revoked demo_session"
proof -
  obtain cs where u: "use_token memory_kv demo_te 7 (tok_id demo_once) demo_session = (Inr demo_once, cs)"
    using demo_use by blast
  have "find_capability memory_kv demo_te 7 default_principal ''mcp://fs:read'' PermInvoke demo_session = Some demo_once"
    using demo_find [of demo_session] by (simp add: demo_session_def session_insert_def demo_caps_def in_memory_def)
  then have v: "validator_check memory_kv demo_te [kp_public demo_keys] 7 default_principal ''mcp://fs:read'' PermInvoke
      demo_session = Authorized demo_once"
    using demo_once_valid by (simp add: validator_check_def validate_token_def verify_signature_def)
  obtain r c where run: "call_tool_if_authorized memory_kv demo_te (kp_public demo_keys) demo_server (\<lambda>e. e) 7 7
      default_principal ''fs'' ''read'' (Some ''{}'') demo_client = (r, c)" by fastforce
  have calls: "sm_calls c = [(''fs'', ''read'', ''{}'')]"
    using run demo_once_valid(2)
    by (auto simp: call_tool_if_authorized_def check_authorization_def v u demo_client_def call_tool_def demo_server_def Let_def)
  then show ?thesis
    using tool_call_needs_token [OF run] run by (auto simp: demo_client_def Let_def)
qed

theorem revoked_token_never_authorizes_witness:
  "\<exists>y'. (cap_step memory_kv demo_te)\<^sup>*\<^sup>* (fresh_system demo_caps) y'
     \<and> find_capability memory_kv demo_te 7 default_principal (mcp_resource ''fs'' ''read'') PermInvoke (sy_store y') = Some demo_once
     \<and> fst (use_token memory_kv demo_te 7 (tok_id demo_once) (sy_store y')) = Inl (TokenRevoked (tok_id demo_once))
     \<and> fst (check_authorization memory_kv demo_te (kp_public demo_keys) 7 7 default_principal ''fs'' ''read'' (sy_store y'))
         = (Inr (ToolRequiresApproval ''fs'' ''read'' (mcp_resource ''fs'' ''read'')) :: (unit McpError, _) result)"
proof -
  let ?i = "tok_id demo_once" and ?y = "fresh_system demo_caps"
  obtain r cs1 where rv: "cap_revoke memory_kv demo_te ?i demo_caps = (r, cs1)" by fastforce
  have ok: "r = Inr ()" and cs1: "cs_session cs1 = []" "cs_used cs1 = {}" "cs_retiring cs1 = {}"
    using rv by (auto simp: cap_revoke_def demo_caps_def in_memory_def memory_kv_def mem_set_def validate_namespace_def
        validate_key_def namespace_defs NUL_def demo_te_def demo_once_def sign_token_def demo_capability_def
        revoke_in_memory_def hm_retain_def)
  let ?z = "?y\<lparr>sy_store := cs1\<rparr>"
  let ?w = "?z\<lparr>sy_store := apply_op memory_kv demo_te (OpAdd 7 demo_once) (sy_store ?z)\<rparr>"
  have st: "sy_store ?w = session_insert demo_once cs1"
    by (simp add: fresh_system_def cap_add_def demo_once_simps cs1)
  have z: "cap_step memory_kv demo_te ?y ?z"
    using cap_step.operate [of memory_kv demo_te ?y "OpRevoke ?i"] rv by (simp add: fresh_system_def)
  have w: "cap_step memory_kv demo_te ?z ?w" by (rule cap_step.operate)
  have find: "find_capability memory_kv demo_te 7 default_principal (mcp_resource ''fs'' ''read'') PermInvoke (sy_store ?w) = Some demo_once"
    unfolding st using demo_once_grants demo_once_valid(1)
    by (simp add: find_capability_def session_candidates_def session_insert_def cs1 demo_once_simps hm_values_def hm_insert_def
        is_consumed_single_use_def Let_def mcp_resource_def)
  have rv': "cap_revoke memory_kv demo_te ?i (sy_store ?y) = (Inr (), cs1)" using rv ok by (simp add: fresh_system_def)
  note main = revoked_token_never_authorizes [OF memk.plain_kv_axioms demo_te_ok(1) mem_inv_new demo_boot rtranclp.rtrancl_refl
      rv' r_into_rtranclp [of "cap_step memory_kv demo_te", OF w], of 7 default_principal "''fs''" "''read''"]
  have "(cap_step memory_kv demo_te)\<^sup>*\<^sup>* ?y ?w" using z w by (rule converse_rtranclp_into_rtranclp [OF _ r_into_rtranclp])
  then show ?thesis using main find by blast
qed

end
