(* ===== verification/Deferred_Queue.thy ===== *)
theory Deferred_Queue
  imports Allowance Kv_Store
begin

text \<open>
  Approval requests and the queue of deferred decisions:
  \<open>crates/astrid-approval/src/{request,deferred}.rs\<close>, with the part of
  \<open>crates/astrid-storage/src/kv/scoped.rs\<close> the queue persists through.

  Random identifiers and readings of the clock are arguments; an operation reads the clock once.  An age
  is an integer number of nanoseconds, the unit of the clock, so that a negative duration is possible; the ends of
  \<open>chrono\<close>'s range are out of reach.  UUID texts and JSON are the fields of \<open>ResolutionCodec\<close>.  A lock
  is never poisoned, since no critical section panics.  Display texts and log messages are not modelled,
  apart from the texts that are stored.  The prefix \<open>Mgr\<close> tells the request, decision and response of this
  crate from the wire forms of the same names that the host functions use.
\<close>

section \<open>Requests and decisions\<close>

fun action_type :: "SensitiveAction \<Rightarrow> string" where
  "action_type (FileRead _) = ''file_read''"
| "action_type (FileDelete _) = ''file_delete''"
| "action_type (FileWriteOutsideSandbox _) = ''file_write_outside_sandbox''"
| "action_type (ExecuteCommand _ _) = ''execute_command''"
| "action_type (NetworkRequest _ _ _) = ''network_request''"
| "action_type (TransmitData _ _) = ''transmit_data''"
| "action_type (FinancialTransaction _ _) = ''financial_transaction''"
| "action_type (AccessControlChange _ _) = ''access_control_change''"
| "action_type (CapabilityGrant _ _) = ''capability_grant''"
| "action_type (McpToolCall _ _) = ''mcp_tool_call''"
| "action_type (CapsuleExecution _ _) = ''capsule_execution''"
| "action_type (CapsuleHttpRequest _ _ _) = ''capsule_http_request''"
| "action_type (CapsuleFileAccess _ _ _) = ''capsule_file_access''"
| "action_type (CapsuleNetBind _) = ''capsule_net_bind''"

type_synonym RequestId = "128 word"

record RiskAssessment =
  ra_reason :: string
  ra_mitigations :: "string list"

record MgrRequest =
  ar_id :: RequestId
  ar_action :: SensitiveAction
  ar_assessment :: RiskAssessment
  ar_context :: string
  ar_timestamp :: nat

definition MgrRequest_new :: "RequestId \<Rightarrow> nat \<Rightarrow> SensitiveAction \<Rightarrow> string \<Rightarrow> MgrRequest" where
  "MgrRequest_new fresh now action context =
     \<lparr>ar_id = fresh, ar_action = action,
      ar_assessment = \<lparr>ra_reason = action_type action @ '' operation'', ra_mitigations = []\<rparr>,
      ar_context = context, ar_timestamp = now\<rparr>"

datatype MgrDecision =
    Approve
  | ApproveSession
  | ApproveWorkspace
  | ApproveAlways
  | ApproveWithAllowance Allowance
  | DenyWith string

fun is_approved :: "MgrDecision \<Rightarrow> bool" where
  "is_approved (DenyWith _) = False"
| "is_approved _ = True"

record MgrResponse =
  resp_request_id :: RequestId
  resp_decision :: MgrDecision
  resp_timestamp :: nat
  resp_signature :: "string option"

section \<open>Deferred resolutions\<close>

type_synonym ResolutionId = "128 word"

datatype Priority = PrioLow | PrioNormal | PrioHigh | PrioCritical

fun priority_rank :: "Priority \<Rightarrow> nat" where
  "priority_rank PrioLow = 0"
| "priority_rank PrioNormal = 1"
| "priority_rank PrioHigh = 2"
| "priority_rank PrioCritical = 3"

instantiation Priority :: linorder
begin

definition less_eq_Priority :: "Priority \<Rightarrow> Priority \<Rightarrow> bool" where
  "less_eq_Priority a b \<longleftrightarrow> priority_rank a \<le> priority_rank b"

definition less_Priority :: "Priority \<Rightarrow> Priority \<Rightarrow> bool" where
  "less_Priority a b \<longleftrightarrow> priority_rank a < priority_rank b"

instance
proof
  fix a b :: Priority
  show "a \<le> b \<Longrightarrow> b \<le> a \<Longrightarrow> a = b"
    by (cases a; cases b) (simp_all add: less_eq_Priority_def)
qed (auto simp: less_eq_Priority_def less_Priority_def)

end

datatype FallbackBehavior = Block | Skip | SafeDefault | Queue

fun fallback_string :: "FallbackBehavior \<Rightarrow> string" where
  "fallback_string Block = ''block''"
| "fallback_string Skip = ''skip''"
| "fallback_string SafeDefault = ''safe_default''"
| "fallback_string Queue = ''queue''"

record ActionContext =
  ac_goal :: string
  ac_task :: "string option"

datatype PendingAction =
    ApprovalNeeded MgrRequest
  | BudgetExceeded string string
  | CapabilityMissing string Permission
  | ErrorResolution string string

record DeferredResolution =
  dr_id :: ResolutionId
  dr_action :: PendingAction
  dr_reason :: string
  dr_queued_at :: nat
  dr_priority :: Priority
  dr_context :: ActionContext
  dr_fallback_taken :: "string option"

definition DeferredResolution_new ::
  "ResolutionId \<Rightarrow> nat \<Rightarrow> PendingAction \<Rightarrow> string \<Rightarrow> Priority \<Rightarrow> ActionContext \<Rightarrow> DeferredResolution" where
  "DeferredResolution_new fresh now action reason priority context =
     \<lparr>dr_id = fresh, dr_action = action, dr_reason = reason, dr_queued_at = now, dr_priority = priority,
      dr_context = context, dr_fallback_taken = None\<rparr>"

definition is_older_than :: "nat \<Rightarrow> int \<Rightarrow> DeferredResolution \<Rightarrow> bool" where
  "is_older_than now max_age r \<longleftrightarrow> int (dr_queued_at r) < int now - max_age"

section \<open>The scoped key-value store\<close>

record 's ScopedKvStore =
  sk_inner :: 's
  sk_namespace :: string

definition scoped_get :: "'s KvStore \<Rightarrow> 's ScopedKvStore \<Rightarrow> string \<Rightarrow> (StorageError, string option) result" where
  "scoped_get ops st key = and_then (validate_key key) (\<lambda>_. kv_get ops (sk_inner st) (sk_namespace st) key)"

definition scoped_set ::
  "'s KvStore \<Rightarrow> 's ScopedKvStore \<Rightarrow> string \<Rightarrow> string \<Rightarrow> (StorageError, unit) result \<times> 's ScopedKvStore" where
  "scoped_set ops st key bytes =
     (case validate_key key of
        Inl e \<Rightarrow> (Inl e, st)
      | Inr _ \<Rightarrow> (case kv_set ops (sk_inner st) (sk_namespace st) key bytes of (r, s) \<Rightarrow> (r, st\<lparr>sk_inner := s\<rparr>)))"

definition scoped_delete ::
  "'s KvStore \<Rightarrow> 's ScopedKvStore \<Rightarrow> string \<Rightarrow> (StorageError, bool) result \<times> 's ScopedKvStore" where
  "scoped_delete ops st key =
     (case validate_key key of
        Inl e \<Rightarrow> (Inl e, st)
      | Inr _ \<Rightarrow> (case kv_delete ops (sk_inner st) (sk_namespace st) key of (r, s) \<Rightarrow> (r, st\<lparr>sk_inner := s\<rparr>)))"

definition scoped_list_keys :: "'s KvStore \<Rightarrow> 's ScopedKvStore \<Rightarrow> (StorageError, string list) result" where
  "scoped_list_keys ops st = kv_list_keys ops (sk_inner st) (sk_namespace st)"

record ResolutionCodec =
  rc_uuid_string :: "ResolutionId \<Rightarrow> string"
  rc_to_vec :: "DeferredResolution \<Rightarrow> string option"
  rc_from_slice :: "string \<Rightarrow> DeferredResolution option"

definition get_json ::
  "'s KvStore \<Rightarrow> ResolutionCodec \<Rightarrow> 's ScopedKvStore \<Rightarrow> string \<Rightarrow> (StorageError, DeferredResolution option) result" where
  "get_json ops rc st key =
     and_then (scoped_get ops st key)
       (\<lambda>bytes. case bytes of
          None \<Rightarrow> Inr None
        | Some b \<Rightarrow> (case rc_from_slice rc b of
            None \<Rightarrow> Inl (Serialization SerdeFailure)
          | Some r \<Rightarrow> Inr (Some r)))"

definition set_json ::
  "'s KvStore \<Rightarrow> ResolutionCodec \<Rightarrow> 's ScopedKvStore \<Rightarrow> string \<Rightarrow> DeferredResolution
     \<Rightarrow> (StorageError, unit) result \<times> 's ScopedKvStore" where
  "set_json ops rc st key r =
     (case rc_to_vec rc r of
        None \<Rightarrow> (Inl (Serialization SerdeFailure), st)
      | Some bytes \<Rightarrow> scoped_set ops st key bytes)"

section \<open>The queue\<close>

text \<open>The two causes of \<open>ApprovalError::Storage\<close> in the queue; the source keeps only their text.\<close>

datatype DeferError = DeferStorage StorageError | ResolutionNotFound ResolutionId

record 's DeferredResolutionStore =
  ds_resolutions :: "(ResolutionId, DeferredResolution) hash_map"
  ds_persistent :: "'s ScopedKvStore option"

definition DeferredResolutionStore_new :: "'s DeferredResolutionStore" where
  "DeferredResolutionStore_new = \<lparr>ds_resolutions = [], ds_persistent = None\<rparr>"



definition MAX_LOAD_AGE :: int where
  "MAX_LOAD_AGE = 24 * 60 * 60 * 1000000000"

fun load_loop ::
  "'s KvStore \<Rightarrow> ResolutionCodec \<Rightarrow> nat \<Rightarrow> string list \<Rightarrow> DeferredResolution list \<Rightarrow> 's ScopedKvStore
     \<Rightarrow> DeferredResolution list \<times> 's ScopedKvStore" where
  "load_loop ops rc now [] loaded st = (loaded, st)"
| "load_loop ops rc now (key # keys) loaded st =
     (case get_json ops rc st key of
        Inr (Some r) \<Rightarrow>
          if is_older_than now MAX_LOAD_AGE r
          then load_loop ops rc now keys loaded (snd (scoped_delete ops st key))
          else load_loop ops rc now keys (loaded @ [r]) st
      | Inr None \<Rightarrow> load_loop ops rc now keys loaded st
      | Inl _ \<Rightarrow> load_loop ops rc now keys loaded st)"

definition load_from_store ::
  "'s KvStore \<Rightarrow> ResolutionCodec \<Rightarrow> nat \<Rightarrow> 's DeferredResolutionStore
     \<Rightarrow> (DeferError, unit) result \<times> 's DeferredResolutionStore" where
  "load_from_store ops rc now self =
     (case ds_persistent self of
        None \<Rightarrow> (Inr (), self)
      | Some st \<Rightarrow>
          (case scoped_list_keys ops st of
             Inl e \<Rightarrow> (Inl (DeferStorage e), self)
           | Inr keys \<Rightarrow>
               (case load_loop ops rc now keys [] st of
                  (loaded, st1) \<Rightarrow>
                    (Inr (), self\<lparr>ds_resolutions := fold (\<lambda>r. hm_insert (dr_id r) r) loaded (ds_resolutions self),
                                  ds_persistent := Some st1\<rparr>))))"

definition with_persistence ::
  "'s KvStore \<Rightarrow> ResolutionCodec \<Rightarrow> nat \<Rightarrow> 's ScopedKvStore \<Rightarrow> (DeferError, 's DeferredResolutionStore) result" where
  "with_persistence ops rc now st =
     (case load_from_store ops rc now (DeferredResolutionStore_new\<lparr>ds_persistent := Some st\<rparr>) of
        (Inl e, _) \<Rightarrow> Inl e
      | (Inr _, s) \<Rightarrow> Inr s)"

definition queue ::
  "DeferredResolution \<Rightarrow> 's DeferredResolutionStore
     \<Rightarrow> (DeferError, ResolutionId) result \<times> 's DeferredResolutionStore" where
  "queue r self = (Inr (dr_id r), self\<lparr>ds_resolutions := hm_insert (dr_id r) r (ds_resolutions self)\<rparr>)"

definition get_pending :: "'s DeferredResolutionStore \<Rightarrow> DeferredResolution list" where
  "get_pending self = sort_key (\<lambda>r. - int (priority_rank (dr_priority r))) (hm_values (ds_resolutions self))"

definition resolve ::
  "ResolutionId \<Rightarrow> 's DeferredResolutionStore
     \<Rightarrow> (DeferError, DeferredResolution) result \<times> 's DeferredResolutionStore" where
  "resolve i self =
     (case hm_get (ds_resolutions self) i of
        None \<Rightarrow> (Inl (ResolutionNotFound i), self)
      | Some r \<Rightarrow> (Inr r, self\<lparr>ds_resolutions := hm_remove i (ds_resolutions self)\<rparr>))"

definition cleanup_old :: "nat \<Rightarrow> int \<Rightarrow> 's DeferredResolutionStore \<Rightarrow> nat \<times> 's DeferredResolutionStore" where
  "cleanup_old now max_age self =
     (let kept = hm_retain (\<lambda>_ r. \<not> is_older_than now max_age r) (ds_resolutions self)
      in (length (ds_resolutions self) - length kept, self\<lparr>ds_resolutions := kept\<rparr>))"

definition queue_persistent ::
  "'s KvStore \<Rightarrow> ResolutionCodec \<Rightarrow> DeferredResolution \<Rightarrow> 's DeferredResolutionStore
     \<Rightarrow> (DeferError, ResolutionId) result \<times> 's DeferredResolutionStore" where
  "queue_persistent ops rc r self =
     (case ds_persistent self of
        None \<Rightarrow> queue r self
      | Some st \<Rightarrow>
          (case set_json ops rc st (rc_uuid_string rc (dr_id r)) r of
             (Inl e, st1) \<Rightarrow> (Inl (DeferStorage e), self\<lparr>ds_persistent := Some st1\<rparr>)
           | (Inr _, st1) \<Rightarrow> queue r (self\<lparr>ds_persistent := Some st1\<rparr>)))"

definition resolve_persistent ::
  "'s KvStore \<Rightarrow> ResolutionCodec \<Rightarrow> ResolutionId \<Rightarrow> 's DeferredResolutionStore
     \<Rightarrow> (DeferError, DeferredResolution) result \<times> 's DeferredResolutionStore" where
  "resolve_persistent ops rc i self =
     (case resolve i self of
        (Inl e, s) \<Rightarrow> (Inl e, s)
      | (Inr r, s) \<Rightarrow>
          (case ds_persistent s of
             None \<Rightarrow> (Inr r, s)
           | Some st \<Rightarrow> (Inr r, s\<lparr>ds_persistent := Some (snd (scoped_delete ops st (rc_uuid_string rc i)))\<rparr>)))"

section \<open>Runs with restarts\<close>

datatype DeferOp =
    QueueOp DeferredResolution
  | QueuePersistentOp DeferredResolution
  | ResolveOp ResolutionId
  | ResolvePersistentOp ResolutionId
  | CleanupOp nat int
  | RestartOp nat

text \<open>A restart loses the memory of the process and opens the queue again on the same storage.\<close>

definition restart ::
  "'s KvStore \<Rightarrow> ResolutionCodec \<Rightarrow> nat \<Rightarrow> 's DeferredResolutionStore \<Rightarrow> 's DeferredResolutionStore" where
  "restart ops rc now s =
     (case ds_persistent s of
        None \<Rightarrow> DeferredResolutionStore_new
      | Some st \<Rightarrow> (case with_persistence ops rc now st of Inr s' \<Rightarrow> s' | Inl _ \<Rightarrow> s\<lparr>ds_resolutions := []\<rparr>))"

fun apply_defer_op ::
  "'s KvStore \<Rightarrow> ResolutionCodec \<Rightarrow> DeferOp \<Rightarrow> 's DeferredResolutionStore \<Rightarrow> 's DeferredResolutionStore" where
  "apply_defer_op ops rc (QueueOp r) s = snd (queue r s)"
| "apply_defer_op ops rc (QueuePersistentOp r) s = snd (queue_persistent ops rc r s)"
| "apply_defer_op ops rc (ResolveOp i) s = snd (resolve i s)"
| "apply_defer_op ops rc (ResolvePersistentOp i) s = snd (resolve_persistent ops rc i s)"
| "apply_defer_op ops rc (CleanupOp now max_age) s = snd (cleanup_old now max_age s)"
| "apply_defer_op ops rc (RestartOp now) s = restart ops rc now s"

text \<open>The operations that do not decide the stored copy of a resolution: they neither store another under
  its identifier, nor remove it from the storage, nor restart the process when it is stale.\<close>

fun leaves_stored :: "DeferredResolution \<Rightarrow> DeferOp \<Rightarrow> bool" where
  "leaves_stored r (QueuePersistentOp q) = (dr_id q \<noteq> dr_id r)"
| "leaves_stored r (ResolvePersistentOp i) = (i \<noteq> dr_id r)"
| "leaves_stored r (RestartOp now) = (\<not> is_older_than now MAX_LOAD_AGE r)"
| "leaves_stored r _ = True"

section \<open>The stored resolutions\<close>

abbreviation slot :: "'s ScopedKvStore \<Rightarrow> string \<Rightarrow> KvEntryKey" where
  "slot st key \<equiv> \<lparr>ke_namespace = sk_namespace st, ke_key = key\<rparr>"

definition stored :: "('s \<Rightarrow> kv_view) \<Rightarrow> ResolutionCodec \<Rightarrow> 's ScopedKvStore \<Rightarrow> string \<Rightarrow> DeferredResolution option" where
  "stored view rc st key = Option.bind (view (sk_inner st) (slot st key)) (rc_from_slice rc)"

text \<open>Every record of the namespace is stored under its own identifier, and a wanted one is there.\<close>

definition disk ::
  "('s \<Rightarrow> kv_view) \<Rightarrow> ('s \<Rightarrow> bool) \<Rightarrow> ResolutionCodec \<Rightarrow> DeferredResolution option \<Rightarrow> 's ScopedKvStore \<Rightarrow> bool" where
  "disk view good rc want st \<longleftrightarrow> good (sk_inner st)
     \<and> (\<forall>key q. stored view rc st key = Some q \<longrightarrow> key = rc_uuid_string rc (dr_id q))
     \<and> (\<forall>r. want = Some r \<longrightarrow> stored view rc st (rc_uuid_string rc (dr_id r)) = Some r)"

lemma diskD:
  assumes "disk view good rc want st"
  shows "good (sk_inner st)"
    and "stored view rc st key = Some q \<Longrightarrow> key = rc_uuid_string rc (dr_id q)"
    and "want = Some r \<Longrightarrow> stored view rc st (rc_uuid_string rc (dr_id r)) = Some r"
  using assms by (auto simp: disk_def)

lemma diskI:
  assumes "good (sk_inner st)"
    and "\<And>key q. stored view rc st key = Some q \<Longrightarrow> key = rc_uuid_string rc (dr_id q)"
    and "\<And>r. want = Some r \<Longrightarrow> stored view rc st (rc_uuid_string rc (dr_id r)) = Some r"
  shows "disk view good rc want st"
  unfolding disk_def using assms by blast

lemma disk_same:
  assumes d: "disk view good rc want st" and other: "\<And>r. want = Some r \<Longrightarrow> key \<noteq> rc_uuid_string rc (dr_id r)"
    and "good (sk_inner st')"
    and same: "\<And>k. k \<noteq> key \<Longrightarrow> stored view rc st' k = stored view rc st k"
    and key: "stored view rc st' key \<in> {None, stored view rc st key}"
  shows "disk view good rc want st'"
proof (rule diskI)
  fix k q
  assume "stored view rc st' k = Some q"
  then have "stored view rc st k = Some q" using same key by (cases "k = key") auto
  then show "k = rc_uuid_string rc (dr_id q)" by (rule diskD(2) [OF d])
next
  fix r
  assume r: "want = Some r"
  show "stored view rc st' (rc_uuid_string rc (dr_id r)) = Some r"
    using same [OF other [OF r, symmetric]] diskD(3) [OF d r] by simp
qed (rule assms(3))

definition uuid_codec :: "ResolutionCodec \<Rightarrow> bool" where
  "uuid_codec rc \<longleftrightarrow> inj (rc_uuid_string rc) \<and> (\<forall>r b. rc_to_vec rc r = Some b \<longrightarrow> rc_from_slice rc b = Some r)"

context plain_kv
begin

lemma scoped_delete_stored:
  assumes "inv (sk_inner st)" and "scoped_delete ops st key = (d, st')"
  shows "inv (sk_inner st') \<and> sk_namespace st' = sk_namespace st
    \<and> (\<forall>k. k \<noteq> key \<longrightarrow> stored view rc st' k = stored view rc st k)
    \<and> stored view rc st' key \<in> {None, stored view rc st key}"
proof (cases "validate_key key")
  case (Inr u)
  then obtain s where s: "kv_delete ops (sk_inner st) (sk_namespace st) key = (d, s)" "st' = st\<lparr>sk_inner := s\<rparr>"
    using assms(2) by (auto simp: scoped_delete_def split: prod.splits)
  show ?thesis using delete_law [OF assms(1) s(1)] s(2) by (auto simp: stored_def Let_def)
qed (use assms in \<open>simp add: scoped_delete_def\<close>)

lemma scoped_set_stored:
  assumes "inv (sk_inner st)" and "scoped_set ops st key b = (r, st')"
  shows "inv (sk_inner st') \<and> sk_namespace st' = sk_namespace st
    \<and> (\<forall>k. k \<noteq> key \<longrightarrow> stored view rc st' k = stored view rc st k)
    \<and> (stored view rc st' key = rc_from_slice rc b \<or> \<not> is_ok r \<and> stored view rc st' key = stored view rc st key)"
proof (cases "validate_key key")
  case (Inr u)
  then obtain s where s: "kv_set ops (sk_inner st) (sk_namespace st) key b = (r, s)" "st' = st\<lparr>sk_inner := s\<rparr>"
    using assms(2) by (auto simp: scoped_set_def split: prod.splits)
  show ?thesis using set_law [OF assms(1) s(1)] s(2) by (auto simp: stored_def Let_def)
next
  case (Inl e)
  then have "\<not> is_ok r" "st' = st" using assms(2) by (simp_all add: scoped_set_def) (metis is_ok_simps(1))
  then show ?thesis using assms(1) by simp
qed

lemma get_json_stored:
  assumes "inv (sk_inner st)" and "get_json ops rc st key = Inr found"
  shows "stored view rc st key = found"
  using assms get_law [OF assms(1), of "sk_namespace st" key]
  by (auto simp: get_json_def scoped_get_def and_then_def stored_def split: sum.splits option.splits)

lemma get_json_reads:
  assumes "inv (sk_inner st)" and "stored view rc st key = Some r" and "validate_key key = Inr ()"
    and "is_ok (kv_get ops (sk_inner st) (sk_namespace st) key)"
  shows "get_json ops rc st key = Inr (Some r)"
  using assms get_law [OF assms(1), of "sk_namespace st" key]
  by (auto simp: get_json_def scoped_get_def and_then_def stored_def is_ok_iff split: option.splits bind_splits)

lemma disk_delete:
  assumes d: "disk view inv rc want st" and other: "\<And>r. want = Some r \<Longrightarrow> key \<noteq> rc_uuid_string rc (dr_id r)"
  shows "disk view inv rc want (snd (scoped_delete ops st key)) \<and> sk_namespace (snd (scoped_delete ops st key)) = sk_namespace st"
proof -
  obtain r st' where run: "scoped_delete ops st key = (r, st')" by fastforce
  note law = scoped_delete_stored [OF diskD(1) [OF d] run, of rc]
  have "disk view inv rc want st'"
    by (rule disk_same [OF d, of key]) (use law other in blast)+
  then show ?thesis using run law by simp
qed

lemma disk_set_json:
  assumes d: "disk view inv rc want st" and rc: "uuid_codec rc"
    and run: "set_json ops rc st (rc_uuid_string rc (dr_id q)) q = (res, st')"
  shows "sk_namespace st' = sk_namespace st"
    and "(\<And>r. want = Some r \<Longrightarrow> dr_id q \<noteq> dr_id r) \<Longrightarrow> disk view inv rc want st'"
    and "is_ok res \<Longrightarrow> disk view inv rc (Some q) st' \<and> validate_key (rc_uuid_string rc (dr_id q)) = Inr ()"
proof -
  let ?key = "rc_uuid_string rc (dr_id q)"
  have law: "inv (sk_inner st') \<and> sk_namespace st' = sk_namespace st
    \<and> (\<forall>k. k \<noteq> ?key \<longrightarrow> stored view rc st' k = stored view rc st k)
    \<and> (stored view rc st' ?key = Some q \<or> \<not> is_ok res \<and> stored view rc st' ?key = stored view rc st ?key)"
  proof (cases "rc_to_vec rc q")
    case None
    then show ?thesis using run diskD(1) [OF d] by (auto simp: set_json_def)
  next
    case (Some b)
    then have "scoped_set ops st ?key b = (res, st')" "rc_from_slice rc b = Some q"
      using run rc by (auto simp: set_json_def uuid_codec_def)
    then show ?thesis using scoped_set_stored [OF diskD(1) [OF d], of ?key b res st' rc] by simp
  qed
  have inj: "rc_uuid_string rc i = rc_uuid_string rc j \<longleftrightarrow> i = j" for i j
    using rc by (auto simp: uuid_codec_def inj_eq)
  have keyed: "key = rc_uuid_string rc (dr_id p)" if "stored view rc st' key = Some p" for key p
  proof (cases "key = ?key")
    case True
    then have "p = q \<or> stored view rc st ?key = Some p" using that law by auto
    then show ?thesis using diskD(2) [OF d] True by blast
  next
    case False
    then have "stored view rc st key = Some p" using that law by simp
    then show ?thesis by (rule diskD(2) [OF d])
  qed
  show "sk_namespace st' = sk_namespace st" using law by simp
  show "disk view inv rc want st'" if other: "\<And>r. want = Some r \<Longrightarrow> dr_id q \<noteq> dr_id r"
  proof (rule diskI)
    show "inv (sk_inner st')" using law by blast
    fix r
    assume r: "want = Some r"
    then have "stored view rc st' (rc_uuid_string rc (dr_id r)) = stored view rc st (rc_uuid_string rc (dr_id r))"
      using law other [OF r] by (metis inj)
    then show "stored view rc st' (rc_uuid_string rc (dr_id r)) = Some r" using diskD(3) [OF d r] by simp
  qed (rule keyed)
  show "disk view inv rc (Some q) st' \<and> validate_key ?key = Inr ()" if ok: "is_ok res"
  proof
    have "stored view rc st' ?key = Some q" using ok law by blast
    then show "disk view inv rc (Some q) st'" by (intro diskI) (use law in blast, rule keyed, simp_all)
    show "validate_key ?key = Inr ()"
      using run ok by (cases "validate_key ?key") (auto simp: set_json_def scoped_set_def is_ok_iff split: option.splits)
  qed
qed

lemma load_loop_disk:
  assumes "disk view inv rc want st" and fresh: "\<And>r. want = Some r \<Longrightarrow> \<not> is_older_than now MAX_LOAD_AGE r"
    and "load_loop ops rc now keys acc st = (out, st')"
  shows "disk view inv rc want st' \<and> sk_namespace st' = sk_namespace st"
  using assms(1,3)
proof (induction keys arbitrary: acc st)
  case (Cons key keys)
  show ?case
  proof (cases "\<exists>q. get_json ops rc st key = Inr (Some q) \<and> is_older_than now MAX_LOAD_AGE q")
    case True
    then obtain q where q: "get_json ops rc st key = Inr (Some q)" "is_older_than now MAX_LOAD_AGE q" by blast
    note at = get_json_stored [OF diskD(1) [OF Cons.prems(1)] q(1)]
    have "key \<noteq> rc_uuid_string rc (dr_id r)" if "want = Some r" for r
      using at q(2) fresh [OF that] diskD(3) [OF Cons.prems(1) that] by auto
    note del = disk_delete [OF Cons.prems(1) this]
    show ?thesis using Cons.IH [of "snd (scoped_delete ops st key)" acc] del Cons.prems(2) q by simp
  next
    case False
    then have "\<exists>acc'. load_loop ops rc now keys acc' st = (out, st')"
      using Cons.prems(2) by (auto split: sum.splits option.splits if_splits)
    then show ?thesis using Cons.IH [OF Cons.prems(1)] by blast
  qed
qed simp

lemma load_loop_finds:
  assumes "disk view inv rc (Some r) st" and fresh: "\<not> is_older_than now MAX_LOAD_AGE r"
    and "validate_key (rc_uuid_string rc (dr_id r)) = Inr ()"
    and "\<And>s. inv s \<Longrightarrow> is_ok (kv_get ops s (sk_namespace st) (rc_uuid_string rc (dr_id r)))"
    and "load_loop ops rc now keys acc st = (out, st')"
    and "r \<in> set acc \<or> rc_uuid_string rc (dr_id r) \<in> set keys"
    and "\<forall>q\<in>set acc. dr_id q = dr_id r \<longrightarrow> q = r"
  shows "r \<in> set out \<and> (\<forall>q\<in>set out. dr_id q = dr_id r \<longrightarrow> q = r)"
  using assms(1,4-)
proof (induction keys arbitrary: acc st)
  case (Cons key keys)
  note d = Cons.prems(1)
  let ?key = "rc_uuid_string rc (dr_id r)"
  have own: "get_json ops rc st ?key = Inr (Some r)"
    by (rule get_json_reads [OF diskD(1) [OF d] diskD(3) [OF d refl] assms(3) Cons.prems(2) [OF diskD(1) [OF d]]])
  show ?case
  proof (cases "\<exists>q. get_json ops rc st key = Inr (Some q)")
    case True
    then obtain q where q: "get_json ops rc st key = Inr (Some q)" by blast
    have key: "key = rc_uuid_string rc (dr_id q)"
      by (rule diskD(2) [OF d get_json_stored [OF diskD(1) [OF d] q]])
    then have same: "q = r" if "dr_id q = dr_id r" using own q that by simp
    show ?thesis
    proof (cases "is_older_than now MAX_LOAD_AGE q")
      case old: True
      then have ne: "key \<noteq> ?key" using own q fresh by auto
      have del: "disk view inv rc (Some r) (snd (scoped_delete ops st key))"
          "sk_namespace (snd (scoped_delete ops st key)) = sk_namespace st"
        using disk_delete [OF d, of key] ne by auto
      show ?thesis
        by (rule Cons.IH [OF del(1)]) (use Cons.prems q old ne del(2) in auto)
    next
      case False
      then have run: "load_loop ops rc now keys (acc @ [q]) st = (out, st')" using Cons.prems(3) q by simp
      show ?thesis
        by (rule Cons.IH [OF d _ run]) (use Cons.prems(2,4,5) own q same in auto)
    qed
  next
    case False
    then have ne: "key \<noteq> ?key" using own by auto
    have run: "load_loop ops rc now keys acc st = (out, st')"
      using Cons.prems(3) False by (auto split: sum.splits option.splits)
    show ?thesis
      by (rule Cons.IH [OF d _ run]) (use Cons.prems(2,4,5) ne in auto)
  qed
qed simp

end

lemma load_loop_fresh:
  "load_loop ops rc now keys acc st = (out, st') \<Longrightarrow> \<forall>q\<in>set acc. \<not> is_older_than now MAX_LOAD_AGE q
     \<Longrightarrow> \<forall>q\<in>set out. \<not> is_older_than now MAX_LOAD_AGE q"
proof (induction keys arbitrary: acc st)
  case (Cons key keys)
  from Cons.prems(1) obtain acc' st1 where "load_loop ops rc now keys acc' st1 = (out, st')"
      "acc' = acc \<or> (\<exists>q. acc' = acc @ [q] \<and> \<not> is_older_than now MAX_LOAD_AGE q)"
    by (auto split: sum.splits option.splits if_splits)
  then show ?case using Cons.IH [of acc' st1] Cons.prems(2) by auto
qed simp

section \<open>Runs keep the stored copy\<close>

lemma with_persistence_result:
  assumes "with_persistence ops rc now st = Inr s"
  obtains keys out st' where "scoped_list_keys ops st = Inr keys" "load_loop ops rc now keys [] st = (out, st')"
    "s = \<lparr>ds_resolutions = fold (\<lambda>r. hm_insert (dr_id r) r) out [], ds_persistent = Some st'\<rparr>"
  using assms
  by (auto simp: with_persistence_def load_from_store_def DeferredResolutionStore_new_def split: sum.splits prod.splits)

definition disk_at ::
  "('s \<Rightarrow> kv_view) \<Rightarrow> ('s \<Rightarrow> bool) \<Rightarrow> ResolutionCodec \<Rightarrow> string \<Rightarrow> DeferredResolution option
     \<Rightarrow> 's DeferredResolutionStore \<Rightarrow> bool" where
  "disk_at view good rc ns want s \<longleftrightarrow>
     (\<exists>st. ds_persistent s = Some st \<and> sk_namespace st = ns \<and> disk view good rc want st)"

lemma disk_at_memory [simp]: "disk_at view good rc ns want (s\<lparr>ds_resolutions := m\<rparr>) = disk_at view good rc ns want s"
  by (simp add: disk_at_def)

lemma memory_operations_disk [simp]:
  "disk_at view good rc ns want (snd (queue r s)) = disk_at view good rc ns want s"
  "disk_at view good rc ns want (snd (resolve i s)) = disk_at view good rc ns want s"
  "disk_at view good rc ns want (snd (cleanup_old now age s)) = disk_at view good rc ns want s"
  by (simp_all add: queue_def resolve_def cleanup_old_def Let_def split: option.split)

context plain_kv
begin

lemma restart_disk:
  assumes "disk_at view inv rc ns want s" and "\<And>r. want = Some r \<Longrightarrow> \<not> is_older_than now MAX_LOAD_AGE r"
  shows "disk_at view inv rc ns want (restart ops rc now s)"
proof -
  obtain st where st: "ds_persistent s = Some st" "sk_namespace st = ns" "disk view inv rc want st"
    using assms(1) by (auto simp: disk_at_def)
  show ?thesis
  proof (cases "with_persistence ops rc now st")
    case (Inl e)
    then show ?thesis using assms(1) st by (simp add: restart_def)
  next
    case (Inr s')
    then obtain keys out st' where "load_loop ops rc now keys [] st = (out, st')" "ds_persistent s' = Some st'"
      by (auto elim!: with_persistence_result)
    then show ?thesis using load_loop_disk [OF st(3) assms(2)] Inr st by (simp add: restart_def disk_at_def)
  qed
qed

lemma queue_persistent_disk:
  assumes "disk_at view inv rc ns want s" and rc: "uuid_codec rc" and run: "queue_persistent ops rc q s = (res, s')"
  shows "(\<And>r. want = Some r \<Longrightarrow> dr_id q \<noteq> dr_id r) \<Longrightarrow> disk_at view inv rc ns want s'"
    and "is_ok res \<Longrightarrow> res = Inr (dr_id q) \<and> disk_at view inv rc ns (Some q) s'
      \<and> validate_key (rc_uuid_string rc (dr_id q)) = Inr ()"
proof -
  obtain st where st: "ds_persistent s = Some st" "sk_namespace st = ns" "disk view inv rc want st"
    using assms(1) by (auto simp: disk_at_def)
  obtain r1 st1 where set: "set_json ops rc st (rc_uuid_string rc (dr_id q)) q = (r1, st1)" by fastforce
  note law = disk_set_json [OF st(3) rc set]
  have s': "ds_persistent s' = Some st1" and res: "is_ok res \<Longrightarrow> is_ok r1 \<and> res = Inr (dr_id q)"
    using run st(1) set by (auto simp: queue_persistent_def queue_def split: sum.splits)
  show "disk_at view inv rc ns want s'" if "\<And>r. want = Some r \<Longrightarrow> dr_id q \<noteq> dr_id r"
    using law(1,2) that s' st(2) by (simp add: disk_at_def)
  show "res = Inr (dr_id q) \<and> disk_at view inv rc ns (Some q) s' \<and> validate_key (rc_uuid_string rc (dr_id q)) = Inr ()"
    if "is_ok res" using law(1,3) res [OF that] s' st(2) by (simp add: disk_at_def)
qed

lemma resolve_persistent_disk:
  assumes "disk_at view inv rc ns want s" and rc: "uuid_codec rc" and other: "\<And>r. want = Some r \<Longrightarrow> i \<noteq> dr_id r"
  shows "disk_at view inv rc ns want (snd (resolve_persistent ops rc i s))"
proof -
  obtain st where st: "ds_persistent s = Some st" "sk_namespace st = ns" "disk view inv rc want st"
    using assms(1) by (auto simp: disk_at_def)
  have "rc_uuid_string rc i \<noteq> rc_uuid_string rc (dr_id r)" if "want = Some r" for r
    using rc other [OF that] by (simp add: uuid_codec_def inj_eq)
  note del = disk_delete [OF st(3) this]
  show ?thesis using del st assms(1)
    by (cases "hm_get (ds_resolutions s) i") (simp_all add: resolve_persistent_def resolve_def disk_at_def)
qed

lemma defer_op_disk:
  assumes d: "disk_at view inv rc ns want s" and rc: "uuid_codec rc" and l: "\<And>r. want = Some r \<Longrightarrow> leaves_stored r op"
  shows "disk_at view inv rc ns want (apply_defer_op ops rc op s)"
proof (cases op)
  case (QueuePersistentOp q)
  obtain res s' where run: "queue_persistent ops rc q s = (res, s')" by fastforce
  show ?thesis using queue_persistent_disk(1) [OF d rc run] l run QueuePersistentOp by simp
next
  case (ResolvePersistentOp i)
  then show ?thesis using resolve_persistent_disk [OF d rc, of i] l by simp
next
  case (RestartOp now)
  then show ?thesis using restart_disk [OF d, of now] l by simp
qed (use d in simp_all)

lemma defer_run_disk:
  assumes "disk_at view inv rc ns want s" and "uuid_codec rc" and "\<And>r op. want = Some r \<Longrightarrow> op \<in> set os \<Longrightarrow> leaves_stored r op"
  shows "disk_at view inv rc ns want (fold (apply_defer_op ops rc) os s)"
  using assms(1,3)
proof (induction os arbitrary: s)
  case (Cons op os)
  have "disk_at view inv rc ns want (apply_defer_op ops rc op s)"
    by (rule defer_op_disk [OF Cons.prems(1) assms(2)]) (use Cons.prems(2) in simp)
  then show ?case using Cons.IH Cons.prems(2) by simp
qed simp

end

section \<open>What is offered after a restart\<close>

lemma get_pending_sorted: "sorted_wrt (\<lambda>a b. dr_priority b \<le> dr_priority a) (get_pending s)"
proof -
  have "sorted (map (\<lambda>r. - int (priority_rank (dr_priority r))) (get_pending s))"
    by (simp add: get_pending_def)
  then show ?thesis by (simp add: sorted_wrt_map less_eq_Priority_def)
qed

lemma fold_insert_wf: "hm_wf m \<Longrightarrow> hm_wf (fold (\<lambda>r. hm_insert (dr_id r) r) rs m)"
  by (induction rs arbitrary: m) (simp_all add: hm.wf_insert)

lemma get_pending_iff: "hm_wf (ds_resolutions s) \<Longrightarrow> r \<in> set (get_pending s) \<longleftrightarrow> (\<exists>i. hm_get (ds_resolutions s) i = Some r)"
  by (simp add: get_pending_def hm_values_iff)

lemma fold_insert_loaded:
  "hm_get (fold (\<lambda>r. hm_insert (dr_id r) r) rs []) i = Some q \<Longrightarrow> q \<in> set rs"
  by (auto simp: hm.fold_insert_get split: option.splits dest: find_Some_iff)

lemma fold_insert_finds:
  assumes "r \<in> set rs" and "\<forall>q\<in>set rs. dr_id q = dr_id r \<longrightarrow> q = r"
  shows "hm_get (fold (\<lambda>r. hm_insert (dr_id r) r) rs []) (dr_id r) = Some r"
proof -
  obtain q where q: "find (\<lambda>q. dr_id q = dr_id r) (rev rs) = Some q"
    using assms(1) by (cases "find (\<lambda>q. dr_id q = dr_id r) (rev rs)") (auto simp: find_None_ball)
  then have "q \<in> set rs" "dr_id q = dr_id r" using find_Some_iff [OF q] by simp_all
  then show ?thesis using q assms(2) by (simp add: hm.fold_insert_get)
qed

lemma opened_disk:
  assumes kv: "plain_kv ops view good" and "good (sk_inner st)" and "\<And>key. view (sk_inner st) (slot st key) = None"
    and run: "with_persistence ops rc now st = Inr s"
  shows "disk_at view good rc (sk_namespace st) None s"
proof -
  have "disk view good rc None st" by (rule diskI) (use assms(2,3) in \<open>simp_all add: stored_def\<close>)
  moreover obtain keys out st' where "load_loop ops rc now keys [] st = (out, st')"
      "s = \<lparr>ds_resolutions = fold (\<lambda>r. hm_insert (dr_id r) r) out [], ds_persistent = Some st'\<rparr>"
    by (rule with_persistence_result [OF run])
  ultimately show ?thesis using plain_kv.load_loop_disk [OF kv] by (fastforce simp: disk_at_def)
qed

lemma reopened_offers:
  assumes kv: "plain_kv ops view good" and d: "disk view good rc (Some r) st"
    and key: "validate_key (rc_uuid_string rc (dr_id r)) = Inr ()"
    and reads: "\<And>s. good s \<Longrightarrow> is_ok (kv_get ops s (sk_namespace st) (rc_uuid_string rc (dr_id r)))"
    and fresh: "\<not> is_older_than now MAX_LOAD_AGE r" and run: "with_persistence ops rc now st = Inr s"
  shows "hm_get (ds_resolutions s) (dr_id r) = Some r"
    and "\<forall>q\<in>set (get_pending s). \<not> is_older_than now MAX_LOAD_AGE q" and "hm_wf (ds_resolutions s)"
proof -
  obtain keys out st' where l: "scoped_list_keys ops st = Inr keys" "load_loop ops rc now keys [] st = (out, st')"
      and s: "s = \<lparr>ds_resolutions = fold (\<lambda>r. hm_insert (dr_id r) r) out [], ds_persistent = Some st'\<rparr>"
    by (rule with_persistence_result [OF run])
  have "rc_uuid_string rc (dr_id r) \<in> set keys"
    using plain_kv.list_keys_law [OF kv diskD(1) [OF d]] l(1) diskD(3) [OF d refl]
    by (fastforce simp: scoped_list_keys_def stored_def bind_eq_Some_conv)
  then have out: "r \<in> set out \<and> (\<forall>q\<in>set out. dr_id q = dr_id r \<longrightarrow> q = r)"
    using plain_kv.load_loop_finds [OF kv d fresh key reads l(2)] by simp
  show "hm_get (ds_resolutions s) (dr_id r) = Some r" using fold_insert_finds [of r out] out s by simp
  show wf: "hm_wf (ds_resolutions s)" using s by (simp add: fold_insert_wf)
  have "\<forall>q\<in>set out. \<not> is_older_than now MAX_LOAD_AGE q" by (rule load_loop_fresh [OF l(2)]) simp
  moreover have "q \<in> set out" if q: "q \<in> set (get_pending s)" for q
  proof -
    obtain j where "hm_get (ds_resolutions s) j = Some q" using q wf by (auto simp: get_pending_iff)
    then have "hm_get (fold (\<lambda>r. hm_insert (dr_id r) r) out []) j = Some q" using s by simp
    then show ?thesis by (rule fold_insert_loaded)
  qed
  ultimately show "\<forall>q\<in>set (get_pending s). \<not> is_older_than now MAX_LOAD_AGE q" by blast
qed

text \<open>
  C27.  A deferred decision survives restarts.  Take any run of a queue that was opened on an empty
  namespace of a store.  Once a resolution was queued with persistence, and until it is removed from the
  storage or another is stored under its identifier, a restart within a day of its queueing offers it
  again, unchanged; this includes a resolution that \<open>resolve\<close> already removed from memory.  Nothing older
  than a day is offered, and the offer is in descending order of priority.  The store may fail a write
  with or without effect; reading the key of the resolution is assumed not to fail.
\<close>

theorem deferred_survives_restart:
  assumes kv: "plain_kv ops view good" and rc: "uuid_codec rc" and good: "good (sk_inner st0)"
    and empty: "\<And>key. view (sk_inner st0) (slot st0 key) = None"
    and reads: "\<And>s. good s \<Longrightarrow> is_ok (kv_get ops s (sk_namespace st0) (rc_uuid_string rc (dr_id r)))"
    and opened: "with_persistence ops rc t0 st0 = Inr s0"
    and queued: "queue_persistent ops rc r (fold (apply_defer_op ops rc) before s0) = (Inr i, s1)"
    and left: "\<forall>op\<in>set after. leaves_stored r op"
    and reopened: "ds_persistent (fold (apply_defer_op ops rc) after s1) = Some st" "with_persistence ops rc now st = Inr s2"
    and fresh: "\<not> is_older_than now MAX_LOAD_AGE r"
  shows "i = dr_id r \<and> hm_get (ds_resolutions s2) i = Some r \<and> r \<in> set (get_pending s2)
    \<and> (\<forall>q\<in>set (get_pending s2). \<not> is_older_than now MAX_LOAD_AGE q)
    \<and> sorted_wrt (\<lambda>a b. dr_priority b \<le> dr_priority a) (get_pending s2)"
proof -
  let ?ns = "sk_namespace st0"
  have "disk_at view good rc ?ns None (fold (apply_defer_op ops rc) before s0)"
    by (rule plain_kv.defer_run_disk [OF kv opened_disk [OF kv good empty opened] rc]) simp
  from plain_kv.queue_persistent_disk(2) [OF kv this rc queued]
  have s1: "i = dr_id r" "disk_at view good rc ?ns (Some r) s1" "validate_key (rc_uuid_string rc (dr_id r)) = Inr ()"
    by simp_all
  have "disk_at view good rc ?ns (Some r) (fold (apply_defer_op ops rc) after s1)"
    by (rule plain_kv.defer_run_disk [OF kv s1(2) rc]) (use left in auto)
  then have "disk view good rc (Some r) st" "sk_namespace st = ?ns" using reopened(1) by (auto simp: disk_at_def)
  note offer = reopened_offers [OF kv this(1) s1(3) _ fresh reopened(2), unfolded this(2), OF reads]
  show ?thesis using s1(1) offer get_pending_sorted [of s2] by (auto simp: get_pending_iff)
qed

definition demo_deferred :: DeferredResolution where
  "demo_deferred = DeferredResolution_new 1 10 (ErrorResolution ''disk full'' ''save'') ''user away'' PrioHigh
     \<lparr>ac_goal = ''save'', ac_task = None\<rparr>"

definition demo_resolution_codec :: ResolutionCodec where
  "demo_resolution_codec = \<lparr>rc_uuid_string = (\<lambda>i. replicate (Suc (unat i)) CHR ''u''),
     rc_to_vec = (\<lambda>r. if r = demo_deferred then Some ''j'' else None), rc_from_slice = (\<lambda>_. Some demo_deferred)\<rparr>"

lemma demo_resolution_codec_ok: "uuid_codec demo_resolution_codec"
  by (auto simp: uuid_codec_def demo_resolution_codec_def inj_def replicate_eq_replicate intro: unsigned_word_eqI split: if_splits)

definition demo_scoped :: "MemoryKvStore ScopedKvStore" where
  "demo_scoped = \<lparr>sk_inner = MemoryKvStore_new, sk_namespace = ''deferred''\<rparr>"

definition demo_scoped_full :: "MemoryKvStore ScopedKvStore" where
  "demo_scoped_full = \<lparr>sk_inner = \<lparr>mem_data = [(full_key ''deferred'' ''uu'', ''j'')]\<rparr>, sk_namespace = ''deferred''\<rparr>"

lemmas demo_queue_defs = demo_scoped_def demo_scoped_full_def demo_resolution_codec_def memory_kv_def mem_get_def mem_set_def
  mem_list_keys_def validate_namespace_def validate_key_def NUL_def MemoryKvStore_new_def hm_keys_def full_key_def

lemma demo_deferred_simps [simp]: "dr_id demo_deferred = 1" "dr_queued_at demo_deferred = 10"
  by (simp_all add: demo_deferred_def DeferredResolution_new_def)

lemma demo_open: "with_persistence memory_kv demo_resolution_codec 5 demo_scoped
     = Inr \<lparr>ds_resolutions = [], ds_persistent = Some demo_scoped\<rparr>"
  by (simp add: with_persistence_def load_from_store_def DeferredResolutionStore_new_def scoped_list_keys_def
      demo_queue_defs List.map_filter_def)

lemma demo_queue: "queue_persistent memory_kv demo_resolution_codec demo_deferred \<lparr>ds_resolutions = [], ds_persistent = Some demo_scoped\<rparr>
     = (Inr 1, \<lparr>ds_resolutions = [(1, demo_deferred)], ds_persistent = Some demo_scoped_full\<rparr>)"
  by (simp add: queue_persistent_def set_json_def scoped_set_def queue_def hm_insert_def demo_queue_defs numeral_2_eq_2)

lemma demo_reopen: "with_persistence memory_kv demo_resolution_codec 50 demo_scoped_full
     = Inr \<lparr>ds_resolutions = [(1, demo_deferred)], ds_persistent = Some demo_scoped_full\<rparr>"
  by (simp add: with_persistence_def load_from_store_def DeferredResolutionStore_new_def scoped_list_keys_def
      get_json_def scoped_get_def and_then_def is_older_than_def MAX_LOAD_AGE_def hm_insert_def
      demo_queue_defs List.map_filter_def numeral_2_eq_2)

theorem deferred_survives_restart_witness:
  "\<exists>s. queue_persistent memory_kv demo_resolution_codec demo_deferred \<lparr>ds_resolutions = [], ds_persistent = Some demo_scoped\<rparr> = (Inr 1, s)
     \<and> hm_get (ds_resolutions (snd (resolve 1 s))) 1 = None
     \<and> (\<exists>s2. with_persistence memory_kv demo_resolution_codec 50 demo_scoped_full = Inr s2 \<and> hm_get (ds_resolutions s2) 1 = Some demo_deferred)"
proof -
  let ?s = "\<lparr>ds_resolutions = [(1, demo_deferred)], ds_persistent = Some demo_scoped_full\<rparr>"
  have "is_ok (kv_get memory_kv s (sk_namespace demo_scoped) (rc_uuid_string demo_resolution_codec (dr_id demo_deferred)))" for s
    by (simp add: demo_queue_defs numeral_2_eq_2)
  moreover have "mem_view (sk_inner demo_scoped) (slot demo_scoped key) = None" for key
    by (simp add: demo_scoped_def mem_view_def MemoryKvStore_new_def)
  moreover have "mem_inv (sk_inner demo_scoped)" by (simp add: demo_scoped_def mem_inv_new)
  ultimately have "hm_get (ds_resolutions ?s) 1 = Some demo_deferred"
    using deferred_survives_restart [OF memk.plain_kv_axioms demo_resolution_codec_ok, of demo_scoped demo_deferred 5
        "\<lparr>ds_resolutions = [], ds_persistent = Some demo_scoped\<rparr>" "[]" 1 ?s "[ResolveOp 1]" demo_scoped_full 50 ?s]
    by (simp add: demo_open demo_queue demo_reopen resolve_def is_older_than_def MAX_LOAD_AGE_def)
  then show ?thesis using demo_queue demo_reopen by (simp add: resolve_def hm.get_remove)
qed

end
