(* ===== verification/Approval_Manager.thy ===== *)
theory Approval_Manager
  imports Deferred_Queue
begin

text \<open>
  The approval manager, \<open>crates/astrid-approval/src/manager.rs\<close>: it answers a sensitive action from the
  allowance store, else from the registered handler, else it defers the action to the queue.

  A handler is what one call sees of it: whether it is available, and after which delay, if ever, it
  answers a request, with \<open>None\<close> when the user did not respond.  The random identifiers and the readings
  of the clock of one call are the record \<open>FreshInputs\<close>; readings with no suspension between them are
  one.  A call may be suspended at four places: before it reads the handler, the timeout or the default
  fallback, and while it waits for the answer.  What other tasks do to the manager there are the functions
  of \<open>Interference\<close>, which are arbitrary.  Dropping a waiting call is not modelled.
\<close>

section \<open>State\<close>

datatype ApprovalProof =
    ByAllowance AllowanceId
  | OneTimeApproval
  | SessionApproval AllowanceId
  | WorkspaceApproval AllowanceId
  | AlwaysAllow
  | CustomAllowance AllowanceId

datatype DenialReason = UserDenied string | FailedToDefer DeferError

datatype ApprovalOutcome =
    OutAllowed ApprovalProof
  | OutDenied DenialReason
  | OutDeferred ResolutionId FallbackBehavior

fun is_allowed :: "ApprovalOutcome \<Rightarrow> bool" where
  "is_allowed (OutAllowed _) = True"
| "is_allowed _ = False"

record ApprovalHandler =
  ah_is_available :: bool
  ah_request_approval :: "MgrRequest \<Rightarrow> (nat \<times> MgrResponse option) option"

record 's ApprovalManager =
  am_allowances :: AllowanceStore
  am_deferred :: "'s DeferredResolutionStore"
  am_handler :: "ApprovalHandler option"
  am_timeout :: nat
  am_default_fallback :: FallbackBehavior

definition DEFAULT_TIMEOUT :: nat where
  "DEFAULT_TIMEOUT = 5 * 60 * 1000000000"

definition ApprovalManager_new :: "AllowanceStore \<Rightarrow> 's DeferredResolutionStore \<Rightarrow> 's ApprovalManager" where
  "ApprovalManager_new allowance_store deferred_queue =
     \<lparr>am_allowances = allowance_store, am_deferred = deferred_queue, am_handler = None,
      am_timeout = DEFAULT_TIMEOUT, am_default_fallback = Skip\<rparr>"

definition register_handler :: "ApprovalHandler \<Rightarrow> 's ApprovalManager \<Rightarrow> 's ApprovalManager" where
  "register_handler h m = m\<lparr>am_handler := Some h\<rparr>"

definition set_timeout :: "nat \<Rightarrow> 's ApprovalManager \<Rightarrow> 's ApprovalManager" where
  "set_timeout t m = m\<lparr>am_timeout := t\<rparr>"

definition set_default_fallback :: "FallbackBehavior \<Rightarrow> 's ApprovalManager \<Rightarrow> 's ApprovalManager" where
  "set_default_fallback f m = m\<lparr>am_default_fallback := f\<rparr>"

record FreshInputs =
  fr_now :: nat
  fr_request_id :: RequestId
  fr_deferred_at :: nat
  fr_deferred_request_id :: RequestId
  fr_resolution_id :: ResolutionId
  fr_allowance_id :: AllowanceId

record 's Interference =
  before_handler :: "'s ApprovalManager \<Rightarrow> 's ApprovalManager"
  before_timeout :: "'s ApprovalManager \<Rightarrow> 's ApprovalManager"
  while_waiting :: "'s ApprovalManager \<Rightarrow> 's ApprovalManager"
  before_fallback :: "'s ApprovalManager \<Rightarrow> 's ApprovalManager"

section \<open>Operations\<close>

definition deferral ::
  "FreshInputs \<Rightarrow> FallbackBehavior \<Rightarrow> SensitiveAction \<Rightarrow> string \<Rightarrow> string \<Rightarrow> DeferredResolution" where
  "deferral fr fallback action context reason =
     (DeferredResolution_new (fr_resolution_id fr) (fr_deferred_at fr)
        (ApprovalNeeded (MgrRequest_new (fr_deferred_request_id fr) (fr_deferred_at fr) action context))
        reason PrioNormal \<lparr>ac_goal = context, ac_task = None\<rparr>)
     \<lparr>dr_fallback_taken := Some (''fallback: '' @ fallback_string fallback)\<rparr>"

definition defer_action ::
  "FreshInputs \<Rightarrow> 's Interference \<Rightarrow> SensitiveAction \<Rightarrow> string \<Rightarrow> string \<Rightarrow> 's ApprovalManager
     \<Rightarrow> ApprovalOutcome \<times> 's ApprovalManager" where
  "defer_action fr env action context reason m0 =
     (let m = before_fallback env m0;
          fallback = am_default_fallback m
      in case queue (deferral fr fallback action context reason) (am_deferred m) of
           (Inr resolution_id, q) \<Rightarrow> (OutDeferred resolution_id fallback, m\<lparr>am_deferred := q\<rparr>)
         | (Inl e, q) \<Rightarrow> (OutDenied (FailedToDefer e), m\<lparr>am_deferred := q\<rparr>))"

definition handle_response ::
  "FreshInputs \<Rightarrow> MgrResponse \<Rightarrow> 's ApprovalManager \<Rightarrow> ApprovalOutcome \<times> 's ApprovalManager" where
  "handle_response fr response m =
     (case resp_decision response of
        Approve \<Rightarrow> (OutAllowed OneTimeApproval, m)
      | ApproveSession \<Rightarrow> (OutAllowed (SessionApproval (fr_allowance_id fr)), m)
      | ApproveWorkspace \<Rightarrow> (OutAllowed (WorkspaceApproval (fr_allowance_id fr)), m)
      | ApproveAlways \<Rightarrow> (OutAllowed AlwaysAllow, m)
      | ApproveWithAllowance allowance \<Rightarrow>
          (case add_allowance allowance (am_allowances m) of
             (Inl _, s) \<Rightarrow> (OutAllowed OneTimeApproval, m\<lparr>am_allowances := s\<rparr>)
           | (Inr _, s) \<Rightarrow> (OutAllowed (CustomAllowance (al_id allowance)), m\<lparr>am_allowances := s\<rparr>))
      | DenyWith reason \<Rightarrow> (OutDenied (UserDenied reason), m))"

text \<open>\<open>tokio::time::timeout\<close> polls the answer before the deadline: \<open>None\<close> is the elapsed timeout.\<close>

definition await_answer :: "ApprovalHandler \<Rightarrow> nat \<Rightarrow> MgrRequest \<Rightarrow> MgrResponse option option" where
  "await_answer h timeout request =
     (case ah_request_approval h request of
        None \<Rightarrow> None
      | Some (delay, answer) \<Rightarrow> if delay \<le> timeout then Some answer else None)"

definition check_approval ::
  "(string \<Rightarrow> string \<Rightarrow> bool) \<Rightarrow> FreshInputs \<Rightarrow> 's Interference \<Rightarrow> PrincipalId \<Rightarrow> SensitiveAction \<Rightarrow> string \<Rightarrow> string option
     \<Rightarrow> 's ApprovalManager \<Rightarrow> ApprovalOutcome \<times> 's ApprovalManager" where
  "check_approval glob fr env p action context workspace_root m =
     (case find_matching_and_consume glob (fr_now fr) p action workspace_root (am_allowances m) of
        (Some allowance, s) \<Rightarrow> (OutAllowed (ByAllowance (al_id allowance)), m\<lparr>am_allowances := s\<rparr>)
      | (None, s) \<Rightarrow>
          let request = MgrRequest_new (fr_request_id fr) (fr_now fr) action context;
              m1 = before_handler env (m\<lparr>am_allowances := s\<rparr>)
          in case am_handler m1 of
               None \<Rightarrow> defer_action fr env action context ''no approval handler registered'' m1
             | Some h \<Rightarrow>
                 if \<not> ah_is_available h
                 then defer_action fr env action context ''approval handler unavailable'' m1
                 else let m2 = before_timeout env m1;
                          m3 = while_waiting env m2
                      in case await_answer h (am_timeout m2) request of
                           None \<Rightarrow> defer_action fr env action context ''approval request timed out'' m3
                         | Some None \<Rightarrow> defer_action fr env action context ''user did not respond'' m3
                         | Some (Some response) \<Rightarrow> handle_response fr response m3)"

definition resolve_deferred ::
  "FreshInputs \<Rightarrow> ResolutionId \<Rightarrow> MgrResponse \<Rightarrow> 's ApprovalManager \<Rightarrow> ApprovalOutcome \<times> 's ApprovalManager" where
  "resolve_deferred fr i response m =
     handle_response fr response (m\<lparr>am_deferred := snd (resolve i (am_deferred m))\<rparr>)"

section \<open>What decides a check\<close>

text \<open>An allowance that covers an action for a principal, and the answer of the handler that a check takes.\<close>

definition covered_by ::
  "(string \<Rightarrow> string \<Rightarrow> bool) \<Rightarrow> nat \<Rightarrow> PrincipalId \<Rightarrow> SensitiveAction \<Rightarrow> string option \<Rightarrow> AllowanceStore \<Rightarrow> Allowance \<Rightarrow> bool" where
  "covered_by glob now p action ws s a \<longleftrightarrow>
     p \<notin> retiring_principals s \<and> lookup_allowance s p (al_id a) = Some a \<and> allowance_matches glob now a action ws"

definition handler_answer ::
  "FreshInputs \<Rightarrow> 's Interference \<Rightarrow> SensitiveAction \<Rightarrow> string \<Rightarrow> 's ApprovalManager \<Rightarrow> MgrResponse option" where
  "handler_answer fr env action context m =
     Option.bind (am_handler m) (\<lambda>h. if ah_is_available h
       then Option.bind (await_answer h (am_timeout (before_timeout env m)) (MgrRequest_new (fr_request_id fr) (fr_now fr) action context)) id
       else None)"

definition after_scan ::
  "(string \<Rightarrow> string \<Rightarrow> bool) \<Rightarrow> FreshInputs \<Rightarrow> 's Interference \<Rightarrow> PrincipalId \<Rightarrow> SensitiveAction \<Rightarrow> string option
     \<Rightarrow> 's ApprovalManager \<Rightarrow> 's ApprovalManager" where
  "after_scan glob fr env p action ws m =
     before_handler env
       (m\<lparr>am_allowances := snd (find_matching_and_consume glob (fr_now fr) p action ws (am_allowances m))\<rparr>)"

lemma map_okD:
  assumes "map_ok p m"
  shows "hm_wf m" and "hm_get m i = Some a \<Longrightarrow> al_id a = i"
  using assms unfolding map_ok_def by blast+

lemma scan_finds_nothing:
  assumes ok: "store_ok s" and run: "find_matching_and_consume glob now p action ws s = (None, s')"
  shows "\<not> covered_by glob now p action ws s a"
proof
  assume "covered_by glob now p action ws s a"
  then have p: "p \<notin> retiring_principals s" and at: "lookup_allowance s p (al_id a) = Some a"
      and match: "allowance_matches glob now a action ws"
    by (simp_all add: covered_by_def)
  obtain m where m: "hm_get (allowances s) p = Some m" "hm_get m (al_id a) = Some a"
    using at by (cases "hm_get (allowances s) p") (simp_all add: lookup_allowance_def principal_map_def)
  let ?live = "hm_retain (\<lambda>_ b. \<not> al_is_expired now b) m"
  have wf: "map_ok p ?live" by (rule map_ok_retain [OF store_okD [OF ok m(1)]])
  have "\<not> al_is_expired now a" using match by (simp add: allowance_matches_def al_is_valid_def split: if_splits)
  then have "hm_get ?live (al_id a) = Some a"
    using m(2) map_okD(1) [OF store_okD [OF ok m(1)]] by (simp add: hm_get_retain_Some)
  moreover have vals: "b \<in> set (hm_values ?live) \<longleftrightarrow> (\<exists>k. hm_get ?live k = Some b)" for b
    by (rule hm_values_iff [OF map_okD(1) [OF wf]])
  ultimately have "a \<in> set (hm_values ?live)" by blast
  then have "find (\<lambda>a. allowance_matches glob now a action ws) (hm_values ?live) \<noteq> None"
    using match by (auto simp: find_None_ball)
  then obtain b where b: "find (\<lambda>a. allowance_matches glob now a action ws) (hm_values ?live) = Some b" by blast
  then have "b \<in> set (hm_values ?live)" using find_Some_iff [OF b] by simp
  then obtain k where k: "hm_get ?live k = Some b" using vals by blast
  then have "al_id b = k" by (rule map_okD(2) [OF wf])
  then have "hm_get ?live (al_id b) = Some b" using k by simp
  then show False using run p m(1) b by (simp add: find_matching_and_consume_def Let_def)
qed

lemma scan_grants:
  assumes ok: "store_ok s" and run: "find_matching_and_consume glob now p action ws s = (Some a, s')"
  shows "covered_by glob now p action ws s a" and "lookup_allowance s' p (al_id a) = Some (spend_use a)"
proof -
  note grant = find_matching_and_consume_grant [OF ok run]
  show "covered_by glob now p action ws s a" using grant(1-3) by (simp add: covered_by_def)
  show "lookup_allowance s' p (al_id a) = Some (spend_use a)"
    using grant(4) by (auto simp: lookup_allowance_def principal_map_def hm.get_insert)
qed

lemma defer_action_result:
  "defer_action fr env action context reason m0 =
     (let m = before_fallback env m0; r = deferral fr (am_default_fallback m) action context reason
      in (OutDeferred (fr_resolution_id fr) (am_default_fallback m),
          m\<lparr>am_deferred := (am_deferred m)\<lparr>ds_resolutions :=
             hm_insert (fr_resolution_id fr) r (ds_resolutions (am_deferred m))\<rparr>\<rparr>))"
  by (simp add: defer_action_def queue_def deferral_def DeferredResolution_new_def Let_def)

lemma check_approval_cases:
  assumes "check_approval glob fr env p action context ws m = (out, m')"
  obtains (allowance) a s where "find_matching_and_consume glob (fr_now fr) p action ws (am_allowances m) = (Some a, s)"
      "out = OutAllowed (ByAllowance (al_id a))" "m' = m\<lparr>am_allowances := s\<rparr>"
    | (answer) s response where "find_matching_and_consume glob (fr_now fr) p action ws (am_allowances m) = (None, s)"
      "handler_answer fr env action context (after_scan glob fr env p action ws m) = Some response"
      "handle_response fr response (while_waiting env (before_timeout env (after_scan glob fr env p action ws m))) = (out, m')"
    | (deferred) s reason m2 where "find_matching_and_consume glob (fr_now fr) p action ws (am_allowances m) = (None, s)"
      "handler_answer fr env action context (after_scan glob fr env p action ws m) = None"
      "defer_action fr env action context reason m2 = (out, m')"
  using assms unfolding check_approval_def handler_answer_def after_scan_def
  by (auto simp: Let_def split: prod.splits option.splits if_splits)

lemma handle_response_allowed:
  assumes "handle_response fr response m = (out, m')"
  shows "is_allowed out \<longleftrightarrow> is_approved (resp_decision response)"
    and "am_deferred m' = am_deferred m"
    and "\<not> is_allowed out \<Longrightarrow> \<exists>reason. resp_decision response = DenyWith reason \<and> out = OutDenied (UserDenied reason)"
    and "am_allowances m' = am_allowances m \<or> (\<exists>a. resp_decision response = ApproveWithAllowance a
           \<and> am_allowances m' = insert_allowance a (am_allowances m))"
  using assms by (cases "resp_decision response"; auto simp: handle_response_def add_allowance_def split: if_splits)+

text \<open>The action that a queue entry holds for review.\<close>

definition holds_action :: "'s ApprovalManager \<Rightarrow> ResolutionId \<Rightarrow> SensitiveAction \<Rightarrow> string \<Rightarrow> bool" where
  "holds_action m i action context \<longleftrightarrow> (\<exists>r request. hm_get (ds_resolutions (am_deferred m)) i = Some r
     \<and> dr_id r = i \<and> dr_action r = ApprovalNeeded request \<and> ar_action request = action \<and> ar_context request = context)"

lemma defer_action_holds:
  assumes "defer_action fr env action context reason m = (out, m')"
  shows "out = OutDeferred (fr_resolution_id fr) (am_default_fallback (before_fallback env m))"
    and "holds_action m' (fr_resolution_id fr) action context"
  using assms
  by (auto simp: defer_action_result Let_def holds_action_def hm.get_insert deferral_def DeferredResolution_new_def
      MgrRequest_new_def)

text \<open>
  C26.  What an approval check answers.  If an allowance of the invoking principal covers the action, the
  check is allowed by such an allowance and spends one use of it.  Otherwise the handler decides: an
  answer in time decides as the user did, and a refusal carries the user's reason.  In every other case
  (no handler, an unavailable one, silence or a timeout) the action is not allowed but waits in the
  queue under the returned identifier, with its context, whatever other tasks do while the call is
  suspended.
\<close>

theorem approval_check_decides:
  assumes reach: "reachable_store glob (am_allowances m)"
    and run: "check_approval glob fr env p action context ws m = (out, m')"
  shows "if \<exists>a. covered_by glob (fr_now fr) p action ws (am_allowances m) a
     then \<exists>a. covered_by glob (fr_now fr) p action ws (am_allowances m) a \<and> out = OutAllowed (ByAllowance (al_id a))
            \<and> lookup_allowance (am_allowances m') p (al_id a) = Some (spend_use a)
     else case handler_answer fr env action context (after_scan glob fr env p action ws m) of
            Some response \<Rightarrow>
              (is_allowed out \<longleftrightarrow> is_approved (resp_decision response))
              \<and> (\<not> is_allowed out \<longrightarrow> (\<exists>reason. resp_decision response = DenyWith reason \<and> out = OutDenied (UserDenied reason)))
          | None \<Rightarrow> (\<exists>fallback. out = OutDeferred (fr_resolution_id fr) fallback)
              \<and> holds_action m' (fr_resolution_id fr) action context"
proof -
  note ok = reachable_store_ok [OF reach]
  from run show ?thesis
  proof (cases rule: check_approval_cases)
    case (allowance a s)
    note grant = scan_grants [OF ok allowance(1)]
    then show ?thesis using allowance(2,3) by auto
  next
    case (answer s response)
    note none = scan_finds_nothing [OF ok answer(1)]
    show ?thesis using none answer(2) handle_response_allowed(1,3) [OF answer(3)] by simp
  next
    case (deferred s reason m2)
    note none = scan_finds_nothing [OF ok deferred(1)]
    show ?thesis using none deferred(2) defer_action_holds(1,2) [OF deferred(3)] by simp
  qed
qed

definition idle :: "'s Interference" where
  "idle = \<lparr>before_handler = (\<lambda>m. m), before_timeout = (\<lambda>m. m), while_waiting = (\<lambda>m. m), before_fallback = (\<lambda>m. m)\<rparr>"

definition demo_fresh :: FreshInputs where
  "demo_fresh = \<lparr>fr_now = 3, fr_request_id = 1, fr_deferred_at = 4, fr_deferred_request_id = 2,
     fr_resolution_id = 9, fr_allowance_id = 5\<rparr>"

definition slow_handler :: ApprovalHandler where
  "slow_handler = \<lparr>ah_is_available = True, ah_request_approval = (\<lambda>r. Some (Suc DEFAULT_TIMEOUT,
     Some \<lparr>resp_request_id = ar_id r, resp_decision = Approve, resp_timestamp = 0, resp_signature = None\<rparr>))\<rparr>"

definition demo_manager :: "MemoryKvStore ApprovalManager" where
  "demo_manager = register_handler slow_handler (ApprovalManager_new demo_store DeferredResolutionStore_new)"

lemma demo_scan_misses:
  "find_matching_and_consume (\<lambda>_ _. False) 3 (PrincipalId ''alice'') (ExecuteCommand ''rm'' []) None demo_store = (None, demo_store)"
  by (simp add: find_matching_and_consume_def demo_store_def demo_allowance_def add_allowance_def insert_allowance_def
      AllowanceStore_new_def principal_map_def hm_insert_def hm_retain_def hm_values_def al_is_expired_def allowance_matches_def
      al_is_valid_def has_uses_remaining_def pattern_matches_def full_command_def contains_shell_operators_def
      starts_with_def strip_suffix_def matches_file_glob_def)

theorem approval_check_decides_witness:
  "holds_action (snd (check_approval (\<lambda>_ _. False) demo_fresh idle (PrincipalId ''alice'') (ExecuteCommand ''rm'' [])
     ''clean'' None demo_manager)) 9 (ExecuteCommand ''rm'' []) ''clean''"
proof -
  let ?g = "\<lambda>_ _. False" and ?p = "PrincipalId ''alice''" and ?act = "ExecuteCommand ''rm'' []"
  obtain out m' where run: "check_approval ?g demo_fresh idle ?p ?act ''clean'' None demo_manager = (out, m')" by fastforce
  have store: "am_allowances demo_manager = demo_store"
    by (simp add: demo_manager_def register_handler_def ApprovalManager_new_def)
  have now: "fr_now demo_fresh = 3" "fr_resolution_id demo_fresh = 9" by (simp_all add: demo_fresh_def)
  have "\<not> covered_by ?g 3 ?p ?act None demo_store a" for a
    by (rule scan_finds_nothing [OF reachable_store_ok [OF demo_reachable] demo_scan_misses])
  moreover have "handler_answer demo_fresh idle ?act ''clean'' (after_scan ?g demo_fresh idle ?p ?act None demo_manager) = None"
    by (simp add: handler_answer_def after_scan_def idle_def demo_manager_def register_handler_def ApprovalManager_new_def
        slow_handler_def await_answer_def)
  ultimately show ?thesis
    using approval_check_decides [of ?g demo_manager demo_fresh idle ?p ?act "''clean''" None out m'] run
    by (simp add: store now demo_reachable)
qed

section \<open>Deferred decisions\<close>

text \<open>
  A decision on a deferred action is honoured whether or not the queue still holds that action: the
  result of the lookup is only logged, so an answer given twice approves twice.
\<close>

lemma stale_resolution_still_approves:
  assumes "hm_get (ds_resolutions (am_deferred m)) i = None"
  shows "resolve_deferred fr i response m = handle_response fr response m"
  using assms by (simp add: resolve_deferred_def resolve_def)

text \<open>An allowance that a response carries is stored for the principal it names, who need not be the invoking one.\<close>

lemma response_allowance_stored:
  assumes "resp_decision response = ApproveWithAllowance a" and "al_principal a \<notin> retiring_principals (am_allowances m)"
  shows "lookup_allowance (am_allowances (snd (handle_response fr response m))) (al_principal a) (al_id a) = Some a"
  using assms by (simp add: handle_response_def add_allowance_def lookup_insert)

text \<open>Deferral and resolution by the manager work on the memory of the queue only.  A deferred action is not
  written to the storage, so a restart loses it; and the stored copy of a resolution that was loaded stays
  when it is resolved, so a restart offers it again.\<close>

lemma defer_action_keeps_disk:
  "ds_persistent (am_deferred (snd (defer_action fr env action context reason m)))
     = ds_persistent (am_deferred (before_fallback env m))"
  by (simp add: defer_action_result Let_def)

lemma resolve_deferred_keeps_disk:
  "ds_persistent (am_deferred (snd (resolve_deferred fr i response m))) = ds_persistent (am_deferred m)"
proof -
  obtain out m' where run: "handle_response fr response (m\<lparr>am_deferred := snd (resolve i (am_deferred m))\<rparr>) = (out, m')"
    by fastforce
  show ?thesis using handle_response_allowed(2) [OF run] run
    by (simp add: resolve_deferred_def resolve_def split: option.split)
qed

end
