(* ===== verification/Spec2Isabelle.thy ===== *)
theory Spec2Isabelle
  imports Management_Router Toposort Http_Safety Token_Service Approval_Manager
begin

text \<open>
  A verification library for the Astrid runtime (\<open>crates/\<close>): the authority of principals and their
  devices, the pairing of devices, the gate of the management API, and the approvals, the network airlock
  and the outgoing HTTP host that guard what a capsule may do.  File names below are relative to \<open>crates/\<close>.

  \<^bold>\<open>The program.\<close>  A principal has a profile (\<open>astrid-core/src/profile\<close>) with grants, revokes, groups,
  quotas and device keys.  A request on the management API reaches \<open>kernel_router::handle_request\<close> or
  \<open>admin::handle_admin_request\<close>; the router resolves the scope and the capability the request needs, loads
  the caller's profile through the cache and asks the capability check, and only then dispatches.  A new
  device is paired with a one-time token kept in the key-value store.  Capsules are loaded in the order
  that \<open>toposort_manifests\<close> gives.  An action of a capsule that needs approval is first looked up in the
  allowance store and in the persistent approvals of the profile, and then put to the user over the bus.
  An outgoing HTTP request of a capsule passes the security gate, the egress rules of the principal and the
  airlock on IP addresses at every redirect hop; credentials are substituted by the host, and every hop
  leaves a commitment and an outcome in the audit log.  A call of an MCP tool is authorized by a capability
  token, which an operator mints and revokes through the management API and the token store keeps in memory
  or in the key-value store.  A second approval flow, \<open>ApprovalManager\<close>, asks a registered handler and defers what
  nobody answers to a queue.

  \<^bold>\<open>Conventions.\<close>  \<open>Result<T, E>\<close> is \<open>('e, 't) result\<close>, a sum with the error on the left.  Rust strings are
  byte strings; \<open>HashMap\<close> is the association list of \<open>Hash_Map\<close> in some iteration order with distinct
  keys, and no theorem depends on that order unless the code does.  Machine integers are words at their
  width.  Code outside this repository is an argument of the definitions that use it: the digest and
  signature functions, glob and version matching, TOML and JSON, URL parsing, the name resolver and the HTTP
  client, the handlers behind the router, the entropy of fresh identifiers.  Where a property relies on a documented law of such a function the law is
  a hypothesis of the property, and the witness of the property instantiates it.

  \<^bold>\<open>Theories.\<close>

  \<^item> \<open>Astrid_Prelude\<close>: results, strings, words, collections of simplification rules.  \<open>Hash_Map\<close>: maps, and
    the locale \<open>keyed_store\<close> with its interpretation.  \<open>Op_Run\<close>: runs of operations on a locked store, with
    the locales \<open>op_machine\<close> (a step invariant) and \<open>budgeted_machine\<close> (a budget that only shrinks).

  \<^item> \<open>Capability_Grammar\<close>: \<open>astrid-core/src/capability_grammar.rs\<close>.  The validator accepts exactly the
    grammar, the matcher computes the declarative reading, and matching two patterns decides containment of
    the concrete capabilities they match.

  \<^item> \<open>Principal_Profile\<close>: \<open>astrid-core/src/principal.rs\<close>, \<open>profile/\<close>.  Validation of profiles and the
    round trip of device keys, whose identifiers are always derived again from the key.

  \<^item> \<open>Group_Config\<close>: \<open>astrid-core/src/groups/mod.rs\<close>.  Every configuration that edits can reach is well
    formed and keeps the built-in groups.

  \<^item> \<open>Capability_Policy\<close>: \<open>astrid-capabilities/src/policy.rs\<close> and the resolution of the authenticating
    device.  The check computes the precedence of revokes, grants, groups and device scope.

  \<^item> \<open>Kv_Store\<close>: \<open>astrid-storage/src/kv\<close>.  Keys, batches, prefix ranges and the in-memory store, with the
    locale \<open>atomic_kv\<close> that the pairing tokens build on and the locale \<open>plain_kv\<close>, in which a failed write
    may have happened, that the capability tokens and the deferral queue build on.

  \<^item> \<open>Pair_Token_Store\<close>: \<open>astrid-kernel/src/pair_token\<close>.  Issue, reserve, consume, release, revoke and
    prune; a token is spent at most once per issue in any interleaving, one that is issued once stays dead
    after it was spent, a reservation is exclusive and reversible, and pruning is exact.

  \<^item> \<open>Pair_Device\<close>: \<open>admin/pair_device_handlers.rs\<close>.  Pairing never gains authority, redemption is all or
    nothing over any token store, revoked devices are refused.

  \<^item> \<open>Kernel_Api\<close> and \<open>Request_Policy\<close>: the requests, and the tables from a request to scope, capability,
    method, target and redacted audit parameters.

  \<^item> \<open>Rate_Limit\<close>: \<open>kernel_router/rate_limit.rs\<close>, which refines a limiter that remembers every grant.

  \<^item> \<open>Install_Batch\<close>: \<open>kernel_router/install_batch.rs\<close>.  Leases of an install batch, with the attempt
    budgets of a member and of a lease.

  \<^item> \<open>Management_Router\<close>: the two entry points of the management API and their audit rows.  Nothing changes
    unless the caller holds the capability that the tables demand.  The handlers append entries of their
    own to the audit log, which are a parameter with the handlers.

  \<^item> \<open>Toposort\<close>: \<open>astrid-capsule/src/toposort.rs\<close>.  The sort returns on every input, and finds an order
    exactly when there is one.

  \<^item> \<open>Allowance\<close>: \<open>astrid-approval/src/{action.rs, allowance}\<close>.  What an allowance may approve, how often,
    and the fence that the retirement of a principal puts up.

  \<^item> \<open>Profile_Cache\<close>: \<open>astrid-capsule/src/profile_cache\<close> and \<open>astrid-core/src/profile/io_impl.rs\<close>.  Loads,
    invalidations, writers and persisting calls as an inductive step relation between lock regions; the
    cache is never stale and concurrent persisting calls lose nothing.

  \<^item> \<open>Net_Airlock\<close>: \<open>astrid-core/src/net.rs\<close>.  The block set as a list of address ranges.

  \<^item> \<open>Text_Format\<close>: the text functions of the standard library that the host functions use.

  \<^item> \<open>Egress_Airlock\<close>: \<open>astrid-capsule/src/engine/wasm/host/http/ssrf.rs\<close>.  The pre-flight on literal
    addresses, the filter on resolved addresses and the check of redirect targets.

  \<^item> \<open>Host_State\<close>: the state of a capsule instance and its accessors, \<open>host_state_effective.rs\<close>, the host
    audit events and the bus messages.

  \<^item> \<open>Approval_Host\<close>: \<open>host/approval.rs\<close> and \<open>host/egress_consent\<close>.  Nothing is approved without a
    standing approval or an answer of the owner, every decision leaves its trail, and an answer that is to
    last survives a restart.

  \<^item> \<open>Http_Request\<close>: \<open>host/http/options.rs\<close>, \<open>credentials.rs\<close> and the content of the audit events of
    \<open>audit.rs\<close>.  \<open>Http_Host\<close>: \<open>backend.rs\<close>, the exchanges of \<open>audit.rs\<close>, the streams and the shims of both
    interface versions.  \<open>Http_Safety\<close>: a frame lemma, a case rule for one hop and a rule for the redirect
    loop, and from them that every hop is guarded, secrets stay on the origin of the request, every request
    has its trail, and streams and responses stay within their limits.

  \<^item> \<open>Capability_Token\<close>: \<open>astrid-capabilities/src/{token.rs, pattern.rs}\<close>.  Resource patterns, the signed
    payload, which determines every signed field, and the stored form.  \<open>Capability_Store\<close>: \<open>store.rs\<close> over any
    backend that meets \<open>plain_kv\<close>.  Tombstones survive every operation and a restart; the relation \<open>cap_step\<close>
    interleaves uses with everything else (an addition, a revocation and a purge are one step each), and a
    single-use token is used at most once; a purge takes exactly the rows of its principal.  \<open>Token_Service\<close>: \<open>validator.rs\<close>, the admin handlers of \<open>caps_tokens.rs\<close> and the
    authorization of tool calls of \<open>astrid-mcp/src/secure.rs\<close>.  An authorized call rests on a live token of its
    caller, revocation is final, and a minted token is found.

  \<^item> \<open>Deferred_Queue\<close>: \<open>astrid-approval/src/{request.rs, deferred.rs}\<close> and the scoped store of
    \<open>astrid-storage/src/kv/scoped.rs\<close>.  A decision that was queued with persistence is offered again by every
    restart within a day until it leaves the storage.  \<open>Approval_Manager\<close>: \<open>manager.rs\<close>.  An approval check is
    decided by an allowance, else by the user in time, else it is deferred; other tasks may change the manager
    wherever the call is suspended.

  \<^bold>\<open>Bounds and fuel.\<close>  The main loop of \<open>toposort_manifests\<close> terminates by the number of capsules not yet
  output.  The prune of the token store visits at most 4096 records, the bound of the code.  The retry loop
  of the profile cache is one step of the relation per pass; the sequential reading takes one pass, which
  is enough when no other thread runs.  The redirect loop terminates by the number of redirects that the
  options still allow.  No definition uses fuel that the code does not have.

  \<^bold>\<open>Not modelled.\<close>  The WebAssembly engine and its host functions other than approvals and outgoing HTTP,
  the durable storage engine, the audit chain, the event bus, the gateway, the command line, hooks, the MCP client, telemetry and the native mount
  providers: they are mostly calls into asynchronous, cryptographic or operating-system libraries, or
  on-disk formats.  The admin handlers are a parameter of the router; of them pairing and
  capability tokens are modelled.  Keepalive frames
  and live broadcasts of the router, log messages, lock poisoning and the atomic rename of a profile save
  are left out.  Budgets of the approval crate are floating-point sums and are not modelled.  In outgoing HTTP the
  pollables and body streams of the interface are left out, a call that is cancelled in flight is not
  modelled, and headers of different names keep the order in which they were added.
\<close>

end
